(* ===== verification/Prelude.thy ===== *)
theory Prelude
  imports Main "HOL-Library.Word"
begin

text \<open>
  Shared vocabulary of the development: machine integers at their Rust width, \<open>Result\<close> values
  as sums (\<open>Inl\<close> the error, \<open>Inr\<close> the value) with the sequencing that the \<open>?\<close> operator
  performs, the string functions of the standard library that the sources call, and the list
  forms of the SQL statements \<open>UPDATE ... WHERE\<close> and \<open>SELECT ... WHERE\<close>.  Generic lemmas are
  declared \<open>[simp]\<close> or collected in \<open>result_simps\<close> (elimination of sequencing) and
  \<open>row_simps\<close> (facts about table rows), which the component theories extend.
\<close>

named_theorems result_simps \<open>unfolding of result sequencing\<close>
named_theorems row_simps \<open>facts about the rows of the policy tables\<close>

section \<open>Machine integers\<close>

type_synonym u8 = "8 word"
type_synonym u16 = "16 word"
type_synonym u32 = "32 word"
type_synonym u64 = "64 word"

section \<open>Results\<close>

type_synonym ('e, 'a) result = "'e + 'a"

definition rbind :: "('e, 'a) result \<Rightarrow> ('a \<Rightarrow> ('e, 'b) result) \<Rightarrow> ('e, 'b) result" where
  "rbind m f = (case m of Inl e \<Rightarrow> Inl e | Inr x \<Rightarrow> f x)"

definition rmap :: "('a \<Rightarrow> 'b) \<Rightarrow> ('e, 'a) result \<Rightarrow> ('e, 'b) result" where
  "rmap f m = (case m of Inl e \<Rightarrow> Inl e | Inr x \<Rightarrow> Inr (f x))"

definition map_err :: "('e \<Rightarrow> 'f) \<Rightarrow> ('e, 'a) result \<Rightarrow> ('f, 'a) result" where
  "map_err f m = (case m of Inl e \<Rightarrow> Inl (f e) | Inr x \<Rightarrow> Inr x)"

definition ok_or :: "'a option \<Rightarrow> 'e \<Rightarrow> ('e, 'a) result" where
  "ok_or m e = (case m of None \<Rightarrow> Inl e | Some x \<Rightarrow> Inr x)"

definition is_ok :: "('e, 'a) result \<Rightarrow> bool" where
  "is_ok m = (case m of Inl _ \<Rightarrow> False | Inr _ \<Rightarrow> True)"

definition ok :: "('e, 'a) result \<Rightarrow> 'a option" where
  "ok m = (case m of Inl _ \<Rightarrow> None | Inr x \<Rightarrow> Some x)"

lemma rbind_simps [simp]:
  "rbind (Inl e) f = Inl e"
  "rbind (Inr x) f = f x"
  by (simp_all add: rbind_def)

lemma rmap_simps [simp]:
  "rmap f (Inl e) = Inl e"
  "rmap f (Inr x) = Inr (f x)"
  by (simp_all add: rmap_def)

lemma map_err_simps [simp]:
  "map_err f (Inl e) = Inl (f e)"
  "map_err f (Inr x) = Inr x"
  by (simp_all add: map_err_def)

lemma ok_or_simps [simp]:
  "ok_or None e = Inl e"
  "ok_or (Some x) e = Inr x"
  by (simp_all add: ok_or_def)

lemma is_ok_simps [simp]:
  "is_ok (Inl e) = False"
  "is_ok (Inr x) = True"
  by (simp_all add: is_ok_def)

lemma ok_simps [simp]:
  "ok (Inl e) = None"
  "ok (Inr x) = Some x"
  by (simp_all add: ok_def)

lemma rbind_eq_Inr [result_simps]: "rbind m f = Inr y \<longleftrightarrow> (\<exists>x. m = Inr x \<and> f x = Inr y)"
  by (cases m) auto

lemma rbind_eq_Inl [result_simps]:
  "rbind m f = Inl e \<longleftrightarrow> m = Inl e \<or> (\<exists>x. m = Inr x \<and> f x = Inl e)"
  by (cases m) auto

lemma rmap_eq_Inr [result_simps]: "rmap f m = Inr y \<longleftrightarrow> (\<exists>x. m = Inr x \<and> y = f x)"
  by (cases m) auto

lemma rmap_eq_Inl [result_simps]: "rmap f m = Inl e \<longleftrightarrow> m = Inl e"
  by (cases m) auto

lemma map_err_eq_Inr [result_simps]: "map_err f m = Inr y \<longleftrightarrow> m = Inr y"
  by (cases m) auto

lemma map_err_eq_Inl [result_simps]: "map_err f m = Inl e \<longleftrightarrow> (\<exists>d. m = Inl d \<and> e = f d)"
  by (cases m) auto

lemma ok_or_eq_Inr [result_simps]: "ok_or m e = Inr x \<longleftrightarrow> m = Some x"
  by (cases m) auto

lemma ok_or_eq_Inl [result_simps]: "ok_or m e = Inl d \<longleftrightarrow> m = None \<and> d = e"
  by (cases m) auto

lemma ok_eq_Some [result_simps]: "ok m = Some x \<longleftrightarrow> m = Inr x"
  by (cases m) auto

text \<open>\<open>collect()\<close> of an iterator of results: the first error wins.\<close>

fun collect_results :: "('e, 'a) result list \<Rightarrow> ('e, 'a list) result" where
  "collect_results [] = Inr []"
| "collect_results (r # rs) = rbind r (\<lambda>x. rbind (collect_results rs) (\<lambda>xs. Inr (x # xs)))"

lemma collect_results_Inr:
  "collect_results rs = Inr xs \<Longrightarrow> rs = map Inr xs"
proof (induction rs arbitrary: xs)
  case Nil
  then show ?case by simp
next
  case (Cons r rs)
  then show ?case by (auto simp: result_simps)
qed

lemma collect_results_map_Inr [simp]: "collect_results (map Inr xs) = Inr xs"
  by (induction xs) auto

section \<open>Strings\<close>

text \<open>Rust strings are UTF-8; a \<open>string\<close> here is the byte sequence.\<close>

fun strip_prefix :: "string \<Rightarrow> string \<Rightarrow> string option" where
  "strip_prefix [] s = Some s"
| "strip_prefix (p # ps) [] = None"
| "strip_prefix (p # ps) (c # cs) = (if p = c then strip_prefix ps cs else None)"

fun split_once :: "char \<Rightarrow> string \<Rightarrow> (string \<times> string) option" where
  "split_once d [] = None"
| "split_once d (c # cs) =
     (if c = d then Some ([], cs) else map_option (\<lambda>(a, b). (c # a, b)) (split_once d cs))"

lemma strip_prefix_append [simp]: "strip_prefix p (p @ s) = Some s"
  by (induction p) auto

lemma strip_prefix_Some: "strip_prefix p s = Some r \<longleftrightarrow> s = p @ r"
  by (induction p s rule: strip_prefix.induct) auto

lemma split_once_append [simp]: "d \<notin> set a \<Longrightarrow> split_once d (a @ d # b) = Some (a, b)"
  by (induction a) auto

lemma split_once_Some: "split_once d s = Some (a, b) \<longleftrightarrow> s = a @ d # b \<and> d \<notin> set a"
proof (induction s arbitrary: a)
  case Nil
  then show ?case by simp
next
  case (Cons c s)
  show ?case
    by (cases a) (auto simp: Cons.IH split: if_splits)
qed

text \<open>\<open>[String]::join\<close>.\<close>

fun join_with :: "string \<Rightarrow> string list \<Rightarrow> string" where
  "join_with sep [] = []"
| "join_with sep [x] = x"
| "join_with sep (x # y # ys) = x @ sep @ join_with sep (y # ys)"

text \<open>\<open>Display\<close> of an integer.\<close>

fun decimal :: "nat \<Rightarrow> string" where
  "decimal n = (if n < 10 then [char_of (48 + n)] else decimal (n div 10) @ [char_of (48 + n mod 10)])"

definition show_int :: "int \<Rightarrow> string" where
  "show_int i = (if i < 0 then CHR ''-'' # decimal (nat (- i)) else decimal (nat i))"

section \<open>Table rows\<close>

text \<open>
  \<open>UPDATE t SET ... WHERE c\<close> rewrites the rows that satisfy \<open>c\<close> and reports how many there
  were; \<open>SELECT ... WHERE c\<close> filters.
\<close>

definition update_where :: "('r \<Rightarrow> bool) \<Rightarrow> ('r \<Rightarrow> 'r) \<Rightarrow> 'r list \<Rightarrow> 'r list" where
  "update_where c f rows = map (\<lambda>r. if c r then f r else r) rows"

definition count_where :: "('r \<Rightarrow> bool) \<Rightarrow> 'r list \<Rightarrow> nat" where
  "count_where c rows = length (filter c rows)"

lemma length_update_where [simp]: "length (update_where c f rows) = length rows"
  by (simp add: update_where_def)

lemma update_where_Nil [simp]: "update_where c f [] = []"
  by (simp add: update_where_def)

lemma update_where_Cons [simp]:
  "update_where c f (r # rows) = (if c r then f r else r) # update_where c f rows"
  by (simp add: update_where_def)

lemma set_update_where: "set (update_where c f rows) = (\<lambda>r. if c r then f r else r) ` set rows"
  by (simp add: update_where_def)

lemma map_update_where: "(\<And>r. g (f r) = g r) \<Longrightarrow> map g (update_where c f rows) = map g rows"
  by (simp add: update_where_def)

lemma update_where_id: "(\<And>r. r \<in> set rows \<Longrightarrow> \<not> c r) \<Longrightarrow> update_where c f rows = rows"
  by (simp add: update_where_def map_idI)

lemma count_where_0: "count_where c rows = 0 \<longleftrightarrow> (\<forall>r \<in> set rows. \<not> c r)"
  by (auto simp: count_where_def filter_empty_conv)

text \<open>A row selected by a unique key is the only one a keyed update can touch.\<close>

lemma count_where_unique_key:
  assumes "distinct (map key rows)"
  shows "count_where (\<lambda>r. key r = k \<and> c r) rows \<le> 1"
  using assms
proof (induction rows)
  case Nil
  then show ?case by (simp add: count_where_def)
next
  case (Cons r rows)
  show ?case
  proof (cases "key r = k \<and> c r")
    case True
    with Cons.prems have "\<forall>r' \<in> set rows. \<not> (key r' = k \<and> c r')"
      by (auto simp: image_iff)
    then have "count_where (\<lambda>r. key r = k \<and> c r) rows = 0"
      by (simp only: count_where_0)
    with True show ?thesis by (simp add: count_where_def)
  next
    case False
    with Cons show ?thesis by (auto simp: count_where_def)
  qed
qed

lemma find_Some_in: "find p xs = Some x \<Longrightarrow> x \<in> set xs \<and> p x"
  by (auto simp: find_Some_iff)

lemma find_unique_key:
  assumes "distinct (map key rows)" and "r \<in> set rows"
  shows "find (\<lambda>r'. key r' = key r) rows = Some r"
  using assms by (induction rows) (auto simp: image_iff)

lemma find_append [simp]:
  "find p (xs @ ys) = (case find p xs of None \<Rightarrow> find p ys | Some x \<Rightarrow> Some x)"
  by (induction xs) auto

text \<open>An update that keeps the key moves through a keyed lookup.\<close>

lemma find_update_where:
  assumes "\<And>r. key (f r) = key r"
  shows "find (\<lambda>r. key r = k) (update_where c f rows) =
         map_option (\<lambda>r. if c r then f r else r) (find (\<lambda>r. key r = k) rows)"
  using assms by (induction rows) auto

lemma image_update_where: "(\<And>r. g (f r) = g r) \<Longrightarrow> g ` set (update_where c f rows) = g ` set rows"
  by (metis list.set_map map_update_where)

lemma update_where_keyed:
  assumes "distinct (map key rows)" and "r \<in> set rows" and "key r = k" and "P r"
  shows "update_where (\<lambda>x. key x = k \<and> P x) f rows = update_where (\<lambda>x. key x = k) f rows"
proof -
  have "key x = k \<Longrightarrow> x \<in> set rows \<Longrightarrow> P x" for x
    using assms by (auto simp: distinct_map dest: inj_onD)
  then show ?thesis by (auto simp: update_where_def)
qed

text \<open>
  A table whose rows may evolve in place and which grows at its end: \<open>extends R xs ys\<close> says that
  \<open>ys\<close> starts with a row-by-row \<open>R\<close>-evolution of \<open>xs\<close>.
\<close>

definition extends :: "('r \<Rightarrow> 'r \<Rightarrow> bool) \<Rightarrow> 'r list \<Rightarrow> 'r list \<Rightarrow> bool" where
  "extends R xs ys \<longleftrightarrow> (\<exists>ys' zs. ys = ys' @ zs \<and> list_all2 R xs ys')"

lemma extends_append:
  assumes "\<And>x. R x x"
  shows "extends R xs (xs @ zs)"
proof -
  have "list_all2 R xs xs" using assms by (simp add: list.rel_refl)
  then show ?thesis unfolding extends_def by blast
qed

lemma extends_refl: "(\<And>x. R x x) \<Longrightarrow> extends R xs xs"
  using extends_append [of R xs "[]"] by simp

lemma extends_update_where:
  assumes "\<And>x. R x x" and "\<And>x. x \<in> set xs \<Longrightarrow> c x \<Longrightarrow> R x (f x)"
  shows "extends R xs (update_where c f xs)"
proof -
  have "list_all2 R xs (update_where c f xs)"
    using assms by (auto simp: update_where_def list_all2_map2 intro: list.rel_refl_strong)
  then show ?thesis unfolding extends_def by (metis append_Nil2)
qed

lemma extends_trans:
  assumes R: "\<And>x y z. R x y \<Longrightarrow> R y z \<Longrightarrow> R x z" and "extends R xs ys" and "extends R ys zs"
  shows "extends R xs zs"
proof -
  from assms(2) obtain ys' us where ys: "ys = ys' @ us" "list_all2 R xs ys'" by (auto simp: extends_def)
  from assms(3) obtain zs' vs where zs: "zs = zs' @ vs" "list_all2 R ys zs'" by (auto simp: extends_def)
  from zs(2) ys(1) obtain zs1 zs2 where z: "zs' = zs1 @ zs2" "list_all2 R ys' zs1"
    by (auto simp: list_all2_append1)
  have "list_all2 R xs zs1" using list_all2_trans [of R R R, OF _ ys(2) z(2)] R by blast
  with zs z show ?thesis unfolding extends_def by auto
qed

lemma extends_in:
  assumes "extends R xs ys" and "x \<in> set xs"
  obtains y where "y \<in> set ys" "R x y"
proof -
  from assms obtain ys' zs i where "ys = ys' @ zs" "list_all2 R xs ys'" "i < length xs" "x = xs ! i"
    by (auto simp: extends_def in_set_conv_nth)
  then have "ys' ! i \<in> set ys" "R x (ys' ! i)" by (auto simp: list_all2_conv_all_nth)
  then show thesis by (rule that)
qed

section \<open>Runs of a transition system\<close>

locale invariant_system =
  fixes init :: 's and step :: "'s \<Rightarrow> 's \<Rightarrow> bool" and inv :: "'s \<Rightarrow> bool"
  assumes inv_init: "inv init" and inv_step: "inv s \<Longrightarrow> step s s' \<Longrightarrow> inv s'"
begin

lemma run_inv: "step\<^sup>*\<^sup>* s s' \<Longrightarrow> inv s \<Longrightarrow> inv s'"
  by (induction rule: rtranclp_induct) (auto intro: inv_step)

lemma reachable_inv: "step\<^sup>*\<^sup>* init s \<Longrightarrow> inv s"
  using run_inv inv_init by blast

end

text \<open>A system that, beside its invariant, only moves up a preorder.\<close>

locale monotone_system = invariant_system +
  fixes le :: "'s \<Rightarrow> 's \<Rightarrow> bool"
  assumes le_refl: "le s s" and le_trans: "le s t \<Longrightarrow> le t u \<Longrightarrow> le s u"
    and step_le: "inv s \<Longrightarrow> step s s' \<Longrightarrow> le s s'"
begin

lemma run_le: "step\<^sup>*\<^sup>* s s' \<Longrightarrow> inv s \<Longrightarrow> le s s'"
proof (induction rule: rtranclp_induct)
  case base
  show ?case by (rule le_refl)
next
  case (step t u)
  then show ?case by (meson le_trans run_inv step_le)
qed

end

end
