(* ===== verification/F64.thy ===== *)
theory F64
  imports Prelude Complex_Main "HOL-Library.Log_Nat"
begin

text \<open>
  The \<open>f64\<close> operations the core pipelines use (\<open>+\<close>, \<open>-\<close>, \<open>*\<close>, \<open>/\<close>, comparison,
  \<open>is_finite\<close>, \<open>min\<close>, \<open>clamp\<close>), as IEEE 754 binary64 values: not a number, the two
  infinities and the finite values as rationals.  Every arithmetic result is rounded to 53 bits
  of precision, ties to even, with gradual underflow below \<open>2 ^ (-1022)\<close> and overflow to
  infinity; \<open>round64\<close> is that rounding.  The sign of a zero is not represented (no operation
  of the modelled code observes it: the divisors are guarded to be positive).
\<close>

datatype f64 = NaN | Infinity bool \<comment> \<open>\<open>True\<close> for the negative infinity\<close> | Finite rat

definition pow2 :: "int \<Rightarrow> rat" where
  "pow2 e = (if 0 \<le> e then 2 ^ nat e else 1 / 2 ^ nat (- e))"

text \<open>The binary exponent of a positive rational: \<open>2 ^ k \<le> q < 2 ^ (k + 1)\<close>.\<close>

definition log2_rat :: "rat \<Rightarrow> int" where
  "log2_rat q =
     (let (a, b) = quotient_of q; k = bitlen a - bitlen b in if pow2 k \<le> q then k else k - 1)"

definition round_half_even :: "rat \<Rightarrow> int" where
  "round_half_even r =
     (let f = \<lfloor>r\<rfloor>; d = r - of_int f in
      if d < 1 / 2 then f else if 1 / 2 < d then f + 1 else if even f then f else f + 1)"

definition round64 :: "rat \<Rightarrow> f64" where
  "round64 q =
     (if q = 0 then Finite 0
      else let e = max (log2_rat \<bar>q\<bar> - 52) (-1074); v = of_int (round_half_even (q / pow2 e)) * pow2 e
           in if pow2 1024 \<le> \<bar>v\<bar> then Infinity (q < 0) else Finite v)"

definition is_finite :: "f64 \<Rightarrow> bool" where
  "is_finite x = (case x of Finite _ \<Rightarrow> True | _ \<Rightarrow> False)"

fun f64_neg :: "f64 \<Rightarrow> f64" where
  "f64_neg NaN = NaN"
| "f64_neg (Infinity s) = Infinity (\<not> s)"
| "f64_neg (Finite q) = Finite (- q)"

fun f64_add :: "f64 \<Rightarrow> f64 \<Rightarrow> f64" where
  "f64_add (Finite p) (Finite q) = round64 (p + q)"
| "f64_add (Infinity s) (Finite q) = Infinity s"
| "f64_add (Finite p) (Infinity t) = Infinity t"
| "f64_add (Infinity s) (Infinity t) = (if s = t then Infinity s else NaN)"
| "f64_add _ _ = NaN"

definition f64_sub :: "f64 \<Rightarrow> f64 \<Rightarrow> f64" where
  "f64_sub x y = f64_add x (f64_neg y)"

fun f64_mul :: "f64 \<Rightarrow> f64 \<Rightarrow> f64" where
  "f64_mul (Finite p) (Finite q) = round64 (p * q)"
| "f64_mul (Infinity s) (Finite q) = (if q = 0 then NaN else Infinity (s \<noteq> (q < 0)))"
| "f64_mul (Finite p) (Infinity t) = (if p = 0 then NaN else Infinity (t \<noteq> (p < 0)))"
| "f64_mul (Infinity s) (Infinity t) = Infinity (s \<noteq> t)"
| "f64_mul _ _ = NaN"

fun f64_div :: "f64 \<Rightarrow> f64 \<Rightarrow> f64" where
  "f64_div (Finite p) (Finite q) =
     (if q = 0 then (if p = 0 then NaN else Infinity (p < 0)) else round64 (p / q))"
| "f64_div (Infinity s) (Finite q) = Infinity (s \<noteq> (q < 0))"
| "f64_div (Finite p) (Infinity t) = Finite 0"
| "f64_div _ _ = NaN"

text \<open>Comparisons with a NaN are false.\<close>

fun f64_less :: "f64 \<Rightarrow> f64 \<Rightarrow> bool" where
  "f64_less (Finite p) (Finite q) = (p < q)"
| "f64_less (Infinity s) (Finite q) = s"
| "f64_less (Finite p) (Infinity t) = (\<not> t)"
| "f64_less (Infinity s) (Infinity t) = (s \<and> \<not> t)"
| "f64_less _ _ = False"

fun f64_le :: "f64 \<Rightarrow> f64 \<Rightarrow> bool" where
  "f64_le (Finite p) (Finite q) = (p \<le> q)"
| "f64_le (Infinity s) (Finite q) = s"
| "f64_le (Finite p) (Infinity t) = (\<not> t)"
| "f64_le (Infinity s) (Infinity t) = (s \<or> \<not> t)"
| "f64_le _ _ = False"

definition f64_min :: "f64 \<Rightarrow> f64 \<Rightarrow> f64" where
  "f64_min x y = (if x = NaN then y else if y = NaN then x else if f64_less y x then y else x)"

text \<open>\<open>f64::clamp\<close> panics unless \<open>min \<le> max\<close>: \<open>None\<close> is the panic.\<close>

definition f64_clamp :: "f64 \<Rightarrow> f64 \<Rightarrow> f64 \<Rightarrow> f64 option" where
  "f64_clamp x lo hi =
     (if f64_le lo hi then Some (if f64_less x lo then lo else if f64_less hi x then hi else x)
      else None)"

definition f64_zero :: f64 where
  "f64_zero = Finite 0"

lemma is_finite_simps [simp]:
  "is_finite NaN = False" "is_finite (Infinity s) = False" "is_finite (Finite q) = True"
  by (simp_all add: is_finite_def)

lemma is_finite_iff: "is_finite x \<longleftrightarrow> (\<exists>q. x = Finite q)"
  by (cases x) auto

lemma pow2_pos [simp]: "0 < pow2 e"
  by (simp add: pow2_def)

lemma round_half_even_nonneg: "0 \<le> r \<Longrightarrow> 0 \<le> round_half_even r"
  by (auto simp: round_half_even_def Let_def)

lemma round_half_even_int [simp]: "round_half_even (of_int k) = k"
  by (simp add: round_half_even_def)

text \<open>Rounding never produces a NaN and keeps the sign of what it rounds.\<close>

lemma round64_not_NaN [simp]: "round64 q \<noteq> NaN"
  by (auto simp: round64_def Let_def)

lemma round64_0 [simp]: "round64 0 = Finite 0"
  by (simp add: round64_def)

lemma round64_nonneg:
  assumes "0 \<le> q"
  shows "round64 q = Infinity False \<or> (\<exists>v. round64 q = Finite v \<and> 0 \<le> v)"
proof (cases "q = 0")
  case True
  then show ?thesis by simp
next
  case False
  let ?e = "max (log2_rat \<bar>q\<bar> - 52) (-1074)"
  have "0 \<le> q / pow2 ?e" using assms pow2_pos [of ?e] by (simp add: divide_nonneg_pos)
  then have "0 \<le> of_int (round_half_even (q / pow2 ?e)) * pow2 ?e"
    using round_half_even_nonneg pow2_pos [of ?e] by (simp add: less_imp_le)
  with assms False show ?thesis by (auto simp: round64_def Let_def)
qed

lemma f64_clamp_Some:
  assumes "f64_clamp x lo hi = Some y" and "x \<noteq> NaN"
  shows "f64_le lo y \<and> f64_le y hi"
  using assms
  by (cases x; cases lo; cases hi) (auto simp: f64_clamp_def split: if_splits)

end
