(* ===== verification/Errors.thy ===== *)
theory Errors
  imports F64
begin

text \<open>
  Errors of the core (\<open>porthole-core/src/error.rs\<close>) and their wire form
  (\<open>porthole-protocol/src/error.rs\<close>).  A message is kept as its format string with the
  arguments it interpolates; rendering it is left to the formatter.
\<close>

datatype fmt_arg = FStr string | FNat nat | FF64 f64 | FMsg message
  and message = Msg string "fmt_arg list"

text \<open>The part of \<open>serde_json::Value\<close> that error details use.\<close>

datatype json = JNull | JBool bool | JStr string | JNum int | JArr "json list" | JObj "(string \<times> json) list"

datatype ErrorCode =
    SurfaceNotFound
  | SurfaceDead
  | SystemPermissionNeeded
  | SystemPermissionRequestFailed
  | LaunchCorrelationFailed
  | LaunchCorrelationAmbiguous
  | LaunchTimeout
  | CandidateRefUnknown
  | AdapterUnsupported
  | CapabilityMissing
  | WaitTimeoutCode
  | UnknownKey
  | InvalidCoordinate
  | InvalidArgument
  | InternalError
  | CloseFailed
  | LaunchReturnedExisting
  | ContentRectUnavailable
  | AgentIdentityNotFound
  | AgentIdentityRequired
  | AgentIdentityRevoked
  | AgentOperatorRequired
  | AgentPermissionNeeded
  | AgentPermissionDenied
  | AgentPermissionRequestExpired

fun ErrorCode_fmt :: "ErrorCode \<Rightarrow> string" where
  "ErrorCode_fmt SurfaceNotFound = ''surface_not_found''"
| "ErrorCode_fmt SurfaceDead = ''surface_dead''"
| "ErrorCode_fmt SystemPermissionNeeded = ''system_permission_needed''"
| "ErrorCode_fmt SystemPermissionRequestFailed = ''system_permission_request_failed''"
| "ErrorCode_fmt LaunchCorrelationFailed = ''launch_correlation_failed''"
| "ErrorCode_fmt LaunchCorrelationAmbiguous = ''launch_correlation_ambiguous''"
| "ErrorCode_fmt LaunchTimeout = ''launch_timeout''"
| "ErrorCode_fmt CandidateRefUnknown = ''candidate_ref_unknown''"
| "ErrorCode_fmt AdapterUnsupported = ''adapter_unsupported''"
| "ErrorCode_fmt CapabilityMissing = ''capability_missing''"
| "ErrorCode_fmt WaitTimeoutCode = ''wait_timeout''"
| "ErrorCode_fmt UnknownKey = ''unknown_key''"
| "ErrorCode_fmt InvalidCoordinate = ''invalid_coordinate''"
| "ErrorCode_fmt InvalidArgument = ''invalid_argument''"
| "ErrorCode_fmt InternalError = ''internal_error''"
| "ErrorCode_fmt CloseFailed = ''close_failed''"
| "ErrorCode_fmt LaunchReturnedExisting = ''launch_returned_existing''"
| "ErrorCode_fmt ContentRectUnavailable = ''content_rect_unavailable''"
| "ErrorCode_fmt AgentIdentityNotFound = ''agent_identity_not_found''"
| "ErrorCode_fmt AgentIdentityRequired = ''agent_identity_required''"
| "ErrorCode_fmt AgentIdentityRevoked = ''agent_identity_revoked''"
| "ErrorCode_fmt AgentOperatorRequired = ''agent_operator_required''"
| "ErrorCode_fmt AgentPermissionNeeded = ''agent_permission_needed''"
| "ErrorCode_fmt AgentPermissionDenied = ''agent_permission_denied''"
| "ErrorCode_fmt AgentPermissionRequestExpired = ''agent_permission_request_expired''"

record PortholeError =
  err_code :: ErrorCode
  err_message :: message
  err_details :: "json option"

definition PortholeError_new :: "ErrorCode \<Rightarrow> message \<Rightarrow> PortholeError" where
  "PortholeError_new code message = \<lparr>err_code = code, err_message = message, err_details = None\<rparr>"

definition PortholeError_display :: "PortholeError \<Rightarrow> message" where
  "PortholeError_display e = Msg ''{code}: {message}'' [FStr (ErrorCode_fmt (err_code e)), FMsg (err_message e)]"

definition with_details :: "PortholeError \<Rightarrow> json \<Rightarrow> PortholeError" where
  "with_details e details = e\<lparr>err_details := Some details\<rparr>"

definition surface_not_found :: "string \<Rightarrow> PortholeError" where
  "surface_not_found i = PortholeError_new SurfaceNotFound (Msg ''no tracked surface with id {id}'' [FStr i])"

record WireError =
  wire_code :: ErrorCode
  wire_message :: message
  wire_details :: "json option"

definition WireError_from :: "PortholeError \<Rightarrow> WireError" where
  "WireError_from e =
     \<lparr>wire_code = err_code e, wire_message = err_message e, wire_details = err_details e\<rparr>"

lemma err_code_new [simp]: "err_code (PortholeError_new c m) = c"
  by (simp add: PortholeError_new_def)

lemma err_code_surface_not_found [simp]: "err_code (surface_not_found i) = SurfaceNotFound"
  by (simp add: surface_not_found_def)

lemma wire_code_from [simp]: "wire_code (WireError_from e) = err_code e"
  by (simp add: WireError_from_def)

end
