(* ===== verification/Surfaces.thy ===== *)
theory Surfaces
  imports Errors "HOL-Library.AList" "HOL-Library.Multiset"
begin

text \<open>
  Tracked surfaces (\<open>porthole-core/src/surface.rs\<close>) and the handle store
  (\<open>porthole-core/src/handle.rs\<close>).  The store is a hash map behind a lock; each operation
  holds the lock for its whole body, so it is one step on the map.  The map is an association
  list with distinct keys, in the iteration order of the hash map; \<open>values()\<close> is the list of
  its values.  That order is unspecified in the code, and
  \<open>find_by_platform_ref_order_independent\<close> shows that it does not matter.
\<close>

type_synonym SurfaceId = string

datatype SurfaceKind = Window | Tab

datatype SurfaceState = Alive | Dead

lemma not_Dead [simp]: "s \<noteq> Dead \<longleftrightarrow> s = Alive"
  by (cases s) auto

datatype PlatformSurfaceRef = Macos u32 | Kwin string | Windows u64 u64

definition as_macos_cg_window_id :: "PlatformSurfaceRef \<Rightarrow> u32 option" where
  "as_macos_cg_window_id r = (case r of Macos w \<Rightarrow> Some w | Kwin _ \<Rightarrow> None | Windows _ _ \<Rightarrow> None)"

record SurfaceInfo =
  surface_id :: SurfaceId
  kind :: SurfaceKind
  state :: SurfaceState
  title :: "string option"
  app_name :: "string option"
  pid :: "u32 option"
  parent_surface_id :: "SurfaceId option"
  platform_ref :: "PlatformSurfaceRef option"

definition SurfaceInfo_window :: "SurfaceId \<Rightarrow> u32 \<Rightarrow> SurfaceInfo" where
  "SurfaceInfo_window i p =
     \<lparr>surface_id = i, kind = Window, state = Alive, title = None, app_name = None,
      pid = Some p, parent_surface_id = None, platform_ref = None\<rparr>"

definition macos_cg_window_id :: "SurfaceInfo \<Rightarrow> u32 option" where
  "macos_cg_window_id info = Option.bind (platform_ref info) as_macos_cg_window_id"

section \<open>The handle store\<close>

type_synonym HandleStore = "(SurfaceId \<times> SurfaceInfo) list"

definition HandleStore_new :: HandleStore where
  "HandleStore_new = []"

definition store_insert :: "SurfaceInfo \<Rightarrow> HandleStore \<Rightarrow> HandleStore" where
  "store_insert info hs = AList.update (surface_id info) info hs"

definition store_get :: "HandleStore \<Rightarrow> SurfaceId \<Rightarrow> (PortholeError, SurfaceInfo) result" where
  "store_get hs i = ok_or (map_of hs i) (surface_not_found i)"

definition mark_dead :: "SurfaceId \<Rightarrow> HandleStore \<Rightarrow> (PortholeError, unit) result \<times> HandleStore" where
  "mark_dead i hs =
     (case map_of hs i of
        Some info \<Rightarrow> (Inr (), AList.update i (info\<lparr>state := Dead\<rparr>) hs)
      | None \<Rightarrow> (Inl (surface_not_found i), hs))"

definition surface_dead_error :: "SurfaceId \<Rightarrow> PortholeError" where
  "surface_dead_error i = PortholeError_new SurfaceDead (Msg ''surface {id} is dead'' [FStr i])"

definition require_alive :: "HandleStore \<Rightarrow> SurfaceId \<Rightarrow> (PortholeError, SurfaceInfo) result" where
  "require_alive hs i =
     rbind (store_get hs i) (\<lambda>info. if state info = Dead then Inl (surface_dead_error i) else Inr info)"

definition ref_alive :: "PlatformSurfaceRef \<Rightarrow> SurfaceInfo \<Rightarrow> bool" where
  "ref_alive r info \<longleftrightarrow> platform_ref info = Some r \<and> state info = Alive"

definition find_by_platform_ref :: "HandleStore \<Rightarrow> PlatformSurfaceRef \<Rightarrow> SurfaceId option" where
  "find_by_platform_ref hs r = map_option surface_id (find (ref_alive r) (map snd hs))"

definition alive_count :: "HandleStore \<Rightarrow> nat" where
  "alive_count hs = length (filter (\<lambda>info. state info = Alive) (map snd hs))"

definition track_or_get :: "SurfaceInfo \<Rightarrow> HandleStore \<Rightarrow> (SurfaceInfo \<times> bool) \<times> HandleStore" where
  "track_or_get candidate hs =
     (case platform_ref candidate of
        Some r \<Rightarrow>
          (case find (ref_alive r) (map snd hs) of
             Some info \<Rightarrow> ((info, True), hs)
           | None \<Rightarrow> ((candidate, False), store_insert candidate hs))
      | None \<Rightarrow> ((candidate, False), store_insert candidate hs))"

section \<open>Well-formed stores\<close>

text \<open>
  Keys are distinct, every entry sits under its own id, and no platform window has two live
  handles.
\<close>

definition unique_alive_refs :: "HandleStore \<Rightarrow> bool" where
  "unique_alive_refs hs \<longleftrightarrow>
     (\<forall>i info j info' r. (i, info) \<in> set hs \<longrightarrow> (j, info') \<in> set hs \<longrightarrow>
        ref_alive r info \<longrightarrow> ref_alive r info' \<longrightarrow> i = j)"

definition handles_wf :: "HandleStore \<Rightarrow> bool" where
  "handles_wf hs \<longleftrightarrow>
     distinct (map fst hs) \<and> (\<forall>(i, info) \<in> set hs. surface_id info = i) \<and> unique_alive_refs hs"

lemma handles_wfI:
  "distinct (map fst hs) \<Longrightarrow> (\<And>i info. (i, info) \<in> set hs \<Longrightarrow> surface_id info = i) \<Longrightarrow>
   unique_alive_refs hs \<Longrightarrow> handles_wf hs"
  by (auto simp: handles_wf_def)

lemma handles_wfD:
  assumes "handles_wf hs"
  shows "distinct (map fst hs)" and "\<And>i info. (i, info) \<in> set hs \<Longrightarrow> surface_id info = i"
    and "unique_alive_refs hs"
  using assms by (auto simp: handles_wf_def)

lemma unique_alive_refsD:
  "unique_alive_refs hs \<Longrightarrow> (i, info) \<in> set hs \<Longrightarrow> (j, info') \<in> set hs \<Longrightarrow>
   ref_alive r info \<Longrightarrow> ref_alive r info' \<Longrightarrow> i = j"
  unfolding unique_alive_refs_def by blast

lemma set_AList_update:
  "distinct (map fst hs) \<Longrightarrow>
   set (AList.update i v hs) = insert (i, v) {(j, w) \<in> set hs. j \<noteq> i}"
proof (induction hs)
  case Nil
  then show ?case by simp
next
  case (Cons x hs)
  then show ?case by (cases x) (auto simp: image_iff)
qed

lemma handles_wf_new [simp]: "handles_wf HandleStore_new"
  by (simp add: handles_wf_def HandleStore_new_def unique_alive_refs_def)

lemma handles_wf_update:
  assumes wf: "handles_wf hs" and id: "surface_id info = i"
    and fresh: "\<And>r j info'. ref_alive r info \<Longrightarrow> (j, info') \<in> set hs \<Longrightarrow> ref_alive r info' \<Longrightarrow> j = i"
  shows "handles_wf (AList.update i info hs)"
proof (rule handles_wfI)
  note d = handles_wfD(1) [OF wf]
  show "distinct (map fst (AList.update i info hs))"
    using d by (simp add: distinct_update)
  show "surface_id info' = j" if "(j, info') \<in> set (AList.update i info hs)" for j info'
    using that id handles_wfD(2) [OF wf] by (auto simp: set_AList_update [OF d])
  show "unique_alive_refs (AList.update i info hs)"
    unfolding unique_alive_refs_def set_AList_update [OF d]
    using fresh handles_wfD(3) [OF wf] unfolding unique_alive_refs_def by blast
qed

lemma store_get_insert:
  "store_get (store_insert info hs) i =
     (if i = surface_id info then Inr info else store_get hs i)"
  by (simp add: store_get_def store_insert_def update_conv')

lemma find_ref_alive_None:
  "find (ref_alive r) (map snd hs) = None \<longleftrightarrow> (\<forall>(i, info) \<in> set hs. \<not> ref_alive r info)"
  by (auto simp: find_None_iff)

lemma find_ref_alive_Some:
  "find (ref_alive r) (map snd hs) = Some info \<Longrightarrow> \<exists>i. (i, info) \<in> set hs \<and> ref_alive r info"
  by (drule find_Some_in) auto

section \<open>The contract of a surface registry\<close>

text \<open>
  What the pipelines and the guard rely on: a dead handle stays in the registry and reads as
  dead, tracking returns a handle that reads back as returned, and leaves every other handle
  alone.
\<close>

datatype handle_op = Track SurfaceInfo | MarkDead SurfaceId

locale surface_registry =
  fixes get :: "'s \<Rightarrow> SurfaceId \<Rightarrow> (PortholeError, SurfaceInfo) result"
    and dead :: "SurfaceId \<Rightarrow> 's \<Rightarrow> (PortholeError, unit) result \<times> 's"
    and track :: "SurfaceInfo \<Rightarrow> 's \<Rightarrow> (SurfaceInfo \<times> bool) \<times> 's"
    and invar :: "'s \<Rightarrow> bool"
  assumes invar_dead: "invar s \<Longrightarrow> invar (snd (dead i s))"
    and get_dead: "get (snd (dead i s)) j =
          (if j = i then rmap (\<lambda>info. info\<lparr>state := Dead\<rparr>) (get s j) else get s j)"
    and invar_track: "invar s \<Longrightarrow> \<not> is_ok (get s (surface_id c)) \<Longrightarrow> invar (snd (track c s))"
    and get_track: "invar s \<Longrightarrow> track c s = ((info, reused), s') \<Longrightarrow>
          get s' j = (if j = surface_id info then Inr info else get s j)"
    and track_fresh: "invar s \<Longrightarrow> track c s = ((info, reused), s') \<Longrightarrow>
          info = c \<or> get s (surface_id info) = Inr info"
    and track_live: "invar s \<Longrightarrow> platform_ref c = Some r \<Longrightarrow> get s i = Inr info \<Longrightarrow>
          ref_alive r info \<Longrightarrow> track c s = ((info, True), s)"
begin

primrec step :: "handle_op \<Rightarrow> 's \<Rightarrow> 's" where
  "step (Track c) s = snd (track c s)"
| "step (MarkDead i) s = snd (dead i s)"

text \<open>Operations as the pipelines issue them: a tracked candidate carries a new id.\<close>

inductive steps :: "'s \<Rightarrow> 's \<Rightarrow> bool" where
  no_step: "steps s s"
| track_step: "steps s t \<Longrightarrow> \<not> is_ok (get t (surface_id c)) \<Longrightarrow> steps s (step (Track c) t)"
| dead_step: "steps s t \<Longrightarrow> steps s (step (MarkDead i) t)"

lemma steps_invar: "steps s t \<Longrightarrow> invar s \<Longrightarrow> invar t"
  by (induction rule: steps.induct) (auto intro: invar_track invar_dead)

lemma get_step_track:
  assumes "invar t" and "get t i = Inr info" and "\<not> is_ok (get t (surface_id c))"
  shows "get (snd (track c t)) i = Inr info"
proof -
  obtain info' b t' where tr: "track c t = ((info', b), t')" by (metis surj_pair)
  have "i \<noteq> surface_id c" using assms by auto
  with assms tr track_fresh [OF assms(1) tr] get_track [OF assms(1) tr, of i] show ?thesis
    by (auto split: if_splits)
qed

text \<open>A handle is never forgotten, and a dead one never comes back to life.\<close>

lemma steps_get:
  assumes "steps s t" and "invar s" and "get s i = Inr info"
  shows "get t i = Inr info \<or> get t i = Inr (info\<lparr>state := Dead\<rparr>)"
  using assms
proof (induction rule: steps.induct)
  case (no_step s)
  then show ?case by simp
next
  case (track_step s t c)
  then have "invar t" by (auto intro: steps_invar)
  with track_step show ?case by (auto intro: get_step_track)
next
  case (dead_step s t j)
  then show ?case by (auto simp: get_dead)
qed

lemma steps_dead_final:
  assumes "steps (snd (dead i s)) t" and "invar s" and "get s i = Inr info"
  shows "get t i = Inr (info\<lparr>state := Dead\<rparr>)"
  using steps_get [OF assms(1) invar_dead [OF assms(2)], of i "info\<lparr>state := Dead\<rparr>"] assms(3)
  by (simp add: get_dead)

lemma track_again:
  assumes "invar s" and "platform_ref c = Some r" and "platform_ref c' = Some r"
    and "state c = Alive" and tr: "track c s = ((info, b), s')"
    and inv: "invar s'" and ref: "platform_ref info = Some r" and st: "state info = Alive"
  shows "track c' s' = ((info, True), s')"
  using track_live [OF inv assms(3), of "surface_id info" info]
    get_track [OF assms(1) tr, of "surface_id info"] ref st
  by (simp add: ref_alive_def)

end

lemma map_of_handles_wf:
  "handles_wf hs \<Longrightarrow> (i, info) \<in> set hs \<longleftrightarrow> map_of hs i = Some info"
  by (auto simp: handles_wf_def dest: map_of_SomeD)

lemma find_ref_alive_unique:
  assumes wf: "handles_wf hs" and m: "(i, info) \<in> set hs" and a: "ref_alive r info"
  shows "find (ref_alive r) (map snd hs) = Some info"
proof (cases "find (ref_alive r) (map snd hs)")
  case None
  with m a show ?thesis by (auto simp: find_ref_alive_None)
next
  case (Some info')
  then obtain j where j: "(j, info') \<in> set hs" "ref_alive r info'"
    using find_ref_alive_Some by blast
  with m a have "j = i" using unique_alive_refsD [OF handles_wfD(3) [OF wf]] by blast
  with j m wf have "info' = info" by (metis map_of_handles_wf option.inject)
  with Some show ?thesis by simp
qed

lemma store_get_mark_dead:
  "store_get (snd (mark_dead i hs)) j =
     (if j = i then rmap (\<lambda>info. info\<lparr>state := Dead\<rparr>) (store_get hs j) else store_get hs j)"
  by (auto simp: mark_dead_def store_get_def update_conv' split: option.split)

lemma handles_wf_mark_dead: "handles_wf hs \<Longrightarrow> handles_wf (snd (mark_dead i hs))"
proof (cases "map_of hs i")
  case None
  assume "handles_wf hs"
  with None show ?thesis by (simp add: mark_dead_def)
next
  case (Some info)
  assume wf: "handles_wf hs"
  with Some have "surface_id info = i" by (auto dest: handles_wfD(2) map_of_SomeD)
  then have "handles_wf (AList.update i (info\<lparr>state := Dead\<rparr>) hs)"
    by (intro handles_wf_update wf) (auto simp: ref_alive_def)
  with Some show ?thesis by (simp add: mark_dead_def)
qed

lemma track_or_get_cases:
  obtains (reused) r info where "platform_ref c = Some r" "find (ref_alive r) (map snd hs) = Some info"
      "track_or_get c hs = ((info, True), hs)"
  | (inserted) "\<And>r. platform_ref c = Some r \<Longrightarrow> find (ref_alive r) (map snd hs) = None"
      "track_or_get c hs = ((c, False), store_insert c hs)"
  by (cases "platform_ref c"; cases "find (ref_alive (the (platform_ref c))) (map snd hs)")
     (auto simp: track_or_get_def)

lemma handles_wf_track_or_get:
  assumes wf: "handles_wf hs" and fresh: "\<not> is_ok (store_get hs (surface_id c))"
  shows "handles_wf (snd (track_or_get c hs))"
proof (cases rule: track_or_get_cases [of c hs])
  case (reused r info)
  with wf show ?thesis by simp
next
  case inserted
  have "handles_wf (AList.update (surface_id c) c hs)"
  proof (rule handles_wf_update [OF wf])
    fix r j info'
    assume "ref_alive r c" and "(j, info') \<in> set hs" and "ref_alive r info'"
    moreover from this have "find (ref_alive r) (map snd hs) = None"
      using inserted(1) [of r] by (simp add: ref_alive_def)
    ultimately show "j = surface_id c" by (auto simp: find_ref_alive_None)
  qed simp
  with inserted(2) show ?thesis by (simp add: store_insert_def)
qed

interpretation handles: surface_registry store_get mark_dead track_or_get handles_wf
proof unfold_locales
  show "handles_wf (snd (mark_dead i s))" if "handles_wf s" for s i
    using that by (rule handles_wf_mark_dead)
  show "store_get (snd (mark_dead i s)) j =
      (if j = i then rmap (\<lambda>info. info\<lparr>state := Dead\<rparr>) (store_get s j) else store_get s j)" for i s j
    by (rule store_get_mark_dead)
  show "handles_wf (snd (track_or_get c s))"
    if "handles_wf s" and "\<not> is_ok (store_get s (surface_id c))" for s c
    using that by (rule handles_wf_track_or_get)
  show "store_get s' j = (if j = surface_id info then Inr info else store_get s j)"
    if wf: "handles_wf s" and tr: "track_or_get c s = ((info, reused), s')" for s c info reused s' j
  proof (cases rule: track_or_get_cases [of c s])
    case (reused r info0)
    then obtain i where "(i, info0) \<in> set s" using find_ref_alive_Some by blast
    with wf have "map_of s (surface_id info0) = Some info0"
      by (metis handles_wfD(2) map_of_handles_wf)
    with reused tr show ?thesis by (simp add: store_get_def)
  next
    case inserted
    with tr show ?thesis by (auto simp: store_get_insert)
  qed
  show "info = c \<or> store_get s (surface_id info) = Inr info"
    if wf: "handles_wf s" and tr: "track_or_get c s = ((info, reused), s')" for s c info reused s'
  proof (cases rule: track_or_get_cases [of c s])
    case (reused r info0)
    then obtain i where "(i, info0) \<in> set s" using find_ref_alive_Some by blast
    with wf have "map_of s (surface_id info0) = Some info0"
      by (metis handles_wfD(2) map_of_handles_wf)
    with reused tr show ?thesis by (simp add: store_get_def)
  next
    case inserted
    with tr show ?thesis by simp
  qed
  show "track_or_get c s = ((info, True), s)"
    if wf: "handles_wf s" and r: "platform_ref c = Some r" and g: "store_get s i = Inr info"
      and a: "ref_alive r info" for s c r i info
  proof -
    from g have "(i, info) \<in> set s" by (auto simp: store_get_def result_simps dest: map_of_SomeD)
    then have "find (ref_alive r) (map snd s) = Some info" by (rule find_ref_alive_unique [OF wf _ a])
    with r show ?thesis by (simp add: track_or_get_def)
  qed
qed

section \<open>Runs of the handle store\<close>

text \<open>
  The operations the pipelines issue on the store, in any order: tracking a candidate whose id
  is new (\<open>SurfaceId::new\<close> mints a fresh UUID) and marking a handle dead.
\<close>

inductive handle_steps :: "HandleStore \<Rightarrow> HandleStore \<Rightarrow> bool" where
  none: "handle_steps hs hs"
| track: "handle_steps hs hs' \<Longrightarrow> \<not> is_ok (store_get hs' (surface_id c)) \<Longrightarrow>
     handle_steps hs (snd (track_or_get c hs'))"
| dead: "handle_steps hs hs' \<Longrightarrow> handle_steps hs (snd (mark_dead i hs'))"

lemma handle_steps_steps: "handle_steps hs hs' \<Longrightarrow> handles.steps hs hs'"
proof (induction rule: handle_steps.induct)
  case (track hs hs' c)
  then show ?case using handles.track_step by fastforce
next
  case (dead hs hs' i)
  then show ?case using handles.dead_step by fastforce
qed (rule handles.no_step)

lemma handle_steps_wf: "handle_steps hs hs' \<Longrightarrow> handles_wf hs \<Longrightarrow> handles_wf hs'"
  using handles.steps_invar handle_steps_steps by blast

lemma require_alive_Inr: "require_alive hs i = Inr info \<longleftrightarrow> store_get hs i = Inr info \<and> state info = Alive"
  by (cases "store_get hs i") (auto simp: require_alive_def)

lemma require_alive_dead:
  "store_get hs i = Inr info \<Longrightarrow> state info = Dead \<Longrightarrow> require_alive hs i = Inl (surface_dead_error i)"
  by (simp add: require_alive_def)

text \<open>
  C12: However tracking and closing interleave, a window never has two live handles: in every
  store reached from the empty one, two entries that are alive and carry the same platform ref
  are the same entry.
\<close>

theorem one_live_handle_per_window:
  assumes "handle_steps HandleStore_new hs"
    and "store_get hs i = Inr info" and "store_get hs j = Inr info'"
    and "ref_alive r info" and "ref_alive r info'"
  shows "i = j"
proof -
  have wf: "handles_wf hs" using assms(1) handle_steps_wf handles_wf_new by blast
  from assms(2,3) have "(i, info) \<in> set hs" "(j, info') \<in> set hs"
    by (auto simp: store_get_def result_simps dest: map_of_SomeD)
  with assms(4,5) show ?thesis using unique_alive_refsD [OF handles_wfD(3) [OF wf]] by blast
qed

definition example_window :: "SurfaceId \<Rightarrow> SurfaceInfo" where
  "example_window i = (SurfaceInfo_window i 7)\<lparr>platform_ref := Some (Macos 42)\<rparr>"

theorem one_live_handle_per_window_witness:
  "let hs = snd (track_or_get (example_window ''b'')
              (snd (track_or_get (example_window ''a'') HandleStore_new)))
   in store_get hs ''a'' = Inr (example_window ''a'') \<and> (''a'' :: string) = ''a''"
proof -
  let ?h1 = "snd (track_or_get (example_window ''a'') HandleStore_new)"
  let ?h2 = "snd (track_or_get (example_window ''b'') ?h1)"
  have g: "store_get ?h2 ''a'' = Inr (example_window ''a'')"
    by (simp add: track_or_get_def example_window_def SurfaceInfo_window_def HandleStore_new_def
        store_insert_def store_get_def ref_alive_def)
  have "\<not> is_ok (store_get HandleStore_new (surface_id (example_window ''a'')))"
    by (simp add: HandleStore_new_def store_get_def)
  then have s1: "handle_steps HandleStore_new ?h1"
    by (rule handle_steps.track [OF handle_steps.none])
  have "\<not> is_ok (store_get ?h1 (surface_id (example_window ''b'')))"
    by (simp add: track_or_get_def example_window_def SurfaceInfo_window_def HandleStore_new_def
        store_insert_def store_get_def)
  then have "handle_steps HandleStore_new ?h2" by (rule handle_steps.track [OF s1])
  moreover have "ref_alive (Macos 42) (example_window ''a'')"
    by (simp add: ref_alive_def example_window_def SurfaceInfo_window_def)
  ultimately have "(''a'' :: string) = ''a''"
    using one_live_handle_per_window [OF _ g g] by blast
  with g show ?thesis by (simp add: Let_def)
qed

text \<open>
  A handle that was marked dead stays dead: whatever is tracked or closed afterwards, every
  later \<open>require_alive\<close> on its id reports \<open>surface_dead\<close>, never a live surface and never an
  unknown one.
\<close>

theorem dead_handle_stays_dead:
  assumes "handles_wf hs" and "store_get hs i = Inr info"
    and "handle_steps (snd (mark_dead i hs)) hs'"
  shows "require_alive hs' i = Inl (surface_dead_error i)"
  using handles.steps_dead_final [OF handle_steps_steps [OF assms(3)] assms(1,2)]
  by (rule require_alive_dead) simp

theorem dead_handle_stays_dead_witness:
  "require_alive (snd (mark_dead ''a'' (snd (track_or_get (example_window ''a'') HandleStore_new)))) ''a''
     = Inl (surface_dead_error ''a'')"
proof -
  let ?h = "snd (track_or_get (example_window ''a'') HandleStore_new)"
  have "\<not> is_ok (store_get HandleStore_new (surface_id (example_window ''a'')))"
    by (simp add: HandleStore_new_def store_get_def)
  then have "handles_wf ?h" using handles_wf_track_or_get handles_wf_new by blast
  moreover have "store_get ?h ''a'' = Inr (example_window ''a'')"
    by (simp add: track_or_get_def example_window_def SurfaceInfo_window_def HandleStore_new_def
        store_insert_def store_get_def)
  ultimately show ?thesis by (rule dead_handle_stays_dead) (rule handle_steps.none)
qed

text \<open>
  Looking a live surface up by its platform ref does not depend on the iteration order of
  the hash map: any reordering of a well-formed store gives the same answer.
\<close>

theorem find_by_platform_ref_order_independent:
  assumes "handles_wf hs" and "mset hs' = mset hs"
  shows "find_by_platform_ref hs' r = find_by_platform_ref hs r"
proof -
  have set: "set hs' = set hs" using assms(2) by (metis set_mset_mset)
  have "mset (map fst hs') = mset (map fst hs)" using assms(2) by simp
  then have "distinct (map fst hs')" using assms(1) by (metis handles_wfD(1) mset_eq_imp_distinct_iff)
  with assms(1) set have wf': "handles_wf hs'" by (simp add: handles_wf_def unique_alive_refs_def)
  show ?thesis
  proof (cases "\<exists>i info. (i, info) \<in> set hs \<and> ref_alive r info")
    case True
    then obtain i info where "(i, info) \<in> set hs" "ref_alive r info" by blast
    with set show ?thesis
      using find_ref_alive_unique [OF assms(1)] find_ref_alive_unique [OF wf']
      by (simp add: find_by_platform_ref_def)
  next
    case False
    with set have "find (ref_alive r) (map snd hs) = None" "find (ref_alive r) (map snd hs') = None"
      by (auto simp: find_ref_alive_None)
    then show ?thesis by (simp add: find_by_platform_ref_def)
  qed
qed

theorem find_by_platform_ref_order_independent_witness:
  "find_by_platform_ref [(''b'', SurfaceInfo_window ''b'' 1), (''a'', example_window ''a'')] (Macos 42) =
   find_by_platform_ref [(''a'', example_window ''a''), (''b'', SurfaceInfo_window ''b'' 1)] (Macos 42)"
proof (rule find_by_platform_ref_order_independent)
  show "handles_wf [(''a'', example_window ''a''), (''b'', SurfaceInfo_window ''b'' 1)]"
    by (auto simp: handles_wf_def unique_alive_refs_def ref_alive_def example_window_def SurfaceInfo_window_def)
qed simp

end
