(* ===== verification/Agent_Policy.thy ===== *)
theory Agent_Policy
  imports Surfaces
begin

text \<open>
  The authorization policy of \<open>porthole-core/src/agent_policy.rs\<close>: what an operator granted or
  denied to an agent, and the decision \<open>PolicySnapshot::authorize\<close> takes for a request.  Times
  are the \<open>u64\<close> Unix milliseconds of the source.
\<close>

type_synonym AgentId = string
type_synonym GrantId = string
type_synonym DenialId = string
type_synonym PermissionRequestId = string

datatype ActionClass = Observe | Drive | Manage | Record

text \<open>\<open>ActionClass\<close> derives \<open>Ord\<close>: declaration order.\<close>

fun action_rank :: "ActionClass \<Rightarrow> nat" where
  "action_rank Observe = 0"
| "action_rank Drive = 1"
| "action_rank Manage = 2"
| "action_rank Record = 3"

lemma action_rank_inject [simp]: "action_rank a = action_rank b \<longleftrightarrow> a = b"
  by (cases a; cases b) auto

instantiation ActionClass :: linorder
begin

definition less_eq_ActionClass :: "ActionClass \<Rightarrow> ActionClass \<Rightarrow> bool" where
  "less_eq_ActionClass a b \<longleftrightarrow> action_rank a \<le> action_rank b"

definition less_ActionClass :: "ActionClass \<Rightarrow> ActionClass \<Rightarrow> bool" where
  "less_ActionClass a b \<longleftrightarrow> action_rank a < action_rank b"

instance
  by standard (auto simp: less_eq_ActionClass_def less_ActionClass_def simp flip: action_rank_inject)

end

datatype AppSelector = BundleId string | ExecutablePath string | AppName string

datatype TargetSelector =
    Surface SurfaceId
  | App AppSelector
  | LaunchedByAgent
  | FrontmostOnce SurfaceId
  | AllSurfaces

datatype DurationSpec =
    Once
  | UntilSurfaceGone
  | Session string
  | TimeBounded u64
  | Persistent

datatype Constraint = RequiresFrontmost | MaxDurationMs u64 | AllowedInput "string list"

datatype AuthorizationDecision =
    Allowed GrantId bool \<comment> \<open>\<open>grant_id\<close> and \<open>consumes_grant\<close>\<close>
  | Denied DenialId
  | NeedsPermission

record AgentContext =
  ctx_agent_id :: AgentId

record TargetContext =
  ctx_surface_id :: "SurfaceId option"
  ctx_app_bundle_id :: "string option"
  ctx_executable_path :: "string option"
  ctx_app_name :: "string option"
  ctx_launched_by_agent :: "AgentId option"
  ctx_frontmost_surface_id :: "SurfaceId option"
  ctx_surface_alive :: bool

record Grant =
  grant_id :: GrantId
  grant_agent_id :: AgentId
  grant_target :: TargetSelector
  grant_actions :: "ActionClass list"
  grant_duration :: DurationSpec
  grant_constraints :: "Constraint list"

record Denial =
  denial_id :: DenialId
  denial_agent_id :: AgentId
  denial_target :: TargetSelector
  denial_actions :: "ActionClass list"
  denial_expires_at :: "u64 option"

record PolicySnapshot =
  snap_grants :: "Grant list"
  snap_denials :: "Denial list"
  snap_consumed_once :: "GrantId list"

definition duration_matches :: "DurationSpec \<Rightarrow> TargetContext \<Rightarrow> u64 \<Rightarrow> bool" where
  "duration_matches d t now =
     (case d of
        Once \<Rightarrow> True
      | UntilSurfaceGone \<Rightarrow> ctx_surface_alive t
      | Session _ \<Rightarrow> False
      | TimeBounded expires_at \<Rightarrow> expires_at > now
      | Persistent \<Rightarrow> True)"

definition target_matches :: "TargetSelector \<Rightarrow> AgentContext \<Rightarrow> TargetContext \<Rightarrow> bool" where
  "target_matches sel a t =
     (if \<not> ctx_surface_alive t then False
      else case sel of
        Surface sid \<Rightarrow> ctx_surface_id t = Some sid
      | App app \<Rightarrow>
          (case app of
             BundleId b \<Rightarrow> ctx_app_bundle_id t = Some b
           | ExecutablePath p \<Rightarrow> ctx_executable_path t = Some p
           | AppName n \<Rightarrow> ctx_app_name t = Some n)
      | LaunchedByAgent \<Rightarrow> ctx_launched_by_agent t = Some (ctx_agent_id a)
      | FrontmostOnce sid \<Rightarrow> ctx_surface_id t = Some sid \<and> ctx_frontmost_surface_id t = Some sid
      | AllSurfaces \<Rightarrow> True)"

definition actions_match :: "ActionClass list \<Rightarrow> ActionClass list \<Rightarrow> bool" where
  "actions_match allowed requested \<longleftrightarrow>
     \<not> List.null requested \<and> list_all (\<lambda>a. List.member allowed a) requested"

definition constraints_match :: "Constraint list \<Rightarrow> TargetContext \<Rightarrow> bool" where
  "constraints_match cs t \<longleftrightarrow>
     list_all (\<lambda>c. case c of
         RequiresFrontmost \<Rightarrow>
           (case (ctx_surface_id t, ctx_frontmost_surface_id t) of
              (Some s, Some f) \<Rightarrow> s = f
            | _ \<Rightarrow> False)
       | MaxDurationMs _ \<Rightarrow> True
       | AllowedInput _ \<Rightarrow> True) cs"

definition denial_matches :: "Denial \<Rightarrow> AgentContext \<Rightarrow> TargetContext \<Rightarrow> ActionClass list \<Rightarrow> u64 \<Rightarrow> bool" where
  "denial_matches d a t actions now \<longleftrightarrow>
     denial_agent_id d = ctx_agent_id a
     \<and> (case denial_expires_at d of None \<Rightarrow> True | Some e \<Rightarrow> e > now)
     \<and> target_matches (denial_target d) a t
     \<and> actions_match (denial_actions d) actions"

definition grant_matches ::
  "Grant \<Rightarrow> AgentContext \<Rightarrow> TargetContext \<Rightarrow> ActionClass list \<Rightarrow> u64 \<Rightarrow> GrantId list \<Rightarrow> bool" where
  "grant_matches g a t actions now consumed \<longleftrightarrow>
     grant_agent_id g = ctx_agent_id a
     \<and> \<not> List.member consumed (grant_id g)
     \<and> duration_matches (grant_duration g) t now
     \<and> target_matches (grant_target g) a t
     \<and> actions_match (grant_actions g) actions
     \<and> constraints_match (grant_constraints g) t"

definition authorize ::
  "PolicySnapshot \<Rightarrow> AgentContext \<Rightarrow> TargetContext \<Rightarrow> ActionClass list \<Rightarrow> u64 \<Rightarrow> AuthorizationDecision" where
  "authorize snap a t actions now =
     (case find (\<lambda>d. denial_matches d a t actions now) (snap_denials snap) of
        Some d \<Rightarrow> Denied (denial_id d)
      | None \<Rightarrow>
          (case find (\<lambda>g. grant_matches g a t actions now (snap_consumed_once snap)) (snap_grants snap) of
             Some g \<Rightarrow> Allowed (grant_id g) (grant_duration g = Once)
           | None \<Rightarrow> NeedsPermission))"

section \<open>Reading the decision\<close>

lemma actions_match_iff: "actions_match allowed requested \<longleftrightarrow> requested \<noteq> [] \<and> set requested \<subseteq> set allowed"
  by (auto simp: actions_match_def list_all_iff)

lemma authorize_Allowed:
  "authorize snap a t actions now = Allowed gid c \<Longrightarrow>
   (\<forall>d \<in> set (snap_denials snap). \<not> denial_matches d a t actions now) \<and>
   (\<exists>g \<in> set (snap_grants snap). grant_id g = gid \<and> c = (grant_duration g = Once) \<and>
      grant_matches g a t actions now (snap_consumed_once snap))"
  by (auto simp: authorize_def find_None_iff split: option.splits dest!: find_Some_in)

lemma authorize_Denied:
  "authorize snap a t actions now = Denied did \<Longrightarrow>
   \<exists>d \<in> set (snap_denials snap). denial_id d = did \<and> denial_matches d a t actions now"
  by (auto simp: authorize_def split: option.splits dest!: find_Some_in)

lemma authorize_NeedsPermission:
  "authorize snap a t actions now = NeedsPermission \<longleftrightarrow>
   (\<forall>d \<in> set (snap_denials snap). \<not> denial_matches d a t actions now) \<and>
   (\<forall>g \<in> set (snap_grants snap). \<not> grant_matches g a t actions now (snap_consumed_once snap))"
  by (cases "find (\<lambda>d. denial_matches d a t actions now) (snap_denials snap)";
      cases "find (\<lambda>g. grant_matches g a t actions now (snap_consumed_once snap)) (snap_grants snap)")
     (auto simp: authorize_def dest: find_Some_in dest!: find_None_iff [THEN iffD1])

text \<open>The constraints a grant carries hold of the target, spelled out.\<close>

lemma constraints_match_iff:
  "constraints_match cs t \<longleftrightarrow>
   (RequiresFrontmost \<in> set cs \<longrightarrow>
      (\<exists>s. ctx_surface_id t = Some s \<and> ctx_frontmost_surface_id t = Some s))"
  by (induction cs) (auto simp: constraints_match_def split: Constraint.splits option.splits)

text \<open>
  C1: Default deny.  A request is allowed only when no remembered denial covers it and one grant
  by itself covers it: the grant belongs to the requesting agent, has not been consumed, is not
  a session grant, has not expired, its target selector matches a live target, it lists every
  requested action (and at least one is requested), and a frontmost requirement holds.  The
  grant is reported as consumable exactly when its duration is \<open>Once\<close>.
\<close>

theorem authorize_allows_only_granted:
  assumes "authorize snap a t actions now = Allowed gid consumes"
  shows "(\<nexists>d. d \<in> set (snap_denials snap) \<and> denial_matches d a t actions now) \<and>
    (\<exists>g. g \<in> set (snap_grants snap) \<and> grant_id g = gid \<and> consumes = (grant_duration g = Once) \<and>
      grant_agent_id g = ctx_agent_id a \<and> gid \<notin> set (snap_consumed_once snap) \<and>
      actions \<noteq> [] \<and> set actions \<subseteq> set (grant_actions g) \<and>
      ctx_surface_alive t \<and> target_matches (grant_target g) a t \<and>
      (\<nexists>s. grant_duration g = Session s) \<and>
      (\<nexists>e. grant_duration g = TimeBounded e \<and> e \<le> now) \<and>
      (RequiresFrontmost \<notin> set (grant_constraints g) \<or> ctx_frontmost_surface_id t = ctx_surface_id t))"
proof -
  from authorize_Allowed [OF assms] obtain g where g: "g \<in> set (snap_grants snap)"
      "grant_id g = gid" "consumes = (grant_duration g = Once)"
      "grant_matches g a t actions now (snap_consumed_once snap)"
    and d: "\<nexists>d. d \<in> set (snap_denials snap) \<and> denial_matches d a t actions now"
    by blast
  from g(4) have "ctx_surface_alive t" by (auto simp: grant_matches_def target_matches_def split: if_splits)
  with g d show ?thesis
    by (auto simp: grant_matches_def duration_matches_def actions_match_iff constraints_match_iff
        not_le intro!: exI [of _ g])
qed

definition example_grant :: "DurationSpec \<Rightarrow> Grant" where
  "example_grant d =
     \<lparr>grant_id = ''grant_1'', grant_agent_id = ''agent_1'', grant_target = Surface ''surf_1'',
      grant_actions = [Drive], grant_duration = d, grant_constraints = []\<rparr>"

definition example_target :: TargetContext where
  "example_target =
     \<lparr>ctx_surface_id = Some ''surf_1'', ctx_app_bundle_id = None, ctx_executable_path = None,
      ctx_app_name = None, ctx_launched_by_agent = None, ctx_frontmost_surface_id = None,
      ctx_surface_alive = True\<rparr>"

definition example_snapshot :: PolicySnapshot where
  "example_snapshot =
     \<lparr>snap_grants = [example_grant Once], snap_denials = [], snap_consumed_once = []\<rparr>"

lemma example_authorize:
  "authorize example_snapshot \<lparr>ctx_agent_id = ''agent_1''\<rparr> example_target [Drive] 1000 =
     Allowed ''grant_1'' True"
  by (simp add: authorize_def example_snapshot_def example_grant_def example_target_def
      grant_matches_def duration_matches_def target_matches_def actions_match_def constraints_match_def)

theorem authorize_allows_only_granted_witness:
  "authorize example_snapshot \<lparr>ctx_agent_id = ''agent_1''\<rparr> example_target [Drive] 1000 =
     Allowed ''grant_1'' True \<and>
   (\<exists>g. g \<in> set (snap_grants example_snapshot) \<and> grant_id g = ''grant_1'' \<and> set [Drive] \<subseteq> set (grant_actions g))"
  using example_authorize authorize_allows_only_granted [OF example_authorize] by blast

text \<open>
  The policy only ever tightens as the operator intends.  Adding denials, removing grants
  and marking grants consumed can never turn a request that was not allowed into an allowed one,
  and a request that a remaining denial rejects stays rejected whatever grants are added.
\<close>

theorem authorize_restriction_monotone:
  assumes "set (snap_denials snap) \<subseteq> set (snap_denials snap')"
    and "set (snap_consumed_once snap) \<subseteq> set (snap_consumed_once snap')"
    and "set (snap_grants snap') \<subseteq> set (snap_grants snap)"
    and "authorize snap' a t actions now = Allowed gid c"
  shows "\<exists>gid' c'. authorize snap a t actions now = Allowed gid' c'"
proof (cases "authorize snap a t actions now")
  case (Denied did)
  from authorize_Denied [OF Denied] authorize_Allowed [OF assms(4)] assms(1) show ?thesis by blast
next
  case NeedsPermission
  from authorize_Allowed [OF assms(4)] obtain g where "g \<in> set (snap_grants snap')"
    and m: "grant_matches g a t actions now (snap_consumed_once snap')" by blast
  moreover from m assms(2) have "grant_matches g a t actions now (snap_consumed_once snap)"
    by (auto simp: grant_matches_def)
  ultimately show ?thesis using NeedsPermission assms(3) by (auto simp: authorize_NeedsPermission)
qed auto

theorem authorize_restriction_monotone_witness:
  "\<exists>gid' c'. authorize (example_snapshot\<lparr>snap_grants := [example_grant Persistent, example_grant Once]\<rparr>)
     \<lparr>ctx_agent_id = ''agent_1''\<rparr> example_target [Drive] 1000 = Allowed gid' c'"
  using example_authorize
  by (intro authorize_restriction_monotone [where snap' = example_snapshot])
     (auto simp: example_snapshot_def)

text \<open>
  A matching denial takes precedence over every grant: the decision is \<open>Denied\<close>, with the
  id of a denial of this agent that has not expired and covers every requested action.
\<close>

theorem denial_takes_precedence:
  assumes "d \<in> set (snap_denials snap)" and "denial_matches d a t actions now"
  shows "\<exists>d' \<in> set (snap_denials snap). authorize snap a t actions now = Denied (denial_id d') \<and>
     denial_agent_id d' = ctx_agent_id a \<and> set actions \<subseteq> set (denial_actions d') \<and>
     (\<nexists>e. denial_expires_at d' = Some e \<and> e \<le> now)"
proof -
  from assms have "find (\<lambda>d. denial_matches d a t actions now) (snap_denials snap) \<noteq> None"
    by (auto simp: find_None_iff)
  then obtain d' where d': "find (\<lambda>d. denial_matches d a t actions now) (snap_denials snap) = Some d'"
    by blast
  then show ?thesis
    using find_Some_in [OF d'] by (auto simp: authorize_def denial_matches_def actions_match_iff
        not_le split: option.splits intro!: bexI [of _ d'])
qed

definition example_denial :: Denial where
  "example_denial =
     \<lparr>denial_id = ''deny_1'', denial_agent_id = ''agent_1'', denial_target = AllSurfaces,
      denial_actions = [Drive, Record], denial_expires_at = Some 2000\<rparr>"

theorem denial_takes_precedence_witness:
  "\<exists>d' \<in> set [example_denial]. authorize (example_snapshot\<lparr>snap_denials := [example_denial]\<rparr>)
     \<lparr>ctx_agent_id = ''agent_1''\<rparr> example_target [Drive] 1000 = Denied (denial_id d')"
  using denial_takes_precedence [of example_denial "example_snapshot\<lparr>snap_denials := [example_denial]\<rparr>"
      "\<lparr>ctx_agent_id = ''agent_1''\<rparr>" example_target "[Drive]" 1000]
  by (simp add: example_denial_def denial_matches_def target_matches_def actions_match_def example_target_def)

end
