(* ===== verification/Agent_Protocol.thy ===== *)
theory Agent_Protocol
  imports Agent_Policy
begin

text \<open>
  The wire types of the permission API (\<open>porthole-protocol/src/agent_permissions.rs\<close>) and their
  conversions to and from the core policy types.  A wire variant carries the prefix \<open>W\<close> where
  the core type has the same variant name; a field carries a prefix for its struct.
\<close>

section \<open>Requests, responses and display context\<close>

record AgentIdentityMetadata =
  meta_bundle_id :: "string option"
  meta_executable_path :: "string option"
  meta_vendor :: "string option"

record CreateAgentIdentityRequest =
  cir_display_name :: string
  cir_metadata :: "AgentIdentityMetadata option"

record CreateAgentIdentityResponse =
  cip_agent_id :: AgentId
  cip_token :: string

record MintAgentTokenResponse =
  mtr_token_id :: string
  mtr_token :: string

record AgentIdentityResponse =
  air_agent_id :: AgentId
  air_display_name :: string
  air_metadata :: "AgentIdentityMetadata option"
  air_created_at :: u64
  air_revoked_at :: "u64 option"

record RevocationResponse =
  rev_revoked :: bool

record PermissionSurface =
  ps_app_name :: "string option"
  ps_title :: "string option"
  ps_pid :: "u32 option"

datatype PermissionOperation =
    OpKey "string list" nat
  | OpText nat
  | OpLaunch string
  | OpCapture bool

record PermissionRequestContext =
  prc_surface :: "PermissionSurface option"
  prc_operation :: "PermissionOperation option"

definition PermissionRequestContext_default :: PermissionRequestContext where
  "PermissionRequestContext_default = \<lparr>prc_surface = None, prc_operation = None\<rparr>"

record PermissionDescription =
  pd_agent_name :: "string option"
  pd_agent_revoked :: bool
  pd_surface :: "PermissionSurface option"
  pd_surface_available :: "bool option"
  pd_operation :: "PermissionOperation option"

section \<open>Durations, targets and constraints\<close>

datatype AgentPermissionDuration =
    WOnce
  | WUntilSurfaceGone
  | WSession string
  | WTimeBounded u64
  | WPersistent

fun duration_to_wire :: "DurationSpec \<Rightarrow> AgentPermissionDuration" where
  "duration_to_wire Once = WOnce"
| "duration_to_wire UntilSurfaceGone = WUntilSurfaceGone"
| "duration_to_wire (Session s) = WSession s"
| "duration_to_wire (TimeBounded e) = WTimeBounded e"
| "duration_to_wire Persistent = WPersistent"

fun duration_from_wire :: "AgentPermissionDuration \<Rightarrow> DurationSpec" where
  "duration_from_wire WOnce = Once"
| "duration_from_wire WUntilSurfaceGone = UntilSurfaceGone"
| "duration_from_wire (WSession s) = Session s"
| "duration_from_wire (WTimeBounded e) = TimeBounded e"
| "duration_from_wire WPersistent = Persistent"

datatype AgentPermissionAppSelector = WBundleId string | WExecutablePath string | WAppName string

fun app_to_wire :: "AppSelector \<Rightarrow> AgentPermissionAppSelector" where
  "app_to_wire (BundleId b) = WBundleId b"
| "app_to_wire (ExecutablePath p) = WExecutablePath p"
| "app_to_wire (AppName n) = WAppName n"

fun app_from_wire :: "AgentPermissionAppSelector \<Rightarrow> AppSelector" where
  "app_from_wire (WBundleId b) = BundleId b"
| "app_from_wire (WExecutablePath p) = ExecutablePath p"
| "app_from_wire (WAppName n) = AppName n"

datatype AgentPermissionTarget =
    WSurface SurfaceId
  | WApp AgentPermissionAppSelector
  | WLaunchedByAgent
  | WFrontmostOnce SurfaceId
  | WAllSurfaces

fun target_to_wire :: "TargetSelector \<Rightarrow> AgentPermissionTarget" where
  "target_to_wire (Surface s) = WSurface s"
| "target_to_wire (App a) = WApp (app_to_wire a)"
| "target_to_wire LaunchedByAgent = WLaunchedByAgent"
| "target_to_wire (FrontmostOnce s) = WFrontmostOnce s"
| "target_to_wire AllSurfaces = WAllSurfaces"

fun target_from_wire :: "AgentPermissionTarget \<Rightarrow> TargetSelector" where
  "target_from_wire (WSurface s) = Surface s"
| "target_from_wire (WApp a) = App (app_from_wire a)"
| "target_from_wire WLaunchedByAgent = LaunchedByAgent"
| "target_from_wire (WFrontmostOnce s) = FrontmostOnce s"
| "target_from_wire WAllSurfaces = AllSurfaces"

record AgentPermissionConstraints =
  requires_frontmost :: bool
  max_duration_ms :: "u64 option"
  allowed_input :: "string list"

definition AgentPermissionConstraints_default :: AgentPermissionConstraints where
  "AgentPermissionConstraints_default =
     \<lparr>requires_frontmost = False, max_duration_ms = None, allowed_input = []\<rparr>"

definition constraint_to_wire :: "AgentPermissionConstraints \<Rightarrow> Constraint \<Rightarrow> AgentPermissionConstraints" where
  "constraint_to_wire wire c =
     (case c of
        RequiresFrontmost \<Rightarrow> wire\<lparr>requires_frontmost := True\<rparr>
      | MaxDurationMs v \<Rightarrow> wire\<lparr>max_duration_ms := Some v\<rparr>
      | AllowedInput vs \<Rightarrow> wire\<lparr>allowed_input := vs\<rparr>)"

definition constraints_to_wire :: "Constraint list \<Rightarrow> AgentPermissionConstraints" where
  "constraints_to_wire cs = foldl constraint_to_wire AgentPermissionConstraints_default cs"

definition constraints_from_wire :: "AgentPermissionConstraints \<Rightarrow> Constraint list" where
  "constraints_from_wire w =
     (if requires_frontmost w then [RequiresFrontmost] else [])
     @ (case max_duration_ms w of Some v \<Rightarrow> [MaxDurationMs v] | None \<Rightarrow> [])
     @ (if allowed_input w \<noteq> [] then [AllowedInput (allowed_input w)] else [])"

section \<open>Decisions and details\<close>

record AgentPermissionNeededDetails =
  nd_request_id :: PermissionRequestId
  nd_agent_id :: AgentId
  nd_target :: AgentPermissionTarget
  nd_surface_id :: "SurfaceId option"
  nd_actions :: "ActionClass list"
  nd_recommended_duration :: AgentPermissionDuration

record ApproveAgentPermissionRequest =
  apr_duration :: AgentPermissionDuration
  apr_target :: AgentPermissionTarget
  apr_actions :: "ActionClass list"
  apr_constraints :: AgentPermissionConstraints

record DenyAgentPermissionRequest =
  dpr_remember :: bool
  dpr_reason :: "string option"

record AgentPermissionRequestResponse =
  prr_description :: PermissionDescription
  prr_request_id :: PermissionRequestId
  prr_agent_id :: AgentId
  prr_target :: AgentPermissionTarget
  prr_actions :: "ActionClass list"
  prr_reason :: "string option"
  prr_status :: string
  prr_invalidation_reason :: "string option"
  prr_created_at :: u64
  prr_resolved_at :: "u64 option"

record AgentGrantResponse =
  gresp_description :: PermissionDescription
  gresp_grant_id :: GrantId
  gresp_agent_id :: AgentId
  gresp_origin_request_id :: "PermissionRequestId option"
  gresp_origin_reason :: "string option"
  gresp_target :: AgentPermissionTarget
  gresp_actions :: "ActionClass list"
  gresp_duration :: AgentPermissionDuration
  gresp_constraints :: AgentPermissionConstraints
  gresp_created_at :: u64
  gresp_expires_at :: "u64 option"
  gresp_consumed_at :: "u64 option"
  gresp_revoked_at :: "u64 option"

section \<open>Round trips\<close>

locale wire_conversion =
  fixes to_wire :: "'core \<Rightarrow> 'wire" and from_wire :: "'wire \<Rightarrow> 'core"
  assumes from_to: "from_wire (to_wire c) = c" and to_from: "to_wire (from_wire w) = w"
begin

lemma to_wire_inject: "to_wire c = to_wire d \<longleftrightarrow> c = d"
  by (metis from_to)

lemma from_wire_eq_iff: "from_wire w = c \<longleftrightarrow> w = to_wire c"
  by (metis from_to to_from)

lemma bij_to_wire: "bij to_wire"
  by (rule bijI') (metis from_to, metis to_from)

end

interpretation durations: wire_conversion duration_to_wire duration_from_wire
proof unfold_locales
  show "duration_from_wire (duration_to_wire c) = c" for c by (cases c) auto
  show "duration_to_wire (duration_from_wire w) = w" for w by (cases w) auto
qed

interpretation apps: wire_conversion app_to_wire app_from_wire
proof unfold_locales
  show "app_from_wire (app_to_wire c) = c" for c by (cases c) auto
  show "app_to_wire (app_from_wire w) = w" for w by (cases w) auto
qed

interpretation targets: wire_conversion target_to_wire target_from_wire
proof unfold_locales
  show "target_from_wire (target_to_wire c) = c" for c by (cases c) (auto simp: apps.from_to)
  show "target_to_wire (target_from_wire w) = w" for w by (cases w) (auto simp: apps.to_from)
qed

text \<open>What \<open>constraints_to_wire\<close> records of each kind of constraint, whatever the accumulator.\<close>

lemma requires_frontmost_foldl:
  "requires_frontmost (foldl constraint_to_wire w cs) \<longleftrightarrow>
   requires_frontmost w \<or> RequiresFrontmost \<in> set cs"
  by (induction cs arbitrary: w) (auto simp: constraint_to_wire_def split: Constraint.splits)

lemma constraints_from_to_frontmost:
  "RequiresFrontmost \<in> set (constraints_from_wire (constraints_to_wire cs)) \<longleftrightarrow> RequiresFrontmost \<in> set cs"
  by (auto simp: constraints_from_wire_def constraints_to_wire_def requires_frontmost_foldl
      AgentPermissionConstraints_default_def split: option.splits)

lemma constraints_to_from: "constraints_to_wire (constraints_from_wire w) = w"
  by (cases w) (auto simp: constraints_to_wire_def constraints_from_wire_def constraint_to_wire_def
      AgentPermissionConstraints_default_def split: option.splits)

text \<open>
  C13: The wire forms lose nothing that authorization looks at.  Durations and targets convert to
  the wire and back without change in either direction; wire constraints survive the conversion
  to the core list and back unchanged; and a core constraint list sent over the wire and back
  is met by exactly the same targets, although the wire form keeps one constraint of each kind.
\<close>

theorem wire_forms_preserve_policy:
  "duration_from_wire (duration_to_wire d) = d \<and> duration_to_wire (duration_from_wire wd) = wd \<and>
   target_from_wire (target_to_wire t) = t \<and> target_to_wire (target_from_wire wt) = wt \<and>
   constraints_to_wire (constraints_from_wire wc) = wc \<and>
   constraints_match (constraints_from_wire (constraints_to_wire cs)) ctx = constraints_match cs ctx"
  by (simp add: durations.from_to durations.to_from targets.from_to targets.to_from
      constraints_to_from constraints_match_iff constraints_from_to_frontmost)

end
