(* ===== verification/Agent_Store.thy ===== *)
theory Agent_Store
  imports Agent_Protocol "HOL-Library.Char_ord" "HOL-Library.List_Lexorder" "HOL-Library.Product_Lexorder"
begin

text \<open>
  The policy store of \<open>portholed/src/agent_store.rs\<close>: identities, bearer tokens, permission
  requests, grants, denials and the audit log, kept in SQLite tables.  A table is the list of
  its rows in \<open>rowid\<close> order (no statement deletes a row).  Every operation runs its closure
  with the connection locked, so it is one step on the tables; a transaction that does not
  commit leaves them as they were.

  Code outside the repository enters as arguments: \<open>libs\<close> is the JSON codec (\<open>serde_json\<close>)
  and the SHA-256 digest, \<open>sql_env\<close> is what one call sees of its surroundings, namely the
  values of \<open>Uuid::new_v4\<close> and the faults the lock, the blocking task and each SQL statement
  report.  The constraints the schema declares (primary keys and the two partial unique
  indexes) are checked by the inserts themselves.
\<close>

section \<open>Data\<close>

datatype sqlite_error = ConstraintViolation | OtherSqliteError string

datatype AgentStoreError =
    Sqlite sqlite_error
  | Json string
  | Io string
  | Join string
  | LockPoisoned
  | PermissionRequestNotFound
  | PermissionRequestNotPending
  | IdentityNotFound
  | UnknownPermissionRequestStatus string

type_synonym 'a StoreResult = "(AgentStoreError, 'a) result"

record CreatedAgentIdentity =
  ci_agent_id :: AgentId
  ci_token_id :: string
  ci_token :: string

record CreatedAgentToken =
  ct_token_id :: string
  ct_agent_id :: AgentId
  ct_token :: string

record StoredAgentIdentity =
  si_agent_id :: AgentId
  si_display_name :: string
  si_metadata :: "AgentIdentityMetadata option"
  si_created_at :: u64
  si_revoked_at :: "u64 option"

datatype PermissionRequestStatus = StatusPending | StatusApproved | StatusDenied | StatusInvalidated

fun status_as_str :: "PermissionRequestStatus \<Rightarrow> string" where
  "status_as_str StatusPending = ''pending''"
| "status_as_str StatusApproved = ''approved''"
| "status_as_str StatusDenied = ''denied''"
| "status_as_str StatusInvalidated = ''invalidated''"

definition status_parse :: "string \<Rightarrow> PermissionRequestStatus StoreResult" where
  "status_parse s =
     (if s = ''pending'' then Inr StatusPending
      else if s = ''approved'' then Inr StatusApproved
      else if s = ''denied'' then Inr StatusDenied
      else if s = ''invalidated'' then Inr StatusInvalidated
      else Inl (UnknownPermissionRequestStatus s))"

record StoredPermissionRequest =
  sr_context :: PermissionRequestContext
  sr_request_id :: PermissionRequestId
  sr_agent_id :: AgentId
  sr_target :: TargetSelector
  sr_actions :: "ActionClass list"
  sr_reason :: "string option"
  sr_status :: PermissionRequestStatus
  sr_invalidation_reason :: "string option"
  sr_created_at :: u64
  sr_resolved_at :: "u64 option"

record StoredGrant =
  sg_grant_id :: GrantId
  sg_agent_id :: AgentId
  sg_origin_request_id :: "PermissionRequestId option"
  sg_target :: TargetSelector
  sg_actions :: "ActionClass list"
  sg_duration :: DurationSpec
  sg_constraints :: "Constraint list"
  sg_created_at :: u64
  sg_expires_at :: "u64 option"
  sg_consumed_at :: "u64 option"
  sg_revoked_at :: "u64 option"

record ExecutionAuditRecord =
  xa_agent_id :: AgentId
  xa_request_id :: "PermissionRequestId option"
  xa_route :: string
  xa_target :: TargetSelector
  xa_actions :: "ActionClass list"
  xa_grant_id :: "GrantId option"
  xa_denial_id :: "DenialId option"
  xa_executed_at :: u64

text \<open>The rows of the tables that \<open>init_schema\<close> creates.\<close>

record identity_row =
  id_agent_id :: string
  id_display_name :: string
  id_metadata_json :: string
  id_created_at :: u64
  id_revoked_at :: "u64 option"

record token_row =
  tok_token_id :: string
  tok_agent_id :: string
  tok_hash :: string
  tok_created_at :: u64
  tok_revoked_at :: "u64 option"

record grant_row =
  gr_grant_id :: string
  gr_agent_id :: string
  gr_origin_request_id :: "string option"
  gr_target_json :: string
  gr_actions_json :: string
  gr_duration_json :: string
  gr_constraints_json :: string
  gr_created_at :: u64
  gr_expires_at :: "u64 option"
  gr_consumed_at :: "u64 option"
  gr_revoked_at :: "u64 option"

record denial_row =
  dn_denial_id :: string
  dn_agent_id :: string
  dn_target_json :: string
  dn_actions_json :: string
  dn_reason :: "string option"
  dn_created_at :: u64
  dn_expires_at :: "u64 option"

record request_row =
  rq_request_id :: string
  rq_agent_id :: string
  rq_target_json :: string
  rq_actions_json :: string
  rq_reason :: "string option"
  rq_status :: string
  rq_created_at :: u64
  rq_resolved_at :: "u64 option"
  rq_context_json :: string
  rq_invalidation_reason :: "string option"

record audit_row =
  au_audit_id :: string
  au_agent_id :: string
  au_request_id :: "string option"
  au_route :: "string option"
  au_target_json :: string
  au_actions_json :: string
  au_decision :: string
  au_grant_id :: "string option"
  au_denial_id :: "string option"
  au_reason :: "string option"
  au_requested_at :: "u64 option"
  au_decided_at :: "u64 option"
  au_expires_at :: "u64 option"
  au_executed_at :: "u64 option"

record AgentPolicyStore =
  identities :: "identity_row list"
  tokens :: "token_row list"
  grants :: "grant_row list"
  denials :: "denial_row list"
  requests :: "request_row list"
  audit :: "audit_row list"

text \<open>\<open>init_schema\<close> on a new database file: every table exists and is empty.\<close>

definition init_schema :: AgentPolicyStore where
  "init_schema = \<lparr>identities = [], tokens = [], grants = [], denials = [], requests = [], audit = []\<rparr>"

section \<open>Surroundings of a call\<close>

record libs =
  sha256_hex :: "string \<Rightarrow> string"
  target_to_json :: "TargetSelector \<Rightarrow> (string, string) result"
  target_from_json :: "string \<Rightarrow> (string, TargetSelector) result"
  actions_to_json :: "ActionClass list \<Rightarrow> (string, string) result"
  actions_from_json :: "string \<Rightarrow> (string, ActionClass list) result"
  duration_to_json :: "DurationSpec \<Rightarrow> (string, string) result"
  duration_from_json :: "string \<Rightarrow> (string, DurationSpec) result"
  constraints_to_json :: "Constraint list \<Rightarrow> (string, string) result"
  constraints_from_json :: "string \<Rightarrow> (string, Constraint list) result"
  context_to_json :: "PermissionRequestContext \<Rightarrow> (string, string) result"
  context_from_json :: "string \<Rightarrow> (string, PermissionRequestContext) result"
  metadata_to_json :: "AgentIdentityMetadata option \<Rightarrow> (string, string) result"
  metadata_from_json :: "string \<Rightarrow> (string, AgentIdentityMetadata option) result"

record sql_env =
  conn_fault :: "AgentStoreError option" \<comment> \<open>a poisoned lock or a failed blocking task\<close>
  new_uuid :: "nat \<Rightarrow> string" \<comment> \<open>the simple form of the n-th \<open>Uuid::new_v4\<close> of the call\<close>
  sql_fault :: "nat \<Rightarrow> sqlite_error option" \<comment> \<open>what the n-th statement of the call reports\<close>

definition sql_check :: "sql_env \<Rightarrow> nat \<Rightarrow> unit StoreResult" where
  "sql_check E n = (case sql_fault E n of Some e \<Rightarrow> Inl (Sqlite e) | None \<Rightarrow> Inr ())"

text \<open>
  The connection to the database: what is committed, and, while a transaction is open, what the
  transaction works on.  A statement works on the open transaction, or else commits by itself; a
  statement that fails has no effect.
\<close>

record Connection =
  db_committed :: AgentPolicyStore
  db_open :: "AgentPolicyStore option"

type_synonym 'a db = "Connection \<Rightarrow> 'a StoreResult \<times> Connection"

definition db_visible :: "Connection \<Rightarrow> AgentPolicyStore" where
  "db_visible C = (case db_open C of None \<Rightarrow> db_committed C | Some S \<Rightarrow> S)"

definition db_change :: "AgentPolicyStore \<Rightarrow> Connection \<Rightarrow> Connection" where
  "db_change S C = (if db_open C = None then C\<lparr>db_committed := S\<rparr> else C\<lparr>db_open := Some S\<rparr>)"

definition db_result :: "'a StoreResult \<Rightarrow> 'a db" where
  "db_result r C = (r, C)"

definition db_bind :: "'a db \<Rightarrow> ('a \<Rightarrow> 'b db) \<Rightarrow> 'b db" where
  "db_bind m f C = (case m C of (Inl e, C) \<Rightarrow> (Inl e, C) | (Inr x, C) \<Rightarrow> f x C)"

definition db_query :: "(AgentPolicyStore \<Rightarrow> 'a StoreResult) \<Rightarrow> 'a db" where
  "db_query f C = (f (db_visible C), C)"

definition db_insert :: "(AgentPolicyStore \<Rightarrow> AgentPolicyStore StoreResult) \<Rightarrow> unit db" where
  "db_insert f C = (case f (db_visible C) of Inl e \<Rightarrow> (Inl e, C) | Inr S \<Rightarrow> (Inr (), db_change S C))"

text \<open>An update answers with the number of rows it changed.\<close>

definition db_update :: "sql_env \<Rightarrow> nat \<Rightarrow> (AgentPolicyStore \<Rightarrow> AgentPolicyStore \<times> nat) \<Rightarrow> nat db" where
  "db_update E n f C =
     (case sql_check E n of
        Inl e \<Rightarrow> (Inl e, C)
      | Inr _ \<Rightarrow> (case f (db_visible C) of (S, updated) \<Rightarrow> (Inr updated, db_change S C)))"

definition db_transaction :: "sql_env \<Rightarrow> nat \<Rightarrow> unit db" where
  "db_transaction E n C =
     (case sql_check E n of Inl e \<Rightarrow> (Inl e, C) | Inr _ \<Rightarrow> (Inr (), C\<lparr>db_open := Some (db_committed C)\<rparr>))"

definition db_commit :: "sql_env \<Rightarrow> nat \<Rightarrow> unit db" where
  "db_commit E n C =
     (case sql_check E n of Inl e \<Rightarrow> (Inl e, C) | Inr _ \<Rightarrow> (Inr (), \<lparr>db_committed = db_visible C, db_open = None\<rparr>))"

text \<open>
  \<open>with_conn\<close> takes the lock and runs the closure, and that is all: statements that have committed
  stay, whatever the closure returns.  A transaction is a local variable of the closure; one that is
  still open when the closure returns is dropped, which rolls it back.
\<close>

definition with_conn :: "sql_env \<Rightarrow> AgentPolicyStore \<Rightarrow> 'a db \<Rightarrow> 'a StoreResult \<times> AgentPolicyStore" where
  "with_conn E S f =
     (case conn_fault E of
        Some e \<Rightarrow> (Inl e, S)
      | None \<Rightarrow> (case f \<lparr>db_committed = S, db_open = None\<rparr> of (r, C) \<Rightarrow> (r, db_committed C)))"

definition read_conn :: "sql_env \<Rightarrow> 'a StoreResult \<Rightarrow> 'a StoreResult" where
  "read_conn E m = (case conn_fault E of Some e \<Rightarrow> Inl e | None \<Rightarrow> m)"

section \<open>Statements\<close>

definition insert_identity :: "sql_env \<Rightarrow> nat \<Rightarrow> identity_row \<Rightarrow> AgentPolicyStore \<Rightarrow> AgentPolicyStore StoreResult" where
  "insert_identity E n row S =
     rbind (sql_check E n) (\<lambda>_.
       if List.member (map id_agent_id (identities S)) (id_agent_id row)
       then Inl (Sqlite ConstraintViolation)
       else Inr (S\<lparr>identities := identities S @ [row]\<rparr>))"

definition insert_token :: "sql_env \<Rightarrow> nat \<Rightarrow> token_row \<Rightarrow> AgentPolicyStore \<Rightarrow> AgentPolicyStore StoreResult" where
  "insert_token E n row S =
     rbind (sql_check E n) (\<lambda>_.
       if List.member (map tok_token_id (tokens S)) (tok_token_id row)
       then Inl (Sqlite ConstraintViolation)
       else Inr (S\<lparr>tokens := tokens S @ [row]\<rparr>))"

text \<open>The index \<open>agent_grants_origin_request_unique\<close> admits one grant per origin request.\<close>

definition insert_grant :: "sql_env \<Rightarrow> nat \<Rightarrow> grant_row \<Rightarrow> AgentPolicyStore \<Rightarrow> AgentPolicyStore StoreResult" where
  "insert_grant E n row S =
     rbind (sql_check E n) (\<lambda>_.
       if List.member (map gr_grant_id (grants S)) (gr_grant_id row)
          \<or> gr_origin_request_id row \<noteq> None \<and> List.member (map gr_origin_request_id (grants S)) (gr_origin_request_id row)
       then Inl (Sqlite ConstraintViolation)
       else Inr (S\<lparr>grants := grants S @ [row]\<rparr>))"

definition insert_denial :: "sql_env \<Rightarrow> nat \<Rightarrow> denial_row \<Rightarrow> AgentPolicyStore \<Rightarrow> AgentPolicyStore StoreResult" where
  "insert_denial E n row S =
     rbind (sql_check E n) (\<lambda>_.
       if List.member (map dn_denial_id (denials S)) (dn_denial_id row)
       then Inl (Sqlite ConstraintViolation)
       else Inr (S\<lparr>denials := denials S @ [row]\<rparr>))"

definition pending_for :: "string \<Rightarrow> string \<Rightarrow> string \<Rightarrow> request_row \<Rightarrow> bool" where
  "pending_for a t acts r \<longleftrightarrow>
     rq_agent_id r = a \<and> rq_target_json r = t \<and> rq_actions_json r = acts \<and> rq_status r = ''pending''"

text \<open>The index \<open>agent_permission_requests_pending_unique\<close> admits one pending request per key.\<close>

definition insert_request :: "sql_env \<Rightarrow> nat \<Rightarrow> request_row \<Rightarrow> AgentPolicyStore \<Rightarrow> AgentPolicyStore StoreResult" where
  "insert_request E n row S =
     rbind (sql_check E n) (\<lambda>_.
       if List.member (map rq_request_id (requests S)) (rq_request_id row)
          \<or> rq_status row = ''pending''
            \<and> list_ex (pending_for (rq_agent_id row) (rq_target_json row) (rq_actions_json row)) (requests S)
       then Inl (Sqlite ConstraintViolation)
       else Inr (S\<lparr>requests := requests S @ [row]\<rparr>))"

definition canonicalize_actions :: "ActionClass list \<Rightarrow> ActionClass list" where
  "canonicalize_actions actions = remdups_adj (sort actions)"

definition insert_audit ::
  "libs \<Rightarrow> sql_env \<Rightarrow> nat \<Rightarrow> nat \<Rightarrow> AgentId \<Rightarrow> PermissionRequestId option \<Rightarrow> string option \<Rightarrow> TargetSelector \<Rightarrow>
   ActionClass list \<Rightarrow> string \<Rightarrow> GrantId option \<Rightarrow> DenialId option \<Rightarrow> u64 option \<Rightarrow> u64 option \<Rightarrow> u64 option \<Rightarrow>
   u64 option \<Rightarrow> string option \<Rightarrow> AgentPolicyStore \<Rightarrow> AgentPolicyStore StoreResult" where
  "insert_audit L E u n agent_id request_id route target actions decision grant denial
      requested_at decided_at expires_at executed_at reason S =
     (let audit_id = ''audit_'' @ new_uuid E u in
      rbind (map_err Json (target_to_json L target)) (\<lambda>target_json.
      rbind (map_err Json (actions_to_json L (canonicalize_actions actions))) (\<lambda>actions_json.
      rbind (sql_check E n) (\<lambda>_.
        if List.member (map au_audit_id (audit S)) audit_id
        then Inl (Sqlite ConstraintViolation)
        else Inr (S\<lparr>audit := audit S @
          [\<lparr>au_audit_id = audit_id, au_agent_id = agent_id, au_request_id = request_id, au_route = route,
            au_target_json = target_json, au_actions_json = actions_json, au_decision = decision,
            au_grant_id = grant, au_denial_id = denial, au_reason = reason,
            au_requested_at = requested_at, au_decided_at = decided_at, au_expires_at = expires_at,
            au_executed_at = executed_at\<rparr>]\<rparr>)))))"

section \<open>Reading rows\<close>

definition stored_identity_from_tuple :: "libs \<Rightarrow> identity_row \<Rightarrow> StoredAgentIdentity StoreResult" where
  "stored_identity_from_tuple L r =
     rbind (map_err Json (metadata_from_json L (id_metadata_json r))) (\<lambda>m.
     Inr \<lparr>si_agent_id = id_agent_id r, si_display_name = id_display_name r, si_metadata = m,
          si_created_at = id_created_at r, si_revoked_at = id_revoked_at r\<rparr>)"

definition stored_request_from_tuple :: "libs \<Rightarrow> request_row \<Rightarrow> StoredPermissionRequest StoreResult" where
  "stored_request_from_tuple L r =
     rbind (map_err Json (context_from_json L (rq_context_json r))) (\<lambda>c.
     rbind (map_err Json (target_from_json L (rq_target_json r))) (\<lambda>t.
     rbind (map_err Json (actions_from_json L (rq_actions_json r))) (\<lambda>acts.
     rbind (status_parse (rq_status r)) (\<lambda>st.
     Inr \<lparr>sr_context = c, sr_request_id = rq_request_id r, sr_agent_id = rq_agent_id r, sr_target = t,
          sr_actions = acts, sr_reason = rq_reason r, sr_status = st,
          sr_invalidation_reason = rq_invalidation_reason r, sr_created_at = rq_created_at r,
          sr_resolved_at = rq_resolved_at r\<rparr>))))"

definition stored_grant_from_tuple :: "libs \<Rightarrow> grant_row \<Rightarrow> StoredGrant StoreResult" where
  "stored_grant_from_tuple L r =
     rbind (map_err Json (target_from_json L (gr_target_json r))) (\<lambda>t.
     rbind (map_err Json (actions_from_json L (gr_actions_json r))) (\<lambda>acts.
     rbind (map_err Json (duration_from_json L (gr_duration_json r))) (\<lambda>d.
     rbind (map_err Json (constraints_from_json L (gr_constraints_json r))) (\<lambda>cs.
     Inr \<lparr>sg_grant_id = gr_grant_id r, sg_agent_id = gr_agent_id r,
          sg_origin_request_id = gr_origin_request_id r, sg_target = t, sg_actions = acts,
          sg_duration = d, sg_constraints = cs, sg_created_at = gr_created_at r,
          sg_expires_at = gr_expires_at r, sg_consumed_at = gr_consumed_at r,
          sg_revoked_at = gr_revoked_at r\<rparr>))))"

text \<open>\<open>row.map(f).transpose()\<close>\<close>

definition transpose_row :: "('r \<Rightarrow> 'a StoreResult) \<Rightarrow> 'r option \<Rightarrow> 'a option StoreResult" where
  "transpose_row f row = (case row of None \<Rightarrow> Inr None | Some r \<Rightarrow> rmap Some (f r))"

definition select_identity :: "libs \<Rightarrow> sql_env \<Rightarrow> nat \<Rightarrow> AgentPolicyStore \<Rightarrow> AgentId \<Rightarrow> StoredAgentIdentity option StoreResult" where
  "select_identity L E n S agent_id =
     rbind (sql_check E n) (\<lambda>_.
     transpose_row (stored_identity_from_tuple L) (find (\<lambda>r. id_agent_id r = agent_id) (identities S)))"

definition select_pending_request ::
  "libs \<Rightarrow> sql_env \<Rightarrow> nat \<Rightarrow> AgentPolicyStore \<Rightarrow> AgentId \<Rightarrow> string \<Rightarrow> string \<Rightarrow> StoredPermissionRequest option StoreResult" where
  "select_pending_request L E n S agent_id target_json actions_json =
     rbind (sql_check E n) (\<lambda>_.
     transpose_row (stored_request_from_tuple L)
       (find (pending_for agent_id target_json actions_json) (requests S)))"

definition select_request_by_id ::
  "libs \<Rightarrow> sql_env \<Rightarrow> nat \<Rightarrow> AgentPolicyStore \<Rightarrow> PermissionRequestId \<Rightarrow> StoredPermissionRequest option StoreResult" where
  "select_request_by_id L E n S request_id =
     rbind (sql_check E n) (\<lambda>_.
     transpose_row (stored_request_from_tuple L) (find (\<lambda>r. rq_request_id r = request_id) (requests S)))"

section \<open>Identities and tokens\<close>

definition token_for :: "AgentId \<Rightarrow> string \<Rightarrow> string" where
  "token_for agent_id secret = ''pta_'' @ agent_id @ ''.'' @ secret"

definition hash_token :: "libs \<Rightarrow> string \<Rightarrow> string" where
  "hash_token L token = sha256_hex L token"

definition create_identity ::
  "libs \<Rightarrow> sql_env \<Rightarrow> AgentPolicyStore \<Rightarrow> string \<Rightarrow> AgentIdentityMetadata option \<Rightarrow> u64 \<Rightarrow>
   CreatedAgentIdentity StoreResult \<times> AgentPolicyStore" where
  "create_identity L E S display_name metadata created_at =
     with_conn E S
       (let agent_id = ''agent_'' @ new_uuid E 0;
            token_id = ''tok_'' @ new_uuid E 1;
            token = token_for agent_id (new_uuid E 2);
            token_hash = hash_token L token
        in
        db_bind (db_result (map_err Json (metadata_to_json L metadata))) (\<lambda>metadata_json.
        db_bind (db_transaction E 0) (\<lambda>_.
        db_bind (db_insert (insert_identity E 1
          \<lparr>id_agent_id = agent_id, id_display_name = display_name, id_metadata_json = metadata_json,
           id_created_at = created_at, id_revoked_at = None\<rparr>)) (\<lambda>_.
        db_bind (db_insert (insert_token E 2
          \<lparr>tok_token_id = token_id, tok_agent_id = agent_id, tok_hash = token_hash,
           tok_created_at = created_at, tok_revoked_at = None\<rparr>)) (\<lambda>_.
        db_bind (db_commit E 3) (\<lambda>_.
        db_result (Inr \<lparr>ci_agent_id = agent_id, ci_token_id = token_id, ci_token = token\<rparr>)))))))"

definition list_identities :: "libs \<Rightarrow> sql_env \<Rightarrow> AgentPolicyStore \<Rightarrow> StoredAgentIdentity list StoreResult" where
  "list_identities L E S =
     read_conn E
       (rbind (sql_check E 0) (\<lambda>_.
        collect_results (map (stored_identity_from_tuple L)
          (sort_key (\<lambda>r. (id_created_at r, id_agent_id r)) (identities S)))))"

definition get_identity :: "libs \<Rightarrow> sql_env \<Rightarrow> AgentPolicyStore \<Rightarrow> AgentId \<Rightarrow> StoredAgentIdentity option StoreResult" where
  "get_identity L E S agent_id = read_conn E (select_identity L E 0 S agent_id)"

definition revoke_identity :: "sql_env \<Rightarrow> AgentPolicyStore \<Rightarrow> AgentId \<Rightarrow> u64 \<Rightarrow> bool StoreResult \<times> AgentPolicyStore" where
  "revoke_identity E S agent_id revoked_at =
     with_conn E S
       (db_bind (db_transaction E 0) (\<lambda>_.
        db_bind (db_update E 1 (\<lambda>S.
          let c = (\<lambda>r. id_agent_id r = agent_id \<and> id_revoked_at r = None) in
          (S\<lparr>identities := update_where c (\<lambda>r. r\<lparr>id_revoked_at := Some revoked_at\<rparr>) (identities S)\<rparr>,
           count_where c (identities S)))) (\<lambda>updated.
        db_bind (db_update E 2 (\<lambda>S.
          let c = (\<lambda>r. tok_agent_id r = agent_id \<and> tok_revoked_at r = None) in
          (S\<lparr>tokens := update_where c (\<lambda>r. r\<lparr>tok_revoked_at := Some revoked_at\<rparr>) (tokens S)\<rparr>,
           count_where c (tokens S)))) (\<lambda>_.
        db_bind (db_commit E 3) (\<lambda>_.
        db_result (Inr (updated = 1)))))))"

definition mint_token ::
  "libs \<Rightarrow> sql_env \<Rightarrow> AgentPolicyStore \<Rightarrow> AgentId \<Rightarrow> u64 \<Rightarrow> CreatedAgentToken StoreResult \<times> AgentPolicyStore" where
  "mint_token L E S agent_id created_at =
     with_conn E S
       (db_bind (db_query (\<lambda>S. rbind (sql_check E 0) (\<lambda>_.
          Inr (list_ex (\<lambda>r. id_agent_id r = agent_id \<and> id_revoked_at r = None) (identities S))))) (\<lambda>exists.
        if \<not> exists then db_result (Inl IdentityNotFound)
        else
          let token_id = ''tok_'' @ new_uuid E 0;
              token = token_for agent_id (new_uuid E 1)
          in
          db_bind (db_insert (insert_token E 1
            \<lparr>tok_token_id = token_id, tok_agent_id = agent_id, tok_hash = hash_token L token,
             tok_created_at = created_at, tok_revoked_at = None\<rparr>)) (\<lambda>_.
          db_result (Inr \<lparr>ct_token_id = token_id, ct_agent_id = agent_id, ct_token = token\<rparr>))))"

definition revoke_token ::
  "sql_env \<Rightarrow> AgentPolicyStore \<Rightarrow> AgentId \<Rightarrow> string \<Rightarrow> u64 \<Rightarrow> bool StoreResult \<times> AgentPolicyStore" where
  "revoke_token E S agent_id token_id revoked_at =
     with_conn E S
       (db_bind (db_update E 0 (\<lambda>S.
          let c = (\<lambda>r. tok_agent_id r = agent_id \<and> tok_token_id r = token_id \<and> tok_revoked_at r = None) in
          (S\<lparr>tokens := update_where c (\<lambda>r. r\<lparr>tok_revoked_at := Some revoked_at\<rparr>) (tokens S)\<rparr>,
           count_where c (tokens S)))) (\<lambda>updated.
        db_result (Inr (updated = 1))))"

definition parse_token_agent_id :: "string \<Rightarrow> AgentId option" where
  "parse_token_agent_id token =
     Option.bind (strip_prefix ''pta_'' token) (\<lambda>rest.
     Option.bind (split_once (CHR ''.'') rest) (\<lambda>(agent_id, secret).
       if agent_id = [] \<or> secret = [] then None else Some agent_id))"

text \<open>The join of the token's rows with the identity of its agent, both unrevoked.\<close>

definition live_token_hashes :: "AgentPolicyStore \<Rightarrow> AgentId \<Rightarrow> string list" where
  "live_token_hashes S agent_id =
     concat (map (\<lambda>t. map (\<lambda>i. tok_hash t)
         (filter (\<lambda>i. id_agent_id i = tok_agent_id t \<and> id_revoked_at i = None) (identities S)))
       (filter (\<lambda>t. tok_agent_id t = agent_id \<and> tok_revoked_at t = None) (tokens S)))"

definition authenticate_agent_token_in_conn ::
  "libs \<Rightarrow> sql_env \<Rightarrow> AgentPolicyStore \<Rightarrow> string \<Rightarrow> AgentId option StoreResult" where
  "authenticate_agent_token_in_conn L E S token =
     (case parse_token_agent_id token of
        None \<Rightarrow> Inr None
      | Some agent_id \<Rightarrow>
          rbind (sql_check E 0) (\<lambda>_.
          Inr (if list_ex (\<lambda>h. hash_token L token = h) (live_token_hashes S agent_id)
               then Some agent_id else None)))"

definition authenticate_agent_token :: "libs \<Rightarrow> sql_env \<Rightarrow> AgentPolicyStore \<Rightarrow> string \<Rightarrow> AgentId option StoreResult" where
  "authenticate_agent_token L E S token = read_conn E (authenticate_agent_token_in_conn L E S token)"

section \<open>Requests and decisions\<close>

definition find_or_create_pending_request ::
  "libs \<Rightarrow> sql_env \<Rightarrow> AgentPolicyStore \<Rightarrow> AgentId \<Rightarrow> TargetSelector \<Rightarrow> ActionClass list \<Rightarrow> string option \<Rightarrow>
   PermissionRequestContext \<Rightarrow> u64 \<Rightarrow> (StoredPermissionRequest \<times> bool) StoreResult \<times> AgentPolicyStore" where
  "find_or_create_pending_request L E S agent_id target actions reason context created_at =
     with_conn E S
       (let actions = canonicalize_actions actions in
        db_bind (db_result (map_err Json (target_to_json L target))) (\<lambda>target_json.
        db_bind (db_result (map_err Json (actions_to_json L actions))) (\<lambda>actions_json.
        db_bind (db_query (\<lambda>S. select_pending_request L E 0 S agent_id target_json actions_json)) (\<lambda>found.
        case found of
          Some existing \<Rightarrow> db_result (Inr (existing, False))
        | None \<Rightarrow>
            let request_id = ''apr_'' @ new_uuid E 0 in
            db_bind (db_transaction E 1) (\<lambda>_.
            db_bind (db_result (map_err Json (context_to_json L context))) (\<lambda>context_json.
            db_bind (db_insert (insert_request E 2
              \<lparr>rq_request_id = request_id, rq_agent_id = agent_id, rq_target_json = target_json,
               rq_actions_json = actions_json, rq_reason = reason, rq_status = ''pending'',
               rq_created_at = created_at, rq_resolved_at = None, rq_context_json = context_json,
               rq_invalidation_reason = None\<rparr>)) (\<lambda>_.
            db_bind (db_insert (insert_audit L E 1 3 agent_id (Some request_id) None target actions ''requested''
              None None (Some created_at) None None None reason)) (\<lambda>_.
            db_bind (db_commit E 4) (\<lambda>_.
            db_result (Inr (\<lparr>sr_context = context, sr_request_id = request_id, sr_agent_id = agent_id,
                      sr_target = target, sr_actions = actions, sr_reason = reason,
                      sr_status = StatusPending, sr_invalidation_reason = None,
                      sr_created_at = created_at, sr_resolved_at = None\<rparr>, True)))))))))))"

definition create_pending_request ::
  "libs \<Rightarrow> sql_env \<Rightarrow> AgentPolicyStore \<Rightarrow> AgentId \<Rightarrow> TargetSelector \<Rightarrow> ActionClass list \<Rightarrow> string option \<Rightarrow>
   u64 \<Rightarrow> StoredPermissionRequest StoreResult \<times> AgentPolicyStore" where
  "create_pending_request L E S agent_id target actions reason created_at =
     (let (r, S') = find_or_create_pending_request L E S agent_id target actions reason
                      PermissionRequestContext_default created_at
      in (rmap fst r, S'))"

definition get_permission_request ::
  "libs \<Rightarrow> sql_env \<Rightarrow> AgentPolicyStore \<Rightarrow> PermissionRequestId \<Rightarrow> StoredPermissionRequest option StoreResult" where
  "get_permission_request L E S request_id = read_conn E (select_request_by_id L E 0 S request_id)"

definition invalidate_request ::
  "libs \<Rightarrow> sql_env \<Rightarrow> AgentPolicyStore \<Rightarrow> PermissionRequestId \<Rightarrow> string \<Rightarrow> u64 \<Rightarrow>
   (StoredPermissionRequest \<times> bool) StoreResult \<times> AgentPolicyStore" where
  "invalidate_request L E S request_id reason decided_at =
     with_conn E S
       (db_bind (db_transaction E 0) (\<lambda>_.
        db_bind (db_query (\<lambda>S. select_request_by_id L E 1 S request_id)) (\<lambda>found.
        db_bind (db_result (ok_or found PermissionRequestNotFound)) (\<lambda>request.
        if sr_status request \<noteq> StatusPending then db_result (Inr (request, False))
        else
          db_bind (db_update E 2 (\<lambda>S.
            let c = (\<lambda>r. rq_request_id r = request_id \<and> rq_status r = ''pending'') in
            (S\<lparr>requests := update_where c (\<lambda>r. r\<lparr>rq_status := ''invalidated'',
                 rq_resolved_at := Some decided_at, rq_invalidation_reason := Some reason\<rparr>) (requests S)\<rparr>,
             count_where c (requests S)))) (\<lambda>updated.
          if updated = 0
          then db_bind (db_query (\<lambda>S. select_request_by_id L E 3 S request_id)) (\<lambda>found.
               db_bind (db_result (ok_or found PermissionRequestNotFound)) (\<lambda>current.
               db_result (Inr (current, False))))
          else
            db_bind (db_insert (insert_audit L E 0 3 (sr_agent_id request) (Some request_id) None (sr_target request)
              (sr_actions request) ''invalidated'' None None None (Some decided_at) None None (Some reason))) (\<lambda>_.
            db_bind (db_commit E 4) (\<lambda>_.
            db_result (Inr (request\<lparr>sr_status := StatusInvalidated, sr_resolved_at := Some decided_at,
                       sr_invalidation_reason := Some reason\<rparr>, True)))))))))"

definition approve_request ::
  "libs \<Rightarrow> sql_env \<Rightarrow> AgentPolicyStore \<Rightarrow> PermissionRequestId \<Rightarrow> DurationSpec \<Rightarrow> Constraint list \<Rightarrow> u64 \<Rightarrow>
   StoredGrant StoreResult \<times> AgentPolicyStore" where
  "approve_request L E S request_id duration cs decided_at =
     with_conn E S
       (db_bind (db_transaction E 0) (\<lambda>_.
        db_bind (db_query (\<lambda>S. select_request_by_id L E 1 S request_id)) (\<lambda>found.
        db_bind (db_result (ok_or found PermissionRequestNotFound)) (\<lambda>request.
        if sr_status request \<noteq> StatusPending then db_result (Inl PermissionRequestNotPending)
        else
          let grant_id = ''grant_'' @ new_uuid E 0;
              actions = canonicalize_actions (sr_actions request)
          in
          db_bind (db_result (map_err Json (target_to_json L (sr_target request)))) (\<lambda>target_json.
          db_bind (db_result (map_err Json (actions_to_json L actions))) (\<lambda>actions_json.
          db_bind (db_result (map_err Json (duration_to_json L duration))) (\<lambda>duration_json.
          db_bind (db_result (map_err Json (constraints_to_json L cs))) (\<lambda>constraints_json.
          let expires_at = (case duration of TimeBounded e \<Rightarrow> Some e | _ \<Rightarrow> None) in
          db_bind (db_insert (insert_grant E 2
            \<lparr>gr_grant_id = grant_id, gr_agent_id = sr_agent_id request,
             gr_origin_request_id = Some (sr_request_id request), gr_target_json = target_json,
             gr_actions_json = actions_json, gr_duration_json = duration_json,
             gr_constraints_json = constraints_json, gr_created_at = decided_at,
             gr_expires_at = expires_at, gr_consumed_at = None, gr_revoked_at = None\<rparr>)) (\<lambda>_.
          db_bind (db_update E 3 (\<lambda>S.
            let c = (\<lambda>r. rq_request_id r = sr_request_id request) in
            (S\<lparr>requests := update_where c (\<lambda>r. r\<lparr>rq_status := ''approved'', rq_resolved_at := Some decided_at\<rparr>)
                 (requests S)\<rparr>,
             count_where c (requests S)))) (\<lambda>_.
          db_bind (db_insert (insert_audit L E 1 4 (sr_agent_id request) (Some (sr_request_id request)) None
            (sr_target request) actions ''approved'' (Some grant_id) None None (Some decided_at)
            expires_at None None)) (\<lambda>_.
          db_bind (db_commit E 5) (\<lambda>_.
          db_result (Inr \<lparr>sg_grant_id = grant_id, sg_agent_id = sr_agent_id request,
                   sg_origin_request_id = Some (sr_request_id request), sg_target = sr_target request,
                   sg_actions = actions, sg_duration = duration, sg_constraints = cs,
                   sg_created_at = decided_at, sg_expires_at = expires_at, sg_consumed_at = None,
                   sg_revoked_at = None\<rparr>)))))))))))))"

definition list_pending_permission_requests ::
  "libs \<Rightarrow> sql_env \<Rightarrow> AgentPolicyStore \<Rightarrow> StoredPermissionRequest list StoreResult" where
  "list_pending_permission_requests L E S =
     read_conn E
       (rbind (sql_check E 0) (\<lambda>_.
        collect_results (map (stored_request_from_tuple L)
          (sort_key (\<lambda>r. (rq_created_at r, rq_request_id r))
            (filter (\<lambda>r. rq_status r = ''pending'') (requests S))))))"

definition list_active_grants :: "libs \<Rightarrow> sql_env \<Rightarrow> AgentPolicyStore \<Rightarrow> u64 \<Rightarrow> StoredGrant list StoreResult" where
  "list_active_grants L E S now =
     read_conn E
       (rbind (sql_check E 0) (\<lambda>_.
        collect_results (map (stored_grant_from_tuple L)
          (sort_key (\<lambda>r. (gr_created_at r, gr_grant_id r))
            (filter (\<lambda>r. gr_revoked_at r = None \<and> gr_consumed_at r = None
                \<and> (case gr_expires_at r of None \<Rightarrow> True | Some e \<Rightarrow> e > now)) (grants S))))))"

definition get_grant :: "libs \<Rightarrow> sql_env \<Rightarrow> AgentPolicyStore \<Rightarrow> GrantId \<Rightarrow> StoredGrant option StoreResult" where
  "get_grant L E S gid =
     read_conn E
       (rbind (sql_check E 0) (\<lambda>_.
        transpose_row (stored_grant_from_tuple L) (find (\<lambda>r. gr_grant_id r = gid) (grants S))))"

definition revoke_grant :: "sql_env \<Rightarrow> AgentPolicyStore \<Rightarrow> GrantId \<Rightarrow> u64 \<Rightarrow> bool StoreResult \<times> AgentPolicyStore" where
  "revoke_grant E S gid revoked_at =
     with_conn E S
       (db_bind (db_update E 0 (\<lambda>S.
          let c = (\<lambda>r. gr_grant_id r = gid \<and> gr_revoked_at r = None) in
          (S\<lparr>grants := update_where c (\<lambda>r. r\<lparr>gr_revoked_at := Some revoked_at\<rparr>) (grants S)\<rparr>,
           count_where c (grants S)))) (\<lambda>updated.
        db_result (Inr (updated = 1))))"

definition deny_request ::
  "libs \<Rightarrow> sql_env \<Rightarrow> AgentPolicyStore \<Rightarrow> PermissionRequestId \<Rightarrow> bool \<Rightarrow> string option \<Rightarrow> u64 \<Rightarrow>
   StoredPermissionRequest StoreResult \<times> AgentPolicyStore" where
  "deny_request L E S request_id remember reason decided_at =
     with_conn E S
       (db_bind (db_transaction E 0) (\<lambda>_.
        db_bind (db_query (\<lambda>S. select_request_by_id L E 1 S request_id)) (\<lambda>found.
        db_bind (db_result (ok_or found PermissionRequestNotFound)) (\<lambda>request.
        if sr_status request \<noteq> StatusPending then db_result (Inl PermissionRequestNotPending)
        else
          let actions = canonicalize_actions (sr_actions request);
              denial_id = ''deny_'' @ new_uuid E 0
          in
          db_bind (if remember
            then db_bind (db_result (map_err Json (target_to_json L (sr_target request)))) (\<lambda>target_json.
                 db_bind (db_result (map_err Json (actions_to_json L actions))) (\<lambda>actions_json.
                 db_bind (db_insert (insert_denial E 2
                   \<lparr>dn_denial_id = denial_id, dn_agent_id = sr_agent_id request,
                    dn_target_json = target_json, dn_actions_json = actions_json, dn_reason = reason,
                    dn_created_at = decided_at, dn_expires_at = None\<rparr>)) (\<lambda>_.
                 db_result (Inr (Some denial_id)))))
            else db_result (Inr None)) (\<lambda>denial.
          db_bind (db_update E 3 (\<lambda>S.
            let c = (\<lambda>r. rq_request_id r = sr_request_id request) in
            (S\<lparr>requests := update_where c (\<lambda>r. r\<lparr>rq_status := ''denied'', rq_resolved_at := Some decided_at\<rparr>)
                 (requests S)\<rparr>,
             count_where c (requests S)))) (\<lambda>_.
          db_bind (db_insert (insert_audit L E 1 4 (sr_agent_id request) (Some (sr_request_id request)) None
            (sr_target request) actions ''denied'' None denial None (Some decided_at) None None reason)) (\<lambda>_.
          db_bind (db_commit E 5) (\<lambda>_.
          db_result (Inr \<lparr>sr_context = sr_context request, sr_request_id = sr_request_id request,
                   sr_agent_id = sr_agent_id request, sr_target = sr_target request,
                   sr_actions = actions, sr_reason = sr_reason request, sr_status = StatusDenied,
                   sr_invalidation_reason = None, sr_created_at = sr_created_at request,
                   sr_resolved_at = Some decided_at\<rparr>)))))))))"

section \<open>Policy snapshots, consumption and execution audit\<close>

text \<open>One row of the grant loop: the grant, and whether it is a consumed \<open>Once\<close> grant.\<close>

definition snapshot_grant :: "libs \<Rightarrow> AgentId \<Rightarrow> grant_row \<Rightarrow> (Grant \<times> bool) StoreResult" where
  "snapshot_grant L agent_id r =
     rbind (map_err Json (duration_from_json L (gr_duration_json r))) (\<lambda>duration.
     rbind (map_err Json (target_from_json L (gr_target_json r))) (\<lambda>target.
     rbind (map_err Json (actions_from_json L (gr_actions_json r))) (\<lambda>actions.
     rbind (map_err Json (constraints_from_json L (gr_constraints_json r))) (\<lambda>cs.
     Inr (\<lparr>grant_id = gr_grant_id r, grant_agent_id = agent_id, grant_target = target,
           grant_actions = actions, grant_duration = duration, grant_constraints = cs\<rparr>,
          duration = Once \<and> gr_consumed_at r \<noteq> None)))))"

definition snapshot_denial :: "libs \<Rightarrow> AgentId \<Rightarrow> denial_row \<Rightarrow> Denial StoreResult" where
  "snapshot_denial L agent_id r =
     rbind (map_err Json (target_from_json L (dn_target_json r))) (\<lambda>target.
     rbind (map_err Json (actions_from_json L (dn_actions_json r))) (\<lambda>actions.
     Inr \<lparr>denial_id = dn_denial_id r, denial_agent_id = agent_id, denial_target = target,
          denial_actions = actions, denial_expires_at = dn_expires_at r\<rparr>))"

definition load_policy_snapshot :: "libs \<Rightarrow> sql_env \<Rightarrow> AgentPolicyStore \<Rightarrow> AgentId \<Rightarrow> PolicySnapshot StoreResult" where
  "load_policy_snapshot L E S agent_id =
     read_conn E
       (rbind (sql_check E 0) (\<lambda>_.
        rbind (collect_results (map (snapshot_grant L agent_id)
          (filter (\<lambda>r. gr_agent_id r = agent_id \<and> gr_revoked_at r = None) (grants S)))) (\<lambda>gs.
        rbind (sql_check E 1) (\<lambda>_.
        rbind (collect_results (map (snapshot_denial L agent_id)
          (filter (\<lambda>r. dn_agent_id r = agent_id) (denials S)))) (\<lambda>ds.
        Inr \<lparr>snap_grants = map fst gs, snap_denials = ds,
             snap_consumed_once = map (\<lambda>(g, _). grant_id g) (filter snd gs)\<rparr>)))))"

definition try_consume_once_grant ::
  "libs \<Rightarrow> sql_env \<Rightarrow> AgentPolicyStore \<Rightarrow> GrantId \<Rightarrow> u64 \<Rightarrow> bool StoreResult \<times> AgentPolicyStore" where
  "try_consume_once_grant L E S gid consumed_at =
     with_conn E S
       (db_bind (db_transaction E 0) (\<lambda>_.
        db_bind (db_query (\<lambda>S. rbind (sql_check E 1) (\<lambda>_.
          Inr (find (\<lambda>r. gr_grant_id r = gid) (grants S))))) (\<lambda>existing.
        case existing of
          None \<Rightarrow> db_result (Inr False)
        | Some row \<Rightarrow>
            db_bind (db_result (map_err Json (duration_from_json L (gr_duration_json row)))) (\<lambda>duration.
            if duration \<noteq> Once \<or> gr_consumed_at row \<noteq> None \<or> gr_revoked_at row \<noteq> None
            then db_result (Inr False)
            else
              db_bind (db_update E 2 (\<lambda>S.
                let c = (\<lambda>r. gr_grant_id r = gid \<and> gr_consumed_at r = None \<and> gr_revoked_at r = None) in
                (S\<lparr>grants := update_where c (\<lambda>r. r\<lparr>gr_consumed_at := Some consumed_at\<rparr>) (grants S)\<rparr>,
                 count_where c (grants S)))) (\<lambda>updated.
              db_bind (db_commit E 3) (\<lambda>_.
              db_result (Inr (updated = 1))))))))"

definition insert_execution_audit ::
  "libs \<Rightarrow> sql_env \<Rightarrow> AgentPolicyStore \<Rightarrow> ExecutionAuditRecord \<Rightarrow> unit StoreResult \<times> AgentPolicyStore" where
  "insert_execution_audit L E S rec =
     with_conn E S
       (let actions = canonicalize_actions (xa_actions rec) in
        db_insert (insert_audit L E 0 0 (xa_agent_id rec) (xa_request_id rec) (Some (xa_route rec))
          (xa_target rec) actions ''executed'' (xa_grant_id rec) (xa_denial_id rec) None None None
          (Some (xa_executed_at rec)) None))"

end
