(* ===== verification/Agent_Store_Atomic.thy ===== *)
theory Agent_Store_Atomic
  imports Agent_Store
begin

text \<open>
  The operations of the policy store are atomic.  Each operation of \<open>Agent_Store\<close> runs statement by
  statement on a connection, and any statement may fail.  Here each is shown to be one atomic change of
  the tables: the tables are new if and only if the operation returns a value.  The other theories reason
  with these equations.
\<close>

section \<open>Running a closure\<close>

definition settle :: "AgentPolicyStore \<Rightarrow> (AgentPolicyStore \<times> 'a) StoreResult \<Rightarrow> 'a StoreResult \<times> AgentPolicyStore" where
  "settle S m = (case m of Inl e \<Rightarrow> (Inl e, S) | Inr (S', a) \<Rightarrow> (Inr a, S'))"

definition atomically ::
  "sql_env \<Rightarrow> AgentPolicyStore \<Rightarrow> (AgentPolicyStore \<times> 'a) StoreResult \<Rightarrow> 'a StoreResult \<times> AgentPolicyStore" where
  "atomically E S m = (case conn_fault E of Some e \<Rightarrow> (Inl e, S) | None \<Rightarrow> settle S m)"

text \<open>What is committed after a closure that starts with \<open>S\<close> committed and \<open>w\<close> open.\<close>

definition db_run :: "AgentPolicyStore \<Rightarrow> AgentPolicyStore option \<Rightarrow> 'a db \<Rightarrow> 'a StoreResult \<times> AgentPolicyStore" where
  "db_run S w f = (case f \<lparr>db_committed = S, db_open = w\<rparr> of (r, C) \<Rightarrow> (r, db_committed C))"

definition db_or :: "AgentPolicyStore \<Rightarrow> 'a StoreResult \<Rightarrow> ('a \<Rightarrow> 'b StoreResult \<times> AgentPolicyStore) \<Rightarrow> 'b StoreResult \<times> AgentPolicyStore" where
  "db_or S r k = (case r of Inl e \<Rightarrow> (Inl e, S) | Inr a \<Rightarrow> k a)"

named_theorems db_simps "running a closure statement by statement"

lemmas db_defs = db_run_def db_or_def db_bind_def db_result_def db_query_def db_insert_def db_update_def
  db_transaction_def db_commit_def db_visible_def db_change_def

lemma with_conn_eq_atomically: "db_run S None f = settle S m \<Longrightarrow> with_conn E S f = atomically E S m"
  by (simp add: with_conn_def atomically_def db_run_def split: option.split)

lemma db_run_pure [db_simps]:
  "db_run S w (db_result r) = (r, S)"
  "db_run S w (db_bind (db_result r) k) = db_or S r (\<lambda>a. db_run S w (k a))"
  "db_run S w (if b then f else g) = (if b then db_run S w f else db_run S w g)"
  "db_run S w (case_option h j x) = case_option (db_run S w h) (\<lambda>y. db_run S w (j y)) x"
  by (auto simp: db_defs split: sum.splits option.splits)

lemma db_run_if [db_simps]:
  "db_run S w (db_bind (if b then f else g) k') = (if b then db_run S w (db_bind f k') else db_run S w (db_bind g k'))"
  by simp

lemma db_bind_assoc [db_simps]: "db_bind (db_bind m f) k = db_bind m (\<lambda>a. db_bind (f a) k)"
  by (auto simp: db_bind_def fun_eq_iff split: prod.splits sum.splits)

lemma db_run_in_transaction [db_simps]:
  "db_run S (Some W) (db_bind (db_query f) k) = db_or S (f W) (\<lambda>a. db_run S (Some W) (k a))"
  "db_run S (Some W) (db_bind (db_insert ins) l) = db_or S (ins W) (\<lambda>W. db_run S (Some W) (l ()))"
  "db_run S (Some W) (db_bind (db_update E n u) m) =
     db_or S (sql_check E n) (\<lambda>_. db_run S (Some (fst (u W))) (m (snd (u W))))"
  "db_run S (Some W) (db_bind (db_commit E n) l) = db_or S (sql_check E n) (\<lambda>_. db_run W None (l ()))"
  by (auto simp: db_defs split: sum.splits prod.splits)

lemma db_run_by_itself [db_simps]:
  "db_run S None (db_bind (db_query f) k) = db_or S (f S) (\<lambda>a. db_run S None (k a))"
  "db_run S None (db_bind (db_insert ins) l) = db_or S (ins S) (\<lambda>S. db_run S None (l ()))"
  "db_run S None (db_insert ins) = db_or S (ins S) (\<lambda>S. (Inr (), S))"
  "db_run S None (db_bind (db_update E n u) m) = db_or S (sql_check E n) (\<lambda>_. db_run (fst (u S)) None (m (snd (u S))))"
  "db_run S None (db_bind (db_transaction E n) l) = db_or S (sql_check E n) (\<lambda>_. db_run S (Some S) (l ()))"
  by (auto simp: db_defs split: sum.splits prod.splits)

lemma db_or_simps [db_simps]:
  "db_or S (Inr x) k = k x"
  "db_or S (Inl e) k = (Inl e, S)"
  "db_or S (rbind r f) k = db_or S r (\<lambda>a. db_or S (f a) k)"
  "db_or S (if b then q else q') k = (if b then db_or S q k else db_or S q' k)"
  by (simp_all add: db_or_def rbind_def split: sum.splits)

lemma settle_simps [db_simps]:
  "settle S (rbind r f) = db_or S r (\<lambda>a. settle S (f a))"
  "settle S (Inl e) = (Inl e, S)"
  "settle S (Inr (S', a)) = (Inr a, S')"
  "settle S (if b then p else p') = (if b then settle S p else settle S p')"
  "settle S (case_option q h x) = case_option (settle S q) (\<lambda>y. settle S (h y)) x"
  by (simp_all add: settle_def db_or_def rbind_def split: sum.splits option.splits)

lemma update_where_none: "count_where c rows = 0 \<Longrightarrow> update_where c f rows = rows"
  by (simp add: count_where_0 update_where_id)

section \<open>The operations\<close>

lemma create_identity_atomic:
  "create_identity L E S display_name metadata created_at =
     atomically E S
       (let agent_id = ''agent_'' @ new_uuid E 0;
            token_id = ''tok_'' @ new_uuid E 1;
            token = token_for agent_id (new_uuid E 2);
            token_hash = hash_token L token
        in
        rbind (map_err Json (metadata_to_json L metadata)) (\<lambda>metadata_json.
        rbind (sql_check E 0) (\<lambda>_.
        rbind (insert_identity E 1
          \<lparr>id_agent_id = agent_id, id_display_name = display_name, id_metadata_json = metadata_json,
           id_created_at = created_at, id_revoked_at = None\<rparr> S) (\<lambda>S.
        rbind (insert_token E 2
          \<lparr>tok_token_id = token_id, tok_agent_id = agent_id, tok_hash = token_hash,
           tok_created_at = created_at, tok_revoked_at = None\<rparr> S) (\<lambda>S.
        rbind (sql_check E 3) (\<lambda>_.
        Inr (S, \<lparr>ci_agent_id = agent_id, ci_token_id = token_id, ci_token = token\<rparr>)))))))"
  unfolding create_identity_def Let_def
  by (rule with_conn_eq_atomically) (simp add: db_simps cong: if_cong option.case_cong)

lemma revoke_identity_atomic:
  "revoke_identity E S agent_id revoked_at =
     atomically E S
       (rbind (sql_check E 0) (\<lambda>_.
        rbind (sql_check E 1) (\<lambda>_.
        let c = (\<lambda>r. id_agent_id r = agent_id \<and> id_revoked_at r = None);
            updated = count_where c (identities S)
        in
        rbind (sql_check E 2) (\<lambda>_.
        rbind (sql_check E 3) (\<lambda>_.
        Inr (S\<lparr>identities := update_where c (\<lambda>r. r\<lparr>id_revoked_at := Some revoked_at\<rparr>) (identities S),
               tokens := update_where (\<lambda>r. tok_agent_id r = agent_id \<and> tok_revoked_at r = None)
                           (\<lambda>r. r\<lparr>tok_revoked_at := Some revoked_at\<rparr>) (tokens S)\<rparr>,
             updated = 1))))))"
  unfolding revoke_identity_def Let_def
  by (rule with_conn_eq_atomically) (simp add: db_simps cong: if_cong option.case_cong)

lemma mint_token_atomic:
  "mint_token L E S agent_id created_at =
     atomically E S
       (rbind (sql_check E 0) (\<lambda>_.
        if \<not> list_ex (\<lambda>r. id_agent_id r = agent_id \<and> id_revoked_at r = None) (identities S)
        then Inl IdentityNotFound
        else
          let token_id = ''tok_'' @ new_uuid E 0;
              token = token_for agent_id (new_uuid E 1)
          in
          rbind (insert_token E 1
            \<lparr>tok_token_id = token_id, tok_agent_id = agent_id, tok_hash = hash_token L token,
             tok_created_at = created_at, tok_revoked_at = None\<rparr> S) (\<lambda>S.
          Inr (S, \<lparr>ct_token_id = token_id, ct_agent_id = agent_id, ct_token = token\<rparr>))))"
  unfolding mint_token_def Let_def
  by (rule with_conn_eq_atomically) (simp add: db_simps cong: if_cong option.case_cong)

lemma revoke_token_atomic:
  "revoke_token E S agent_id token_id revoked_at =
     atomically E S
       (rbind (sql_check E 0) (\<lambda>_.
        let c = (\<lambda>r. tok_agent_id r = agent_id \<and> tok_token_id r = token_id \<and> tok_revoked_at r = None) in
        Inr (S\<lparr>tokens := update_where c (\<lambda>r. r\<lparr>tok_revoked_at := Some revoked_at\<rparr>) (tokens S)\<rparr>,
             count_where c (tokens S) = 1)))"
  unfolding revoke_token_def Let_def
  by (rule with_conn_eq_atomically) (simp add: db_simps cong: if_cong option.case_cong)

lemma find_or_create_pending_request_atomic:
  "find_or_create_pending_request L E S agent_id target actions reason context created_at =
     atomically E S
       (let actions = canonicalize_actions actions in
        rbind (map_err Json (target_to_json L target)) (\<lambda>target_json.
        rbind (map_err Json (actions_to_json L actions)) (\<lambda>actions_json.
        rbind (select_pending_request L E 0 S agent_id target_json actions_json) (\<lambda>found.
        case found of
          Some existing \<Rightarrow> Inr (S, (existing, False))
        | None \<Rightarrow>
            let request_id = ''apr_'' @ new_uuid E 0 in
            rbind (sql_check E 1) (\<lambda>_.
            rbind (map_err Json (context_to_json L context)) (\<lambda>context_json.
            rbind (insert_request E 2
              \<lparr>rq_request_id = request_id, rq_agent_id = agent_id, rq_target_json = target_json,
               rq_actions_json = actions_json, rq_reason = reason, rq_status = ''pending'',
               rq_created_at = created_at, rq_resolved_at = None, rq_context_json = context_json,
               rq_invalidation_reason = None\<rparr> S) (\<lambda>S.
            rbind (insert_audit L E 1 3 agent_id (Some request_id) None target actions ''requested''
              None None (Some created_at) None None None reason S) (\<lambda>S.
            rbind (sql_check E 4) (\<lambda>_.
            Inr (S, (\<lparr>sr_context = context, sr_request_id = request_id, sr_agent_id = agent_id,
                      sr_target = target, sr_actions = actions, sr_reason = reason,
                      sr_status = StatusPending, sr_invalidation_reason = None,
                      sr_created_at = created_at, sr_resolved_at = None\<rparr>, True)))))))))))"
  unfolding find_or_create_pending_request_def Let_def
  by (rule with_conn_eq_atomically) (simp add: db_simps cong: if_cong option.case_cong)

lemma invalidate_request_atomic:
  "invalidate_request L E S request_id reason decided_at =
     atomically E S
       (rbind (sql_check E 0) (\<lambda>_.
        rbind (select_request_by_id L E 1 S request_id) (\<lambda>found.
        rbind (ok_or found PermissionRequestNotFound) (\<lambda>request.
        if sr_status request \<noteq> StatusPending then Inr (S, (request, False))
        else
          rbind (sql_check E 2) (\<lambda>_.
          let c = (\<lambda>r. rq_request_id r = request_id \<and> rq_status r = ''pending'') in
          if count_where c (requests S) = 0
          then rbind (select_request_by_id L E 3 S request_id) (\<lambda>found.
               rbind (ok_or found PermissionRequestNotFound) (\<lambda>current. Inr (S, (current, False))))
          else
            let S = S\<lparr>requests := update_where c (\<lambda>r. r\<lparr>rq_status := ''invalidated'',
                        rq_resolved_at := Some decided_at, rq_invalidation_reason := Some reason\<rparr>) (requests S)\<rparr>
            in
            rbind (insert_audit L E 0 3 (sr_agent_id request) (Some request_id) None (sr_target request)
              (sr_actions request) ''invalidated'' None None None (Some decided_at) None None (Some reason) S) (\<lambda>S.
            rbind (sql_check E 4) (\<lambda>_.
            Inr (S, (request\<lparr>sr_status := StatusInvalidated, sr_resolved_at := Some decided_at,
                       sr_invalidation_reason := Some reason\<rparr>, True)))))))))"
  unfolding invalidate_request_def Let_def
  by (rule with_conn_eq_atomically) (simp add: db_simps update_where_none cong: if_cong option.case_cong)

lemma approve_request_atomic:
  "approve_request L E S request_id duration cs decided_at =
     atomically E S
       (rbind (sql_check E 0) (\<lambda>_.
        rbind (select_request_by_id L E 1 S request_id) (\<lambda>found.
        rbind (ok_or found PermissionRequestNotFound) (\<lambda>request.
        if sr_status request \<noteq> StatusPending then Inl PermissionRequestNotPending
        else
          let grant_id = ''grant_'' @ new_uuid E 0;
              actions = canonicalize_actions (sr_actions request)
          in
          rbind (map_err Json (target_to_json L (sr_target request))) (\<lambda>target_json.
          rbind (map_err Json (actions_to_json L actions)) (\<lambda>actions_json.
          rbind (map_err Json (duration_to_json L duration)) (\<lambda>duration_json.
          rbind (map_err Json (constraints_to_json L cs)) (\<lambda>constraints_json.
          let expires_at = (case duration of TimeBounded e \<Rightarrow> Some e | _ \<Rightarrow> None) in
          rbind (insert_grant E 2
            \<lparr>gr_grant_id = grant_id, gr_agent_id = sr_agent_id request,
             gr_origin_request_id = Some (sr_request_id request), gr_target_json = target_json,
             gr_actions_json = actions_json, gr_duration_json = duration_json,
             gr_constraints_json = constraints_json, gr_created_at = decided_at,
             gr_expires_at = expires_at, gr_consumed_at = None, gr_revoked_at = None\<rparr> S) (\<lambda>S.
          rbind (sql_check E 3) (\<lambda>_.
          let S = S\<lparr>requests := update_where (\<lambda>r. rq_request_id r = sr_request_id request)
                      (\<lambda>r. r\<lparr>rq_status := ''approved'', rq_resolved_at := Some decided_at\<rparr>) (requests S)\<rparr>
          in
          rbind (insert_audit L E 1 4 (sr_agent_id request) (Some (sr_request_id request)) None
            (sr_target request) actions ''approved'' (Some grant_id) None None (Some decided_at)
            expires_at None None S) (\<lambda>S.
          rbind (sql_check E 5) (\<lambda>_.
          Inr (S, \<lparr>sg_grant_id = grant_id, sg_agent_id = sr_agent_id request,
                   sg_origin_request_id = Some (sr_request_id request), sg_target = sr_target request,
                   sg_actions = actions, sg_duration = duration, sg_constraints = cs,
                   sg_created_at = decided_at, sg_expires_at = expires_at, sg_consumed_at = None,
                   sg_revoked_at = None\<rparr>)))))))))))))"
  unfolding approve_request_def Let_def
  by (rule with_conn_eq_atomically) (simp add: db_simps cong: if_cong option.case_cong)

lemma revoke_grant_atomic:
  "revoke_grant E S gid revoked_at =
     atomically E S
       (rbind (sql_check E 0) (\<lambda>_.
        let c = (\<lambda>r. gr_grant_id r = gid \<and> gr_revoked_at r = None) in
        Inr (S\<lparr>grants := update_where c (\<lambda>r. r\<lparr>gr_revoked_at := Some revoked_at\<rparr>) (grants S)\<rparr>,
             count_where c (grants S) = 1)))"
  unfolding revoke_grant_def Let_def
  by (rule with_conn_eq_atomically) (simp add: db_simps cong: if_cong option.case_cong)

lemma deny_request_atomic:
  "deny_request L E S request_id remember reason decided_at =
     atomically E S
       (rbind (sql_check E 0) (\<lambda>_.
        rbind (select_request_by_id L E 1 S request_id) (\<lambda>found.
        rbind (ok_or found PermissionRequestNotFound) (\<lambda>request.
        if sr_status request \<noteq> StatusPending then Inl PermissionRequestNotPending
        else
          let actions = canonicalize_actions (sr_actions request);
              denial_id = ''deny_'' @ new_uuid E 0
          in
          rbind (if remember
            then rbind (map_err Json (target_to_json L (sr_target request))) (\<lambda>target_json.
                 rbind (map_err Json (actions_to_json L actions)) (\<lambda>actions_json.
                 rbind (insert_denial E 2
                   \<lparr>dn_denial_id = denial_id, dn_agent_id = sr_agent_id request,
                    dn_target_json = target_json, dn_actions_json = actions_json, dn_reason = reason,
                    dn_created_at = decided_at, dn_expires_at = None\<rparr> S) (\<lambda>S.
                 Inr (S, Some denial_id))))
            else Inr (S, None)) (\<lambda>(S, denial).
          rbind (sql_check E 3) (\<lambda>_.
          let S = S\<lparr>requests := update_where (\<lambda>r. rq_request_id r = sr_request_id request)
                      (\<lambda>r. r\<lparr>rq_status := ''denied'', rq_resolved_at := Some decided_at\<rparr>) (requests S)\<rparr>
          in
          rbind (insert_audit L E 1 4 (sr_agent_id request) (Some (sr_request_id request)) None
            (sr_target request) actions ''denied'' None denial None (Some decided_at) None None reason S) (\<lambda>S.
          rbind (sql_check E 5) (\<lambda>_.
          Inr (S, \<lparr>sr_context = sr_context request, sr_request_id = sr_request_id request,
                   sr_agent_id = sr_agent_id request, sr_target = sr_target request,
                   sr_actions = actions, sr_reason = sr_reason request, sr_status = StatusDenied,
                   sr_invalidation_reason = None, sr_created_at = sr_created_at request,
                   sr_resolved_at = Some decided_at\<rparr>)))))))))"
  unfolding deny_request_def Let_def
  by (rule with_conn_eq_atomically) (simp add: db_simps cong: if_cong option.case_cong)

lemma try_consume_once_grant_atomic:
  "try_consume_once_grant L E S gid consumed_at =
     atomically E S
       (rbind (sql_check E 0) (\<lambda>_.
        rbind (sql_check E 1) (\<lambda>_.
        case find (\<lambda>r. gr_grant_id r = gid) (grants S) of
          None \<Rightarrow> Inr (S, False)
        | Some row \<Rightarrow>
            rbind (map_err Json (duration_from_json L (gr_duration_json row))) (\<lambda>duration.
            if duration \<noteq> Once \<or> gr_consumed_at row \<noteq> None \<or> gr_revoked_at row \<noteq> None
            then Inr (S, False)
            else
              let c = (\<lambda>r. gr_grant_id r = gid \<and> gr_consumed_at r = None \<and> gr_revoked_at r = None) in
              rbind (sql_check E 2) (\<lambda>_.
              rbind (sql_check E 3) (\<lambda>_.
              Inr (S\<lparr>grants := update_where c (\<lambda>r. r\<lparr>gr_consumed_at := Some consumed_at\<rparr>) (grants S)\<rparr>,
                   count_where c (grants S) = 1)))))))"
  unfolding try_consume_once_grant_def Let_def
  by (rule with_conn_eq_atomically) (simp add: db_simps cong: if_cong option.case_cong)

lemma insert_execution_audit_atomic:
  "insert_execution_audit L E S rec =
     atomically E S
       (let actions = canonicalize_actions (xa_actions rec) in
        rbind (insert_audit L E 0 0 (xa_agent_id rec) (xa_request_id rec) (Some (xa_route rec))
          (xa_target rec) actions ''executed'' (xa_grant_id rec) (xa_denial_id rec) None None None
          (Some (xa_executed_at rec)) None S) (\<lambda>S. Inr (S, ())))"
  unfolding insert_execution_audit_def Let_def
  by (rule with_conn_eq_atomically) (simp add: db_simps cong: if_cong option.case_cong)

end
