(* ===== verification/Agent_Store_Inv.thy ===== *)
theory Agent_Store_Inv
  imports Agent_Store_Atomic
begin

text \<open>
  What the operations of the policy store do to the tables, and what every run of them keeps.
  \<open>store_effect\<close> is the abstract specification: the few ways in which the tables may change.
  Each operation refines it (\<open>store_step_effect\<close>), and the invariant \<open>store_wf\<close> and the
  monotonicity facts are proved once, by cases on the effect.
\<close>

section \<open>Calculating with statements\<close>

lemma sql_check_eq_Inr [result_simps]: "sql_check E n = Inr u \<longleftrightarrow> sql_fault E n = None"
  by (auto simp: sql_check_def split: option.splits)

lemma sql_check_eq_Inl [result_simps]: "sql_check E n = Inl e \<longleftrightarrow> (\<exists>f. sql_fault E n = Some f \<and> e = Sqlite f)"
  by (auto simp: sql_check_def split: option.splits)

lemma sql_check_None [simp]: "sql_fault E n = None \<Longrightarrow> sql_check E n = Inr ()"
  by (simp add: sql_check_def)

lemma insert_identity_Inr [result_simps]:
  "insert_identity E n row S = Inr S' \<longleftrightarrow>
   sql_fault E n = None \<and> id_agent_id row \<notin> id_agent_id ` set (identities S) \<and>
   S' = S\<lparr>identities := identities S @ [row]\<rparr>"
  by (auto simp: insert_identity_def result_simps)

lemma insert_token_Inr [result_simps]:
  "insert_token E n row S = Inr S' \<longleftrightarrow>
   sql_fault E n = None \<and> tok_token_id row \<notin> tok_token_id ` set (tokens S) \<and>
   S' = S\<lparr>tokens := tokens S @ [row]\<rparr>"
  by (auto simp: insert_token_def result_simps)

lemma insert_grant_Inr [result_simps]:
  "insert_grant E n row S = Inr S' \<longleftrightarrow>
   sql_fault E n = None \<and> gr_grant_id row \<notin> gr_grant_id ` set (grants S) \<and>
   (gr_origin_request_id row = None \<or> gr_origin_request_id row \<notin> gr_origin_request_id ` set (grants S)) \<and>
   S' = S\<lparr>grants := grants S @ [row]\<rparr>"
  by (auto simp: insert_grant_def result_simps)

lemma insert_denial_Inr [result_simps]:
  "insert_denial E n row S = Inr S' \<longleftrightarrow>
   sql_fault E n = None \<and> dn_denial_id row \<notin> dn_denial_id ` set (denials S) \<and>
   S' = S\<lparr>denials := denials S @ [row]\<rparr>"
  by (auto simp: insert_denial_def result_simps)

lemma insert_request_Inr [result_simps]:
  "insert_request E n row S = Inr S' \<longleftrightarrow>
   sql_fault E n = None \<and> rq_request_id row \<notin> rq_request_id ` set (requests S) \<and>
   (rq_status row \<noteq> ''pending'' \<or>
    (\<forall>r \<in> set (requests S). \<not> pending_for (rq_agent_id row) (rq_target_json row) (rq_actions_json row) r)) \<and>
   S' = S\<lparr>requests := requests S @ [row]\<rparr>"
  by (auto simp: insert_request_def result_simps list_ex_iff)

lemma insert_audit_Inr:
  assumes "insert_audit L E u n a q route t acts dec g d rt dt et xt rs S = Inr S'"
  shows "\<exists>row. au_audit_id row \<notin> au_audit_id ` set (audit S) \<and> au_agent_id row = a \<and> au_request_id row = q \<and>
    au_decision row = dec \<and> au_grant_id row = g \<and> au_denial_id row = d \<and> S' = S\<lparr>audit := audit S @ [row]\<rparr>"
  using assms
  by (intro exI [of _ "last (audit S')"]) (auto simp: insert_audit_def Let_def result_simps split: if_splits)

lemma atomically_cases:
  assumes "atomically E S m = (r, S')"
  obtains (failed) e where "r = Inl e" "S' = S"
  | (succeeded) x where "r = Inr x" "conn_fault E = None" "m = Inr (S', x)"
  using assms by (auto simp: atomically_def settle_def split: option.splits sum.splits prod.splits)

lemma atomically_Inr [result_simps]:
  "atomically E S m = (Inr x, S') \<longleftrightarrow> conn_fault E = None \<and> m = Inr (S', x)"
  by (auto simp: atomically_def settle_def split: option.splits sum.splits prod.splits)

lemma atomically_Inl: "atomically E S m = (Inl e, S') \<Longrightarrow> S' = S"
  by (auto simp: atomically_def settle_def split: option.splits sum.splits prod.splits)

lemma status_parse_as_str [simp]: "status_parse (status_as_str st) = Inr st"
  by (cases st) (auto simp: status_parse_def)

lemma status_parse_Inr: "status_parse s = Inr st \<longleftrightarrow> s = status_as_str st"
  by (cases st) (auto simp: status_parse_def split: if_splits)

lemma transpose_row_Some [result_simps]:
  "transpose_row f row = Inr (Some x) \<longleftrightarrow> (\<exists>r. row = Some r \<and> f r = Inr x)"
  by (auto simp: transpose_row_def result_simps split: option.splits)

lemma transpose_row_None [result_simps]: "transpose_row f row = Inr None \<longleftrightarrow> row = None"
  by (auto simp: transpose_row_def result_simps split: option.splits)

lemma stored_request_fields:
  assumes "stored_request_from_tuple L r = Inr q"
  shows "sr_request_id q = rq_request_id r" "sr_agent_id q = rq_agent_id r"
    "rq_status r = status_as_str (sr_status q)"
    "target_from_json L (rq_target_json r) = Inr (sr_target q)"
    "actions_from_json L (rq_actions_json r) = Inr (sr_actions q)"
  using assms by (auto simp: stored_request_from_tuple_def result_simps status_parse_Inr)

lemma select_request_by_id_Some:
  assumes "select_request_by_id L E n S qid = Inr (Some q)"
  obtains r where "r \<in> set (requests S)" "rq_request_id r = qid"
    "find (\<lambda>r. rq_request_id r = qid) (requests S) = Some r" "stored_request_from_tuple L r = Inr q"
  using assms by (auto simp: select_request_by_id_def result_simps dest: find_Some_in)

section \<open>Effects\<close>

definition resolve_row :: "string \<Rightarrow> u64 \<Rightarrow> string option \<Rightarrow> request_row \<Rightarrow> request_row" where
  "resolve_row st t iv r =
     r\<lparr>rq_status := st, rq_resolved_at := Some t,
       rq_invalidation_reason := (case iv of None \<Rightarrow> rq_invalidation_reason r | Some x \<Rightarrow> Some x)\<rparr>"

lemma resolve_row_fields [simp]:
  "rq_request_id (resolve_row st t iv r) = rq_request_id r"
  "rq_agent_id (resolve_row st t iv r) = rq_agent_id r"
  "rq_target_json (resolve_row st t iv r) = rq_target_json r"
  "rq_actions_json (resolve_row st t iv r) = rq_actions_json r"
  "rq_status (resolve_row st t iv r) = st"
  by (simp_all add: resolve_row_def)

inductive store_effect :: "AgentPolicyStore \<Rightarrow> AgentPolicyStore \<Rightarrow> bool" where
  unchanged: "store_effect S S"
| identity_added:
    "id_agent_id i \<notin> id_agent_id ` set (identities S) \<Longrightarrow> id_revoked_at i = None \<Longrightarrow>
     tok_token_id t \<notin> tok_token_id ` set (tokens S) \<Longrightarrow> tok_agent_id t = id_agent_id i \<Longrightarrow>
     store_effect S (S\<lparr>identities := identities S @ [i], tokens := tokens S @ [t]\<rparr>)"
| token_added:
    "i \<in> set (identities S) \<Longrightarrow> id_revoked_at i = None \<Longrightarrow> tok_agent_id t = id_agent_id i \<Longrightarrow>
     tok_token_id t \<notin> tok_token_id ` set (tokens S) \<Longrightarrow>
     store_effect S (S\<lparr>tokens := tokens S @ [t]\<rparr>)"
| identity_revoked:
    "store_effect S (S\<lparr>
       identities := update_where (\<lambda>r. id_agent_id r = a \<and> id_revoked_at r = None)
                       (\<lambda>r. r\<lparr>id_revoked_at := Some now\<rparr>) (identities S),
       tokens := update_where (\<lambda>r. tok_agent_id r = a \<and> tok_revoked_at r = None)
                   (\<lambda>r. r\<lparr>tok_revoked_at := Some now\<rparr>) (tokens S)\<rparr>)"
| token_revoked:
    "store_effect S (S\<lparr>tokens :=
       update_where (\<lambda>r. tok_agent_id r = a \<and> tok_token_id r = k \<and> tok_revoked_at r = None)
         (\<lambda>r. r\<lparr>tok_revoked_at := Some now\<rparr>) (tokens S)\<rparr>)"
| request_added:
    "rq_request_id r \<notin> rq_request_id ` set (requests S) \<Longrightarrow> rq_status r = ''pending'' \<Longrightarrow>
     (\<And>r'. r' \<in> set (requests S) \<Longrightarrow>
        \<not> pending_for (rq_agent_id r) (rq_target_json r) (rq_actions_json r) r') \<Longrightarrow>
     au_audit_id w \<notin> au_audit_id ` set (audit S) \<Longrightarrow> au_request_id w = Some (rq_request_id r) \<Longrightarrow>
     au_decision w = ''requested'' \<Longrightarrow>
     store_effect S (S\<lparr>requests := requests S @ [r], audit := audit S @ [w]\<rparr>)"
| request_denied:
    "r \<in> set (requests S) \<Longrightarrow> rq_request_id r = q \<Longrightarrow> rq_status r = ''pending'' \<Longrightarrow>
     distinct (map dn_denial_id ds) \<Longrightarrow> dn_denial_id ` set ds \<inter> dn_denial_id ` set (denials S) = {} \<Longrightarrow>
     au_audit_id w \<notin> au_audit_id ` set (audit S) \<Longrightarrow> au_request_id w = Some q \<Longrightarrow>
     au_decision w = ''denied'' \<Longrightarrow>
     store_effect S (S\<lparr>denials := denials S @ ds,
       requests := update_where (\<lambda>x. rq_request_id x = q) (resolve_row ''denied'' now None) (requests S),
       audit := audit S @ [w]\<rparr>)"
| request_invalidated:
    "r \<in> set (requests S) \<Longrightarrow> rq_request_id r = q \<Longrightarrow> rq_status r = ''pending'' \<Longrightarrow>
     au_audit_id w \<notin> au_audit_id ` set (audit S) \<Longrightarrow> au_request_id w = Some q \<Longrightarrow>
     au_decision w = ''invalidated'' \<Longrightarrow>
     store_effect S (S\<lparr>
       requests := update_where (\<lambda>x. rq_request_id x = q) (resolve_row ''invalidated'' now iv) (requests S),
       audit := audit S @ [w]\<rparr>)"
| request_approved:
    "r \<in> set (requests S) \<Longrightarrow> rq_request_id r = q \<Longrightarrow> rq_status r = ''pending'' \<Longrightarrow>
     gr_grant_id g \<notin> gr_grant_id ` set (grants S) \<Longrightarrow>
     gr_origin_request_id g = Some q \<Longrightarrow> gr_agent_id g = rq_agent_id r \<Longrightarrow>
     Some q \<notin> gr_origin_request_id ` set (grants S) \<Longrightarrow>
     au_audit_id w \<notin> au_audit_id ` set (audit S) \<Longrightarrow> au_request_id w = Some q \<Longrightarrow>
     au_decision w = ''approved'' \<Longrightarrow>
     store_effect S (S\<lparr>grants := grants S @ [g],
       requests := update_where (\<lambda>x. rq_request_id x = q) (resolve_row ''approved'' now None) (requests S),
       audit := audit S @ [w]\<rparr>)"
| grant_revoked:
    "store_effect S (S\<lparr>grants :=
       update_where (\<lambda>r. gr_grant_id r = k \<and> gr_revoked_at r = None)
         (\<lambda>r. r\<lparr>gr_revoked_at := Some now\<rparr>) (grants S)\<rparr>)"
| grant_consumed:
    "store_effect S (S\<lparr>grants :=
       update_where (\<lambda>r. gr_grant_id r = k \<and> gr_consumed_at r = None \<and> gr_revoked_at r = None)
         (\<lambda>r. r\<lparr>gr_consumed_at := Some now\<rparr>) (grants S)\<rparr>)"
| audited:
    "au_audit_id w \<notin> au_audit_id ` set (audit S) \<Longrightarrow> au_decision w = ''executed'' \<Longrightarrow>
     store_effect S (S\<lparr>audit := audit S @ [w]\<rparr>)"

text \<open>One operation of the store, with whatever arguments, uuids and faults.\<close>

inductive store_step :: "libs \<Rightarrow> AgentPolicyStore \<Rightarrow> AgentPolicyStore \<Rightarrow> bool" for L where
  create_identity: "create_identity L E S n m t = (r, S') \<Longrightarrow> store_step L S S'"
| revoke_identity: "revoke_identity E S a t = (r, S') \<Longrightarrow> store_step L S S'"
| mint_token: "mint_token L E S a t = (r, S') \<Longrightarrow> store_step L S S'"
| revoke_token: "revoke_token E S a k t = (r, S') \<Longrightarrow> store_step L S S'"
| find_or_create_pending_request:
    "find_or_create_pending_request L E S a tg acts rs c t = (r, S') \<Longrightarrow> store_step L S S'"
| create_pending_request: "create_pending_request L E S a tg acts rs t = (r, S') \<Longrightarrow> store_step L S S'"
| invalidate_request: "invalidate_request L E S q rs t = (r, S') \<Longrightarrow> store_step L S S'"
| approve_request: "approve_request L E S q d cs t = (r, S') \<Longrightarrow> store_step L S S'"
| deny_request: "deny_request L E S q b rs t = (r, S') \<Longrightarrow> store_step L S S'"
| revoke_grant: "revoke_grant E S k t = (r, S') \<Longrightarrow> store_step L S S'"
| try_consume_once_grant: "try_consume_once_grant L E S k t = (r, S') \<Longrightarrow> store_step L S S'"
| insert_execution_audit: "insert_execution_audit L E S x = (r, S') \<Longrightarrow> store_step L S S'"

definition store_run :: "libs \<Rightarrow> AgentPolicyStore \<Rightarrow> AgentPolicyStore \<Rightarrow> bool" where
  "store_run L = (store_step L)\<^sup>*\<^sup>*"

section \<open>Operations refine the effects\<close>

lemma create_identity_effect: "create_identity L E S n m t = (r, S') \<Longrightarrow> store_effect S S'"
  unfolding create_identity_atomic
  by (erule atomically_cases) (auto simp: Let_def result_simps intro!: store_effect.intros)

lemma revoke_identity_effect: "revoke_identity E S a t = (r, S') \<Longrightarrow> store_effect S S'"
  unfolding revoke_identity_atomic
  by (erule atomically_cases) (auto simp: Let_def result_simps intro: store_effect.intros)

lemma mint_token_effect: "mint_token L E S a t = (r, S') \<Longrightarrow> store_effect S S'"
  unfolding mint_token_atomic
  by (erule atomically_cases)
     (auto simp: Let_def result_simps list_ex_iff split: if_splits intro: store_effect.intros)

lemma revoke_token_effect: "revoke_token E S a k t = (r, S') \<Longrightarrow> store_effect S S'"
  unfolding revoke_token_atomic
  by (erule atomically_cases) (auto simp: Let_def result_simps intro: store_effect.intros)

lemma revoke_grant_effect: "revoke_grant E S k t = (r, S') \<Longrightarrow> store_effect S S'"
  unfolding revoke_grant_atomic
  by (erule atomically_cases) (auto simp: Let_def result_simps intro: store_effect.intros)

lemma try_consume_once_grant_effect: "try_consume_once_grant L E S k t = (r, S') \<Longrightarrow> store_effect S S'"
  unfolding try_consume_once_grant_atomic
  by (erule atomically_cases)
     (auto simp: Let_def result_simps split: option.splits if_splits intro: store_effect.intros)

lemma insert_execution_audit_effect: "insert_execution_audit L E S x = (r, S') \<Longrightarrow> store_effect S S'"
  unfolding insert_execution_audit_atomic
  by (erule atomically_cases)
     (auto simp: Let_def result_simps dest!: insert_audit_Inr intro: store_effect.intros)

lemma resolve_row_None: "resolve_row st t None = (\<lambda>r. r\<lparr>rq_status := st, rq_resolved_at := Some t\<rparr>)"
  by (auto simp: resolve_row_def)

lemma resolve_row_Some:
  "resolve_row st t (Some rs) =
     (\<lambda>r. r\<lparr>rq_status := st, rq_resolved_at := Some t, rq_invalidation_reason := Some rs\<rparr>)"
  by (auto simp: resolve_row_def)

text \<open>What a call that creates, approves or refuses a request has done.\<close>

lemma find_or_create_created:
  assumes "find_or_create_pending_request L E S a tg acts rs c t = (Inr (q, True), S')"
  shows "\<exists>r w. rq_request_id r = sr_request_id q \<and> rq_request_id r \<notin> rq_request_id ` set (requests S) \<and>
    rq_status r = ''pending'' \<and> rq_agent_id r = a \<and>
    target_to_json L tg = Inr (rq_target_json r) \<and>
    actions_to_json L (canonicalize_actions acts) = Inr (rq_actions_json r) \<and>
    context_to_json L c = Inr (rq_context_json r) \<and>
    (\<forall>r' \<in> set (requests S). \<not> pending_for a (rq_target_json r) (rq_actions_json r) r') \<and>
    au_audit_id w \<notin> au_audit_id ` set (audit S) \<and> au_request_id w = Some (rq_request_id r) \<and>
    au_decision w = ''requested'' \<and>
    S' = S\<lparr>requests := requests S @ [r], audit := audit S @ [w]\<rparr>"
  using assms unfolding find_or_create_pending_request_atomic
  by (intro exI [of _ "last (requests S')"] exI [of _ "last (audit S')"])
     (auto simp: Let_def result_simps split: option.splits dest!: insert_audit_Inr)

lemma find_or_create_found:
  assumes "find_or_create_pending_request L E S a tg acts rs c t = (Inr (q, False), S')"
  shows "S' = S \<and> (\<exists>r tj aj. r \<in> set (requests S) \<and> stored_request_from_tuple L r = Inr q \<and>
    target_to_json L tg = Inr tj \<and> actions_to_json L (canonicalize_actions acts) = Inr aj \<and>
    pending_for a tj aj r)"
  using assms unfolding find_or_create_pending_request_atomic
  by (fastforce simp: Let_def result_simps select_pending_request_def split: option.splits dest: find_Some_in)

lemma find_or_create_pending_request_effect:
  assumes "find_or_create_pending_request L E S a tg acts rs c t = (r, S')"
  shows "store_effect S S'"
proof (cases r)
  case (Inl e)
  with assms show ?thesis
    by (auto simp: find_or_create_pending_request_atomic dest!: atomically_Inl intro: store_effect.unchanged)
next
  case (Inr x)
  obtain q b where x: "x = (q, b)" by (cases x)
  show ?thesis
  proof (cases b)
    case True
    with assms Inr x find_or_create_created [of L E S a tg acts rs c t q S'] show ?thesis
      by (auto intro: store_effect.request_added)
  next
    case False
    with assms Inr x show ?thesis by (auto dest!: find_or_create_found intro: store_effect.unchanged)
  qed
qed

lemma create_pending_request_effect:
  "create_pending_request L E S a tg acts rs t = (r, S') \<Longrightarrow> store_effect S S'"
  by (auto simp: create_pending_request_def split: prod.splits dest: find_or_create_pending_request_effect)

text \<open>The row a successful decision was taken on, and the request read from it.\<close>

definition decided_row :: "AgentPolicyStore \<Rightarrow> PermissionRequestId \<Rightarrow> request_row" where
  "decided_row S qid = the (find (\<lambda>r. rq_request_id r = qid) (requests S))"

lemma select_request_decided:
  assumes "select_request_by_id L E n S qid = Inr (Some q)"
  shows "stored_request_from_tuple L (decided_row S qid) = Inr q \<and> decided_row S qid \<in> set (requests S) \<and>
    rq_request_id (decided_row S qid) = qid \<and> sr_request_id q = qid \<and>
    sr_agent_id q = rq_agent_id (decided_row S qid) \<and>
    rq_status (decided_row S qid) = status_as_str (sr_status q)"
  using assms by (rule select_request_by_id_Some) (auto simp: decided_row_def stored_request_fields)

lemma approve_request_Inr:
  assumes "approve_request L E S qid d cs t = (Inr sg, S')"
  defines "r \<equiv> decided_row S qid"
  shows "\<exists>q g w. stored_request_from_tuple L r = Inr q \<and> r \<in> set (requests S) \<and> rq_request_id r = qid \<and>
    rq_status r = ''pending'' \<and>
    gr_grant_id g \<notin> gr_grant_id ` set (grants S) \<and> gr_grant_id g = sg_grant_id sg \<and>
    gr_origin_request_id g = Some qid \<and> gr_agent_id g = rq_agent_id r \<and>
    gr_consumed_at g = None \<and> gr_revoked_at g = None \<and>
    target_to_json L (sr_target q) = Inr (gr_target_json g) \<and>
    actions_to_json L (canonicalize_actions (sr_actions q)) = Inr (gr_actions_json g) \<and>
    duration_to_json L d = Inr (gr_duration_json g) \<and> constraints_to_json L cs = Inr (gr_constraints_json g) \<and>
    Some qid \<notin> gr_origin_request_id ` set (grants S) \<and>
    au_audit_id w \<notin> au_audit_id ` set (audit S) \<and> au_request_id w = Some qid \<and>
    au_decision w = ''approved'' \<and>
    S' = S\<lparr>grants := grants S @ [g],
      requests := update_where (\<lambda>x. rq_request_id x = qid) (resolve_row ''approved'' t None) (requests S),
      audit := audit S @ [w]\<rparr>"
  using assms(1) unfolding approve_request_atomic resolve_row_None
  by (intro exI [of _ "the (ok (stored_request_from_tuple L r))"]
        exI [of _ "last (grants S')"] exI [of _ "last (audit S')"])
     (auto simp: Let_def result_simps r_def split: if_splits
        dest!: insert_audit_Inr select_request_decided)

lemma deny_request_Inr:
  assumes "deny_request L E S qid remember rs t = (Inr q', S')"
  defines "r \<equiv> decided_row S qid"
  shows "\<exists>q ds w. stored_request_from_tuple L r = Inr q \<and> r \<in> set (requests S) \<and> rq_request_id r = qid \<and>
    rq_status r = ''pending'' \<and>
    (if remember
     then \<exists>d. ds = [d] \<and> dn_denial_id d \<notin> dn_denial_id ` set (denials S) \<and> dn_agent_id d = rq_agent_id r \<and>
       target_to_json L (sr_target q) = Inr (dn_target_json d) \<and>
       actions_to_json L (canonicalize_actions (sr_actions q)) = Inr (dn_actions_json d) \<and>
       dn_expires_at d = None
     else ds = []) \<and>
    au_audit_id w \<notin> au_audit_id ` set (audit S) \<and> au_request_id w = Some qid \<and>
    au_decision w = ''denied'' \<and>
    S' = S\<lparr>denials := denials S @ ds,
      requests := update_where (\<lambda>x. rq_request_id x = qid) (resolve_row ''denied'' t None) (requests S),
      audit := audit S @ [w]\<rparr>"
  using assms(1) unfolding deny_request_atomic resolve_row_None
  by (intro exI [of _ "the (ok (stored_request_from_tuple L r))"]
        exI [of _ "drop (length (denials S)) (denials S')"] exI [of _ "last (audit S')"])
     (auto simp: Let_def result_simps r_def split: if_splits
        dest!: insert_audit_Inr select_request_decided)

lemma invalidate_request_Inr:
  assumes "invalidate_request L E S qid rs t = (Inr (q', True), S')"
  defines "r \<equiv> decided_row S qid"
  shows "\<exists>q w. stored_request_from_tuple L r = Inr q \<and> r \<in> set (requests S) \<and> rq_request_id r = qid \<and>
    rq_status r = ''pending'' \<and>
    au_audit_id w \<notin> au_audit_id ` set (audit S) \<and> au_request_id w = Some qid \<and>
    au_decision w = ''invalidated'' \<and>
    S' = S\<lparr>requests := update_where (\<lambda>x. rq_request_id x = qid \<and> rq_status x = ''pending'')
        (resolve_row ''invalidated'' t (Some rs)) (requests S),
      audit := audit S @ [w]\<rparr>"
  using assms(1) unfolding invalidate_request_atomic resolve_row_Some
  by (intro exI [of _ "the (ok (stored_request_from_tuple L r))"] exI [of _ "last (audit S')"])
     (auto simp: Let_def result_simps r_def split: if_splits
        dest!: insert_audit_Inr select_request_decided)

lemma invalidate_request_lost:
  "invalidate_request L E S qid rs t = (Inr (q', False), S') \<Longrightarrow> S' = S"
  by (auto simp: invalidate_request_atomic Let_def result_simps split: if_splits)

lemma approve_request_effect:
  assumes "approve_request L E S qid d cs t = (r, S')"
  shows "store_effect S S'"
proof (cases r)
  case (Inl e)
  with assms show ?thesis by (auto simp: approve_request_atomic dest!: atomically_Inl intro: store_effect.unchanged)
next
  case (Inr sg)
  from approve_request_Inr [OF assms [unfolded Inr]] show ?thesis
    by (elim exE conjE) (hypsubst, rule store_effect.request_approved [where r = "decided_row S qid"], simp_all)
qed

lemma deny_request_effect:
  assumes "deny_request L E S qid remember rs t = (r, S')"
  shows "store_effect S S'"
proof (cases r)
  case (Inl e)
  with assms show ?thesis by (auto simp: deny_request_atomic dest!: atomically_Inl intro: store_effect.unchanged)
next
  case (Inr q')
  from deny_request_Inr [OF assms [unfolded Inr]] show ?thesis
    by (elim exE conjE)
       (hypsubst, rule store_effect.request_denied [where r = "decided_row S qid"], auto split: if_splits)
qed

lemma invalidate_request_effect:
  assumes "invalidate_request L E S qid rs t = (r, S')" and "distinct (map rq_request_id (requests S))"
  shows "store_effect S S'"
proof (cases r)
  case (Inl e)
  with assms show ?thesis by (auto simp: invalidate_request_atomic dest!: atomically_Inl intro: store_effect.unchanged)
next
  case (Inr x)
  show ?thesis
  proof (cases "snd x")
    case True
    with Inr assms(1) have "invalidate_request L E S qid rs t = (Inr (fst x, True), S')" by (cases x) auto
    from invalidate_request_Inr [OF this] assms(2) show ?thesis
      by (elim exE conjE) (auto simp: update_where_keyed [where r = "decided_row S qid"]
          intro: store_effect.request_invalidated)
  next
    case False
    with Inr assms invalidate_request_lost [of L E S qid rs t "fst x" S'] show ?thesis
      by (cases x) (auto intro: store_effect.unchanged)
  qed
qed

lemmas operation_effects =
  create_identity_effect revoke_identity_effect mint_token_effect revoke_token_effect
  find_or_create_pending_request_effect create_pending_request_effect approve_request_effect
  deny_request_effect revoke_grant_effect try_consume_once_grant_effect insert_execution_audit_effect

lemma store_step_effect:
  assumes "store_step L S S'" and "distinct (map rq_request_id (requests S))"
  shows "store_effect S S'"
  using assms by (cases) (blast intro: operation_effects invalidate_request_effect)+

section \<open>The invariant\<close>

definition store_keys :: "AgentPolicyStore \<Rightarrow> bool" where
  "store_keys S \<longleftrightarrow>
     distinct (map id_agent_id (identities S)) \<and> distinct (map tok_token_id (tokens S)) \<and>
     distinct (map gr_grant_id (grants S)) \<and> distinct (map dn_denial_id (denials S)) \<and>
     distinct (map rq_request_id (requests S)) \<and> distinct (map au_audit_id (audit S))"

text \<open>An agent has at most one pending request for the same target and actions.\<close>

definition pending_key :: "request_row \<Rightarrow> string \<times> string \<times> string" where
  "pending_key r = (rq_agent_id r, rq_target_json r, rq_actions_json r)"

definition pending_unique :: "AgentPolicyStore \<Rightarrow> bool" where
  "pending_unique S \<longleftrightarrow> distinct (map pending_key (filter (\<lambda>r. rq_status r = ''pending'') (requests S)))"

text \<open>
  Grants and approvals correspond: each grant stems from exactly one request, of the same
  agent, that an operator approved, and each approved request has its grant.
\<close>

definition grants_approved :: "AgentPolicyStore \<Rightarrow> bool" where
  "grants_approved S \<longleftrightarrow>
     distinct (map gr_origin_request_id (grants S)) \<and>
     (\<forall>g \<in> set (grants S). \<exists>r \<in> set (requests S). gr_origin_request_id g = Some (rq_request_id r) \<and>
        rq_status r = ''approved'' \<and> gr_agent_id g = rq_agent_id r) \<and>
     (\<forall>r \<in> set (requests S). rq_status r = ''approved'' \<longrightarrow>
        Some (rq_request_id r) \<in> gr_origin_request_id ` set (grants S))"

text \<open>A token belongs to an identity and is dead once that identity is revoked.\<close>

definition tokens_closed :: "AgentPolicyStore \<Rightarrow> bool" where
  "tokens_closed S \<longleftrightarrow>
     (\<forall>t \<in> set (tokens S). \<exists>i \<in> set (identities S). id_agent_id i = tok_agent_id t \<and>
        (id_revoked_at i \<noteq> None \<longrightarrow> tok_revoked_at t \<noteq> None))"

text \<open>Every request and every decision on one has an audit entry.\<close>

definition decision_of :: "string \<Rightarrow> string" where
  "decision_of st = (if st = ''pending'' then ''requested'' else st)"

definition decisions_audited :: "AgentPolicyStore \<Rightarrow> bool" where
  "decisions_audited S \<longleftrightarrow>
     (\<forall>r \<in> set (requests S). \<exists>w \<in> set (audit S).
        au_request_id w = Some (rq_request_id r) \<and> au_decision w = decision_of (rq_status r))"

definition store_wf :: "AgentPolicyStore \<Rightarrow> bool" where
  "store_wf S \<longleftrightarrow> store_keys S \<and> pending_unique S \<and> grants_approved S \<and> tokens_closed S \<and> decisions_audited S"

lemma store_wf_init: "store_wf init_schema"
  by (simp add: store_wf_def store_keys_def pending_unique_def grants_approved_def tokens_closed_def
      decisions_audited_def init_schema_def)

lemma store_wf_request_keys: "store_wf S \<Longrightarrow> distinct (map rq_request_id (requests S))"
  by (simp add: store_wf_def store_keys_def)

lemma store_keys_effect:
  assumes "store_effect S S'" and "store_keys S"
  shows "store_keys S'"
  using assms by cases (auto simp: store_keys_def map_update_where)

lemma filter_update_where_resolved:
  assumes "st \<noteq> ''pending''"
  shows "filter (\<lambda>r. rq_status r = ''pending'') (update_where c (resolve_row st t iv) rows) =
         filter (\<lambda>r. rq_status r = ''pending'' \<and> \<not> c r) rows"
  using assms by (induction rows) auto

lemma pending_unique_effect:
  assumes "store_effect S S'" and "pending_unique S"
  shows "pending_unique S'"
proof -
  have sub: "distinct (map pending_key (filter (\<lambda>r. rq_status r = ''pending'' \<and> \<not> c r) rows))"
    if "distinct (map pending_key (filter (\<lambda>r. rq_status r = ''pending'') rows))" for c rows
    using distinct_map_filter [OF that, of "\<lambda>r. \<not> c r"] by (simp add: conj_commute)
  from assms show ?thesis
    by cases (auto simp: pending_unique_def filter_update_where_resolved sub pending_key_def pending_for_def)
qed

lemma resolved_rows:
  assumes "r' \<in> set (update_where (\<lambda>x. rq_request_id x = q) (resolve_row st t iv) rows)"
  obtains "r' \<in> set rows" "rq_request_id r' \<noteq> q"
  | r where "r \<in> set rows" "rq_request_id r = q" "r' = resolve_row st t iv r"
  using assms by (auto simp: set_update_where split: if_splits)

lemma decisions_audited_resolve:
  assumes "decisions_audited S" and "au_request_id w = Some q" and "au_decision w = st" and "st \<noteq> ''pending''"
    and "requests S' = update_where (\<lambda>x. rq_request_id x = q) (resolve_row st t iv) (requests S)"
    and "audit S' = audit S @ [w]"
  shows "decisions_audited S'"
  unfolding decisions_audited_def
proof
  fix r' assume "r' \<in> set (requests S')"
  then show "\<exists>w \<in> set (audit S'). au_request_id w = Some (rq_request_id r') \<and> au_decision w = decision_of (rq_status r')"
    unfolding assms(5) using assms by (cases rule: resolved_rows) (auto simp: decisions_audited_def decision_of_def)
qed

lemma decisions_audited_effect:
  assumes "store_effect S S'" and "decisions_audited S"
  shows "decisions_audited S'"
  using assms
proof cases
  case request_denied
  then show ?thesis by (intro decisions_audited_resolve [OF assms(2)]) auto
next
  case request_invalidated
  then show ?thesis by (intro decisions_audited_resolve [OF assms(2)]) auto
next
  case request_approved
  then show ?thesis by (intro decisions_audited_resolve [OF assms(2)]) auto
qed (use assms(2) in \<open>auto simp: decisions_audited_def decision_of_def\<close>)

lemma tokens_closed_effect:
  assumes "store_effect S S'" and "tokens_closed S"
  shows "tokens_closed S'"
  using assms
proof cases
  case (identity_revoked a now)
  show ?thesis unfolding tokens_closed_def
  proof
    fix t' assume "t' \<in> set (tokens S')"
    with identity_revoked obtain t where t: "t \<in> set (tokens S)"
      "t' = (if tok_agent_id t = a \<and> tok_revoked_at t = None then t\<lparr>tok_revoked_at := Some now\<rparr> else t)"
      by (auto simp: set_update_where)
    with assms(2) obtain i where i: "i \<in> set (identities S)" "id_agent_id i = tok_agent_id t"
      "id_revoked_at i \<noteq> None \<longrightarrow> tok_revoked_at t \<noteq> None"
      by (auto simp: tokens_closed_def)
    with t identity_revoked show "\<exists>i \<in> set (identities S'). id_agent_id i = tok_agent_id t' \<and>
        (id_revoked_at i \<noteq> None \<longrightarrow> tok_revoked_at t' \<noteq> None)"
      by (intro bexI [of _ "if id_agent_id i = a \<and> id_revoked_at i = None then i\<lparr>id_revoked_at := Some now\<rparr> else i"])
         (auto simp: set_update_where)
  qed
qed (fastforce simp: tokens_closed_def set_update_where)+

lemma grants_approved_resolve:
  assumes "grants_approved S" and "r \<in> set (requests S)" "rq_request_id r = q" "rq_status r = ''pending''"
    and "distinct (map rq_request_id (requests S))" and "st \<noteq> ''approved''"
    and "requests S' = update_where (\<lambda>x. rq_request_id x = q) (resolve_row st t iv) (requests S)"
    and "grants S' = grants S"
  shows "grants_approved S'"
proof -
  have one: "x = r" if "x \<in> set (requests S)" "rq_request_id x = q" for x
    using that assms(2,3,5) by (auto simp: distinct_map dest: inj_onD)
  have keep: "x \<in> set (requests S')" if "x \<in> set (requests S)" "rq_status x = ''approved''" for x
    using that one [of x] assms(4) unfolding assms(7) by (force simp: set_update_where)
  have conv: "x \<in> set (requests S)" if "x \<in> set (requests S')" "rq_status x = ''approved''" for x
    using that assms(6) unfolding assms(7) by (auto elim: resolved_rows)
  from assms(1) keep conv show ?thesis
    unfolding grants_approved_def assms(8) by blast
qed

lemma grants_approved_approve:
  assumes "grants_approved S" and "r \<in> set (requests S)" "rq_request_id r = q" "rq_status r = ''pending''"
    and "distinct (map rq_request_id (requests S))"
    and "gr_origin_request_id g = Some q" "gr_agent_id g = rq_agent_id r"
    and "Some q \<notin> gr_origin_request_id ` set (grants S)"
    and "requests S' = update_where (\<lambda>x. rq_request_id x = q) (resolve_row ''approved'' t iv) (requests S)"
    and "grants S' = grants S @ [g]"
  shows "grants_approved S'"
proof -
  have one: "x = r" if "x \<in> set (requests S)" "rq_request_id x = q" for x
    using that assms(2,3,5) by (auto simp: distinct_map dest: inj_onD)
  have keep: "x \<in> set (requests S')" if "x \<in> set (requests S)" "rq_status x = ''approved''" for x
    using that one [of x] assms(4) unfolding assms(9) by (force simp: set_update_where)
  have new: "resolve_row ''approved'' t iv r \<in> set (requests S')"
    using assms(2,3) unfolding assms(9) by (force simp: set_update_where)
  have conv: "x \<in> set (requests S) \<or> rq_request_id x = q" if "x \<in> set (requests S')" for x
    using that unfolding assms(9) by (auto elim: resolved_rows)
  have "\<exists>x \<in> set (requests S'). gr_origin_request_id h = Some (rq_request_id x) \<and>
      rq_status x = ''approved'' \<and> gr_agent_id h = rq_agent_id x" if "h \<in> set (grants S')" for h
    using that assms(1,3,6,7,10) keep new unfolding grants_approved_def
    by (cases "h = g") (fastforce intro!: bexI [of _ "resolve_row ''approved'' t iv r"], fastforce)
  moreover have "Some (rq_request_id x) \<in> gr_origin_request_id ` set (grants S')"
    if "x \<in> set (requests S')" "rq_status x = ''approved''" for x
    using that conv [of x] assms(1,6,10) unfolding grants_approved_def by auto
  ultimately show ?thesis
    using assms(1,6,8,10) unfolding grants_approved_def by simp
qed

lemma grants_approved_update:
  assumes "grants_approved S" and "requests S' = requests S" and "grants S' = update_where c f (grants S)"
    and "\<And>g. gr_origin_request_id (f g) = gr_origin_request_id g" "\<And>g. gr_agent_id (f g) = gr_agent_id g"
  shows "grants_approved S'"
proof -
  have "gr_origin_request_id ` set (grants S') = gr_origin_request_id ` set (grants S)"
    using assms(3,4) by (simp add: image_update_where)
  moreover have "\<exists>g \<in> set (grants S). gr_origin_request_id h = gr_origin_request_id g \<and> gr_agent_id h = gr_agent_id g"
    if "h \<in> set (grants S')" for h
    using that assms(3-5) by (auto simp: set_update_where)
  ultimately show ?thesis
    using assms by (fastforce simp: grants_approved_def map_update_where)
qed

lemma grants_approved_effect:
  assumes "store_effect S S'" and "grants_approved S" and "store_keys S"
  shows "grants_approved S'"
  using assms(1)
proof cases
  case request_denied
  with assms(3) show ?thesis by (intro grants_approved_resolve [OF assms(2)]) (auto simp: store_keys_def)
next
  case request_invalidated
  with assms(3) show ?thesis by (intro grants_approved_resolve [OF assms(2)]) (auto simp: store_keys_def)
next
  case request_approved
  with assms(3) show ?thesis by (intro grants_approved_approve [OF assms(2)]) (auto simp: store_keys_def)
next
  case (grant_revoked k now)
  then show ?thesis
    by (intro grants_approved_update [OF assms(2), where f = "gr_revoked_at_update (\<lambda>_. Some now)"]) auto
next
  case (grant_consumed k now)
  then show ?thesis
    by (intro grants_approved_update [OF assms(2), where f = "gr_consumed_at_update (\<lambda>_. Some now)"]) auto
qed (use assms(2) in \<open>auto simp: grants_approved_def\<close>)

theorem store_wf_effect: "store_effect S S' \<Longrightarrow> store_wf S \<Longrightarrow> store_wf S'"
  by (simp add: store_wf_def store_keys_effect pending_unique_effect grants_approved_effect
      tokens_closed_effect decisions_audited_effect)

end
