(* ===== verification/Agent_Store_Safety.thy ===== *)
theory Agent_Store_Safety
  imports Agent_Store_Inv
begin

text \<open>
  Properties of runs of the policy store.  \<open>store_le\<close> is the order in which the tables grow:
  rows are only added at the end, and a row that is there changes only in the ways its
  \<open>_evolves\<close> relation allows.  The interpretation \<open>store_runs\<close> of \<open>monotone_system\<close> shows that
  every operation moves up this order while it keeps \<open>store_wf\<close>; revocation, consumption,
  decisions and the audit log being final are read off it.
\<close>

section \<open>How rows evolve\<close>

definition identity_evolves :: "identity_row \<Rightarrow> identity_row \<Rightarrow> bool" where
  "identity_evolves i i' \<longleftrightarrow>
     i' = i\<lparr>id_revoked_at := id_revoked_at i'\<rparr> \<and> (id_revoked_at i \<noteq> None \<longrightarrow> i' = i)"

definition token_evolves :: "token_row \<Rightarrow> token_row \<Rightarrow> bool" where
  "token_evolves t t' \<longleftrightarrow>
     t' = t\<lparr>tok_revoked_at := tok_revoked_at t'\<rparr> \<and> (tok_revoked_at t \<noteq> None \<longrightarrow> t' = t)"

definition grant_evolves :: "grant_row \<Rightarrow> grant_row \<Rightarrow> bool" where
  "grant_evolves g g' \<longleftrightarrow>
     g' = g\<lparr>gr_consumed_at := gr_consumed_at g', gr_revoked_at := gr_revoked_at g'\<rparr> \<and>
     (gr_consumed_at g \<noteq> None \<longrightarrow> gr_consumed_at g' = gr_consumed_at g) \<and>
     (gr_revoked_at g \<noteq> None \<longrightarrow> g' = g)"

definition request_evolves :: "request_row \<Rightarrow> request_row \<Rightarrow> bool" where
  "request_evolves r r' \<longleftrightarrow>
     r' = r\<lparr>rq_status := rq_status r', rq_resolved_at := rq_resolved_at r',
            rq_invalidation_reason := rq_invalidation_reason r'\<rparr> \<and>
     (rq_status r \<noteq> ''pending'' \<longrightarrow> r' = r)"

lemmas evolves_defs = identity_evolves_def token_evolves_def request_evolves_def

lemma evolves_refl [simp]:
  "identity_evolves i i" "token_evolves t t" "grant_evolves g g" "request_evolves r r"
  by (simp_all add: evolves_defs grant_evolves_def)

lemma identity_evolves_trans: "identity_evolves x y \<Longrightarrow> identity_evolves y z \<Longrightarrow> identity_evolves x z"
  by (cases x; cases y; cases z) (auto simp: identity_evolves_def)

lemma token_evolves_trans: "token_evolves x y \<Longrightarrow> token_evolves y z \<Longrightarrow> token_evolves x z"
  by (cases x; cases y; cases z) (auto simp: token_evolves_def)

lemma grant_evolves_trans: "grant_evolves x y \<Longrightarrow> grant_evolves y z \<Longrightarrow> grant_evolves x z"
  by (cases x; cases y; cases z) (auto simp: grant_evolves_def)

lemma request_evolves_trans: "request_evolves x y \<Longrightarrow> request_evolves y z \<Longrightarrow> request_evolves x z"
  by (cases x; cases y; cases z) (auto simp: request_evolves_def)

definition store_le :: "AgentPolicyStore \<Rightarrow> AgentPolicyStore \<Rightarrow> bool" where
  "store_le S S' \<longleftrightarrow>
     extends identity_evolves (identities S) (identities S') \<and>
     extends token_evolves (tokens S) (tokens S') \<and>
     extends grant_evolves (grants S) (grants S') \<and>
     extends request_evolves (requests S) (requests S') \<and>
     extends (=) (denials S) (denials S') \<and> extends (=) (audit S) (audit S')"

lemma store_le_refl: "store_le S S"
  by (simp add: store_le_def extends_refl)

lemma store_le_trans: "store_le S T \<Longrightarrow> store_le T U \<Longrightarrow> store_le S U"
  unfolding store_le_def
  by (auto intro: extends_trans [of identity_evolves, OF identity_evolves_trans]
      extends_trans [of token_evolves, OF token_evolves_trans]
      extends_trans [of grant_evolves, OF grant_evolves_trans]
      extends_trans [of request_evolves, OF request_evolves_trans] extends_trans [of "(=)", OF trans])

lemma request_extends_resolve:
  assumes "distinct (map rq_request_id rows)" and "r \<in> set rows" "rq_request_id r = q" "rq_status r = ''pending''"
  shows "extends request_evolves rows (update_where (\<lambda>x. rq_request_id x = q) (resolve_row st t iv) rows)"
proof (rule extends_update_where)
  fix x assume "x \<in> set rows" "rq_request_id x = q"
  with assms have "x = r" by (auto simp: distinct_map dest: inj_onD)
  with assms(4) show "request_evolves x (resolve_row st t iv x)"
    by (simp add: request_evolves_def resolve_row_def)
qed simp

lemma store_effect_le:
  assumes "store_effect S S'" and "store_wf S"
  shows "store_le S S'"
  using assms(1)
proof cases
  case request_denied
  then show ?thesis
    using request_extends_resolve [OF store_wf_request_keys [OF assms(2)]]
    by (simp add: store_le_def extends_refl extends_append)
next
  case request_invalidated
  then show ?thesis
    using request_extends_resolve [OF store_wf_request_keys [OF assms(2)]]
    by (simp add: store_le_def extends_refl extends_append)
next
  case request_approved
  then show ?thesis
    using request_extends_resolve [OF store_wf_request_keys [OF assms(2)]]
    by (simp add: store_le_def extends_refl extends_append)
qed (auto simp: store_le_def extends_refl extends_append evolves_defs grant_evolves_def
    intro!: extends_update_where)

lemma store_step_wf: "store_wf S \<Longrightarrow> store_step L S S' \<Longrightarrow> store_wf S'"
  using store_wf_effect store_step_effect store_wf_request_keys by blast

lemma store_step_le: "store_wf S \<Longrightarrow> store_step L S S' \<Longrightarrow> store_le S S'"
  using store_effect_le store_step_effect store_wf_request_keys by blast

interpretation store_runs: monotone_system init_schema "store_step L" store_wf store_le for L
  by unfold_locales
     (auto intro: store_wf_init store_step_wf store_step_le store_le_refl store_le_trans)

lemma store_run_wf: "store_run L S S' \<Longrightarrow> store_wf S \<Longrightarrow> store_wf S'"
  unfolding store_run_def by (rule store_runs.run_inv)

lemma store_run_le: "store_run L S S' \<Longrightarrow> store_wf S \<Longrightarrow> store_le S S'"
  unfolding store_run_def by (rule store_runs.run_le)

lemma store_reachable_wf: "store_run L init_schema S \<Longrightarrow> store_wf S"
  unfolding store_run_def by (rule store_runs.reachable_inv)

lemma store_run_refl [simp]: "store_run L S S"
  by (simp add: store_run_def)

lemma store_run_step: "store_run L S T \<Longrightarrow> store_step L T U \<Longrightarrow> store_run L S U"
  unfolding store_run_def by auto

lemma store_run_single: "store_step L S T \<Longrightarrow> store_run L S T"
  unfolding store_run_def by auto

lemma grant_evolves_id:
  assumes "grant_evolves g g'"
  shows "gr_grant_id g' = gr_grant_id g"
proof -
  from assms have "g' = g\<lparr>gr_consumed_at := gr_consumed_at g', gr_revoked_at := gr_revoked_at g'\<rparr>"
    by (simp add: grant_evolves_def)
  from arg_cong [OF this, of gr_grant_id] show ?thesis by simp
qed

lemma grant_evolves_duration:
  assumes "grant_evolves g g'"
  shows "gr_duration_json g' = gr_duration_json g"
proof -
  from assms have "g' = g\<lparr>gr_consumed_at := gr_consumed_at g', gr_revoked_at := gr_revoked_at g'\<rparr>"
    by (simp add: grant_evolves_def)
  from arg_cong [OF this, of gr_duration_json] show ?thesis by simp
qed

lemma identity_evolves_id:
  assumes "identity_evolves i i'"
  shows "id_agent_id i' = id_agent_id i"
proof -
  from assms have "i' = i\<lparr>id_revoked_at := id_revoked_at i'\<rparr>" by (simp add: identity_evolves_def)
  from arg_cong [OF this, of id_agent_id] show ?thesis by simp
qed

lemma token_evolves_fields:
  assumes "token_evolves t t'"
  shows "tok_token_id t' = tok_token_id t" "tok_agent_id t' = tok_agent_id t" "tok_hash t' = tok_hash t"
proof -
  from assms have t: "t' = t\<lparr>tok_revoked_at := tok_revoked_at t'\<rparr>" by (simp add: token_evolves_def)
  from arg_cong [OF t, of tok_token_id] show "tok_token_id t' = tok_token_id t" by simp
  from arg_cong [OF t, of tok_agent_id] show "tok_agent_id t' = tok_agent_id t" by simp
  from arg_cong [OF t, of tok_hash] show "tok_hash t' = tok_hash t" by simp
qed

text \<open>A row with a given key of a later state is the evolved row of the earlier one.\<close>

lemma grant_later:
  assumes "store_le S S'" and "store_wf S'" and "g \<in> set (grants S)" and "g' \<in> set (grants S')"
    and "gr_grant_id g' = gr_grant_id g"
  shows "grant_evolves g g'"
proof -
  from assms(1,3) obtain h where h: "h \<in> set (grants S')" "grant_evolves g h"
    unfolding store_le_def by (blast elim: extends_in)
  then have "gr_grant_id h = gr_grant_id g'"
    using assms(5) by (simp add: grant_evolves_id)
  with assms(2,4) h have "h = g'"
    by (auto simp: store_wf_def store_keys_def distinct_map dest: inj_onD)
  with h show ?thesis by simp
qed

lemma request_later:
  assumes "store_le S S'" and "r \<in> set (requests S)" and "rq_status r \<noteq> ''pending''"
  shows "r \<in> set (requests S')"
  using assms unfolding store_le_def by (metis extends_in request_evolves_def)

lemma identity_later:
  assumes "store_le S S'" and "i \<in> set (identities S)" and "id_revoked_at i \<noteq> None"
  shows "i \<in> set (identities S')"
  using assms unfolding store_le_def by (metis extends_in identity_evolves_def)

lemma token_later:
  assumes "store_le S S'" and "t \<in> set (tokens S)" and "tok_revoked_at t \<noteq> None"
  shows "t \<in> set (tokens S')"
  using assms unfolding store_le_def by (metis extends_in token_evolves_def)

lemma denial_later: "store_le S S' \<Longrightarrow> d \<in> set (denials S) \<Longrightarrow> d \<in> set (denials S')"
  unfolding store_le_def by (auto elim: extends_in [of "(=)"])

section \<open>Reading the store\<close>

lemma collect_results_map_set: "collect_results (map f rows) = Inr gs \<Longrightarrow> f ` set rows = Inr ` set gs"
  by (drule collect_results_Inr) (metis list.set_map)

lemma load_policy_snapshot_Inr:
  assumes "load_policy_snapshot L E S a = Inr snap"
  obtains gs where "snap_grants snap = map fst gs"
    "snap_consumed_once snap = map (\<lambda>(g, _). grant_id g) (filter snd gs)"
    "snapshot_grant L a ` {r \<in> set (grants S). gr_agent_id r = a \<and> gr_revoked_at r = None} = Inr ` set gs"
    "snapshot_denial L a ` {r \<in> set (denials S). dn_agent_id r = a} = Inr ` set (snap_denials snap)"
proof -
  from assms obtain gs ds where
    "collect_results (map (snapshot_grant L a)
      (filter (\<lambda>r. gr_agent_id r = a \<and> gr_revoked_at r = None) (grants S))) = Inr gs"
    "collect_results (map (snapshot_denial L a) (filter (\<lambda>r. dn_agent_id r = a) (denials S))) = Inr ds"
    "snap = \<lparr>snap_grants = map fst gs, snap_denials = ds,
       snap_consumed_once = map (\<lambda>(g, _). grant_id g) (filter snd gs)\<rparr>"
    by (auto simp: load_policy_snapshot_def read_conn_def result_simps split: option.splits)
  then show thesis
    by (intro that) (auto dest!: collect_results_map_set)
qed

lemma snapshot_grant_Inr:
  "snapshot_grant L a r = Inr (g, b) \<longleftrightarrow>
   duration_from_json L (gr_duration_json r) = Inr (grant_duration g) \<and>
   target_from_json L (gr_target_json r) = Inr (grant_target g) \<and>
   actions_from_json L (gr_actions_json r) = Inr (grant_actions g) \<and>
   constraints_from_json L (gr_constraints_json r) = Inr (grant_constraints g) \<and>
   grant_id g = gr_grant_id r \<and> grant_agent_id g = a \<and>
   b = (grant_duration g = Once \<and> gr_consumed_at r \<noteq> None)"
  by (cases g) (auto simp: snapshot_grant_def result_simps)

lemma snapshot_grant_row:
  assumes "load_policy_snapshot L E S a = Inr snap" and "g \<in> set (snap_grants snap)"
  obtains r where "r \<in> set (grants S)" "gr_grant_id r = grant_id g" "gr_agent_id r = a" "gr_revoked_at r = None"
    "duration_from_json L (gr_duration_json r) = Inr (grant_duration g)"
proof -
  from assms(1) obtain gs where gs: "snap_grants snap = map fst gs"
    "snapshot_grant L a ` {r \<in> set (grants S). gr_agent_id r = a \<and> gr_revoked_at r = None} = Inr ` set gs"
    by (rule load_policy_snapshot_Inr)
  from assms(2) gs(1) obtain b where "(g, b) \<in> set gs" by auto
  then have "Inr (g, b) \<in> snapshot_grant L a ` {r \<in> set (grants S). gr_agent_id r = a \<and> gr_revoked_at r = None}"
    unfolding gs(2) by simp
  then obtain r where "r \<in> set (grants S)" "gr_agent_id r = a" "gr_revoked_at r = None"
    "snapshot_grant L a r = Inr (g, b)" by auto
  with that show thesis by (simp add: snapshot_grant_Inr)
qed

lemma row_in_snapshot:
  assumes "load_policy_snapshot L E S a = Inr snap" and "r \<in> set (grants S)" "gr_agent_id r = a"
    "gr_revoked_at r = None" and "gr_consumed_at r = None" and "distinct (map gr_grant_id (grants S))"
  obtains g where "g \<in> set (snap_grants snap)" "snapshot_grant L a r = Inr (g, False)"
    "grant_id g \<notin> set (snap_consumed_once snap)"
proof -
  from assms(1) obtain gs where gs: "snap_grants snap = map fst gs"
    "snap_consumed_once snap = map (\<lambda>(g, _). grant_id g) (filter snd gs)"
    "snapshot_grant L a ` {r \<in> set (grants S). gr_agent_id r = a \<and> gr_revoked_at r = None} = Inr ` set gs"
    by (rule load_policy_snapshot_Inr)
  from assms(2-4) have "snapshot_grant L a r \<in> Inr ` set gs" unfolding gs(3) [symmetric] by blast
  then obtain g b where g: "(g, b) \<in> set gs" "snapshot_grant L a r = Inr (g, b)" by auto
  with assms(5) have b: "\<not> b" by (simp add: snapshot_grant_Inr)
  have "grant_id g \<notin> set (snap_consumed_once snap)"
  proof
    assume "grant_id g \<in> set (snap_consumed_once snap)"
    then obtain h where h: "(h, True) \<in> set gs" "grant_id h = grant_id g" unfolding gs(2) by auto
    then have "Inr (h, True) \<in> snapshot_grant L a ` {r \<in> set (grants S). gr_agent_id r = a \<and> gr_revoked_at r = None}"
      unfolding gs(3) by simp
    then obtain r' where r': "r' \<in> set (grants S)" "snapshot_grant L a r' = Inr (h, True)" by auto
    moreover from this(2) g(2) h(2) have "gr_grant_id r' = gr_grant_id r" by (auto simp: snapshot_grant_Inr)
    ultimately have "r' = r" using assms(2,6) by (auto simp: distinct_map dest: inj_onD)
    with r'(2) assms(5) show False by (auto simp: snapshot_grant_Inr)
  qed
  with g b gs(1) that show thesis by force
qed

lemma denial_in_snapshot:
  assumes "load_policy_snapshot L E S a = Inr snap" and "r \<in> set (denials S)" "dn_agent_id r = a"
  obtains d where "d \<in> set (snap_denials snap)" "snapshot_denial L a r = Inr d"
proof -
  from assms(1) have
    "snapshot_denial L a ` {r \<in> set (denials S). dn_agent_id r = a} = Inr ` set (snap_denials snap)"
    by (rule load_policy_snapshot_Inr)
  with assms(2,3) have "snapshot_denial L a r \<in> Inr ` set (snap_denials snap)" by blast
  with that show thesis by blast
qed

lemma live_token_hashes_iff:
  "h \<in> set (live_token_hashes S a) \<longleftrightarrow>
   (\<exists>t \<in> set (tokens S). tok_agent_id t = a \<and> tok_revoked_at t = None \<and> tok_hash t = h \<and>
      (\<exists>i \<in> set (identities S). id_agent_id i = a \<and> id_revoked_at i = None))"
  by (auto simp: live_token_hashes_def)

lemma authenticate_Some:
  "authenticate_agent_token L E S token = Inr (Some a) \<longleftrightarrow>
   conn_fault E = None \<and> sql_fault E 0 = None \<and> parse_token_agent_id token = Some a \<and>
   hash_token L token \<in> set (live_token_hashes S a)"
  by (auto simp: authenticate_agent_token_def authenticate_agent_token_in_conn_def read_conn_def
      result_simps list_ex_iff split: option.splits if_splits)

lemma parse_token_for:
  "CHR ''.'' \<notin> set a \<Longrightarrow> a \<noteq> [] \<Longrightarrow> secret \<noteq> [] \<Longrightarrow> parse_token_agent_id (token_for a secret) = Some a"
  unfolding parse_token_agent_id_def token_for_def
  by (simp only: strip_prefix_append Option.bind.bind_lunit) simp

section \<open>Instances for the examples\<close>

text \<open>A codec on tagged strings and a digest, standing for the libraries in the examples.\<close>

fun example_target_to :: "TargetSelector \<Rightarrow> (string, string) result" where
  "example_target_to (Surface s) = Inr (CHR ''s'' # s)"
| "example_target_to (App (BundleId b)) = Inr (CHR ''b'' # b)"
| "example_target_to (App (ExecutablePath p)) = Inr (CHR ''e'' # p)"
| "example_target_to (App (AppName n)) = Inr (CHR ''n'' # n)"
| "example_target_to LaunchedByAgent = Inr ''l''"
| "example_target_to (FrontmostOnce s) = Inr (CHR ''f'' # s)"
| "example_target_to AllSurfaces = Inr ''a''"

fun example_target_from :: "string \<Rightarrow> (string, TargetSelector) result" where
  "example_target_from [] = Inl ''eof''"
| "example_target_from (c # cs) =
     (if c = CHR ''s'' then Inr (Surface cs)
      else if c = CHR ''b'' then Inr (App (BundleId cs))
      else if c = CHR ''e'' then Inr (App (ExecutablePath cs))
      else if c = CHR ''n'' then Inr (App (AppName cs))
      else if c = CHR ''l'' then Inr LaunchedByAgent
      else if c = CHR ''f'' then Inr (FrontmostOnce cs)
      else if c = CHR ''a'' then Inr AllSurfaces
      else Inl ''unknown variant'')"

fun example_action_to :: "ActionClass \<Rightarrow> char" where
  "example_action_to Observe = CHR ''o''"
| "example_action_to Drive = CHR ''d''"
| "example_action_to Manage = CHR ''m''"
| "example_action_to Record = CHR ''r''"

definition example_action_from :: "char \<Rightarrow> (string, ActionClass) result" where
  "example_action_from c =
     (if c = CHR ''o'' then Inr Observe else if c = CHR ''d'' then Inr Drive
      else if c = CHR ''m'' then Inr Manage else if c = CHR ''r'' then Inr Record
      else Inl ''unknown variant'')"

fun example_duration_to :: "DurationSpec \<Rightarrow> (string, string) result" where
  "example_duration_to Once = Inr ''o''"
| "example_duration_to UntilSurfaceGone = Inr ''u''"
| "example_duration_to (Session s) = Inr (CHR ''s'' # s)"
| "example_duration_to (TimeBounded e) = Inl ''not supported''"
| "example_duration_to Persistent = Inr ''p''"

fun example_duration_from :: "string \<Rightarrow> (string, DurationSpec) result" where
  "example_duration_from [] = Inl ''eof''"
| "example_duration_from (c # cs) =
     (if c = CHR ''o'' then Inr Once
      else if c = CHR ''u'' then Inr UntilSurfaceGone
      else if c = CHR ''s'' then Inr (Session cs)
      else if c = CHR ''p'' then Inr Persistent
      else Inl ''unknown variant'')"

definition example_libs :: libs where
  "example_libs =
     \<lparr>sha256_hex = (\<lambda>token. CHR ''#'' # rev token),
      target_to_json = example_target_to, target_from_json = example_target_from,
      actions_to_json = (\<lambda>xs. Inr (map example_action_to xs)),
      actions_from_json = (\<lambda>s. collect_results (map example_action_from s)),
      duration_to_json = example_duration_to, duration_from_json = example_duration_from,
      constraints_to_json = (\<lambda>cs. if cs = [] then Inr [] else if cs = [RequiresFrontmost] then Inr ''f''
                                  else Inl ''not supported''),
      constraints_from_json = (\<lambda>s. if s = [] then Inr [] else if s = ''f'' then Inr [RequiresFrontmost]
                                   else Inl ''unknown variant''),
      context_to_json = (\<lambda>_. Inr ''{}''),
      context_from_json = (\<lambda>_. Inr PermissionRequestContext_default),
      metadata_to_json = (\<lambda>_. Inr ''null''),
      metadata_from_json = (\<lambda>_. Inr None)\<rparr>"

text \<open>A call without faults whose uuids are \<open>p0\<close>, \<open>p00\<close> and so on for a prefix \<open>p\<close>.\<close>

definition quiet_env :: "string \<Rightarrow> sql_env" where
  "quiet_env p = \<lparr>conn_fault = None, new_uuid = (\<lambda>n. p @ replicate (Suc n) (CHR ''0'')), sql_fault = (\<lambda>_. None)\<rparr>"

definition example_created :: AgentPolicyStore where
  "example_created = snd (create_identity example_libs (quiet_env ''c'') init_schema ''helper'' None 1000)"

definition example_requested :: AgentPolicyStore where
  "example_requested =
     snd (find_or_create_pending_request example_libs (quiet_env ''q'') example_created ''agent_c0''
            (Surface ''surf_1'') [Drive, Observe, Drive] None PermissionRequestContext_default 2000)"

definition example_approved :: AgentPolicyStore where
  "example_approved = snd (approve_request example_libs (quiet_env ''g'') example_requested ''apr_q0'' Once [] 3000)"

definition example_denied :: AgentPolicyStore where
  "example_denied = snd (deny_request example_libs (quiet_env ''d'') example_requested ''apr_q0'' True None 3000)"

lemma example_run:
  "store_run example_libs init_schema example_created"
  "store_run example_libs init_schema example_requested"
  "store_run example_libs init_schema example_approved"
  "store_run example_libs init_schema example_denied"
proof -
  have step: "store_run L S T" if "store_run L S U" "store_step L U T" for L S T U
    using that by (rule store_run_step)
  show a: "store_run example_libs init_schema example_created" unfolding example_created_def
    by (rule step [OF store_run_refl]) (rule store_step.create_identity [OF prod.collapse [symmetric]])
  show b: "store_run example_libs init_schema example_requested" unfolding example_requested_def
    by (rule step [OF a]) (rule store_step.find_or_create_pending_request [OF prod.collapse [symmetric]])
  show "store_run example_libs init_schema example_approved" unfolding example_approved_def
    by (rule step [OF b]) (rule store_step.approve_request [OF prod.collapse [symmetric]])
  show "store_run example_libs init_schema example_denied" unfolding example_denied_def
    by (rule step [OF b]) (rule store_step.deny_request [OF prod.collapse [symmetric]])
qed

lemmas store_eval =
  example_libs_def quiet_env_def sql_check_def atomically_def settle_def read_conn_def Let_def init_schema_def
  insert_identity_def insert_token_def insert_request_def insert_grant_def insert_denial_def insert_audit_def
  token_for_def hash_token_def pending_for_def canonicalize_actions_def
  select_pending_request_def select_request_by_id_def transpose_row_def stored_request_from_tuple_def
  status_parse_def example_action_from_def update_where_def count_where_def
  less_eq_ActionClass_def less_ActionClass_def numeral_2_eq_2 numeral_3_eq_3

lemma example_created_eq:
  "example_created = \<lparr>
     identities = [\<lparr>id_agent_id = ''agent_c0'', id_display_name = ''helper'', id_metadata_json = ''null'',
                    id_created_at = 1000, id_revoked_at = None\<rparr>],
     tokens = [\<lparr>tok_token_id = ''tok_c00'', tok_agent_id = ''agent_c0'', tok_hash = ''#000c.0c_tnega_atp'',
                tok_created_at = 1000, tok_revoked_at = None\<rparr>],
     grants = [], denials = [], requests = [], audit = []\<rparr>"
  by (simp add: example_created_def create_identity_atomic store_eval)

lemma example_requested_requests:
  "requests example_requested =
     [\<lparr>rq_request_id = ''apr_q0'', rq_agent_id = ''agent_c0'', rq_target_json = ''ssurf_1'',
       rq_actions_json = ''od'', rq_reason = None, rq_status = ''pending'', rq_created_at = 2000,
       rq_resolved_at = None, rq_context_json = ''{}'', rq_invalidation_reason = None\<rparr>]"
  by (simp add: example_requested_def example_created_eq find_or_create_pending_request_atomic store_eval
      PermissionRequestContext_default_def)

lemma example_approved_eq:
  "fst (approve_request example_libs (quiet_env ''g'') example_requested ''apr_q0'' Once [] 3000) =
     Inr \<lparr>sg_grant_id = ''grant_g0'', sg_agent_id = ''agent_c0'', sg_origin_request_id = Some ''apr_q0'',
          sg_target = Surface ''surf_1'', sg_actions = [Observe, Drive], sg_duration = Once,
          sg_constraints = [], sg_created_at = 3000, sg_expires_at = None, sg_consumed_at = None,
          sg_revoked_at = None\<rparr>"
  "grants example_approved =
     [\<lparr>gr_grant_id = ''grant_g0'', gr_agent_id = ''agent_c0'', gr_origin_request_id = Some ''apr_q0'',
       gr_target_json = ''ssurf_1'', gr_actions_json = ''od'', gr_duration_json = ''o'',
       gr_constraints_json = [], gr_created_at = 3000, gr_expires_at = None, gr_consumed_at = None,
       gr_revoked_at = None\<rparr>]"
  "map (\<lambda>r. (rq_request_id r, rq_status r)) (requests example_approved) = [(''apr_q0'', ''approved'')]"
  by (simp_all add: example_approved_def example_requested_def example_created_eq approve_request_atomic
      find_or_create_pending_request_atomic store_eval PermissionRequestContext_default_def)

section \<open>Properties of runs\<close>

text \<open>
  C8: In every state the store can reach, whatever operations ran and whatever statements failed:
  the primary keys of all six tables are distinct; an agent has at most one pending request per
  target and action set; every grant stems from exactly one request of the same agent, that
  request is approved, and every approved request has its grant; no live token belongs to a
  revoked identity; and every request has an audit entry for its creation or for the decision
  taken on it.
\<close>

theorem store_reachable_consistent:
  assumes "store_run L init_schema S"
  shows "store_wf S"
  using assms by (rule store_reachable_wf)

theorem store_reachable_consistent_witness:
  "store_wf example_approved \<and> map gr_origin_request_id (grants example_approved) = [Some ''apr_q0'']"
  using store_reachable_consistent [OF example_run(3)] by (simp add: example_approved_eq)

lemma decided_row_pending_unique:
  assumes "store_wf S" and "r \<in> set (requests S)" and "rq_status r \<noteq> ''pending''"
    and "rq_request_id x = rq_request_id r" and "x \<in> set (requests S)"
  shows "rq_status x \<noteq> ''pending''"
  using assms by (auto simp: store_wf_def store_keys_def distinct_map dest: inj_onD)

lemma decide_again:
  assumes "store_wf S" and "r \<in> set (requests S)" and "rq_status r \<noteq> ''pending''"
  shows "\<exists>e. approve_request L E S (rq_request_id r) d cs t = (Inl e, S)"
    and "\<exists>e. deny_request L E S (rq_request_id r) b rs t = (Inl e, S)"
    and "snd (invalidate_request L E S (rq_request_id r) reason t) = S"
proof -
  note no = decided_row_pending_unique [OF assms]
  obtain x S' where a: "approve_request L E S (rq_request_id r) d cs t = (x, S')" by fastforce
  show "\<exists>e. approve_request L E S (rq_request_id r) d cs t = (Inl e, S)"
  proof (cases x)
    case (Inl e)
    with a show ?thesis using atomically_Inl unfolding approve_request_atomic by fastforce
  next
    case (Inr sg)
    with a no show ?thesis using approve_request_Inr [of L E S "rq_request_id r" d cs t sg S'] by fastforce
  qed
  obtain y S'' where b: "deny_request L E S (rq_request_id r) b rs t = (y, S'')" by fastforce
  show "\<exists>e. deny_request L E S (rq_request_id r) b rs t = (Inl e, S)"
  proof (cases y)
    case (Inl e)
    with b show ?thesis using atomically_Inl unfolding deny_request_atomic by fastforce
  next
    case (Inr q)
    with b no show ?thesis using deny_request_Inr [of L E S "rq_request_id r" _ rs t q S''] by fastforce
  qed
  obtain z S3 where c: "invalidate_request L E S (rq_request_id r) reason t = (z, S3)" by fastforce
  show "snd (invalidate_request L E S (rq_request_id r) reason t) = S"
  proof (cases z)
    case (Inl e)
    with c show ?thesis using atomically_Inl unfolding invalidate_request_atomic by fastforce
  next
    case (Inr qb)
    obtain q w where "qb = (q, w)" by (cases qb)
    with c Inr no show ?thesis
      using invalidate_request_Inr [of L E S "rq_request_id r" reason t q S3]
        invalidate_request_lost [of L E S "rq_request_id r" reason t q S3]
      by (cases w) fastforce+
  qed
qed

text \<open>
  C9: A decision on a permission request is final.  Once a request is approved, denied or
  invalidated, its row never changes again in any later state, and every later attempt to
  approve or deny it is an error and to invalidate it a no-op: none of them touches the tables.
\<close>

theorem decision_is_final:
  assumes "store_run L init_schema S" and "r \<in> set (requests S)" and "rq_status r \<noteq> ''pending''"
    and "store_run L S S'"
  shows "r \<in> set (requests S') \<and>
    (\<exists>e. approve_request L E S' (rq_request_id r) d cs t = (Inl e, S')) \<and>
    (\<exists>e. deny_request L E S' (rq_request_id r) b rs t = (Inl e, S')) \<and>
    snd (invalidate_request L E S' (rq_request_id r) reason t) = S'"
proof -
  have wf: "store_wf S'" using assms store_reachable_wf store_run_wf by blast
  moreover have "r \<in> set (requests S')"
    using request_later [OF store_run_le [OF assms(4) store_reachable_wf [OF assms(1)]] assms(2,3)] .
  ultimately show ?thesis using decide_again [OF _ _ assms(3)] by blast
qed

theorem decision_is_final_witness:
  "\<exists>e. deny_request example_libs (quiet_env ''x'') example_approved ''apr_q0'' True None 9000 = (Inl e, example_approved)"
proof -
  obtain r where r: "r \<in> set (requests example_approved)" "rq_request_id r = ''apr_q0''" "rq_status r = ''approved''"
    using example_approved_eq(3) by auto
  with decision_is_final [OF example_run(3) r(1) _ store_run_refl] show ?thesis by auto
qed

lemma update_where_in: "r \<in> set rows \<Longrightarrow> c r \<Longrightarrow> f r \<in> set (update_where c f rows)"
  by (auto simp: set_update_where)

lemma try_consume_Inr_True:
  assumes "try_consume_once_grant L E S k t = (Inr True, S')"
  shows "\<exists>g \<in> set (grants S). gr_grant_id g = k \<and> gr_consumed_at g = None \<and> gr_revoked_at g = None \<and>
    duration_from_json L (gr_duration_json g) = Inr Once"
    and "\<exists>g \<in> set (grants S'). gr_grant_id g = k \<and> gr_consumed_at g = Some t \<and>
      duration_from_json L (gr_duration_json g) = Inr Once"
proof -
  from assms obtain g where g: "g \<in> set (grants S)" "gr_grant_id g = k" "gr_consumed_at g = None"
    "gr_revoked_at g = None" "duration_from_json L (gr_duration_json g) = Inr Once"
    and S': "grants S' = update_where (\<lambda>r. gr_grant_id r = k \<and> gr_consumed_at r = None \<and> gr_revoked_at r = None)
      (\<lambda>r. r\<lparr>gr_consumed_at := Some t\<rparr>) (grants S)"
    unfolding try_consume_once_grant_atomic
    by (auto simp: result_simps Let_def split: option.splits if_splits dest!: find_Some_in)
  then show "\<exists>g \<in> set (grants S). gr_grant_id g = k \<and> gr_consumed_at g = None \<and> gr_revoked_at g = None \<and>
      duration_from_json L (gr_duration_json g) = Inr Once" by blast
  from g have "g\<lparr>gr_consumed_at := Some t\<rparr> \<in> set (grants S')" unfolding S' by (intro update_where_in) auto
  with g(2,5) show "\<exists>g \<in> set (grants S'). gr_grant_id g = k \<and> gr_consumed_at g = Some t \<and>
      duration_from_json L (gr_duration_json g) = Inr Once"
    by (intro bexI) auto
qed

text \<open>
  C2: A one-time grant is used at most once.  After one call of \<open>try_consume_once_grant\<close> for a
  grant returned true, no later call for the same grant does, whatever operations (and failing
  statements) happen in between, from whichever tasks they come.
\<close>

theorem once_grant_consumed_once:
  assumes "store_run L init_schema S" and "try_consume_once_grant L E S k t = (Inr True, S1)"
    and "store_run L S1 S2"
  shows "fst (try_consume_once_grant L E' S2 k t') \<noteq> Inr True"
proof
  assume again: "fst (try_consume_once_grant L E' S2 k t') = Inr True"
  have "store_run L init_schema S1"
    using assms(1,2) store_run_step store_step.try_consume_once_grant by blast
  then have wf: "store_wf S1" "store_wf S2"
    using store_reachable_wf store_run_wf assms(3) by blast+
  from try_consume_Inr_True(2) [OF assms(2)] obtain g where
    g: "g \<in> set (grants S1)" "gr_grant_id g = k" "gr_consumed_at g \<noteq> None" by auto
  from again obtain S3 where "try_consume_once_grant L E' S2 k t' = (Inr True, S3)" by (metis prod.collapse)
  from try_consume_Inr_True(1) [OF this] obtain h where
    h: "h \<in> set (grants S2)" "gr_grant_id h = k" "gr_consumed_at h = None" by blast
  from grant_later [OF store_run_le [OF assms(3) wf(1)] wf(2) g(1) h(1)] g h show False
    by (simp add: grant_evolves_def)
qed

lemma example_consume:
  "try_consume_once_grant example_libs (quiet_env ''t'') example_approved ''grant_g0'' 4000 =
     (Inr True, snd (try_consume_once_grant example_libs (quiet_env ''t'') example_approved ''grant_g0'' 4000))"
  by (simp add: try_consume_once_grant_atomic example_approved_eq store_eval)

theorem once_grant_consumed_once_witness:
  "fst (try_consume_once_grant example_libs (quiet_env ''t'') example_approved ''grant_g0'' 4000) = Inr True \<and>
   fst (try_consume_once_grant example_libs (quiet_env ''u'')
     (snd (try_consume_once_grant example_libs (quiet_env ''t'') example_approved ''grant_g0'' 4000)) ''grant_g0'' 5000) \<noteq> Inr True"
  using once_grant_consumed_once [OF example_run(3) example_consume store_run_refl] example_consume
  by (metis fst_conv)

lemma revoke_grant_Inr_True:
  assumes "revoke_grant E S k t = (Inr True, S')"
  shows "\<exists>g \<in> set (grants S'). gr_grant_id g = k \<and> gr_revoked_at g = Some t"
proof -
  from assms have "count_where (\<lambda>r. gr_grant_id r = k \<and> gr_revoked_at r = None) (grants S) \<noteq> 0"
    by (auto simp: revoke_grant_atomic result_simps Let_def)
  then obtain g where g: "g \<in> set (grants S)" "gr_grant_id g = k" "gr_revoked_at g = None"
    by (auto simp: count_where_0)
  with assms have "g\<lparr>gr_revoked_at := Some t\<rparr> \<in> set (grants S')"
    by (auto simp: revoke_grant_atomic result_simps Let_def intro!: update_where_in)
  with g(2) show ?thesis by (intro bexI) auto
qed

text \<open>
  C3: Revoking a grant takes effect for good.  Once \<open>revoke_grant\<close> returned true, no policy
  snapshot loaded in any later state authorizes a request by that grant.
\<close>

theorem revoked_grant_never_authorizes:
  assumes "store_run L init_schema S" and "revoke_grant E S k t = (Inr True, S1)"
    and "store_run L S1 S2" and "load_policy_snapshot L E' S2 a = Inr snap"
  shows "authorize snap ctx tctx actions now \<noteq> Allowed k c"
proof
  assume "authorize snap ctx tctx actions now = Allowed k c"
  then obtain g where "g \<in> set (snap_grants snap)" "grant_id g = k" using authorize_Allowed by blast
  with assms(4) obtain h where h: "h \<in> set (grants S2)" "gr_grant_id h = k" "gr_revoked_at h = None"
    by (metis snapshot_grant_row)
  have "store_run L init_schema S1" using assms(1,2) store_run_step store_step.revoke_grant by blast
  then have wf: "store_wf S1" "store_wf S2" using store_reachable_wf store_run_wf assms(3) by blast+
  from revoke_grant_Inr_True [OF assms(2)] obtain g' where
    g': "g' \<in> set (grants S1)" "gr_grant_id g' = k" "gr_revoked_at g' \<noteq> None" by auto
  from grant_later [OF store_run_le [OF assms(3) wf(1)] wf(2) g'(1) h(1)] g' h show False
    by (simp add: grant_evolves_def)
qed

lemma example_revoke:
  "revoke_grant (quiet_env ''r'') example_approved ''grant_g0'' 4000 =
     (Inr True, snd (revoke_grant (quiet_env ''r'') example_approved ''grant_g0'' 4000))"
  by (simp add: revoke_grant_atomic example_approved_eq store_eval)

theorem revoked_grant_never_authorizes_witness:
  "\<exists>snap. load_policy_snapshot example_libs (quiet_env ''s'')
       (snd (revoke_grant (quiet_env ''r'') example_approved ''grant_g0'' 4000)) ''agent_c0'' = Inr snap \<and>
     authorize snap \<lparr>ctx_agent_id = ''agent_c0''\<rparr> example_target [Drive] 5000 \<noteq> Allowed ''grant_g0'' True"
proof -
  have "\<exists>snap. load_policy_snapshot example_libs (quiet_env ''s'')
       (snd (revoke_grant (quiet_env ''r'') example_approved ''grant_g0'' 4000)) ''agent_c0'' = Inr snap"
    by (simp add: load_policy_snapshot_def revoke_grant_atomic example_approved_eq store_eval
        example_approved_def approve_request_atomic example_requested_def find_or_create_pending_request_atomic
        example_created_eq PermissionRequestContext_default_def)
  with revoked_grant_never_authorizes [OF example_run(3) example_revoke store_run_refl] show ?thesis
    by blast
qed

lemma revoke_identity_Inr:
  assumes "revoke_identity E S a t = (Inr b, S')" and "i \<in> set (identities S)" and "id_agent_id i = a"
  shows "\<exists>i' \<in> set (identities S'). id_agent_id i' = a \<and> id_revoked_at i' \<noteq> None"
proof (cases "id_revoked_at i")
  case None
  with assms have "i\<lparr>id_revoked_at := Some t\<rparr> \<in> set (identities S')"
    by (auto simp: revoke_identity_atomic result_simps Let_def intro!: update_where_in)
  with assms(3) show ?thesis by (intro bexI) auto
next
  case (Some u)
  with assms(1,2) have "i \<in> set (identities S')"
    by (auto simp: revoke_identity_atomic result_simps Let_def set_update_where)
  with assms(3) Some show ?thesis by (intro bexI) auto
qed

lemma revoke_identity_locks_out:
  assumes "store_run L init_schema S" and "a \<in> id_agent_id ` set (identities S)"
    and "revoke_identity E S a t = (Inr b, S1)" and "store_run L S1 S2"
  shows "authenticate_agent_token L E' S2 token \<noteq> Inr (Some a)"
proof
  assume "authenticate_agent_token L E' S2 token = Inr (Some a)"
  then obtain j where j: "j \<in> set (identities S2)" "id_agent_id j = a" "id_revoked_at j = None"
    by (auto simp: authenticate_Some live_token_hashes_iff)
  have "store_run L init_schema S1" using assms(1,3) store_run_step store_step.revoke_identity by blast
  then have wf: "store_wf S1" "store_wf S2" using store_reachable_wf store_run_wf assms(4) by blast+
  from assms(2) obtain i0 where "i0 \<in> set (identities S)" "id_agent_id i0 = a" by auto
  from revoke_identity_Inr [OF assms(3) this] obtain i where
    i: "i \<in> set (identities S1)" "id_agent_id i = a" "id_revoked_at i \<noteq> None" by auto
  from identity_later [OF store_run_le [OF assms(4) wf(1)] i(1,3)] i j wf(2) show False
    by (auto simp: store_wf_def store_keys_def distinct_map dest: inj_onD)
qed

text \<open>
  A revoked identity is locked out for good.  Once \<open>revoke_identity\<close> has committed for an
  agent, no bearer token whatsoever authenticates as that agent in any later state, even if
  tokens are minted or the daemon is asked again.
\<close>

theorem revoked_identity_never_authenticates:
  assumes "store_run L init_schema S" and "a \<in> id_agent_id ` set (identities S)"
    and "revoke_identity E S a t = (Inr b, S1)" and "store_run L S1 S2"
  shows "authenticate_agent_token L E' S2 token \<noteq> Inr (Some a)"
  using assms by (rule revoke_identity_locks_out)

lemma example_revoke_identity:
  "revoke_identity (quiet_env ''r'') example_created ''agent_c0'' 4000 =
     (Inr True, snd (revoke_identity (quiet_env ''r'') example_created ''agent_c0'' 4000))"
  by (simp add: revoke_identity_atomic example_created_eq store_eval)

theorem revoked_identity_never_authenticates_witness:
  "authenticate_agent_token example_libs (quiet_env ''x'') example_created ''pta_agent_c0.c000'' = Inr (Some ''agent_c0'') \<and>
   authenticate_agent_token example_libs (quiet_env ''x'')
     (snd (revoke_identity (quiet_env ''r'') example_created ''agent_c0'' 4000)) ''pta_agent_c0.c000'' \<noteq> Inr (Some ''agent_c0'')"
proof
  show "authenticate_agent_token example_libs (quiet_env ''x'') example_created ''pta_agent_c0.c000'' = Inr (Some ''agent_c0'')"
    by (simp add: authenticate_agent_token_def authenticate_agent_token_in_conn_def parse_token_agent_id_def
        example_created_eq live_token_hashes_def store_eval)
  show "authenticate_agent_token example_libs (quiet_env ''x'')
     (snd (revoke_identity (quiet_env ''r'') example_created ''agent_c0'' 4000)) ''pta_agent_c0.c000'' \<noteq> Inr (Some ''agent_c0'')"
    by (rule revoked_identity_never_authenticates [OF example_run(1) _ example_revoke_identity store_run_refl])
       (simp add: example_created_eq)
qed

text \<open>
  Revoking a token takes effect for good.  After \<open>revoke_token\<close> returned true, a bearer token
  authenticates as that agent only by another, unrevoked token row of the agent with the
  bearer's digest.
\<close>

theorem revoked_token_never_authenticates:
  assumes "store_run L init_schema S" and "revoke_token E S a k t = (Inr True, S1)" and "store_run L S1 S2"
    and "authenticate_agent_token L E' S2 token = Inr (Some a)"
  shows "\<exists>row. row \<in> set (tokens S2) \<and> tok_token_id row \<noteq> k \<and> tok_agent_id row = a \<and>
    tok_revoked_at row = None \<and> tok_hash row = hash_token L token"
proof -
  from assms(4) obtain row where row: "row \<in> set (tokens S2)" "tok_agent_id row = a"
    "tok_revoked_at row = None" "tok_hash row = hash_token L token"
    by (auto simp: authenticate_Some live_token_hashes_iff)
  from assms(2) have "count_where (\<lambda>r. tok_agent_id r = a \<and> tok_token_id r = k \<and> tok_revoked_at r = None) (tokens S) \<noteq> 0"
    by (auto simp: revoke_token_atomic result_simps Let_def)
  then obtain r where r: "r \<in> set (tokens S)" "tok_agent_id r = a" "tok_token_id r = k" "tok_revoked_at r = None"
    by (auto simp: count_where_0)
  with assms(2) have r1: "r\<lparr>tok_revoked_at := Some t\<rparr> \<in> set (tokens S1)"
    by (auto simp: revoke_token_atomic result_simps Let_def intro!: update_where_in)
  have "store_run L init_schema S1" using assms(1,2) store_run_step store_step.revoke_token by blast
  then have wf: "store_wf S1" "store_wf S2" using store_reachable_wf store_run_wf assms(3) by blast+
  have "r\<lparr>tok_revoked_at := Some t\<rparr> \<in> set (tokens S2)"
    using token_later [OF store_run_le [OF assms(3) wf(1)] r1] by simp
  moreover have "x = y" if "x \<in> set (tokens S2)" "y \<in> set (tokens S2)" "tok_token_id x = tok_token_id y" for x y
    using that wf(2) by (auto simp: store_wf_def store_keys_def distinct_map dest: inj_onD)
  ultimately have "tok_token_id row \<noteq> k" using row(1,3) r(3) by fastforce
  with row show ?thesis by blast
qed

definition example_minted :: AgentPolicyStore where
  "example_minted = snd (mint_token example_libs (quiet_env ''m'') example_created ''agent_c0'' 1500)"

lemma example_minted_run: "store_run example_libs init_schema example_minted"
  unfolding example_minted_def
  by (rule store_run_step [OF example_run(1)]) (rule store_step.mint_token [OF prod.collapse [symmetric]])

lemmas minted_eval = example_minted_def mint_token_atomic revoke_token_atomic example_created_eq store_eval

lemma example_revoke_token:
  "revoke_token (quiet_env ''r'') example_minted ''agent_c0'' ''tok_c00'' 4000 =
     (Inr True, snd (revoke_token (quiet_env ''r'') example_minted ''agent_c0'' ''tok_c00'' 4000))"
  by (simp add: minted_eval)

theorem revoked_token_never_authenticates_witness:
  "\<exists>row. row \<in> set (tokens (snd (revoke_token (quiet_env ''r'') example_minted ''agent_c0'' ''tok_c00'' 4000))) \<and>
     tok_token_id row \<noteq> ''tok_c00'' \<and> tok_hash row = hash_token example_libs ''pta_agent_c0.m00''"
proof -
  have "authenticate_agent_token example_libs (quiet_env ''x'')
      (snd (revoke_token (quiet_env ''r'') example_minted ''agent_c0'' ''tok_c00'' 4000)) ''pta_agent_c0.m00'' =
    Inr (Some ''agent_c0'')"
    by (simp add: minted_eval authenticate_agent_token_def authenticate_agent_token_in_conn_def
        parse_token_agent_id_def live_token_hashes_def)
  from revoked_token_never_authenticates [OF example_minted_run example_revoke_token store_run_refl this]
  show ?thesis by blast
qed

text \<open>
  C11: The bearer token that \<open>create_identity\<close> hands out authenticates, at once and in every
  later state in which neither the identity nor the token row was revoked, and as the new agent.
  (The uuid strings contain no dot and are not empty.)
\<close>

theorem created_token_authenticates:
  assumes "create_identity L E S name metadata t = (Inr c, S1)" and "store_wf S" and "store_run L S1 S2"
    and "\<And>n. CHR ''.'' \<notin> set (new_uuid E n) \<and> new_uuid E n \<noteq> []"
    and "conn_fault E' = None" and "sql_fault E' 0 = None"
    and "\<And>i. i \<in> set (identities S2) \<Longrightarrow> id_agent_id i = ci_agent_id c \<Longrightarrow> id_revoked_at i = None"
    and "\<And>r. r \<in> set (tokens S2) \<Longrightarrow> tok_token_id r = ci_token_id c \<Longrightarrow> tok_revoked_at r = None"
  shows "authenticate_agent_token L E' S2 (ci_token c) = Inr (Some (ci_agent_id c))"
proof -
  let ?i = "last (identities S1)" and ?r = "last (tokens S1)"
  have c: "ci_agent_id c = ''agent_'' @ new_uuid E 0" "ci_token c = token_for (ci_agent_id c) (new_uuid E 2)"
    "?i \<in> set (identities S1)" "?r \<in> set (tokens S1)" "id_agent_id ?i = ci_agent_id c"
    "tok_token_id ?r = ci_token_id c" "tok_agent_id ?r = ci_agent_id c" "tok_hash ?r = hash_token L (ci_token c)"
    using assms(1) by (auto simp: create_identity_atomic result_simps Let_def)
  have wf: "store_wf S1" using store_wf_effect [OF create_identity_effect [OF assms(1)] assms(2)] .
  note le = store_run_le [OF assms(3) wf]
  from le c(3) obtain i where i: "i \<in> set (identities S2)" "identity_evolves ?i i"
    unfolding store_le_def by (blast elim: extends_in)
  from le c(4) obtain r where r: "r \<in> set (tokens S2)" "token_evolves ?r r"
    unfolding store_le_def by (blast elim: extends_in)
  have i': "id_agent_id i = ci_agent_id c"
    using identity_evolves_id [OF i(2)] c(5) by simp
  have r': "tok_token_id r = ci_token_id c" "tok_agent_id r = ci_agent_id c" "tok_hash r = hash_token L (ci_token c)"
    using token_evolves_fields [OF r(2)] c(6-8) by simp_all
  have "parse_token_agent_id (ci_token c) = Some (ci_agent_id c)"
    unfolding c(2) using assms(4) [of 0] assms(4) [of 2] c(1) by (intro parse_token_for) auto
  with i(1) i' r(1) r' assms(5-8) show ?thesis
    by (auto simp: authenticate_Some live_token_hashes_iff)
qed

theorem created_token_authenticates_witness:
  "authenticate_agent_token example_libs (quiet_env ''x'') example_minted ''pta_agent_c0.c000'' = Inr (Some ''agent_c0'')"
proof -
  have "create_identity example_libs (quiet_env ''c'') init_schema ''helper'' None 1000 =
      (Inr \<lparr>ci_agent_id = ''agent_c0'', ci_token_id = ''tok_c00'', ci_token = ''pta_agent_c0.c000''\<rparr>, example_created)"
    unfolding example_created_def by (simp add: create_identity_atomic store_eval)
  moreover have "store_run example_libs example_created example_minted"
    unfolding example_minted_def
    by (rule store_run_single) (rule store_step.mint_token [OF prod.collapse [symmetric]])
  ultimately have "authenticate_agent_token example_libs (quiet_env ''x'') example_minted
      (ci_token \<lparr>ci_agent_id = ''agent_c0'', ci_token_id = ''tok_c00'', ci_token = ''pta_agent_c0.c000''\<rparr>) =
    Inr (Some (ci_agent_id \<lparr>ci_agent_id = ''agent_c0'', ci_token_id = ''tok_c00'', ci_token = ''pta_agent_c0.c000''\<rparr>))"
    by (rule created_token_authenticates [OF _ store_wf_init]) (auto simp: minted_eval)
  then show ?thesis by simp
qed

section \<open>Requests, approvals and denials take effect\<close>

text \<open>What the callers rely on of the JSON codec: a value that encodes decodes to itself.\<close>

definition json_roundtrip :: "('a \<Rightarrow> (string, string) result) \<Rightarrow> (string \<Rightarrow> (string, 'a) result) \<Rightarrow> 'a \<Rightarrow> bool" where
  "json_roundtrip to_json from_json x =
     (case to_json x of Inl _ \<Rightarrow> True | Inr s \<Rightarrow> from_json s = Inr x)"

lemma json_roundtripD: "json_roundtrip to_json from_json x \<Longrightarrow> to_json x = Inr s \<Longrightarrow> from_json s = Inr x"
  by (simp add: json_roundtrip_def)

lemma canonicalize_actions_props:
  "set (canonicalize_actions xs) = set xs" "sorted (canonicalize_actions xs)" "distinct (canonicalize_actions xs)"
proof -
  have d: "distinct (remdups_adj ys)" if "sorted ys" for ys :: "ActionClass list"
    using that by (induction ys rule: remdups_adj.induct) (auto simp: order.order_iff_strict)
  show "set (canonicalize_actions xs) = set xs" "sorted (canonicalize_actions xs)" "distinct (canonicalize_actions xs)"
    by (auto simp: canonicalize_actions_def sorted_remdups_adj d)
qed

lemma canonicalize_actions_cong: "set xs = set ys \<Longrightarrow> canonicalize_actions xs = canonicalize_actions ys"
  by (metis canonicalize_actions_props sorted_distinct_set_unique)

lemma canonicalize_actions_idem [simp]: "canonicalize_actions (canonicalize_actions xs) = canonicalize_actions xs"
  by (rule canonicalize_actions_cong) (simp add: canonicalize_actions_props)

lemma find_or_create_then_found:
  assumes "find_or_create_pending_request L E S a tg acts rs c t = (Inr (q, b), S1)"
    and "json_roundtrip (target_to_json L) (target_from_json L) tg"
    and "json_roundtrip (actions_to_json L) (actions_from_json L) (canonicalize_actions acts)"
    and "json_roundtrip (context_to_json L) (context_from_json L) c"
  obtains tj aj r q' where "target_to_json L tg = Inr tj" "actions_to_json L (canonicalize_actions acts) = Inr aj"
    "find (pending_for a tj aj) (requests S1) = Some r" "stored_request_from_tuple L r = Inr q'"
    "sr_request_id q' = sr_request_id q"
proof (cases b)
  case True
  with assms(1) have "find_or_create_pending_request L E S a tg acts rs c t = (Inr (q, True), S1)" by simp
  from find_or_create_created [OF this] obtain r where
    r: "target_to_json L tg = Inr (rq_target_json r)" "rq_request_id r = sr_request_id q"
      "actions_to_json L (canonicalize_actions acts) = Inr (rq_actions_json r)"
      "context_to_json L c = Inr (rq_context_json r)" "rq_status r = ''pending''" "rq_agent_id r = a"
      "\<And>r'. r' \<in> set (requests S) \<Longrightarrow> \<not> pending_for a (rq_target_json r) (rq_actions_json r) r'"
      "requests S1 = requests S @ [r]"
    by fastforce
  have "find (pending_for a (rq_target_json r) (rq_actions_json r)) (requests S) = None"
    using r(7) by (auto simp: find_None_iff)
  with r have "find (pending_for a (rq_target_json r) (rq_actions_json r)) (requests S1) = Some r"
    by (simp add: pending_for_def)
  moreover have "stored_request_from_tuple L r =
      Inr \<lparr>sr_context = c, sr_request_id = rq_request_id r, sr_agent_id = a, sr_target = tg,
          sr_actions = canonicalize_actions acts, sr_reason = rq_reason r, sr_status = StatusPending,
          sr_invalidation_reason = rq_invalidation_reason r, sr_created_at = rq_created_at r,
          sr_resolved_at = rq_resolved_at r\<rparr>"
    using r json_roundtripD [OF assms(2) r(1)] json_roundtripD [OF assms(3) r(3)] json_roundtripD [OF assms(4) r(4)]
    by (simp add: stored_request_from_tuple_def status_parse_def)
  ultimately show thesis using that r by simp
next
  case False
  with assms(1) obtain tj aj r where "target_to_json L tg = Inr tj" "actions_to_json L (canonicalize_actions acts) = Inr aj"
    "find (pending_for a tj aj) (requests S1) = Some r" "stored_request_from_tuple L r = Inr q"
    by (auto simp: find_or_create_pending_request_atomic Let_def result_simps select_pending_request_def split: option.splits)
  then show thesis using that by blast
qed

text \<open>
  Asking twice does not ask the operator twice.  After \<open>find_or_create_pending_request\<close>
  returned a request, a second call by the same agent for the same target and the same set of
  actions, in whatever order and with whatever repetitions, reason, context and time, returns
  that request, reports that it was not created and leaves the tables alone.
\<close>

theorem repeated_request_deduplicated:
  assumes "find_or_create_pending_request L E S a tg acts rs c t = (Inr (q, b), S1)"
    and "set acts' = set acts"
    and "json_roundtrip (target_to_json L) (target_from_json L) tg"
    and "json_roundtrip (actions_to_json L) (actions_from_json L) (canonicalize_actions acts)"
    and "json_roundtrip (context_to_json L) (context_from_json L) c"
    and "conn_fault E' = None" and "sql_fault E' 0 = None"
  shows "\<exists>q'. find_or_create_pending_request L E' S1 a tg acts' rs' c' t' = (Inr (q', False), S1) \<and>
    sr_request_id q' = sr_request_id q"
proof -
  from assms(1,3-5) obtain tj aj r q' where "target_to_json L tg = Inr tj"
    "actions_to_json L (canonicalize_actions acts) = Inr aj"
    "find (pending_for a tj aj) (requests S1) = Some r" "stored_request_from_tuple L r = Inr q'"
    "sr_request_id q' = sr_request_id q" by (rule find_or_create_then_found)
  with assms(6,7) canonicalize_actions_cong [OF assms(2)] show ?thesis
    by (auto simp: find_or_create_pending_request_atomic atomically_def settle_def Let_def select_pending_request_def transpose_row_def)
qed

theorem repeated_request_deduplicated_witness:
  "\<exists>q'. find_or_create_pending_request example_libs (quiet_env ''z'') example_requested ''agent_c0''
      (Surface ''surf_1'') [Observe, Drive] (Some ''again'') PermissionRequestContext_default 2500 =
        (Inr (q', False), example_requested) \<and> sr_request_id q' = ''apr_q0''"
proof -
  obtain q b where q: "find_or_create_pending_request example_libs (quiet_env ''q'') example_created ''agent_c0''
            (Surface ''surf_1'') [Drive, Observe, Drive] None PermissionRequestContext_default 2000 =
          (Inr (q, b), example_requested)" "sr_request_id q = ''apr_q0''"
    by (simp add: example_requested_def example_created_eq find_or_create_pending_request_atomic store_eval
        PermissionRequestContext_default_def)
  from repeated_request_deduplicated [OF q(1), of "[Observe, Drive]" "quiet_env ''z''" "Some ''again''"
      PermissionRequestContext_default 2500] q(2)
  show ?thesis
    by (auto simp: json_roundtrip_def store_eval)
qed

lemma approve_request_grant:
  assumes "approve_request L E S qid d cs t = (Inr sg, S')" and "stored_request_from_tuple L (decided_row S qid) = Inr q"
  shows "sg_agent_id sg = rq_agent_id (decided_row S qid) \<and> sg_target sg = sr_target q \<and>
    sg_actions sg = canonicalize_actions (sr_actions q)"
  using assms unfolding approve_request_atomic
  by (auto simp: Let_def result_simps split: if_splits dest!: select_request_decided)

text \<open>
  Approving a request grants what was asked.  In the state an approval leaves behind, the
  snapshot of the requesting agent holds a grant with the request's target and actions and the
  operator's duration and constraints, not consumed; so every operation these cover is decided
  without asking again (by that grant, by another one or by a remembered denial).
\<close>

theorem approval_takes_effect:
  assumes "store_run L init_schema S" and "approve_request L E S qid d cs t = (Inr sg, S1)"
    and "load_policy_snapshot L E' S1 (sg_agent_id sg) = Inr snap"
    and "json_roundtrip (target_to_json L) (target_from_json L) (sg_target sg)"
    and "json_roundtrip (actions_to_json L) (actions_from_json L) (sg_actions sg)"
    and "json_roundtrip (duration_to_json L) (duration_from_json L) d"
    and "json_roundtrip (constraints_to_json L) (constraints_from_json L) cs"
  shows "\<lparr>grant_id = sg_grant_id sg, grant_agent_id = sg_agent_id sg, grant_target = sg_target sg,
      grant_actions = sg_actions sg, grant_duration = d, grant_constraints = cs\<rparr> \<in> set (snap_grants snap) \<and>
    sg_grant_id sg \<notin> set (snap_consumed_once snap) \<and>
    \<not> (duration_matches d tctx now \<and> target_matches (sg_target sg) \<lparr>ctx_agent_id = sg_agent_id sg\<rparr> tctx \<and>
       actions_match (sg_actions sg) actions \<and> constraints_match cs tctx \<and>
       authorize snap \<lparr>ctx_agent_id = sg_agent_id sg\<rparr> tctx actions now = NeedsPermission)"
proof -
  from approve_request_Inr [OF assms(2)] obtain q g where
    q: "stored_request_from_tuple L (decided_row S qid) = Inr q" and
    g: "gr_grant_id g = sg_grant_id sg" "gr_agent_id g = rq_agent_id (decided_row S qid)"
      "gr_consumed_at g = None" "gr_revoked_at g = None" "g \<in> set (grants S1)"
    and enc: "target_to_json L (sr_target q) = Inr (gr_target_json g)"
      "actions_to_json L (canonicalize_actions (sr_actions q)) = Inr (gr_actions_json g)"
      "duration_to_json L d = Inr (gr_duration_json g)" "constraints_to_json L cs = Inr (gr_constraints_json g)"
    by (elim exE conjE) simp
  note sg = approve_request_grant [OF assms(2) q]
  have dec: "target_from_json L (gr_target_json g) = Inr (sg_target sg)"
    "actions_from_json L (gr_actions_json g) = Inr (sg_actions sg)"
    "duration_from_json L (gr_duration_json g) = Inr d" "constraints_from_json L (gr_constraints_json g) = Inr cs"
    using sg enc assms(4-7) by (auto intro: json_roundtripD)
  have "store_run L init_schema S1" using assms(1,2) store_run_step store_step.approve_request by blast
  then have "distinct (map gr_grant_id (grants S1))"
    using store_reachable_wf by (auto simp: store_wf_def store_keys_def)
  with assms(3) g sg obtain h where h: "h \<in> set (snap_grants snap)"
    "snapshot_grant L (sg_agent_id sg) g = Inr (h, False)" "grant_id h \<notin> set (snap_consumed_once snap)"
    by (metis row_in_snapshot)
  have eq: "h = \<lparr>grant_id = sg_grant_id sg, grant_agent_id = sg_agent_id sg, grant_target = sg_target sg,
      grant_actions = sg_actions sg, grant_duration = d, grant_constraints = cs\<rparr>"
    using h(2) dec g(1) by (cases h) (auto simp: snapshot_grant_Inr)
  with h have "grant_matches h \<lparr>ctx_agent_id = sg_agent_id sg\<rparr> tctx actions now (snap_consumed_once snap) \<longleftrightarrow>
      duration_matches d tctx now \<and> target_matches (sg_target sg) \<lparr>ctx_agent_id = sg_agent_id sg\<rparr> tctx \<and>
      actions_match (sg_actions sg) actions \<and> constraints_match cs tctx"
    by (auto simp: grant_matches_def)
  with h eq show ?thesis by (auto simp: authorize_NeedsPermission)
qed

lemmas approved_eval =
  example_approved_def approve_request_atomic example_requested_def find_or_create_pending_request_atomic
  example_created_eq PermissionRequestContext_default_def

theorem approval_takes_effect_witness:
  "\<exists>snap. load_policy_snapshot example_libs (quiet_env ''s'') example_approved ''agent_c0'' = Inr snap \<and>
     authorize snap \<lparr>ctx_agent_id = ''agent_c0''\<rparr> example_target [Drive] 5000 \<noteq> NeedsPermission"
proof -
  obtain snap where snap: "load_policy_snapshot example_libs (quiet_env ''s'') example_approved ''agent_c0'' = Inr snap"
    by (simp add: load_policy_snapshot_def snapshot_grant_def store_eval approved_eval)
  obtain sg where sg: "approve_request example_libs (quiet_env ''g'') example_requested ''apr_q0'' Once [] 3000 =
      (Inr sg, example_approved)" "sg_agent_id sg = ''agent_c0''" "sg_target sg = Surface ''surf_1''"
      "sg_actions sg = [Observe, Drive]"
    using example_approved_eq(1) by (cases "approve_request example_libs (quiet_env ''g'') example_requested ''apr_q0'' Once [] 3000")
      (auto simp: example_approved_def)
  have "\<not> (duration_matches Once example_target 5000 \<and>
      target_matches (sg_target sg) \<lparr>ctx_agent_id = sg_agent_id sg\<rparr> example_target \<and>
      actions_match (sg_actions sg) [Drive] \<and> constraints_match [] example_target \<and>
      authorize snap \<lparr>ctx_agent_id = sg_agent_id sg\<rparr> example_target [Drive] 5000 = NeedsPermission)"
    using approval_takes_effect [OF example_run(2) sg(1), of "quiet_env ''s''" snap example_target 5000 "[Drive]"] snap sg
    by (simp add: json_roundtrip_def store_eval)
  with snap sg show ?thesis
    by (simp add: duration_matches_def target_matches_def actions_match_def constraints_match_def example_target_def)
qed

lemma deny_request_result:
  assumes "deny_request L E S qid b rs t = (Inr q', S')" and "stored_request_from_tuple L (decided_row S qid) = Inr q"
  shows "sr_agent_id q' = rq_agent_id (decided_row S qid) \<and> sr_target q' = sr_target q \<and>
    sr_actions q' = canonicalize_actions (sr_actions q)"
  using assms unfolding deny_request_atomic
  by (auto simp: Let_def result_simps split: if_splits dest!: select_request_decided)

text \<open>
  A remembered denial is permanent.  After an operator denied a request with \<open>remember\<close> set,
  every snapshot of that agent loaded in any later state denies each request for a target the
  denied selector matches and for actions among the denied ones, whatever was granted since.
\<close>

theorem remembered_denial_is_permanent:
  assumes "store_run L init_schema S" and "deny_request L E S qid True rs t = (Inr q, S1)"
    and "store_run L S1 S2" and "load_policy_snapshot L E' S2 (sr_agent_id q) = Inr snap"
    and "json_roundtrip (target_to_json L) (target_from_json L) (sr_target q)"
    and "json_roundtrip (actions_to_json L) (actions_from_json L) (sr_actions q)"
    and "target_matches (sr_target q) \<lparr>ctx_agent_id = sr_agent_id q\<rparr> tctx"
    and "actions_match (sr_actions q) actions"
  shows "\<exists>did. authorize snap \<lparr>ctx_agent_id = sr_agent_id q\<rparr> tctx actions now = Denied did"
proof -
  from deny_request_Inr [OF assms(2)] obtain q0 r where
    q0: "stored_request_from_tuple L (decided_row S qid) = Inr q0" and
    r: "dn_agent_id r = rq_agent_id (decided_row S qid)" "dn_expires_at r = None" "r \<in> set (denials S1)"
    and enc: "target_to_json L (sr_target q0) = Inr (dn_target_json r)"
      "actions_to_json L (canonicalize_actions (sr_actions q0)) = Inr (dn_actions_json r)"
    by (elim exE conjE) auto
  note q = deny_request_result [OF assms(2) q0]
  have "store_wf S1"
    using store_reachable_wf [OF store_run_step [OF assms(1) store_step.deny_request [OF assms(2)]]] .
  then have "r \<in> set (denials S2)" using denial_later [OF store_run_le [OF assms(3)]] r(3) by blast
  with assms(4) r(1) q obtain d where d: "d \<in> set (snap_denials snap)" "snapshot_denial L (sr_agent_id q) r = Inr d"
    by (metis denial_in_snapshot)
  have "target_from_json L (dn_target_json r) = Inr (sr_target q)" "actions_from_json L (dn_actions_json r) = Inr (sr_actions q)"
    using enc q assms(5,6) by (auto intro: json_roundtripD)
  with d(2) r(2) assms(7,8) have "denial_matches d \<lparr>ctx_agent_id = sr_agent_id q\<rparr> tctx actions now"
    by (auto simp: snapshot_denial_def denial_matches_def)
  with d(1) show ?thesis
    using find_None_iff [of "\<lambda>d. denial_matches d \<lparr>ctx_agent_id = sr_agent_id q\<rparr> tctx actions now" "snap_denials snap"]
    by (auto simp: authorize_def split: option.splits)
qed

theorem remembered_denial_is_permanent_witness:
  "\<exists>snap did. load_policy_snapshot example_libs (quiet_env ''s'') example_denied ''agent_c0'' = Inr snap \<and>
     authorize snap \<lparr>ctx_agent_id = ''agent_c0''\<rparr> example_target [Drive] 5000 = Denied did"
proof -
  obtain snap where snap: "load_policy_snapshot example_libs (quiet_env ''s'') example_denied ''agent_c0'' = Inr snap"
    by (simp add: load_policy_snapshot_def snapshot_denial_def example_denied_def deny_request_atomic store_eval approved_eval)
  obtain q where q: "deny_request example_libs (quiet_env ''d'') example_requested ''apr_q0'' True None 3000 =
      (Inr q, example_denied)" "sr_agent_id q = ''agent_c0''" "sr_target q = Surface ''surf_1''"
      "sr_actions q = [Observe, Drive]"
    by (simp add: example_denied_def deny_request_atomic store_eval approved_eval)
  have "\<exists>did. authorize snap \<lparr>ctx_agent_id = sr_agent_id q\<rparr> example_target [Drive] 5000 = Denied did"
    using snap q
    by (intro remembered_denial_is_permanent [OF example_run(2) q(1) store_run_refl])
       (auto simp: json_roundtrip_def store_eval target_matches_def actions_match_def example_target_def)
  with snap q(2) show ?thesis by auto
qed

text \<open>
  C10: A failed operation changes nothing.  Each operation runs statement by statement, on the open
  transaction or committing by itself, and any statement, the commit, the lock, the task or an encoding
  may fail.  When the operation returns an error, what is committed is what was there before, although
  \<open>with_conn\<close> itself undoes nothing: whatever changes more than one table does so in a transaction that
  it commits last, and the others commit in their only statement that can change anything.
\<close>

theorem failed_operation_rolls_back:
  "(create_identity L E S name metadata t = (Inl e, S') \<longrightarrow> S' = S) \<and>
   (revoke_identity E S a t = (Inl e, S') \<longrightarrow> S' = S) \<and>
   (mint_token L E S a t = (Inl e, S') \<longrightarrow> S' = S) \<and>
   (revoke_token E S a k t = (Inl e, S') \<longrightarrow> S' = S) \<and>
   (find_or_create_pending_request L E S a tg acts rs c t = (Inl e, S') \<longrightarrow> S' = S) \<and>
   (invalidate_request L E S qid reason t = (Inl e, S') \<longrightarrow> S' = S) \<and>
   (approve_request L E S qid d cs t = (Inl e, S') \<longrightarrow> S' = S) \<and>
   (deny_request L E S qid b rs t = (Inl e, S') \<longrightarrow> S' = S) \<and>
   (revoke_grant E S gid t = (Inl e, S') \<longrightarrow> S' = S) \<and>
   (try_consume_once_grant L E S gid t = (Inl e, S') \<longrightarrow> S' = S) \<and>
   (insert_execution_audit L E S rec = (Inl e, S') \<longrightarrow> S' = S)"
  unfolding create_identity_atomic revoke_identity_atomic mint_token_atomic revoke_token_atomic
    find_or_create_pending_request_atomic invalidate_request_atomic approve_request_atomic deny_request_atomic
    revoke_grant_atomic try_consume_once_grant_atomic insert_execution_audit_atomic
  by (intro conjI impI) (erule atomically_Inl)+

theorem failed_operation_rolls_back_witness:
  "approve_request example_libs (quiet_env ''x'') example_requested ''apr_missing'' Once [] 1 =
     (Inl PermissionRequestNotFound, example_requested)"
proof -
  obtain S' where S': "approve_request example_libs (quiet_env ''x'') example_requested ''apr_missing'' Once [] 1 =
      (Inl PermissionRequestNotFound, S')"
    by (simp add: approve_request_atomic example_requested_requests store_eval)
  with failed_operation_rolls_back [of example_libs "quiet_env ''x''" example_requested] show ?thesis by blast
qed

end
