(* ===== verification/Daemon_State.thy ===== *)
theory Daemon_State
  imports Agent_Store_Safety
begin

text \<open>
  What the HTTP handlers of the daemon share: API errors (\<open>portholed/src/routes/errors.rs\<close>), the
  event bus (\<open>portholed/src/events.rs\<close>), the application state (\<open>portholed/src/state.rs\<close>) as far as
  the permission handlers use it, and the sequencing of an \<open>async\<close> handler.

  A handler runs concurrently with others.  Each operation on the store or on the handles is
  atomic, and between two of them other tasks may run: before the \<open>n\<close>-th such operation the
  argument \<open>interleave D n\<close> transforms the state in an arbitrary way (the properties say what they
  ask of it).  \<open>call_env D n\<close> is the surroundings of the \<open>n\<close>-th store call and \<open>clock D n\<close> the
  wall clock read before it.
\<close>

section \<open>API errors\<close>

datatype ApiError = ApiError WireError

fun api_code :: "ApiError \<Rightarrow> ErrorCode" where
  "api_code (ApiError w) = wire_code w"

definition ApiError_from_porthole :: "PortholeError \<Rightarrow> ApiError" where
  "ApiError_from_porthole err = ApiError (WireError_from err)"

definition store_error_fmt :: "AgentStoreError \<Rightarrow> message" where
  "store_error_fmt err =
     (case err of
        Sqlite _ \<Rightarrow> Msg ''sqlite error: {0}'' []
      | Json s \<Rightarrow> Msg ''json error: {0}'' [FStr s]
      | Io s \<Rightarrow> Msg ''io error: {0}'' [FStr s]
      | Join s \<Rightarrow> Msg ''blocking database task failed: {0}'' [FStr s]
      | LockPoisoned \<Rightarrow> Msg ''agent policy store lock poisoned'' []
      | PermissionRequestNotFound \<Rightarrow> Msg ''permission request not found'' []
      | PermissionRequestNotPending \<Rightarrow> Msg ''permission request is not pending'' []
      | IdentityNotFound \<Rightarrow> Msg ''agent identity not found'' []
      | UnknownPermissionRequestStatus s \<Rightarrow> Msg ''unknown permission request status {0}'' [FStr s])"

definition ApiError_from_store :: "AgentStoreError \<Rightarrow> ApiError" where
  "ApiError_from_store err =
     (let (code, message) =
        (case err of
           PermissionRequestNotFound \<Rightarrow>
             (AgentPermissionRequestExpired, Msg ''agent permission request was not found or is no longer available'' [])
         | PermissionRequestNotPending \<Rightarrow> (InvalidArgument, Msg ''agent permission request is not pending'' [])
         | IdentityNotFound \<Rightarrow> (AgentIdentityNotFound, Msg ''agent identity not found'' [])
         | other \<Rightarrow> (InternalError, store_error_fmt other))
      in ApiError \<lparr>wire_code = code, wire_message = message, wire_details = None\<rparr>)"

fun into_response_status :: "ErrorCode \<Rightarrow> nat" where
  "into_response_status SurfaceNotFound = 404"
| "into_response_status SurfaceDead = 410"
| "into_response_status SystemPermissionNeeded = 403"
| "into_response_status SystemPermissionRequestFailed = 500"
| "into_response_status LaunchCorrelationFailed = 422"
| "into_response_status LaunchCorrelationAmbiguous = 409"
| "into_response_status LaunchTimeout = 504"
| "into_response_status CandidateRefUnknown = 404"
| "into_response_status AdapterUnsupported = 400"
| "into_response_status CapabilityMissing = 501"
| "into_response_status WaitTimeoutCode = 504"
| "into_response_status UnknownKey = 400"
| "into_response_status InvalidCoordinate = 400"
| "into_response_status InvalidArgument = 400"
| "into_response_status InternalError = 500"
| "into_response_status CloseFailed = 409"
| "into_response_status LaunchReturnedExisting = 409"
| "into_response_status ContentRectUnavailable = 422"
| "into_response_status AgentIdentityNotFound = 404"
| "into_response_status AgentIdentityRequired = 401"
| "into_response_status AgentIdentityRevoked = 401"
| "into_response_status AgentOperatorRequired = 403"
| "into_response_status AgentPermissionNeeded = 403"
| "into_response_status AgentPermissionDenied = 403"
| "into_response_status AgentPermissionRequestExpired = 410"

section \<open>Events and application state\<close>

datatype AgentEvent =
    EvPermissionRequested PermissionRequestId AgentId
  | EvPermissionResolved PermissionRequestId string
  | EvIdentityCreated AgentId string
  | EvIdentityRevoked AgentId
  | EvPolicyChanged string
  | EvResyncRequired

fun sse_event_name :: "AgentEvent \<Rightarrow> string" where
  "sse_event_name (EvPermissionRequested _ _) = ''agent_permission_requested''"
| "sse_event_name (EvPermissionResolved _ _) = ''agent_permission_resolved''"
| "sse_event_name (EvIdentityCreated _ _) = ''agent_identity_created''"
| "sse_event_name (EvIdentityRevoked _) = ''agent_identity_revoked''"
| "sse_event_name (EvPolicyChanged _) = ''agent_policy_changed''"
| "sse_event_name EvResyncRequired = ''resync_required''"

record AppState =
  app_handles :: HandleStore
  app_store :: AgentPolicyStore
  app_events :: "AgentEvent list" \<comment> \<open>everything sent on the bus, in order\<close>

record surroundings =
  libs_of :: libs
  needed_to_value :: "AgentPermissionNeededDetails \<Rightarrow> (string, json) result"
  interleave :: "nat \<Rightarrow> AppState \<Rightarrow> AppState"
  call_env :: "nat \<Rightarrow> sql_env"
  clock :: "nat \<Rightarrow> u64"

section \<open>Handlers as tasks\<close>

text \<open>
  The state of a running handler is the number of atomic operations it has performed and the
  application state; a handler ends with a value or with an API error.
\<close>

type_synonym task_state = "nat \<times> AppState"
type_synonym 'a task = "task_state \<Rightarrow> (ApiError, 'a) result \<times> task_state"

definition treturn :: "'a \<Rightarrow> 'a task" where
  "treturn x s = (Inr x, s)"

definition tresult :: "(ApiError, 'a) result \<Rightarrow> 'a task" where
  "tresult r s = (r, s)"

definition tbind :: "'a task \<Rightarrow> ('a \<Rightarrow> 'b task) \<Rightarrow> 'b task" where
  "tbind m f s = (case m s of (Inl e, s') \<Rightarrow> (Inl e, s') | (Inr x, s') \<Rightarrow> f x s')"

definition try_store ::
  "surroundings \<Rightarrow> (sql_env \<Rightarrow> AgentPolicyStore \<Rightarrow> 'a StoreResult \<times> AgentPolicyStore) \<Rightarrow> ('a StoreResult) task" where
  "try_store D f = (\<lambda>(n, A).
     let A = interleave D n A; (r, S) = f (call_env D n) (app_store A) in (Inr r, (Suc n, A\<lparr>app_store := S\<rparr>)))"

text \<open>A store call followed by \<open>?\<close>, which converts its error into an API error.\<close>

definition store_op ::
  "surroundings \<Rightarrow> (sql_env \<Rightarrow> AgentPolicyStore \<Rightarrow> 'a StoreResult \<times> AgentPolicyStore) \<Rightarrow> 'a task" where
  "store_op D f = tbind (try_store D f) (\<lambda>r. tresult (map_err ApiError_from_store r))"

definition store_query :: "surroundings \<Rightarrow> (sql_env \<Rightarrow> AgentPolicyStore \<Rightarrow> 'a StoreResult) \<Rightarrow> 'a task" where
  "store_query D f = store_op D (\<lambda>E S. (f E S, S))"

definition handle_query :: "surroundings \<Rightarrow> (HandleStore \<Rightarrow> 'a) \<Rightarrow> 'a task" where
  "handle_query D f = (\<lambda>(n, A). let A = interleave D n A in (Inr (f (app_handles A)), (Suc n, A)))"

definition now_unix_ms :: "surroundings \<Rightarrow> u64 task" where
  "now_unix_ms D = (\<lambda>(n, A). (Inr (clock D n), (n, A)))"

definition publish :: "AgentEvent \<Rightarrow> unit task" where
  "publish ev = (\<lambda>(n, A). (Inr (), (n, A\<lparr>app_events := app_events A @ [ev]\<rparr>)))"

section \<open>Calculating with tasks\<close>

named_theorems task_simps \<open>unfolding of handlers that end with a value\<close>

lemma tbind_Inr [task_simps]:
  "tbind m f s = (Inr y, s'') \<longleftrightarrow> (\<exists>x s'. m s = (Inr x, s') \<and> f x s' = (Inr y, s''))"
  by (auto simp: tbind_def split: prod.splits sum.splits)

lemma tbind_Inl [task_simps]:
  "tbind m f s = (Inl e, s'') \<longleftrightarrow> m s = (Inl e, s'') \<or> (\<exists>x s'. m s = (Inr x, s') \<and> f x s' = (Inl e, s''))"
  by (auto simp: tbind_def split: prod.splits sum.splits)

lemma treturn_eq [task_simps]: "treturn x s = (r, s') \<longleftrightarrow> r = Inr x \<and> s' = s"
  by (auto simp: treturn_def)

lemma tresult_eq [task_simps]: "tresult m s = (r, s') \<longleftrightarrow> r = m \<and> s' = s"
  by (auto simp: tresult_def)

lemma store_op_Inr [task_simps]:
  "store_op D f (n, A) = (Inr x, s') \<longleftrightarrow>
   (\<exists>S. f (call_env D n) (app_store (interleave D n A)) = (Inr x, S) \<and>
      s' = (Suc n, (interleave D n A)\<lparr>app_store := S\<rparr>))"
  by (auto simp: store_op_def try_store_def Let_def task_simps result_simps
      eq_commute [of "Inr x" "map_err ApiError_from_store _"] split: prod.splits)

lemma store_query_Inr [task_simps]:
  "store_query D f (n, A) = (Inr x, s') \<longleftrightarrow>
   f (call_env D n) (app_store (interleave D n A)) = Inr x \<and> s' = (Suc n, interleave D n A)"
  by (auto simp: store_query_def task_simps)

lemma handle_query_eq [task_simps]:
  "handle_query D f (n, A) = (r, s') \<longleftrightarrow>
   r = Inr (f (app_handles (interleave D n A))) \<and> s' = (Suc n, interleave D n A)"
  by (auto simp: handle_query_def Let_def)

lemma now_unix_ms_eq [task_simps]: "now_unix_ms D (n, A) = (r, s') \<longleftrightarrow> r = Inr (clock D n) \<and> s' = (n, A)"
  by (auto simp: now_unix_ms_def)

lemma publish_eq [task_simps]:
  "publish ev (n, A) = (r, s') \<longleftrightarrow> r = Inr () \<and> s' = (n, A\<lparr>app_events := app_events A @ [ev]\<rparr>)"
  by (auto simp: publish_def)

text \<open>
  A relation between application states that sequencing respects and that the store operations
  and the event bus stay within: every handler built from them stays within it as well.
\<close>

locale task_order =
  fixes L :: libs and R :: "AppState \<Rightarrow> AppState \<Rightarrow> bool"
  assumes order_refl: "R A A" and order_trans: "R A B \<Longrightarrow> R B C \<Longrightarrow> R A C"
    and order_store: "store_step L (app_store A) S \<Longrightarrow> R A (A\<lparr>app_store := S\<rparr>)"
    and order_event: "R A (A\<lparr>app_events := evs\<rparr>)"
begin

definition keeps :: "'a task \<Rightarrow> bool" where
  "keeps m \<longleftrightarrow> (\<forall>n A r n' A'. m (n, A) = (r, (n', A')) \<longrightarrow> R A A')"

definition bounded :: "surroundings \<Rightarrow> bool" where
  "bounded D \<longleftrightarrow> libs_of D = L \<and> (\<forall>n A. R A (interleave D n A))"

lemma keepsD: "keeps m \<Longrightarrow> m (n, A) = (r, (n', A')) \<Longrightarrow> R A A'"
  by (auto simp: keeps_def)

lemma keeps_treturn: "keeps (treturn x)"
  by (auto simp: keeps_def treturn_def order_refl)

lemma keeps_tresult: "keeps (tresult r)"
  by (auto simp: keeps_def tresult_def order_refl)

lemma keeps_tbind: "keeps m \<Longrightarrow> (\<And>x. keeps (f x)) \<Longrightarrow> keeps (tbind m f)"
  unfolding keeps_def tbind_def by (fastforce split: prod.splits sum.splits intro: order_trans)

lemma keeps_try_store:
  assumes "bounded D" and "\<And>E S r S'. f E S = (r, S') \<Longrightarrow> S' = S \<or> store_step L S S'"
  shows "keeps (try_store D f)"
  unfolding keeps_def
proof (intro allI impI)
  fix n A r n' A' assume "try_store D f (n, A) = (r, (n', A'))"
  then obtain x S where call: "f (call_env D n) (app_store (interleave D n A)) = (x, S)"
    and A': "A' = (interleave D n A)\<lparr>app_store := S\<rparr>"
    by (auto simp: try_store_def Let_def split: prod.splits)
  have "R (interleave D n A) A'"
    using assms(2) [OF call] A' order_store order_refl by auto
  with assms(1) show "R A A'" unfolding bounded_def by (blast intro: order_trans)
qed

lemma keeps_store_op:
  "bounded D \<Longrightarrow> (\<And>E S r S'. f E S = (r, S') \<Longrightarrow> S' = S \<or> store_step L S S') \<Longrightarrow> keeps (store_op D f)"
  unfolding store_op_def by (intro keeps_tbind keeps_try_store keeps_tresult)

lemma keeps_store_query: "bounded D \<Longrightarrow> keeps (store_query D f)"
  unfolding store_query_def by (intro keeps_store_op) auto

lemma keeps_handle_query: "bounded D \<Longrightarrow> keeps (handle_query D f)"
  by (auto simp: keeps_def handle_query_def Let_def bounded_def)

lemma keeps_now: "keeps (now_unix_ms D)"
  by (auto simp: keeps_def now_unix_ms_def order_refl)

lemma keeps_publish: "keeps (publish ev)"
  by (auto simp: keeps_def publish_def order_event)

lemmas keeps_intros = keeps_treturn keeps_tresult keeps_tbind keeps_store_query keeps_handle_query
  keeps_now keeps_publish

end

text \<open>Runs of the policy store are such a relation.\<close>

definition app_run :: "libs \<Rightarrow> AppState \<Rightarrow> AppState \<Rightarrow> bool" where
  "app_run L A A' \<longleftrightarrow> store_run L (app_store A) (app_store A')"

lemma app_run_trans: "app_run L A B \<Longrightarrow> app_run L B C \<Longrightarrow> app_run L A C"
  unfolding app_run_def store_run_def by (rule rtranclp_trans)

interpretation app_runs: task_order L "app_run L" for L
  by unfold_locales (auto simp: app_run_def intro: store_run_single app_run_trans [unfolded app_run_def])

text \<open>
  The interference the properties admit: the other tasks change the policy store only by its own
  operations (they may do anything to the handles and the event bus).
\<close>

definition store_interference :: "surroundings \<Rightarrow> bool" where
  "store_interference D \<longleftrightarrow>
     (\<forall>n A. store_run (libs_of D) (app_store A) (app_store (interleave D n A)))"

lemma store_interference_bounded: "store_interference D \<Longrightarrow> app_runs.bounded (libs_of D) D"
  by (simp add: app_runs.bounded_def store_interference_def app_run_def)

end
