(* ===== verification/Agent_Guard.thy ===== *)
theory Agent_Guard
  imports Daemon_State
begin

text \<open>
  The authorization guard that every agent-facing route runs first
  (\<open>portholed/src/routes/agent_guard.rs\<close>): bearer token, identity, live surface, policy decision,
  consumption of one-time grants with one retry, and the permission request for what is not yet
  decided.  The value of the \<open>Authorization\<close> header is an argument: \<open>None\<close> without the header,
  \<open>Some None\<close> when the header is not a string.
\<close>

section \<open>The guard\<close>

record AuthorizedRouteExecution =
  exec_agent_id :: AgentId
  exec_grant_id :: GrantId
  exec_origin_request_id :: "PermissionRequestId option"
  exec_consumes_grant :: bool
  exec_target :: TargetSelector
  exec_actions :: "ActionClass list"

record PermissionTrigger =
  trig_reason :: "string option"
  trig_operation :: "PermissionOperation option"

definition trigger_from :: "string option \<Rightarrow> PermissionTrigger" where
  "trigger_from reason = \<lparr>trig_reason = reason, trig_operation = None\<rparr>"

definition trigger_operation :: "string \<Rightarrow> PermissionOperation \<Rightarrow> PermissionTrigger" where
  "trigger_operation reason op = \<lparr>trig_reason = Some reason, trig_operation = Some op\<rparr>"

record PermissionNeededContext =
  pn_target :: TargetSelector
  pn_surface_id :: "SurfaceId option"
  pn_actions :: "ActionClass list"
  pn_trigger :: PermissionTrigger
  pn_recommended_duration :: AgentPermissionDuration
  pn_publish_new_request :: bool

definition identity_required :: ApiError where
  "identity_required =
     ApiError \<lparr>wire_code = AgentIdentityRequired, wire_message = Msg ''agent identity bearer token required'' [],
               wire_details = None\<rparr>"

definition ascii_lower :: "char \<Rightarrow> char" where
  "ascii_lower c =
     (let k = of_char c :: nat in if 65 \<le> k \<and> k \<le> 90 then char_of (k + 32) else c)"

definition eq_ignore_ascii_case :: "string \<Rightarrow> string \<Rightarrow> bool" where
  "eq_ignore_ascii_case a b \<longleftrightarrow> map ascii_lower a = map ascii_lower b"

definition bearer_token :: "string option option \<Rightarrow> (ApiError, string) result" where
  "bearer_token header =
     (case header of
        None \<Rightarrow> Inl identity_required
      | Some None \<Rightarrow> Inl identity_required
      | Some (Some value) \<Rightarrow>
          (case split_once (CHR '' '') value of
             None \<Rightarrow> Inl identity_required
           | Some (scheme, token) \<Rightarrow>
               if eq_ignore_ascii_case scheme ''Bearer'' \<and> token \<noteq> [] then Inr token
               else Inl identity_required))"

definition authenticated_agent_id :: "surroundings \<Rightarrow> string option option \<Rightarrow> AgentId task" where
  "authenticated_agent_id D header =
     tbind (tresult (bearer_token header)) (\<lambda>token.
     tbind (store_query D (\<lambda>E S. authenticate_agent_token (libs_of D) E S token)) (\<lambda>found.
     tresult (ok_or found identity_required)))"

definition permission_surface :: "SurfaceInfo \<Rightarrow> PermissionSurface" where
  "permission_surface s = \<lparr>ps_app_name = app_name s, ps_title = title s, ps_pid = pid s\<rparr>"

text \<open>
  \<open>permission_needed\<close> first looks up what it can say about the surface; \<open>open_request\<close> is the rest
  of it: find or create the pending request, announce a new one, and answer.
\<close>

definition open_request ::
  "surroundings \<Rightarrow> AgentId \<Rightarrow> PermissionNeededContext \<Rightarrow> PermissionSurface option \<Rightarrow> AuthorizedRouteExecution task" where
  "open_request D agent_id ctx surface =
     tbind (now_unix_ms D) (\<lambda>now.
     tbind (store_op D (\<lambda>E S. find_or_create_pending_request (libs_of D) E S agent_id (pn_target ctx)
              (pn_actions ctx) (trig_reason (pn_trigger ctx))
              \<lparr>prc_surface = surface, prc_operation = trig_operation (pn_trigger ctx)\<rparr> now)) (\<lambda>(request, created).
     tbind (if pn_publish_new_request ctx \<and> created
            then publish (EvPermissionRequested (sr_request_id request) agent_id)
            else treturn ()) (\<lambda>_.
     tresult (Inl (ApiError
       \<lparr>wire_code = AgentPermissionNeeded, wire_message = Msg ''agent permission required'' [],
        wire_details = ok (needed_to_value D
          \<lparr>nd_request_id = sr_request_id request, nd_agent_id = agent_id,
           nd_target = target_to_wire (pn_target ctx), nd_surface_id = pn_surface_id ctx,
           nd_actions = pn_actions ctx, nd_recommended_duration = pn_recommended_duration ctx\<rparr>)\<rparr>)))))"

definition permission_needed ::
  "surroundings \<Rightarrow> AgentId \<Rightarrow> PermissionNeededContext \<Rightarrow> AuthorizedRouteExecution task" where
  "permission_needed D agent_id ctx =
     tbind (case pn_surface_id ctx of
              Some i \<Rightarrow> handle_query D (\<lambda>hs. map_option permission_surface (ok (store_get hs i)))
            | None \<Rightarrow> treturn None) (\<lambda>surface.
     open_request D agent_id ctx surface)"

text \<open>
  One round of \<open>authorize_target_actions\<close>; \<open>lost\<close> is what follows when another task consumed the
  one-time grant between the decision and the consumption.
\<close>

definition authorize_round ::
  "surroundings \<Rightarrow> AgentId \<Rightarrow> TargetSelector \<Rightarrow> TargetContext \<Rightarrow> SurfaceId option \<Rightarrow> ActionClass list \<Rightarrow>
   PermissionTrigger \<Rightarrow> AgentPermissionDuration \<Rightarrow> AuthorizedRouteExecution task \<Rightarrow> AuthorizedRouteExecution task" where
  "authorize_round D agent_id target tctx details_surface_id actions reason recommended lost =
     tbind (store_query D (\<lambda>E S. load_policy_snapshot (libs_of D) E S agent_id)) (\<lambda>snapshot.
     tbind (now_unix_ms D) (\<lambda>now.
     case authorize snapshot \<lparr>ctx_agent_id = agent_id\<rparr> tctx actions now of
       Allowed gid consumes \<Rightarrow>
         tbind (store_query D (\<lambda>E S. get_grant (libs_of D) E S gid)) (\<lambda>found.
         tbind (tresult (ok_or found (ApiError
           \<lparr>wire_code = InternalError, wire_message = Msg ''authorized grant was not found'' [], wire_details = None\<rparr>)))
           (\<lambda>grant.
         tbind (if consumes
                then tbind (now_unix_ms D) (\<lambda>now.
                     store_op D (\<lambda>E S. try_consume_once_grant (libs_of D) E S gid now))
                else treturn True) (\<lambda>consumed.
         if consumes \<and> \<not> consumed then lost
         else treturn
           \<lparr>exec_agent_id = agent_id, exec_grant_id = gid, exec_origin_request_id = sg_origin_request_id grant,
            exec_consumes_grant = consumes, exec_target = target, exec_actions = actions\<rparr>)))
     | Denied _ \<Rightarrow>
         tresult (Inl (ApiError
           \<lparr>wire_code = AgentPermissionDenied, wire_message = Msg ''agent permission denied'' [], wire_details = None\<rparr>))
     | NeedsPermission \<Rightarrow>
         permission_needed D agent_id
           \<lparr>pn_target = target, pn_surface_id = details_surface_id, pn_actions = actions, pn_trigger = reason,
            pn_recommended_duration = recommended, pn_publish_new_request = True\<rparr>))"

function authorize_target_actions ::
  "surroundings \<Rightarrow> AgentId \<Rightarrow> TargetSelector \<Rightarrow> TargetContext \<Rightarrow> SurfaceId option \<Rightarrow> ActionClass list \<Rightarrow>
   PermissionTrigger \<Rightarrow> AgentPermissionDuration \<Rightarrow> bool \<Rightarrow> AuthorizedRouteExecution task" where
  "authorize_target_actions D agent_id target tctx details_surface_id actions reason recommended retried =
     authorize_round D agent_id target tctx details_surface_id actions reason recommended
       (if retried
        then permission_needed D agent_id
          \<lparr>pn_target = target, pn_surface_id = details_surface_id, pn_actions = actions, pn_trigger = reason,
           pn_recommended_duration = recommended, pn_publish_new_request = False\<rparr>
        else authorize_target_actions D agent_id target tctx details_surface_id actions reason recommended True)"
  by pat_completeness auto

termination
  by (relation "measure (\<lambda>(_, _, _, _, _, _, _, _, retried). if retried then 0 else 1)") auto

definition authorize_surface_actions_inner ::
  "surroundings \<Rightarrow> string option option \<Rightarrow> string \<Rightarrow> ActionClass list \<Rightarrow> PermissionTrigger \<Rightarrow> bool \<Rightarrow>
   AuthorizedRouteExecution task" where
  "authorize_surface_actions_inner D header sid actions reason retried =
     tbind (authenticated_agent_id D header) (\<lambda>agent_id.
     tbind (handle_query D (\<lambda>hs. require_alive hs sid)) (\<lambda>r.
     tbind (tresult (map_err ApiError_from_porthole r)) (\<lambda>surface.
     authorize_target_actions D agent_id (Surface sid)
       \<lparr>ctx_surface_id = Some sid, ctx_app_bundle_id = None, ctx_executable_path = None,
        ctx_app_name = app_name surface, ctx_launched_by_agent = None, ctx_frontmost_surface_id = None,
        ctx_surface_alive = True\<rparr>
       (Some sid) actions reason WUntilSurfaceGone retried)))"

definition authorize_surface_actions ::
  "surroundings \<Rightarrow> string option option \<Rightarrow> string \<Rightarrow> ActionClass list \<Rightarrow> PermissionTrigger \<Rightarrow>
   AuthorizedRouteExecution task" where
  "authorize_surface_actions D header sid actions reason =
     authorize_surface_actions_inner D header sid actions reason False"

definition authorize_launch_actions ::
  "surroundings \<Rightarrow> string option option \<Rightarrow> ActionClass list \<Rightarrow> PermissionTrigger \<Rightarrow> AuthorizedRouteExecution task" where
  "authorize_launch_actions D header actions reason =
     tbind (authenticated_agent_id D header) (\<lambda>agent_id.
     authorize_target_actions D agent_id LaunchedByAgent
       \<lparr>ctx_surface_id = None, ctx_app_bundle_id = None, ctx_executable_path = None, ctx_app_name = None,
        ctx_launched_by_agent = Some agent_id, ctx_frontmost_surface_id = None, ctx_surface_alive = True\<rparr>
       None actions reason WOnce False)"

definition authorize_all_surfaces_actions ::
  "surroundings \<Rightarrow> string option option \<Rightarrow> ActionClass list \<Rightarrow> PermissionTrigger \<Rightarrow> AuthorizedRouteExecution task" where
  "authorize_all_surfaces_actions D header actions reason =
     tbind (authenticated_agent_id D header) (\<lambda>agent_id.
     authorize_target_actions D agent_id AllSurfaces
       \<lparr>ctx_surface_id = None, ctx_app_bundle_id = None, ctx_executable_path = None, ctx_app_name = None,
        ctx_launched_by_agent = None, ctx_frontmost_surface_id = None, ctx_surface_alive = True\<rparr>
       None actions reason WOnce False)"

text \<open>The audit entry after the route acted; a failure to write it is only logged.\<close>

definition complete_route_execution :: "surroundings \<Rightarrow> AuthorizedRouteExecution \<Rightarrow> string \<Rightarrow> unit task" where
  "complete_route_execution D x route =
     tbind (now_unix_ms D) (\<lambda>now.
     tbind (try_store D (\<lambda>E S. insert_execution_audit (libs_of D) E S
       \<lparr>xa_agent_id = exec_agent_id x, xa_request_id = exec_origin_request_id x, xa_route = route,
        xa_target = exec_target x, xa_actions = exec_actions x, xa_grant_id = Some (exec_grant_id x),
        xa_denial_id = None, xa_executed_at = now\<rparr>)) (\<lambda>_.
     treturn ()))"

declare authorize_target_actions.simps [simp del]

lemma authorize_target_actions_retried:
  "authorize_target_actions D a tg tc ds acts rs rd True =
     authorize_round D a tg tc ds acts rs rd
       (permission_needed D a
          \<lparr>pn_target = tg, pn_surface_id = ds, pn_actions = acts, pn_trigger = rs,
           pn_recommended_duration = rd, pn_publish_new_request = False\<rparr>)"
  by (subst authorize_target_actions.simps) simp

lemma authorize_target_actions_first:
  "authorize_target_actions D a tg tc ds acts rs rd False =
     authorize_round D a tg tc ds acts rs rd (authorize_target_actions D a tg tc ds acts rs rd True)"
  by (subst authorize_target_actions.simps) simp

section \<open>What the guard does\<close>

context task_order
begin

lemma keeps_if: "(c \<Longrightarrow> keeps m) \<Longrightarrow> (\<not> c \<Longrightarrow> keeps m') \<Longrightarrow> keeps (if c then m else m')"
  by simp

lemma keeps_authenticated_agent_id: "bounded D \<Longrightarrow> keeps (authenticated_agent_id D header)"
  unfolding authenticated_agent_id_def by (intro keeps_intros)

lemma keeps_permission_needed:
  assumes "bounded D"
  shows "keeps (permission_needed D a ctx)"
proof -
  have "libs_of D = L" using assms by (simp add: bounded_def)
  then have "keeps (store_op D (\<lambda>E S. find_or_create_pending_request (libs_of D) E S a tg acts rs c t))" for tg acts rs c t
    by (intro keeps_store_op [OF assms]) (auto intro: store_step.find_or_create_pending_request)
  then show ?thesis unfolding permission_needed_def open_request_def
    by (auto intro!: keeps_intros assms split: option.splits)
qed

lemma keeps_authorize_round:
  assumes "bounded D" and "keeps lost"
  shows "keeps (authorize_round D a tg tc ds acts rs rd lost)"
proof -
  have "libs_of D = L" using assms(1) by (simp add: bounded_def)
  then have "keeps (store_op D (\<lambda>E S. try_consume_once_grant (libs_of D) E S gid t))" for gid t
    by (intro keeps_store_op [OF assms(1)]) (auto intro: store_step.try_consume_once_grant)
  with assms keeps_permission_needed [OF assms(1)] show ?thesis unfolding authorize_round_def
    by (auto intro!: keeps_intros split: AuthorizationDecision.splits)
qed

lemma keeps_authorize_target_actions:
  assumes "bounded D"
  shows "keeps (authorize_target_actions D a tg tc ds acts rs rd retried)"
proof -
  have "keeps (authorize_target_actions D a tg tc ds acts rs rd True)"
    unfolding authorize_target_actions_retried by (intro keeps_authorize_round keeps_permission_needed assms)
  then show ?thesis
    by (cases retried) (simp_all add: authorize_target_actions_first keeps_authorize_round assms)
qed

lemma keeps_guard:
  assumes "bounded D"
  shows "keeps (authorize_surface_actions_inner D header sid acts rs retried)"
    and "keeps (authorize_launch_actions D header acts rs)"
    and "keeps (authorize_all_surfaces_actions D header acts rs)"
    and "keeps (complete_route_execution D x route)"
proof -
  show "keeps (authorize_surface_actions_inner D header sid acts rs retried)"
    unfolding authorize_surface_actions_inner_def
    by (intro keeps_intros keeps_authenticated_agent_id keeps_authorize_target_actions assms)
  show "keeps (authorize_launch_actions D header acts rs)"
    unfolding authorize_launch_actions_def
    by (intro keeps_intros keeps_authenticated_agent_id keeps_authorize_target_actions assms)
  show "keeps (authorize_all_surfaces_actions D header acts rs)"
    unfolding authorize_all_surfaces_actions_def
    by (intro keeps_intros keeps_authenticated_agent_id keeps_authorize_target_actions assms)
  have "libs_of D = L" using assms by (simp add: bounded_def)
  then have "keeps (try_store D (\<lambda>E S. insert_execution_audit (libs_of D) E S rec))" for rec
    by (intro keeps_try_store [OF assms]) (auto intro: store_step.insert_execution_audit)
  then show "keeps (complete_route_execution D x route)"
    unfolding complete_route_execution_def by (intro keeps_intros)
qed

end

text \<open>\<open>permission_needed\<close> always ends in an error.\<close>

lemma permission_needed_not_Inr: "permission_needed D a ctx s \<noteq> (Inr x, s')"
  by (auto simp: permission_needed_def open_request_def task_simps split: prod.splits)

text \<open>The store-level content of a successful authorization.\<close>

definition allowed_at ::
  "surroundings \<Rightarrow> TargetContext \<Rightarrow> AuthorizedRouteExecution \<Rightarrow> AppState \<Rightarrow> AppState \<Rightarrow> bool" where
  "allowed_at D tctx x A A' \<longleftrightarrow>
     (\<exists>E S snap now. app_run (libs_of D) A S \<and> app_run (libs_of D) S A' \<and>
        load_policy_snapshot (libs_of D) E (app_store S) (exec_agent_id x) = Inr snap \<and>
        authorize snap \<lparr>ctx_agent_id = exec_agent_id x\<rparr> tctx (exec_actions x) now =
          Allowed (exec_grant_id x) (exec_consumes_grant x))"

definition consumed_at :: "surroundings \<Rightarrow> AuthorizedRouteExecution \<Rightarrow> AppState \<Rightarrow> AppState \<Rightarrow> bool" where
  "consumed_at D x A A' \<longleftrightarrow>
     (\<exists>E S t S'. store_run (libs_of D) (app_store A) S \<and>
        try_consume_once_grant (libs_of D) E S (exec_grant_id x) t = (Inr True, S') \<and>
        store_run (libs_of D) S' (app_store A'))"

lemma authorize_round_Inr:
  assumes "authorize_round D a tg tc ds acts rs rd lost (n, A) = (Inr x, (n', A'))" and D: "store_interference D"
  shows "(\<exists>m B. lost (m, B) = (Inr x, (n', A')) \<and> app_run (libs_of D) A B) \<or>
    exec_agent_id x = a \<and> exec_target x = tg \<and> exec_actions x = acts \<and> allowed_at D tc x A A' \<and>
    (exec_consumes_grant x \<longrightarrow> consumed_at D x A A')"
proof -
  have run: "store_run (libs_of D) (app_store B) (app_store (interleave D m B))" for B m
    using D by (simp add: store_interference_def)
  obtain snap where snap: "load_policy_snapshot (libs_of D) (call_env D n) (app_store (interleave D n A)) a = Inr snap"
    using assms(1) by (auto simp: authorize_round_def task_simps)
  let ?A1 = "interleave D n A"
  let ?A2 = "interleave D (Suc n) ?A1"
  let ?A3 = "interleave D (Suc (Suc n)) ?A2"
  have r1: "app_run (libs_of D) A ?A1" and r2: "app_run (libs_of D) ?A1 ?A2" and r3: "app_run (libs_of D) ?A2 ?A3"
    using run by (simp_all add: app_run_def)
  show ?thesis
  proof (cases "authorize snap \<lparr>ctx_agent_id = a\<rparr> tc acts (clock D (Suc n))")
    case (Allowed gid consumes)
    show ?thesis
    proof (cases consumes)
      case False
      with assms(1) snap Allowed have "exec_agent_id x = a" "exec_target x = tg" "exec_actions x = acts"
        "exec_grant_id x = gid" "exec_consumes_grant x = consumes" "A' = ?A2"
        by (auto simp: authorize_round_def task_simps)
      with snap Allowed False r1 r2 show ?thesis unfolding allowed_at_def by auto
    next
      case True
      from assms(1) snap Allowed True obtain b S where
        call: "try_consume_once_grant (libs_of D) (call_env D (Suc (Suc n))) (app_store ?A3) gid (clock D (Suc (Suc n))) = (Inr b, S)"
        and rest: "(if \<not> b then lost (Suc (Suc (Suc n)), ?A3\<lparr>app_store := S\<rparr>) = (Inr x, (n', A'))
          else exec_agent_id x = a \<and> exec_target x = tg \<and> exec_actions x = acts \<and> exec_grant_id x = gid \<and>
            exec_consumes_grant x \<and> A' = ?A3\<lparr>app_store := S\<rparr>)"
        by (auto simp: authorize_round_def task_simps split: if_splits)
      have "store_step (libs_of D) (app_store ?A3) S" using call by (rule store_step.try_consume_once_grant)
      then have r4: "app_run (libs_of D) ?A3 (?A3\<lparr>app_store := S\<rparr>)" by (simp add: app_run_def store_run_single)
      have r13: "app_run (libs_of D) ?A1 (?A3\<lparr>app_store := S\<rparr>)" using r2 r3 r4 app_run_trans by blast
      show ?thesis
      proof (cases b)
        case False
        with rest have "lost (Suc (Suc (Suc n)), ?A3\<lparr>app_store := S\<rparr>) = (Inr x, (n', A'))" by simp
        with app_run_trans [OF r1 r13] show ?thesis by blast
      next
        case b: True
        with rest have x: "exec_agent_id x = a" "exec_target x = tg" "exec_actions x = acts"
          "exec_grant_id x = gid" "exec_consumes_grant x = consumes" "A' = ?A3\<lparr>app_store := S\<rparr>"
          using True by simp_all
        have r13': "store_run (libs_of D) (app_store A) (app_store ?A3)"
          using app_run_trans [OF r1 app_run_trans [OF r2 r3]] by (simp add: app_run_def)
        have "store_run (libs_of D) S (app_store A')" by (simp add: x(6))
        moreover from call b x(4) have "try_consume_once_grant (libs_of D) (call_env D (Suc (Suc n)))
            (app_store ?A3) (exec_grant_id x) (clock D (Suc (Suc n))) = (Inr True, S)" by simp
        ultimately have "consumed_at D x A A'" unfolding consumed_at_def using r13' by blast
        moreover have "allowed_at D tc x A A'"
          unfolding allowed_at_def x(1,3-6) using snap Allowed r1 r13 by blast
        ultimately show ?thesis using x by blast
      qed
    qed
  next
    case (Denied d)
    with assms(1) snap show ?thesis by (auto simp: authorize_round_def task_simps)
  next
    case NeedsPermission
    with assms(1) snap show ?thesis
      by (auto simp: authorize_round_def task_simps permission_needed_not_Inr)
  qed
qed

lemma store_run_trans: "store_run L S T \<Longrightarrow> store_run L T U \<Longrightarrow> store_run L S U"
  unfolding store_run_def by (rule rtranclp_trans)

lemma allowed_at_weaken: "app_run (libs_of D) A B \<Longrightarrow> allowed_at D tc x B C \<Longrightarrow> allowed_at D tc x A C"
  unfolding allowed_at_def using app_run_trans by blast

lemma consumed_at_weaken: "app_run (libs_of D) A B \<Longrightarrow> consumed_at D x B C \<Longrightarrow> consumed_at D x A C"
  unfolding consumed_at_def app_run_def using store_run_trans by metis

lemma authorize_target_actions_Inr:
  assumes "authorize_target_actions D a tg tc ds acts rs rd retried (n, A) = (Inr x, (n', A'))"
    and D: "store_interference D"
  shows "exec_agent_id x = a \<and> exec_target x = tg \<and> exec_actions x = acts \<and> allowed_at D tc x A A' \<and>
    (exec_consumes_grant x \<longrightarrow> consumed_at D x A A')"
proof -
  have second: ?thesis if "authorize_target_actions D a tg tc ds acts rs rd True (m, B) = (Inr x, (n', A'))"
    "app_run (libs_of D) A B" for m B
    using authorize_round_Inr [OF that(1) [unfolded authorize_target_actions_retried] D]
      permission_needed_not_Inr
      allowed_at_weaken [OF that(2)] consumed_at_weaken [OF that(2)] by blast
  show ?thesis
  proof (cases retried)
    case True
    with assms(1) second [of n A] show ?thesis by (simp add: app_run_def)
  next
    case False
    with assms(1) have "authorize_round D a tg tc ds acts rs rd (authorize_target_actions D a tg tc ds acts rs rd True)
        (n, A) = (Inr x, (n', A'))" by (simp add: authorize_target_actions_first)
    from authorize_round_Inr [OF this D] second show ?thesis by blast
  qed
qed

lemma authenticated_agent_id_Inr:
  "authenticated_agent_id D header (n, A) = (Inr a, s') \<longleftrightarrow>
   (\<exists>token. bearer_token header = Inr token \<and>
      authenticate_agent_token (libs_of D) (call_env D n) (app_store (interleave D n A)) token = Inr (Some a) \<and>
      s' = (Suc n, interleave D n A))"
  by (auto simp: authenticated_agent_id_def task_simps result_simps
      eq_commute [of "Inr _" "ok_or _ _"] eq_commute [of "Inr _" "bearer_token _"])

lemma authorize_surface_actions_Inr:
  assumes "authorize_surface_actions D header sid actions reason (0, A) = (Inr x, (n', A'))"
    and "store_interference D"
  shows "exec_target x = Surface sid \<and> exec_actions x = actions \<and>
    (\<exists>token. bearer_token header = Inr token \<and>
       authenticate_agent_token (libs_of D) (call_env D 0) (app_store (interleave D 0 A)) token = Inr (Some (exec_agent_id x))) \<and>
    (\<exists>s. require_alive (app_handles (interleave D 1 (interleave D 0 A))) sid = Inr s) \<and>
    (\<exists>tctx. ctx_surface_id tctx = Some sid \<and> allowed_at D tctx x A A') \<and>
    (exec_consumes_grant x \<longrightarrow> consumed_at D x A A')"
proof -
  let ?A1 = "interleave D 0 A"
  let ?A2 = "interleave D 1 ?A1"
  from assms(1) obtain token a s where tok: "bearer_token header = Inr token"
    "authenticate_agent_token (libs_of D) (call_env D 0) (app_store ?A1) token = Inr (Some a)"
    and alive: "require_alive (app_handles ?A2) sid = Inr s"
    and run: "authorize_target_actions D a (Surface sid)
      \<lparr>ctx_surface_id = Some sid, ctx_app_bundle_id = None, ctx_executable_path = None,
        ctx_app_name = app_name s, ctx_launched_by_agent = None, ctx_frontmost_surface_id = None,
        ctx_surface_alive = True\<rparr> (Some sid) actions reason WUntilSurfaceGone False (2, ?A2) = (Inr x, (n', A'))"
    by (auto simp: authorize_surface_actions_def authorize_surface_actions_inner_def task_simps
        authenticated_agent_id_Inr result_simps numeral_2_eq_2
        eq_commute [of "Inr _" "map_err ApiError_from_porthole _"])
  have "app_run (libs_of D) A ?A1" "app_run (libs_of D) ?A1 ?A2"
    using assms(2) by (simp_all add: store_interference_def app_run_def)
  then have pre: "app_run (libs_of D) A ?A2" by (rule app_run_trans)
  from authorize_target_actions_Inr [OF run assms(2)] have x: "exec_agent_id x = a" "exec_target x = Surface sid"
    "exec_actions x = actions" and al: "allowed_at D
      \<lparr>ctx_surface_id = Some sid, ctx_app_bundle_id = None, ctx_executable_path = None,
        ctx_app_name = app_name s, ctx_launched_by_agent = None, ctx_frontmost_surface_id = None,
        ctx_surface_alive = True\<rparr> x ?A2 A'" and co: "exec_consumes_grant x \<longrightarrow> consumed_at D x ?A2 A'"
    by auto
  have "\<exists>tctx. ctx_surface_id tctx = Some sid \<and> allowed_at D tctx x A A'"
    using allowed_at_weaken [OF pre al] by (metis TargetContext.select_convs(1))
  with x tok alive co consumed_at_weaken [OF pre] show ?thesis by blast
qed

text \<open>
  C14: The guard admits only what is authorized, under any interleaving.  When
  \<open>authorize_surface_actions\<close> lets a route proceed, the request carried a bearer token that
  authenticated the agent against the store as it then was; the surface was alive when looked
  up; the policy loaded during the call allowed exactly these actions on this surface to this
  agent by the reported grant; and a one-time grant was consumed by this very call.  The other
  tasks may run any store operations at every await point.
\<close>

theorem guard_admits_only_authorized:
  assumes "authorize_surface_actions D header sid actions reason (0, A) = (Inr x, (n', A'))"
    and "store_interference D"
  shows "exec_target x = Surface sid \<and> exec_actions x = actions \<and>
    (\<exists>token. bearer_token header = Inr token \<and>
       authenticate_agent_token (libs_of D) (call_env D 0) (app_store (interleave D 0 A)) token = Inr (Some (exec_agent_id x))) \<and>
    (\<exists>s. require_alive (app_handles (interleave D 1 (interleave D 0 A))) sid = Inr s) \<and>
    (\<exists>E S snap tctx now. store_run (libs_of D) (app_store A) S \<and> store_run (libs_of D) S (app_store A') \<and>
       load_policy_snapshot (libs_of D) E S (exec_agent_id x) = Inr snap \<and> ctx_surface_id tctx = Some sid \<and>
       authorize snap \<lparr>ctx_agent_id = exec_agent_id x\<rparr> tctx actions now = Allowed (exec_grant_id x) (exec_consumes_grant x)) \<and>
    (exec_consumes_grant x \<longrightarrow>
       (\<exists>E S t S'. store_run (libs_of D) (app_store A) S \<and>
          try_consume_once_grant (libs_of D) E S (exec_grant_id x) t = (Inr True, S') \<and>
          store_run (libs_of D) S' (app_store A')))"
proof -
  note facts = authorize_surface_actions_Inr [OF assms]
  then obtain tctx where "ctx_surface_id tctx = Some sid" "allowed_at D tctx x A A'" by blast
  moreover from facts have "exec_actions x = actions" by simp
  ultimately have "\<exists>E S snap tctx now. store_run (libs_of D) (app_store A) S \<and> store_run (libs_of D) S (app_store A') \<and>
       load_policy_snapshot (libs_of D) E S (exec_agent_id x) = Inr snap \<and> ctx_surface_id tctx = Some sid \<and>
       authorize snap \<lparr>ctx_agent_id = exec_agent_id x\<rparr> tctx actions now = Allowed (exec_grant_id x) (exec_consumes_grant x)"
    unfolding allowed_at_def app_run_def by blast
  with facts show ?thesis unfolding consumed_at_def by blast
qed

definition calm_surroundings :: surroundings where
  "calm_surroundings =
     \<lparr>libs_of = example_libs, needed_to_value = (\<lambda>d. Inr (JStr (nd_request_id d))), interleave = (\<lambda>_ A. A),
      call_env = (\<lambda>_. quiet_env ''k''), clock = (\<lambda>_. 4000)\<rparr>"

definition example_app :: AppState where
  "example_app =
     \<lparr>app_handles = [(''surf_1'', SurfaceInfo_window ''surf_1'' 7)], app_store = example_approved, app_events = []\<rparr>"

lemma calm_interference: "store_interference calm_surroundings"
  by (simp add: store_interference_def calm_surroundings_def)

lemmas guard_eval = authorize_surface_actions_def authorize_surface_actions_inner_def authenticated_agent_id_def
  authorize_target_actions_first authorize_round_def bearer_token_def eq_ignore_ascii_case_def ascii_lower_def
  tbind_def treturn_def tresult_def store_query_def store_op_def try_store_def handle_query_def now_unix_ms_def
  publish_def calm_surroundings_def example_app_def require_alive_def store_get_def SurfaceInfo_window_def
  authenticate_agent_token_def authenticate_agent_token_in_conn_def parse_token_agent_id_def live_token_hashes_def
  load_policy_snapshot_def snapshot_grant_def snapshot_denial_def get_grant_def stored_grant_from_tuple_def
  try_consume_once_grant_atomic store_eval approved_eval
  authorize_def grant_matches_def denial_matches_def duration_matches_def target_matches_def actions_match_def
  constraints_match_def

lemma example_guard:
  "\<exists>x n' A'. authorize_surface_actions calm_surroundings (Some (Some ''Bearer pta_agent_c0.c000'')) ''surf_1'' [Drive]
      (trigger_from None) (0, example_app) = (Inr x, (n', A')) \<and> exec_grant_id x = ''grant_g0'' \<and> exec_consumes_grant x"
  by (simp add: guard_eval)

theorem guard_admits_only_authorized_witness:
  "\<exists>(x :: AuthorizedRouteExecution) token. bearer_token (Some (Some ''Bearer pta_agent_c0.c000'')) = Inr token \<and> exec_grant_id x = ''grant_g0'' \<and>
     authenticate_agent_token example_libs (quiet_env ''k'') example_approved token = Inr (Some (exec_agent_id x))"
proof -
  obtain x n' A' where x: "authorize_surface_actions calm_surroundings (Some (Some ''Bearer pta_agent_c0.c000''))
      ''surf_1'' [Drive] (trigger_from None) (0, example_app) = (Inr x, (n', A'))" "exec_grant_id x = ''grant_g0''"
    using example_guard by blast
  from guard_admits_only_authorized [OF x(1) calm_interference] obtain token where
    "bearer_token (Some (Some ''Bearer pta_agent_c0.c000'')) = Inr token"
    "authenticate_agent_token example_libs (quiet_env ''k'') example_approved token = Inr (Some (exec_agent_id x))"
    by (auto simp: calm_surroundings_def example_app_def)
  with x(2) show ?thesis by blast
qed

lemma consumed_row_in_snapshot:
  assumes "load_policy_snapshot L E S a = Inr snap" and "g \<in> set (snap_grants snap)"
    and "distinct (map gr_grant_id (grants S))" and "r \<in> set (grants S)" and "gr_grant_id r = grant_id g"
    and "gr_consumed_at r \<noteq> None" and "duration_from_json L (gr_duration_json r) = Inr Once"
  shows "grant_id g \<in> set (snap_consumed_once snap)"
proof -
  from assms(1) obtain gs where gs: "snap_grants snap = map fst gs"
    "snap_consumed_once snap = map (\<lambda>(g, _). grant_id g) (filter snd gs)"
    "snapshot_grant L a ` {r \<in> set (grants S). gr_agent_id r = a \<and> gr_revoked_at r = None} = Inr ` set gs"
    by (rule load_policy_snapshot_Inr)
  from assms(2) gs(1) obtain b where b: "(g, b) \<in> set gs" by auto
  then have "Inr (g, b) \<in> snapshot_grant L a ` {r \<in> set (grants S). gr_agent_id r = a \<and> gr_revoked_at r = None}"
    unfolding gs(3) by simp
  then obtain r' where r': "r' \<in> set (grants S)" "snapshot_grant L a r' = Inr (g, b)" by auto
  then have "r' = r" using assms(3-5) by (auto simp: snapshot_grant_Inr distinct_map dest: inj_onD)
  with r' assms(6,7) have "b" by (auto simp: snapshot_grant_Inr)
  with b show ?thesis unfolding gs(2) by force
qed

text \<open>
  A one-time grant that the guard used is spent.  When a guarded call proceeded by consuming a
  grant, then in every later state of the store no policy snapshot authorizes anything by that
  grant, for no agent, target or time.
\<close>

theorem guard_spends_one_time_grant:
  assumes "authorize_surface_actions D header sid actions reason (0, A) = (Inr x, (n', A'))"
    and "store_interference D" and "store_run (libs_of D) init_schema (app_store A)" and "exec_consumes_grant x"
    and "store_run (libs_of D) (app_store A') S" and "load_policy_snapshot (libs_of D) E S a = Inr snap"
  shows "authorize snap ctx tctx actions' now \<noteq> Allowed (exec_grant_id x) c"
proof
  assume al: "authorize snap ctx tctx actions' now = Allowed (exec_grant_id x) c"
  let ?L = "libs_of D"
  from authorize_surface_actions_Inr [OF assms(1,2)] assms(4) obtain E0 S0 t S1 where
    S0: "store_run ?L (app_store A) S0" "try_consume_once_grant ?L E0 S0 (exec_grant_id x) t = (Inr True, S1)"
      "store_run ?L S1 (app_store A')" unfolding consumed_at_def by blast
  have "store_run ?L init_schema S1"
    using store_run_trans [OF assms(3) S0(1)] store_run_step store_step.try_consume_once_grant [OF S0(2)] by blast
  then have wf: "store_wf S1" "store_wf S" and run: "store_run ?L S1 S"
    using store_reachable_wf store_run_trans [OF S0(3) assms(5)] store_run_wf by blast+
  obtain g where g: "g \<in> set (grants S1)" "gr_grant_id g = exec_grant_id x" "gr_consumed_at g = Some t"
    "duration_from_json ?L (gr_duration_json g) = Inr Once"
    using try_consume_Inr_True(2) [OF S0(2)] by blast
  from authorize_Allowed [OF al] obtain h where h: "h \<in> set (snap_grants snap)" "grant_id h = exec_grant_id x"
    "grant_matches h ctx tctx actions' now (snap_consumed_once snap)" by blast
  from assms(6) h(1) obtain r where r: "r \<in> set (grants S)" "gr_grant_id r = grant_id h" by (rule snapshot_grant_row)
  then have ev: "grant_evolves g r"
    using grant_later [OF store_run_le [OF run wf(1)] wf(2) g(1)] g(2) h(2) by simp
  then have "gr_consumed_at r \<noteq> None" "gr_duration_json r = gr_duration_json g"
    using g(3) grant_evolves_duration [OF ev] by (auto simp: grant_evolves_def)
  then have "grant_id h \<in> set (snap_consumed_once snap)"
    using consumed_row_in_snapshot [OF assms(6) h(1) _ r] wf(2) g(4) by (simp add: store_wf_def store_keys_def)
  with h(3) show False by (simp add: grant_matches_def)
qed

theorem guard_spends_one_time_grant_witness:
  "\<exists>(x :: AuthorizedRouteExecution) S snap. exec_grant_id x = ''grant_g0'' \<and>
     load_policy_snapshot example_libs (quiet_env ''k'') S ''agent_c0'' = Inr snap \<and>
     authorize snap \<lparr>ctx_agent_id = ''agent_c0''\<rparr> example_target [Drive] 5000 \<noteq> Allowed ''grant_g0'' True"
proof -
  obtain x n' A' snap where x: "authorize_surface_actions calm_surroundings (Some (Some ''Bearer pta_agent_c0.c000''))
      ''surf_1'' [Drive] (trigger_from None) (0, example_app) = (Inr x, (n', A'))" "exec_grant_id x = ''grant_g0''"
      "exec_consumes_grant x" "load_policy_snapshot example_libs (quiet_env ''k'') (app_store A') ''agent_c0'' = Inr snap"
    by (simp add: guard_eval)
  have "authorize snap \<lparr>ctx_agent_id = ''agent_c0''\<rparr> example_target [Drive] 5000 \<noteq> Allowed (exec_grant_id x) True"
    using example_run(3) x(4)
    by (intro guard_spends_one_time_grant [OF x(1) calm_interference _ x(3) store_run_refl])
       (auto simp: calm_surroundings_def example_app_def)
  with x(2,4) show ?thesis by auto
qed

lemma ApiError_from_store_code [simp]: "api_code (ApiError_from_store err) \<noteq> AgentPermissionNeeded"
  by (cases err) (auto simp: ApiError_from_store_def)

lemma store_op_Inl_code: "store_op D f s = (Inl e, s') \<Longrightarrow> api_code e \<noteq> AgentPermissionNeeded"
  by (auto simp: store_op_def tbind_def try_store_def tresult_def Let_def map_err_def split: prod.splits sum.splits)

lemma store_query_Inl_code: "store_query D f s = (Inl e, s') \<Longrightarrow> api_code e \<noteq> AgentPermissionNeeded"
  unfolding store_query_def by (rule store_op_Inl_code)

text \<open>The pending request that an answer \<open>agent_permission_needed\<close> refers to.\<close>

definition pending_request_reported ::
  "surroundings \<Rightarrow> AgentId \<Rightarrow> TargetSelector \<Rightarrow> ActionClass list \<Rightarrow> SurfaceId option \<Rightarrow> AgentPermissionDuration \<Rightarrow>
   ApiError \<Rightarrow> AgentPolicyStore \<Rightarrow> bool" where
  "pending_request_reported D a tg acts ds rd e S \<longleftrightarrow>
     (\<exists>r tj aj w. r \<in> set (requests S) \<and> target_to_json (libs_of D) tg = Inr tj \<and>
        actions_to_json (libs_of D) (canonicalize_actions acts) = Inr aj \<and> pending_for a tj aj r \<and>
        e = ApiError w \<and>
        wire_details w = ok (needed_to_value D
          \<lparr>nd_request_id = rq_request_id r, nd_agent_id = a, nd_target = target_to_wire tg,
           nd_surface_id = ds, nd_actions = acts, nd_recommended_duration = rd\<rparr>))"

lemma find_or_create_pending:
  assumes "find_or_create_pending_request L E S a tg acts rs c t = (Inr (q, b), S')"
  shows "\<exists>r tj aj. r \<in> set (requests S') \<and> rq_request_id r = sr_request_id q \<and> target_to_json L tg = Inr tj \<and>
    actions_to_json L (canonicalize_actions acts) = Inr aj \<and> pending_for a tj aj r"
proof (cases b)
  case True
  with assms have "find_or_create_pending_request L E S a tg acts rs c t = (Inr (q, True), S')" by simp
  from find_or_create_created [OF this] obtain r w where r: "rq_request_id r = sr_request_id q"
    "rq_status r = ''pending''" "rq_agent_id r = a" "target_to_json L tg = Inr (rq_target_json r)"
    "actions_to_json L (canonicalize_actions acts) = Inr (rq_actions_json r)"
    "S' = S\<lparr>requests := requests S @ [r], audit := audit S @ [w]\<rparr>" by blast
  then have "r \<in> set (requests S')" "pending_for a (rq_target_json r) (rq_actions_json r) r"
    by (simp_all add: pending_for_def)
  with r show ?thesis by blast
next
  case False
  with assms have "find_or_create_pending_request L E S a tg acts rs c t = (Inr (q, False), S')" by simp
  from find_or_create_found [OF this] show ?thesis using stored_request_fields(1) by metis
qed

lemma open_request_reports:
  assumes "open_request D a ctx surface (n, A) = (Inl e, (n', A'))" and "api_code e = AgentPermissionNeeded"
  shows "pending_request_reported D a (pn_target ctx) (pn_actions ctx) (pn_surface_id ctx)
    (pn_recommended_duration ctx) e (app_store A')"
proof -
  let ?call = "\<lambda>E S. find_or_create_pending_request (libs_of D) E S a (pn_target ctx) (pn_actions ctx)
    (trig_reason (pn_trigger ctx)) \<lparr>prc_surface = surface, prc_operation = trig_operation (pn_trigger ctx)\<rparr> (clock D n)"
  obtain res s where op: "store_op D ?call (n, A) = (res, s)" by (cases "store_op D ?call (n, A)")
  have "\<not> isl res"
  proof
    assume "isl res"
    with op assms(1) have "store_op D ?call (n, A) = (Inl e, s)"
      by (cases res) (auto simp: open_request_def tbind_def now_unix_ms_def)
    with store_op_Inl_code assms(2) show False by blast
  qed
  then obtain q b where res: "res = Inr (q, b)" by (cases res) auto
  from op [unfolded res] obtain S where
    call: "?call (call_env D n) (app_store (interleave D n A)) = (Inr (q, b), S)" and
    s: "s = (Suc n, (interleave D n A)\<lparr>app_store := S\<rparr>)" by (auto simp: task_simps)
  from assms(1) op res s have A': "app_store A' = S"
    and e: "e = ApiError \<lparr>wire_code = AgentPermissionNeeded, wire_message = Msg ''agent permission required'' [],
      wire_details = ok (needed_to_value D
          \<lparr>nd_request_id = sr_request_id q, nd_agent_id = a,
           nd_target = target_to_wire (pn_target ctx), nd_surface_id = pn_surface_id ctx,
           nd_actions = pn_actions ctx, nd_recommended_duration = pn_recommended_duration ctx\<rparr>)\<rparr>"
    by (auto simp: open_request_def tbind_def now_unix_ms_def publish_def treturn_def tresult_def split: if_splits)
  from find_or_create_pending [OF call] obtain r tj aj where r: "r \<in> set (requests S)"
    "rq_request_id r = sr_request_id q" "target_to_json (libs_of D) (pn_target ctx) = Inr tj"
    "actions_to_json (libs_of D) (canonicalize_actions (pn_actions ctx)) = Inr aj" "pending_for a tj aj r" by blast
  show ?thesis unfolding pending_request_reported_def A' e
    by (rule exI [of _ r], rule exI [of _ tj], rule exI [of _ aj]) (simp add: r)
qed

lemma permission_needed_reports:
  assumes "permission_needed D a ctx (n, A) = (Inl e, (n', A'))" and "api_code e = AgentPermissionNeeded"
  shows "pending_request_reported D a (pn_target ctx) (pn_actions ctx) (pn_surface_id ctx)
    (pn_recommended_duration ctx) e (app_store A')"
proof -
  from assms(1) obtain surface m B where "open_request D a ctx surface (m, B) = (Inl e, (n', A'))"
    by (cases "pn_surface_id ctx") (auto simp: permission_needed_def task_simps)
  then show ?thesis using assms(2) by (rule open_request_reports)
qed

lemma authorize_round_reports:
  assumes "authorize_round D a tg tc ds acts rs rd lost (n, A) = (Inl e, (n', A'))"
    and "api_code e = AgentPermissionNeeded"
    and "\<And>m B. lost (m, B) = (Inl e, (n', A')) \<Longrightarrow> pending_request_reported D a tg acts ds rd e (app_store A')"
  shows "pending_request_reported D a tg acts ds rd e (app_store A')"
proof -
  have no': "store_op D f s \<noteq> (Inl e, s')" for f :: "sql_env \<Rightarrow> AgentPolicyStore \<Rightarrow> bool StoreResult \<times> AgentPolicyStore" and s s'
    using store_op_Inl_code assms(2) by blast
  from assms(1) obtain snap where
    snap: "load_policy_snapshot (libs_of D) (call_env D n) (app_store (interleave D n A)) a = Inr snap"
    using assms(2) by (auto simp: authorize_round_def task_simps dest: store_query_Inl_code)
  show ?thesis
  proof (cases "authorize snap \<lparr>ctx_agent_id = a\<rparr> tc acts (clock D (Suc n))")
    case (Allowed gid consumes)
    have "store_query D (\<lambda>E S. get_grant (libs_of D) E S gid) s \<noteq> (Inl e, s')" for s s'
      using store_query_Inl_code assms(2) by blast
    with assms snap Allowed no' show ?thesis
      by (cases consumes) (auto simp: authorize_round_def task_simps ok_or_eq_Inl eq_commute [of "Inl e" "ok_or _ _"]
          dest: store_query_Inl_code split: if_splits)
  next
    case (Denied d)
    with assms snap show ?thesis
      by (auto simp: authorize_round_def task_simps dest: store_query_Inl_code)
  next
    case NeedsPermission
    with assms snap show ?thesis
      by (auto simp: authorize_round_def task_simps dest: store_query_Inl_code permission_needed_reports)
  qed
qed

text \<open>
  C15: A caller that is told to ask for permission has something to ask about.  Whenever the guard
  answers \<open>agent_permission_needed\<close>, the store holds, at that moment, a pending request of this
  agent for exactly this target and this set of actions, and the answer's details carry its id.
\<close>

theorem permission_needed_has_pending_request:
  assumes "authorize_target_actions D a tg tctx ds acts rs rd retried (n, A) = (Inl e, (n', A'))"
    and "api_code e = AgentPermissionNeeded"
  shows "\<exists>r tj aj w. r \<in> set (requests (app_store A')) \<and> target_to_json (libs_of D) tg = Inr tj \<and>
    actions_to_json (libs_of D) (canonicalize_actions acts) = Inr aj \<and> pending_for a tj aj r \<and> e = ApiError w \<and>
    wire_details w = ok (needed_to_value D
      \<lparr>nd_request_id = rq_request_id r, nd_agent_id = a, nd_target = target_to_wire tg,
       nd_surface_id = ds, nd_actions = acts, nd_recommended_duration = rd\<rparr>)"
proof -
  have second: "pending_request_reported D a tg acts ds rd e (app_store A')"
    if "authorize_target_actions D a tg tctx ds acts rs rd True (m, B) = (Inl e, (n', A'))" for m B
    using that assms(2) unfolding authorize_target_actions_retried
    by (rule authorize_round_reports) (use permission_needed_reports assms(2) in fastforce)
  have "pending_request_reported D a tg acts ds rd e (app_store A')"
  proof (cases retried)
    case True
    with assms(1) second [of n A] show ?thesis by simp
  next
    case False
    with assms(1) have "authorize_round D a tg tctx ds acts rs rd (authorize_target_actions D a tg tctx ds acts rs rd True)
        (n, A) = (Inl e, (n', A'))" by (simp add: authorize_target_actions_first)
    then show ?thesis using assms(2) second by (rule authorize_round_reports)
  qed
  then show ?thesis unfolding pending_request_reported_def .
qed

theorem permission_needed_has_pending_request_witness:
  "\<exists>e n' A' r. authorize_target_actions calm_surroundings ''agent_c0'' (Surface ''surf_1'') example_target (Some ''surf_1'')
      [Record] (trigger_from None) WOnce False (0, example_app) = (Inl e, (n', A')) \<and>
    api_code e = AgentPermissionNeeded \<and> r \<in> set (requests (app_store A')) \<and> pending_for ''agent_c0'' ''ssurf_1'' ''r'' r"
proof -
  obtain e n' A' where run: "authorize_target_actions calm_surroundings ''agent_c0'' (Surface ''surf_1'') example_target
      (Some ''surf_1'') [Record] (trigger_from None) WOnce False (0, example_app) = (Inl e, (n', A'))"
      "api_code e = AgentPermissionNeeded"
    by (simp add: guard_eval permission_needed_def open_request_def example_target_def trigger_from_def)
  from permission_needed_has_pending_request [OF this] run show ?thesis
    by (force simp: calm_surroundings_def store_eval)
qed

text \<open>
  Guarded calls touch the policy store only through its own operations.  Authorizing a surface,
  a launch or all surfaces, and auditing the execution afterwards, is a run of store operations,
  whatever the outcome; so every invariant and every finality property of such runs holds across
  them.
\<close>

theorem guard_refines_store_runs:
  assumes "store_interference D" and "libs_of D = L"
    and "authorize_surface_actions D header sid acts rs (n, A) = (r1, (n1, A1))"
    and "authorize_launch_actions D header acts rs (n1, A1) = (r2, (n2, A2))"
    and "authorize_all_surfaces_actions D header acts rs (n2, A2) = (r3, (n3, A3))"
    and "complete_route_execution D x route (n3, A3) = (r4, (n4, A4))"
  shows "store_run L (app_store A) (app_store A1) \<and> store_run L (app_store A1) (app_store A2) \<and>
    store_run L (app_store A2) (app_store A3) \<and> store_run L (app_store A3) (app_store A4)"
proof -
  from store_interference_bounded [OF assms(1)] assms(2) have b: "app_runs.bounded L D" by simp
  note keep = app_runs.keepsD [OF app_runs.keeps_guard(1) [OF b]] app_runs.keepsD [OF app_runs.keeps_guard(2) [OF b]]
    app_runs.keepsD [OF app_runs.keeps_guard(3) [OF b]] app_runs.keepsD [OF app_runs.keeps_guard(4) [OF b]]
  show ?thesis
    using keep(1) [OF assms(3) [unfolded authorize_surface_actions_def]] keep(2) [OF assms(4)]
      keep(3) [OF assms(5)] keep(4) [OF assms(6)]
    by (simp add: app_run_def)
qed

theorem guard_refines_store_runs_witness:
  "\<exists>r n1 A1. authorize_surface_actions calm_surroundings None ''surf_1'' [Drive] (trigger_from None) (0, example_app) =
     (r, (n1, A1)) \<and> store_run example_libs example_approved (app_store A1)"
proof -
  obtain r1 n1 A1 where 1: "authorize_surface_actions calm_surroundings None ''surf_1'' [Drive] (trigger_from None) (0, example_app) =
    (r1, (n1, A1))" by (metis surj_pair)
  obtain r2 n2 A2 where 2: "authorize_launch_actions calm_surroundings None [Drive] (trigger_from None) (n1, A1) = (r2, (n2, A2))"
    by (metis surj_pair)
  obtain r3 n3 A3 where 3: "authorize_all_surfaces_actions calm_surroundings None [Drive] (trigger_from None) (n2, A2) = (r3, (n3, A3))"
    by (metis surj_pair)
  obtain r4 n4 A4 where 4: "complete_route_execution calm_surroundings
      \<lparr>exec_agent_id = ''agent_c0'', exec_grant_id = ''grant_g0'', exec_origin_request_id = None, exec_consumes_grant = True,
       exec_target = Surface ''surf_1'', exec_actions = [Drive]\<rparr> ''/surfaces/{id}/key'' (n3, A3) = (r4, (n4, A4))"
    by (metis surj_pair)
  from guard_refines_store_runs [OF calm_interference _ 1 2 3 4, of example_libs] 1 show ?thesis
    by (auto simp: calm_surroundings_def example_app_def)
qed

end
