(* ===== verification/Keys.thy ===== *)
theory Keys
  imports Errors
begin

text \<open>
  Input data (\<open>porthole-core/src/input.rs\<close>), the key names the daemon accepts
  (\<open>porthole-core/src/key_names.rs\<close>) and the tmux-style key syntax of the command line
  (\<open>porthole/src/key_syntax.rs\<close>).
\<close>

section \<open>Input data\<close>

datatype CoordUnits = Logical | Physical

datatype Modifier = Cmd | Ctrl | Alt | Shift

record KeyEvent =
  ke_key :: string
  ke_modifiers :: "Modifier list"

datatype ClickButton = LeftButton | RightButton | MiddleButton

record ClickSpec =
  click_x :: f64
  click_y :: f64
  click_button :: ClickButton
  click_count :: u8
  click_modifiers :: "Modifier list"

record ScrollSpec =
  scroll_x :: f64
  scroll_y :: f64
  scroll_delta_x :: f64
  scroll_delta_y :: f64

datatype PressAction = PressDown | PressUp | PressRepeat

record KeyStrokeSpec =
  ks_press :: u64
  ks_action :: PressAction
  ks_key :: string
  ks_modifiers :: "Modifier list"

record ButtonSpec =
  btn_x :: f64
  btn_y :: f64
  btn_button :: ClickButton
  btn_action :: PressAction
  btn_modifiers :: "Modifier list"

record PointerMoveSpec =
  move_x :: f64
  move_y :: f64

section \<open>Key names\<close>

definition ascii :: "char \<Rightarrow> nat" where
  "ascii c = of_char c"

definition is_ascii_uppercase :: "char \<Rightarrow> bool" where
  "is_ascii_uppercase c \<longleftrightarrow> 65 \<le> ascii c \<and> ascii c \<le> 90"

definition is_ascii_lowercase :: "char \<Rightarrow> bool" where
  "is_ascii_lowercase c \<longleftrightarrow> 97 \<le> ascii c \<and> ascii c \<le> 122"

definition is_ascii_digit :: "char \<Rightarrow> bool" where
  "is_ascii_digit c \<longleftrightarrow> 48 \<le> ascii c \<and> ascii c \<le> 57"

definition is_ascii_alphabetic :: "char \<Rightarrow> bool" where
  "is_ascii_alphabetic c \<longleftrightarrow> is_ascii_uppercase c \<or> is_ascii_lowercase c"

definition to_ascii_uppercase :: "char \<Rightarrow> char" where
  "to_ascii_uppercase c = (if is_ascii_lowercase c then char_of (ascii c - 32) else c)"

definition supported :: "string list" where
  "supported =
     map (\<lambda>c. ''Key'' @ [char_of c]) [65 ..< 91 :: nat]
     @ map (\<lambda>d. ''Digit'' @ [char_of (48 + d)]) [0 ..< 10 :: nat]
     @ [''F1'', ''F2'', ''F3'', ''F4'', ''F5'', ''F6'', ''F7'', ''F8'', ''F9'', ''F10'', ''F11'', ''F12'']
     @ [''ShiftLeft'', ''ShiftRight'', ''ControlLeft'', ''ControlRight'', ''AltLeft'', ''AltRight'',
        ''MetaLeft'', ''MetaRight'', ''CapsLock'']
     @ [''Enter'', ''Escape'', ''Space'', ''Tab'', ''Backspace'', ''Delete'', ''ArrowUp'', ''ArrowDown'',
        ''ArrowLeft'', ''ArrowRight'', ''Home'', ''End'', ''PageUp'', ''PageDown'', ''Minus'', ''Equal'',
        ''Comma'', ''Period'', ''Slash'', ''Semicolon'', ''Quote'', ''Backquote'', ''BracketLeft'',
        ''BracketRight'', ''Backslash'']"

definition is_supported :: "string \<Rightarrow> bool" where
  "is_supported name \<longleftrightarrow> List.member supported name"

section \<open>Key syntax\<close>

datatype KeyToken = Text string | Key string "Modifier list"

datatype ParseError = UnknownModifier string string | UnknownKeyName string string | EmptyToken

datatype ParseResult = ParsedKey KeyToken | ParsedText | ParseFailed ParseError

fun split_on :: "char \<Rightarrow> string \<Rightarrow> string list" where
  "split_on d [] = [[]]"
| "split_on d (c # cs) =
     (if c = d then [] # split_on d cs
      else case split_on d cs of [] \<Rightarrow> [[c]] | p # ps \<Rightarrow> (c # p) # ps)"

definition modifier_named :: "string \<Rightarrow> Modifier option" where
  "modifier_named part =
     (if part = ''C'' then Some Ctrl
      else if part = ''M'' then Some Alt
      else if part = ''S'' then Some Shift
      else if part = ''Cmd'' then Some Cmd
      else None)"

fun collect_modifiers :: "string \<Rightarrow> string list \<Rightarrow> Modifier list \<Rightarrow> (ParseError, Modifier list) result" where
  "collect_modifiers token [] modifiers = Inr modifiers"
| "collect_modifiers token (part # parts) modifiers =
     (case modifier_named part of
        None \<Rightarrow> Inl (UnknownModifier token part)
      | Some m \<Rightarrow> collect_modifiers token parts (if List.member modifiers m then modifiers else modifiers @ [m]))"

definition parse_modifiers :: "string \<Rightarrow> (ParseError, Modifier list \<times> string) result" where
  "parse_modifiers token =
     (let parts = split_on (CHR ''-'') token in
      if length parts < 2 then Inr ([], token)
      else
        let base = last parts; parts = butlast parts in
        if base = [] then Inr ([], token)
        else rmap (\<lambda>modifiers. (modifiers, base)) (collect_modifiers token parts []))"

text \<open>\<open>str::parse::<u8>\<close>: an optional plus sign, digits, at most 255.\<close>

definition digits_value :: "string \<Rightarrow> nat" where
  "digits_value ds = foldl (\<lambda>n d. 10 * n + (ascii d - 48)) 0 ds"

definition parse_u8 :: "string \<Rightarrow> nat option" where
  "parse_u8 s =
     (let ds = (case s of c # cs \<Rightarrow> if c = CHR ''+'' then cs else s | [] \<Rightarrow> s) in
      if ds = [] \<or> \<not> list_all is_ascii_digit ds then None
      else if digits_value ds \<le> 255 then Some (digits_value ds) else None)"

definition function_key :: "string \<Rightarrow> bool" where
  "function_key s \<longleftrightarrow>
     (case strip_prefix ''F'' s of
        None \<Rightarrow> False
      | Some rest \<Rightarrow> (case parse_u8 rest of None \<Rightarrow> False | Some n \<Rightarrow> 1 \<le> n \<and> n \<le> 12))"

definition resolve_named_key :: "string \<Rightarrow> bool \<Rightarrow> string option" where
  "resolve_named_key s allow_single_char =
     (if List.member [''Enter'', ''Escape'', ''Tab'', ''Backspace'', ''Space'', ''Delete'', ''ArrowUp'', ''ArrowDown'',
                      ''ArrowLeft'', ''ArrowRight'', ''Home'', ''End'', ''PageUp'', ''PageDown''] s then Some s
      else if s = ''Esc'' then Some ''Escape''
      else if s = ''BSpace'' then Some ''Backspace''
      else if s = ''Up'' then Some ''ArrowUp''
      else if s = ''Down'' then Some ''ArrowDown''
      else if s = ''Left'' then Some ''ArrowLeft''
      else if s = ''Right'' then Some ''ArrowRight''
      else if s = ''PgUp'' \<or> s = ''PPage'' then Some ''PageUp''
      else if s = ''PgDn'' \<or> s = ''NPage'' then Some ''PageDown''
      else if s = ''DC'' then Some ''Delete''
      else if function_key s then Some s
      else if (strip_prefix ''Key'' s \<noteq> None \<and> length s = 4 \<and> is_ascii_uppercase (s ! 3))
              \<or> (strip_prefix ''Digit'' s \<noteq> None \<and> length s = 6 \<and> is_ascii_digit (s ! 5)) then Some s
      else if \<not> allow_single_char then None
      else if length s = 1 \<and> is_ascii_alphabetic (s ! 0) then Some (''Key'' @ [to_ascii_uppercase (s ! 0)])
      else if length s = 1 \<and> is_ascii_digit (s ! 0) then Some (''Digit'' @ [s ! 0])
      else None)"

definition parse_one :: "string \<Rightarrow> ParseResult" where
  "parse_one token =
     (let (control_prefix, rest) =
        (case strip_prefix ''^'' token of Some rest \<Rightarrow> (True, rest) | None \<Rightarrow> (False, token))
      in case parse_modifiers rest of
           Inl _ \<Rightarrow> if control_prefix then ParseFailed (UnknownKeyName token rest) else ParsedText
         | Inr (modifiers, base) \<Rightarrow>
             let modifiers = (if control_prefix \<and> \<not> List.member modifiers Ctrl then modifiers @ [Ctrl] else modifiers);
                 allow_single_char = (modifiers \<noteq> [] \<or> control_prefix)
             in case resolve_named_key base allow_single_char of
                  Some name \<Rightarrow> ParsedKey (Key name modifiers)
                | None \<Rightarrow>
                    if modifiers \<noteq> [] \<or> control_prefix then ParseFailed (UnknownKeyName token base) else ParsedText)"

text \<open>Text joins a text token at the end of the output, separated by a space.\<close>

definition push_text :: "KeyToken list \<Rightarrow> string \<Rightarrow> KeyToken list" where
  "push_text out token =
     (case (if out = [] then None else Some (last out)) of
        Some (Text prev) \<Rightarrow> butlast out @ [Text (prev @ '' '' @ token)]
      | _ \<Rightarrow> out @ [Text token])"

fun parse_tokens_loop :: "string list \<Rightarrow> KeyToken list \<Rightarrow> (ParseError, KeyToken list) result" where
  "parse_tokens_loop [] out = Inr out"
| "parse_tokens_loop (token # tokens) out =
     (if token = [] then Inl EmptyToken
      else case parse_one token of
             ParsedKey k \<Rightarrow> parse_tokens_loop tokens (out @ [k])
           | ParsedText \<Rightarrow> parse_tokens_loop tokens (push_text out token)
           | ParseFailed e \<Rightarrow> Inl e)"

definition parse_tokens :: "string list \<Rightarrow> (ParseError, KeyToken list) result" where
  "parse_tokens tokens = parse_tokens_loop tokens []"

fun join_spaces :: "string list \<Rightarrow> string" where
  "join_spaces [] = []"
| "join_spaces [t] = t"
| "join_spaces (t # ts) = t @ '' '' @ join_spaces ts"

definition parse_literal :: "string list \<Rightarrow> KeyToken" where
  "parse_literal tokens = Text (join_spaces tokens)"

section \<open>What the parser accepts\<close>

lemma is_supported_iff: "is_supported n \<longleftrightarrow> n \<in> set supported"
  by (simp add: is_supported_def)

lemma KeyX_supported:
  assumes "is_ascii_uppercase c"
  shows "is_supported (''Key'' @ [c])"
proof -
  from assms have "ascii c \<in> {65 ..< 91}" by (simp add: is_ascii_uppercase_def)
  then have "''Key'' @ [char_of (ascii c)] \<in> (\<lambda>c. ''Key'' @ [char_of c]) ` {65 ..< 91 :: nat}" by (rule imageI)
  then show ?thesis unfolding is_supported_iff supported_def set_append set_map set_upt
    by (simp only: ascii_def char_of_char Un_iff) blast
qed

lemma DigitN_supported:
  assumes "is_ascii_digit c"
  shows "is_supported (''Digit'' @ [c])"
proof -
  from assms have "ascii c - 48 \<in> {0 ..< 10}" and c: "48 + (ascii c - 48) = ascii c"
    by (auto simp: is_ascii_digit_def)
  then have "''Digit'' @ [char_of (48 + (ascii c - 48))] \<in> (\<lambda>d. ''Digit'' @ [char_of (48 + d)]) ` {0 ..< 10 :: nat}"
    by (intro imageI)
  then show ?thesis unfolding c is_supported_iff supported_def set_append set_map set_upt
    by (simp only: ascii_def char_of_char Un_iff) blast
qed

lemma to_ascii_uppercase_upper: "is_ascii_alphabetic c \<Longrightarrow> is_ascii_uppercase (to_ascii_uppercase c)"
  by (auto simp: is_ascii_alphabetic_def to_ascii_uppercase_def is_ascii_uppercase_def is_ascii_lowercase_def ascii_def)

lemma strip_prefix_one_more:
  assumes "strip_prefix p s \<noteq> None" and "length s = Suc (length p)"
  shows "s = p @ [s ! length p]"
proof -
  from assms(1) obtain r where "s = p @ r" by (auto simp: strip_prefix_Some)
  with assms(2) show ?thesis by (cases r) auto
qed

lemma Key_prefix_supported:
  assumes "strip_prefix ''Key'' s \<noteq> None" "length s = 4" "is_ascii_uppercase (s ! 3)"
  shows "is_supported s"
proof -
  have "s = ''Key'' @ [s ! 3]"
    using strip_prefix_one_more [of "''Key''" s] assms by (simp add: numeral_3_eq_3)
  with KeyX_supported [OF assms(3)] show ?thesis by simp
qed

lemma Digit_prefix_supported:
  assumes "strip_prefix ''Digit'' s \<noteq> None" "length s = 6" "is_ascii_digit (s ! 5)"
  shows "is_supported s"
proof -
  have "s = ''Digit'' @ [s ! 5]"
    using strip_prefix_one_more [of "''Digit''" s] assms by (simp add: eval_nat_numeral)
  with DigitN_supported [OF assms(3)] show ?thesis by simp
qed

text \<open>A function key that is not written in the one canonical way.\<close>

definition odd_function_key :: "string \<Rightarrow> bool" where
  "odd_function_key s \<longleftrightarrow> function_key s \<and> \<not> is_supported s"

lemma resolve_named_key_supported:
  assumes "resolve_named_key s b = Some name"
  shows "is_supported name \<or> odd_function_key name"
proof -
  have named: "is_supported n" if "n \<in> {''Enter'', ''Escape'', ''Tab'', ''Backspace'', ''Space'', ''Delete'', ''ArrowUp'',
      ''ArrowDown'', ''ArrowLeft'', ''ArrowRight'', ''Home'', ''End'', ''PageUp'', ''PageDown''}" for n
    using that by (auto simp: is_supported_def supported_def)
  show ?thesis
    using assms unfolding resolve_named_key_def
    by (auto simp: named odd_function_key_def split: if_splits
        intro: KeyX_supported [simplified] DigitN_supported [simplified] to_ascii_uppercase_upper
          Key_prefix_supported Digit_prefix_supported)
qed

lemma collect_modifiers_distinct:
  "collect_modifiers token parts ms = Inr out \<Longrightarrow> distinct ms \<Longrightarrow> distinct out"
  by (induction token parts ms rule: collect_modifiers.induct) (auto split: option.splits if_splits)

lemma parse_modifiers_distinct: "parse_modifiers token = Inr (ms, base) \<Longrightarrow> distinct ms"
  by (auto simp: parse_modifiers_def Let_def result_simps split: if_splits dest: collect_modifiers_distinct)

definition good_token :: "KeyToken \<Rightarrow> bool" where
  "good_token t = (case t of Text _ \<Rightarrow> True | Key name ms \<Rightarrow> (is_supported name \<or> odd_function_key name) \<and> distinct ms)"

lemma parse_one_key: "parse_one token = ParsedKey k \<Longrightarrow> good_token k \<and> (\<exists>name ms. k = Key name ms)"
  by (auto simp: parse_one_def good_token_def Let_def split: option.splits sum.splits prod.splits if_splits
      dest: resolve_named_key_supported parse_modifiers_distinct)

definition is_text :: "KeyToken \<Rightarrow> bool" where
  "is_text t = (case t of Text _ \<Rightarrow> True | Key _ _ \<Rightarrow> False)"

fun coalesced :: "KeyToken list \<Rightarrow> bool" where
  "coalesced [] = True"
| "coalesced (t # ts) \<longleftrightarrow> \<not> (is_text t \<and> ts \<noteq> [] \<and> is_text (hd ts)) \<and> coalesced ts"

lemma coalesced_snoc:
  "coalesced (ts @ [u]) \<longleftrightarrow> coalesced ts \<and> \<not> (ts \<noteq> [] \<and> is_text (last ts) \<and> is_text u)"
  by (induction ts) (auto simp: hd_append)

lemma push_text_good:
  assumes "coalesced out" and "\<forall>t \<in> set out. good_token t"
  shows "coalesced (push_text out s) \<and> (\<forall>t \<in> set (push_text out s). good_token t)"
proof (cases "out \<noteq> [] \<and> is_text (last out)")
  case True
  then obtain init prev where "out = init @ [Text prev]"
    by (metis KeyToken.exhaust KeyToken.simps(6) append_butlast_last_id is_text_def)
  with assms show ?thesis by (auto simp: push_text_def good_token_def coalesced_snoc is_text_def)
next
  case False
  then have "push_text out s = out @ [Text s]"
    by (cases "last out") (auto simp: push_text_def is_text_def)
  with assms False show ?thesis by (auto simp: good_token_def coalesced_snoc)
qed

lemma parse_tokens_loop_good:
  assumes "parse_tokens_loop ts out = Inr res" and "coalesced out" and "\<forall>t \<in> set out. good_token t"
  shows "coalesced res \<and> (\<forall>t \<in> set res. good_token t)"
  using assms
proof (induction ts out rule: parse_tokens_loop.induct)
  case (1 out)
  then show ?case by simp
next
  case (2 token ts out)
  from 2(3) have "token \<noteq> []" by auto
  show ?case
  proof (cases "parse_one token")
    case (ParsedKey k)
    with parse_one_key obtain name ms where k: "k = Key name ms" "good_token k" by blast
    with 2(3,4,5) ParsedKey \<open>token \<noteq> []\<close> show ?thesis
      by (intro 2(1)) (auto simp: coalesced_snoc is_text_def)
  next
    case ParsedText
    with 2(3) \<open>token \<noteq> []\<close> push_text_good [OF 2(4,5), of token] show ?thesis
      by (intro 2(2)) auto
  next
    case (ParseFailed e)
    with 2(3) \<open>token \<noteq> []\<close> show ?thesis by simp
  qed
qed

text \<open>
  What the key syntax produces can be sent.  Every key token it produces names a key the
  daemon accepts, with each modifier at most once, and text tokens are never adjacent.  The one
  exception is a function key written with leading zeros or a plus sign, which the parser lets
  through.
\<close>

theorem parsed_keys_are_supported:
  assumes "parse_tokens ts = Inr out"
  shows "coalesced out \<and>
    (\<forall>name ms. Key name ms \<in> set out \<longrightarrow> distinct ms \<and> (is_supported name \<or> function_key name))"
  using parse_tokens_loop_good [of ts "[]" out] assms
  by (fastforce simp: parse_tokens_def good_token_def odd_function_key_def)

lemma example_parse:
  "parse_tokens [''C-S-Up'', ''hello'', ''world'', ''^c''] =
     Inr [Key ''ArrowUp'' [Ctrl, Shift], Text ''hello world'', Key ''KeyC'' [Ctrl]]"
  by (simp add: parse_tokens_def parse_one_def parse_modifiers_def modifier_named_def resolve_named_key_def
      function_key_def push_text_def Let_def is_ascii_alphabetic_def is_ascii_lowercase_def
      is_ascii_uppercase_def to_ascii_uppercase_def ascii_def is_ascii_digit_def char_of_def bit_0)

theorem parsed_keys_are_supported_witness:
  "coalesced [Key ''ArrowUp'' [Ctrl, Shift], Text ''hello world'', Key ''KeyC'' [Ctrl]] \<and> is_supported ''KeyC''"
proof -
  have "\<not> function_key ''KeyC''" by (simp add: function_key_def)
  with parsed_keys_are_supported [OF example_parse] show ?thesis by auto
qed

text \<open>The parser accepts \<open>F01\<close> as a key, and the daemon rejects it.\<close>

lemma zero_padded_function_key_accepted:
  "parse_tokens [''F01''] = Inr [Key ''F01'' []] \<and> \<not> is_supported ''F01''"
proof
  show "parse_tokens [''F01''] = Inr [Key ''F01'' []]"
    by (simp add: parse_tokens_def parse_one_def parse_modifiers_def resolve_named_key_def function_key_def
        parse_u8_def digits_value_def is_ascii_digit_def ascii_def Let_def)
  show "\<not> is_supported ''F01''"
    by (simp add: is_supported_def supported_def upt_conv_Cons)
qed

lemma parse_tokens_loop_text:
  assumes "\<And>t. t \<in> set ts \<Longrightarrow> t \<noteq> [] \<and> parse_one t = ParsedText"
  shows "parse_tokens_loop ts [Text acc] = Inr [Text (join_spaces (acc # ts))]"
  using assms
proof (induction ts arbitrary: acc)
  case Nil
  then show ?case by simp
next
  case (Cons t ts)
  have "join_spaces ((acc @ '' '' @ t) # ts) = join_spaces (acc # t # ts)" by (cases ts) auto
  with Cons show ?case by (simp add: push_text_def)
qed

text \<open>
  Plain words need no \<open>--literal\<close> flag.  When no word of the command line looks like a key,
  parsing it gives the same single text token as \<open>parse_literal\<close>.
\<close>

theorem plain_words_parse_as_literal:
  assumes "\<And>t. t \<in> set ts \<Longrightarrow> t \<noteq> [] \<and> parse_one t = ParsedText" and "ts \<noteq> []"
  shows "parse_tokens ts = Inr [parse_literal ts]"
proof -
  obtain t us where ts: "ts = t # us" using assms(2) by (cases ts) auto
  with assms(1) have "parse_tokens_loop us [Text t] = Inr [Text (join_spaces (t # us))]"
    by (intro parse_tokens_loop_text) auto
  with assms(1) [of t] ts show ?thesis by (simp add: parse_tokens_def parse_literal_def push_text_def)
qed

theorem plain_words_parse_as_literal_witness:
  "parse_tokens [''git'', ''log'', ''-1''] = Inr [Text ''git log -1'']"
proof -
  have "parse_tokens [''git'', ''log'', ''-1''] = Inr [parse_literal [''git'', ''log'', ''-1'']]"
    by (rule plain_words_parse_as_literal)
       (auto simp: parse_one_def parse_modifiers_def modifier_named_def resolve_named_key_def function_key_def Let_def)
  then show ?thesis by (simp add: parse_literal_def)
qed

end
