(* ===== verification/Adapter.thy ===== *)
theory Adapter
  imports Surfaces Keys
begin

text \<open>
  The data that crosses the adapter boundary (\<open>porthole-core/src\<close>: \<open>display.rs\<close>, \<open>attention.rs\<close>,
  \<open>content_rect.rs\<close>, \<open>placement.rs\<close>, \<open>wait.rs\<close>, \<open>search.rs\<close>, \<open>permission.rs\<close>, \<open>adapter.rs\<close>) and
  the \<open>Adapter\<close> trait as a record of its methods.

  A method acts on a \<open>system\<close>: the daemon's handle store and the world behind the adapter.  The
  pipelines hold no lock across an \<open>.await\<close>, so other tasks may use the handle store while a
  call is in flight; a method therefore stands for everything that happens from the moment it
  is called until its result is used, including what other tasks do to the handles.  The
  contract \<open>adapter_contract\<close> says what the pipelines rely on: the handles change only by the
  operations that tasks issue (\<open>handle_steps\<close>), and launched or re-found surfaces come with a
  new id, since adapters mint it with \<open>SurfaceId::new\<close>.  The two methods that open video
  capture sessions are left out: their results are live objects, and no pipeline calls them.
\<close>

section \<open>Data\<close>

type_synonym DisplayId = string
type_synonym Duration = nat \<comment> \<open>nanoseconds\<close>
type_synonym Instant = nat \<comment> \<open>nanoseconds on the monotonic clock\<close>

record Rect =
  rect_x :: f64
  rect_y :: f64
  rect_w :: f64
  rect_h :: f64

record DisplayInfo =
  display_id :: DisplayId
  display_bounds :: Rect
  display_scale :: f64
  display_primary :: bool
  display_focused :: bool

record CursorPos =
  cursor_x :: f64
  cursor_y :: f64
  cursor_display_id :: "DisplayId option"

record AttentionInfo =
  focused_surface_id :: "SurfaceId option"
  focused_app_name :: "string option"
  focused_display_id :: "DisplayId option"
  cursor :: CursorPos
  recently_active_surface_ids :: "SurfaceId list"

datatype Descent = Contents | LargestChild

record ContentRectInfo =
  content_rect_of :: Rect
  content_role :: string
  content_descent :: Descent

datatype DisplayTarget = TargetFocused | TargetPrimary | TargetId DisplayId

fun display_target_serialize :: "DisplayTarget \<Rightarrow> string" where
  "display_target_serialize TargetFocused = ''focused''"
| "display_target_serialize TargetPrimary = ''primary''"
| "display_target_serialize (TargetId i) = i"

definition display_target_deserialize :: "string \<Rightarrow> DisplayTarget" where
  "display_target_deserialize s =
     (if s = ''focused'' then TargetFocused else if s = ''primary'' then TargetPrimary else TargetId s)"

datatype Anchor = FocusedDisplay | CursorAnchor

record PlacementSpec =
  on_display :: "DisplayTarget option"
  geometry :: "Rect option"
  anchor :: "Anchor option"

definition is_effectively_empty :: "PlacementSpec \<Rightarrow> bool" where
  "is_effectively_empty p \<longleftrightarrow> on_display p = None \<and> geometry p = None \<and> anchor p = None"

datatype PlacementOutcome = NotRequested | Applied | SkippedPreexisting | PlacementFailed message

record GeometrySnapshot =
  snap_display_id :: DisplayId
  snap_display_local :: Rect

datatype WaitCondition =
    Stable u64 f64 \<comment> \<open>\<open>window_ms\<close>, \<open>threshold_pct\<close>\<close>
  | Dirty f64
  | Exists
  | Gone
  | TitleMatches string

record WaitOutcome =
  wait_condition :: string
  wait_elapsed_ms :: u64

datatype LastObserved = FrameChange u64 f64 | Presence bool | Title "string option"

record WaitTimeout =
  timeout_last_observed :: LastObserved
  timeout_elapsed_ms :: u64

record SearchQuery =
  query_app_name :: "string option"
  query_title_pattern :: "string option"
  query_pids :: "u32 list"
  query_platform_refs :: "PlatformSurfaceRef list"
  query_frontmost :: "bool option"

record Candidate =
  cand_ref :: string
  cand_app_name :: "string option"
  cand_title :: "string option"
  cand_pid :: u32
  cand_platform_ref :: PlatformSurfaceRef

record SystemPermissionStatus =
  perm_name :: string
  perm_granted :: bool
  perm_purpose :: string

record SystemPermissionPromptOutcome =
  prompt_permission :: string
  granted_before :: bool
  granted_after :: bool
  requires_daemon_restart :: bool
  prompt_notes :: string

section \<open>Launches\<close>

datatype RequireConfidence = ReqStrong | ReqPlausible | ReqWeak

datatype Confidence = Strong | Plausible | Weak

fun meets :: "Confidence \<Rightarrow> RequireConfidence \<Rightarrow> bool" where
  "meets Strong _ = True"
| "meets Plausible ReqPlausible = True"
| "meets Plausible ReqWeak = True"
| "meets Weak ReqWeak = True"
| "meets _ _ = False"

datatype Correlation = Tag | PidTree | Temporal | DocumentMatch | FrontmostChanged

record ProcessLaunchSpec =
  process_app :: string
  process_args :: "string list"
  process_cwd :: "string option"
  process_env :: "(string \<times> string) list"
  process_timeout :: Duration
  process_require_confidence :: RequireConfidence
  process_require_fresh_surface :: bool
  process_force_place :: bool

record ArtifactLaunchSpec =
  artifact_path :: string
  artifact_require_confidence :: RequireConfidence
  artifact_require_fresh_surface :: bool
  artifact_force_place :: bool
  artifact_timeout :: Duration

datatype LaunchSpec = Process ProcessLaunchSpec | Artifact ArtifactLaunchSpec

fun require_confidence :: "LaunchSpec \<Rightarrow> RequireConfidence" where
  "require_confidence (Process p) = process_require_confidence p"
| "require_confidence (Artifact a) = artifact_require_confidence a"

fun require_fresh_surface :: "LaunchSpec \<Rightarrow> bool" where
  "require_fresh_surface (Process p) = process_require_fresh_surface p"
| "require_fresh_surface (Artifact a) = artifact_require_fresh_surface a"

fun force_place :: "LaunchSpec \<Rightarrow> bool" where
  "force_place (Process p) = process_force_place p"
| "force_place (Artifact a) = artifact_force_place a"

record LaunchOutcome =
  launched_surface :: SurfaceInfo
  launch_confidence :: Confidence
  launch_correlation :: Correlation
  surface_was_preexisting :: bool

record Screenshot =
  png_bytes :: "u8 list"
  window_bounds_points :: Rect
  content_bounds_points :: "Rect option"
  shot_scale :: f64
  captured_at_unix_ms :: u64

section \<open>Calls on the system\<close>

record 'w system =
  sys_handles :: HandleStore
  world :: 'w

type_synonym ('w, 'e, 'a) io = "'w system \<Rightarrow> ('e, 'a) result \<times> 'w system"

definition io_return :: "'a \<Rightarrow> ('w, 'e, 'a) io" where
  "io_return x s = (Inr x, s)"

definition io_fail :: "'e \<Rightarrow> ('w, 'e, 'a) io" where
  "io_fail e s = (Inl e, s)"

definition io_result :: "('e, 'a) result \<Rightarrow> ('w, 'e, 'a) io" where
  "io_result r s = (r, s)"

definition io_bind :: "('w, 'e, 'a) io \<Rightarrow> ('a \<Rightarrow> ('w, 'e, 'b) io) \<Rightarrow> ('w, 'e, 'b) io" where
  "io_bind m f s = (case m s of (Inl e, s') \<Rightarrow> (Inl e, s') | (Inr x, s') \<Rightarrow> f x s')"

definition io_map_err :: "('e \<Rightarrow> 'f) \<Rightarrow> ('w, 'e, 'a) io \<Rightarrow> ('w, 'f, 'a) io" where
  "io_map_err f m s = (case m s of (r, s') \<Rightarrow> (map_err f r, s'))"

text \<open>The handle store operations as calls.\<close>

definition alive_call :: "SurfaceId \<Rightarrow> ('w, PortholeError, SurfaceInfo) io" where
  "alive_call i s = (require_alive (sys_handles s) i, s)"

definition dead_call :: "SurfaceId \<Rightarrow> ('w, PortholeError, unit) io" where
  "dead_call i s = (case mark_dead i (sys_handles s) of (r, hs) \<Rightarrow> (r, s\<lparr>sys_handles := hs\<rparr>))"

definition track_call :: "SurfaceInfo \<Rightarrow> ('w, 'e, SurfaceInfo \<times> bool) io" where
  "track_call c s = (case track_or_get c (sys_handles s) of (r, hs) \<Rightarrow> (Inr r, s\<lparr>sys_handles := hs\<rparr>))"

record 'w Adapter =
  adapter_name :: string
  adapter_launch_process :: "ProcessLaunchSpec \<Rightarrow> ('w, PortholeError, LaunchOutcome) io"
  adapter_screenshot :: "SurfaceInfo \<Rightarrow> ('w, PortholeError, Screenshot) io"
  adapter_key :: "SurfaceInfo \<Rightarrow> KeyEvent list \<Rightarrow> ('w, PortholeError, unit) io"
  adapter_text :: "SurfaceInfo \<Rightarrow> string \<Rightarrow> ('w, PortholeError, unit) io"
  adapter_click :: "SurfaceInfo \<Rightarrow> ClickSpec \<Rightarrow> ('w, PortholeError, unit) io"
  adapter_scroll :: "SurfaceInfo \<Rightarrow> ScrollSpec \<Rightarrow> ('w, PortholeError, unit) io"
  adapter_pointer_move :: "SurfaceInfo \<Rightarrow> PointerMoveSpec \<Rightarrow> ('w, PortholeError, unit) io"
  adapter_key_stroke :: "SurfaceInfo \<Rightarrow> KeyStrokeSpec \<Rightarrow> ('w, PortholeError, unit) io"
  adapter_button :: "SurfaceInfo \<Rightarrow> ButtonSpec \<Rightarrow> ('w, PortholeError, unit) io"
  adapter_release_held :: "SurfaceInfo \<Rightarrow> ('w, PortholeError, unit) io"
  adapter_close :: "SurfaceInfo \<Rightarrow> ('w, PortholeError, unit) io"
  adapter_focus :: "SurfaceInfo \<Rightarrow> ('w, PortholeError, unit) io"
  adapter_begin_drive :: "SurfaceInfo \<Rightarrow> ('w, PortholeError, unit) io"
  adapter_end_drive :: "SurfaceInfo \<Rightarrow> 'w system \<Rightarrow> 'w system"
  adapter_validate_wait :: "WaitCondition \<Rightarrow> (PortholeError, unit) result"
  adapter_wait :: "SurfaceInfo \<Rightarrow> WaitCondition \<Rightarrow> Instant \<Rightarrow> ('w, WaitTimeout, WaitOutcome) io"
  adapter_attention :: "('w, PortholeError, AttentionInfo) io"
  adapter_focused_platform_surface_ref :: "('w, PortholeError, PlatformSurfaceRef option) io"
  adapter_displays :: "('w, PortholeError, DisplayInfo list) io"
  adapter_system_permissions :: "('w, PortholeError, SystemPermissionStatus list) io"
  adapter_request_system_permission_prompt :: "string \<Rightarrow> ('w, PortholeError, SystemPermissionPromptOutcome) io"
  adapter_ensure_system_permission :: "string \<Rightarrow> ('w, PortholeError, unit) io"
  adapter_search :: "SearchQuery \<Rightarrow> ('w, PortholeError, Candidate list) io"
  adapter_surface_alive :: "u32 \<Rightarrow> PlatformSurfaceRef \<Rightarrow> ('w, PortholeError, SurfaceInfo option) io"
  adapter_launch_artifact :: "ArtifactLaunchSpec \<Rightarrow> ('w, PortholeError, LaunchOutcome) io"
  adapter_place_surface :: "SurfaceInfo \<Rightarrow> Rect \<Rightarrow> ('w, PortholeError, unit) io"
  adapter_snapshot_geometry :: "SurfaceInfo \<Rightarrow> ('w, PortholeError, GeometrySnapshot) io"
  adapter_content_rect :: "SurfaceInfo \<Rightarrow> ('w, PortholeError, ContentRectInfo) io"
  adapter_capabilities :: "'w \<Rightarrow> string list"

text \<open>The methods with a default body in the trait.\<close>

definition default_key_stroke :: "SurfaceInfo \<Rightarrow> KeyStrokeSpec \<Rightarrow> ('w, PortholeError, unit) io" where
  "default_key_stroke _ _ =
     io_fail (PortholeError_new AdapterUnsupported
       (Msg ''adapter does not support key transitions with press identity'' []))"

definition default_button :: "SurfaceInfo \<Rightarrow> ButtonSpec \<Rightarrow> ('w, PortholeError, unit) io" where
  "default_button _ _ =
     io_fail (PortholeError_new AdapterUnsupported
       (Msg ''adapter does not support button transitions with press identity'' []))"

definition default_release_held :: "SurfaceInfo \<Rightarrow> ('w, PortholeError, unit) io" where
  "default_release_held _ = io_return ()"

definition default_begin_drive :: "'w Adapter \<Rightarrow> SurfaceInfo \<Rightarrow> ('w, PortholeError, unit) io" where
  "default_begin_drive A surface = adapter_focus A surface"

definition default_end_drive :: "SurfaceInfo \<Rightarrow> 'w system \<Rightarrow> 'w system" where
  "default_end_drive _ s = s"

definition default_validate_wait :: "WaitCondition \<Rightarrow> (PortholeError, unit) result" where
  "default_validate_wait _ = Inr ()"

section \<open>Lemmas on calls\<close>

named_theorems io_simps \<open>unfolding of calls on the system\<close>

lemma io_return_eq [io_simps]: "io_return x s = (r, s') \<longleftrightarrow> r = Inr x \<and> s' = s"
  by (auto simp: io_return_def)

lemma io_fail_eq [io_simps]: "io_fail e s = (r, s') \<longleftrightarrow> r = Inl e \<and> s' = s"
  by (auto simp: io_fail_def)

lemma io_result_eq [io_simps]: "io_result m s = (r, s') \<longleftrightarrow> r = m \<and> s' = s"
  by (auto simp: io_result_def)

lemma io_bind_Inr [io_simps]:
  "io_bind m f s = (Inr y, s') \<longleftrightarrow> (\<exists>x t. m s = (Inr x, t) \<and> f x t = (Inr y, s'))"
  by (auto simp: io_bind_def split: prod.splits sum.splits)

lemma io_bind_Inl [io_simps]:
  "io_bind m f s = (Inl e, s') \<longleftrightarrow> m s = (Inl e, s') \<or> (\<exists>x t. m s = (Inr x, t) \<and> f x t = (Inl e, s'))"
  by (auto simp: io_bind_def split: prod.splits sum.splits)

lemma io_map_err_Inr [io_simps]: "io_map_err f m s = (Inr x, s') \<longleftrightarrow> m s = (Inr x, s')"
  by (auto simp: io_map_err_def map_err_def split: prod.splits sum.splits)

lemma io_map_err_Inl [io_simps]:
  "io_map_err f m s = (Inl e, s') \<longleftrightarrow> (\<exists>e'. m s = (Inl e', s') \<and> e = f e')"
  by (auto simp: io_map_err_def map_err_def split: prod.splits sum.splits)

lemma alive_call_eq [io_simps]:
  "alive_call i s = (r, s') \<longleftrightarrow> require_alive (sys_handles s) i = r \<and> s' = s"
  by (auto simp: alive_call_def)

lemma io_bind_alive_error:
  "require_alive (sys_handles s) i = Inl e \<Longrightarrow> io_bind (alive_call i) f s = (Inl e, s)"
  by (simp add: io_bind_def alive_call_def)

lemma io_bind_alive_ok:
  "require_alive (sys_handles s) i = Inr info \<Longrightarrow> io_bind (alive_call i) f s = f info s"
  by (simp add: io_bind_def alive_call_def)

lemma handle_steps_trans: "handle_steps b c \<Longrightarrow> handle_steps a b \<Longrightarrow> handle_steps a c"
  by (induction rule: handle_steps.induct) (auto intro: handle_steps.intros)

end
