(* ===== verification/In_Memory.thy ===== *)
theory In_Memory
  imports Adapter
begin

text \<open>
  The contract between the pipelines and an adapter, and its scripted implementation
  \<open>InMemoryAdapter\<close> (\<open>porthole-core/src/in_memory.rs\<close>), which the test suites and the daemon's
  in-memory mode run the pipelines on.  Each method records its call, then returns the scripted
  result once, or its default.  \<open>SurfaceId::new\<close> draws a random UUID; the id it returns is the
  parameter \<open>new_id\<close>, of which only freshness is assumed.
\<close>

section \<open>The contract\<close>

text \<open>
  A call is well behaved when it touches the handle store only by the operations that tasks
  issue, and keeps the world in the states \<open>sane\<close> describes.
\<close>

definition sys_step :: "('w \<Rightarrow> bool) \<Rightarrow> 'w system \<Rightarrow> 'w system \<Rightarrow> bool" where
  "sys_step sane s s' \<longleftrightarrow>
     (sane (world s) \<longrightarrow> sane (world s') \<and> handle_steps (sys_handles s) (sys_handles s'))"

definition call_ok :: "('w \<Rightarrow> bool) \<Rightarrow> ('w system \<Rightarrow> 'r \<times> 'w system) \<Rightarrow> bool" where
  "call_ok sane m \<longleftrightarrow> (\<forall>s. sys_step sane s (snd (m s)))"

definition new_surface :: "SurfaceInfo \<Rightarrow> 'w system \<Rightarrow> bool" where
  "new_surface c s \<longleftrightarrow> \<not> is_ok (store_get (sys_handles s) (surface_id c)) \<and> state c = Alive"

named_theorems call_ok_intros \<open>well-behaved calls\<close>

lemma sys_step_refl [simp]: "sys_step sane s s"
  by (simp add: sys_step_def handle_steps.none)

lemma sys_step_trans: "sys_step sane s t \<Longrightarrow> sys_step sane t u \<Longrightarrow> sys_step sane s u"
  using handle_steps_trans by (auto simp: sys_step_def)

lemma call_okD: "call_ok sane m \<Longrightarrow> m s = (r, s') \<Longrightarrow> sys_step sane s s'"
  unfolding call_ok_def by (metis snd_conv)

lemma call_ok_return [call_ok_intros]: "call_ok sane (io_return x)"
  by (simp add: call_ok_def io_return_def)

lemma call_ok_fail [call_ok_intros]: "call_ok sane (io_fail e)"
  by (simp add: call_ok_def io_fail_def)

lemma call_ok_result [call_ok_intros]: "call_ok sane (io_result r)"
  by (simp add: call_ok_def io_result_def)

lemma call_ok_alive [call_ok_intros]: "call_ok sane (alive_call i)"
  by (simp add: call_ok_def alive_call_def)

lemma call_ok_dead [call_ok_intros]: "call_ok sane (dead_call i)"
  using handle_steps.dead [OF handle_steps.none]
  by (auto simp: call_ok_def sys_step_def dead_call_def split: prod.splits) (metis snd_conv)

lemma call_ok_map_err [call_ok_intros]: "call_ok sane m \<Longrightarrow> call_ok sane (io_map_err f m)"
  by (auto simp: call_ok_def io_map_err_def split: prod.splits) (metis snd_conv)

text \<open>
  Sequencing, where the second call may use what the first promises of its result in the state
  it returns in.
\<close>

lemma call_ok_bind_with:
  assumes "call_ok sane m"
    and "\<And>x s t. m s = (Inr x, t) \<Longrightarrow> sane (world s) \<Longrightarrow> sys_step sane t (snd (f x t))"
  shows "call_ok sane (io_bind m f)"
  unfolding call_ok_def
proof
  fix s
  obtain r t where m: "m s = (r, t)" by (cases "m s")
  have step: "sys_step sane s t" using assms(1) m by (rule call_okD)
  show "sys_step sane s (snd (io_bind m f s))"
  proof (cases r)
    case (Inl e)
    with m step show ?thesis by (simp add: io_bind_def)
  next
    case (Inr x)
    then have "sane (world s) \<Longrightarrow> sys_step sane t (snd (f x t))" using assms(2) m by blast
    with m step Inr show ?thesis
      using sys_step_trans [OF step] by (auto simp: io_bind_def sys_step_def)
  qed
qed

lemma call_ok_bind [call_ok_intros]:
  "call_ok sane m \<Longrightarrow> (\<And>x. call_ok sane (f x)) \<Longrightarrow> call_ok sane (io_bind m f)"
  by (rule call_ok_bind_with) (simp_all add: call_ok_def)

lemma call_ok_if [call_ok_intros]:
  "call_ok sane m \<Longrightarrow> call_ok sane m' \<Longrightarrow> call_ok sane (if c then m else m')"
  by simp

lemma track_call_step: "new_surface c s \<Longrightarrow> sys_step sane s (snd (track_call c s))"
  using handle_steps.track [OF handle_steps.none, of "sys_handles s" c]
  by (auto simp: sys_step_def track_call_def new_surface_def split: prod.splits)

locale adapter_contract =
  fixes A :: "'w Adapter"
    and sane :: "'w \<Rightarrow> bool"
  assumes launch_process_ok [call_ok_intros]: "call_ok sane (adapter_launch_process A p)"
    and launch_artifact_ok [call_ok_intros]: "call_ok sane (adapter_launch_artifact A a)"
    and surface_alive_ok [call_ok_intros]: "call_ok sane (adapter_surface_alive A q r)"
    and input_ok [call_ok_intros]: "call_ok sane (adapter_key A info events)"
      "call_ok sane (adapter_text A info txt)"
      "call_ok sane (adapter_click A info click)"
      "call_ok sane (adapter_scroll A info scr)"
      "call_ok sane (adapter_pointer_move A info move)"
      "call_ok sane (adapter_key_stroke A info stroke)"
      "call_ok sane (adapter_button A info btn)"
      "call_ok sane (adapter_release_held A info)"
      "call_ok sane (adapter_close A info)"
      "call_ok sane (adapter_focus A info)"
      "call_ok sane (adapter_begin_drive A info)"
      "sys_step sane s (adapter_end_drive A info s)"
    and query_ok [call_ok_intros]: "call_ok sane (adapter_wait A info cond deadline)"
      "call_ok sane (adapter_attention A)"
      "call_ok sane (adapter_displays A)"
      "call_ok sane (adapter_ensure_system_permission A name)"
      "call_ok sane (adapter_search A query)"
      "call_ok sane (adapter_place_surface A info rect)"
      "call_ok sane (adapter_snapshot_geometry A info)"
      "call_ok sane (adapter_content_rect A info)"
      "call_ok sane (adapter_screenshot A info)"
      "call_ok sane (adapter_focused_platform_surface_ref A)"
      "call_ok sane (adapter_system_permissions A)"
      "call_ok sane (adapter_request_system_permission_prompt A name)"
    and process_surface_new: "sane (world s) \<Longrightarrow> adapter_launch_process A p s = (Inr out, s') \<Longrightarrow>
          new_surface (launched_surface out) s'"
    and artifact_surface_new: "sane (world s) \<Longrightarrow> adapter_launch_artifact A a s = (Inr out, s') \<Longrightarrow>
          new_surface (launched_surface out) s'"
    and found_surface_new: "sane (world s) \<Longrightarrow> adapter_surface_alive A q r s = (Inr (Some info), s') \<Longrightarrow>
          new_surface info s'"

section \<open>The scripted adapter\<close>

record Script =
  next_launch_outcome :: "(PortholeError, LaunchOutcome) result option"
  next_screenshot :: "(PortholeError, Screenshot) result option"
  next_key_result :: "(PortholeError, unit) result option"
  next_text_result :: "(PortholeError, unit) result option"
  next_click_result :: "(PortholeError, unit) result option"
  next_scroll_result :: "(PortholeError, unit) result option"
  next_pointer_move_result :: "(PortholeError, unit) result option"
  next_close_result :: "(PortholeError, unit) result option"
  next_focus_result :: "(PortholeError, unit) result option"
  next_wait_result :: "(WaitTimeout, WaitOutcome) result option"
  next_attention :: "(PortholeError, AttentionInfo) result option"
  next_displays :: "(PortholeError, DisplayInfo list) result option"
  next_system_permissions :: "(PortholeError, SystemPermissionStatus list) result option"
  next_search_result :: "(PortholeError, Candidate list) result option"
  next_surface_alive_result :: "(PortholeError, SurfaceInfo option) result option"
  next_launch_artifact_outcome :: "(PortholeError, LaunchOutcome) result option"
  next_place_surface_result :: "(PortholeError, unit) result option"
  next_snapshot_geometry :: "(PortholeError, GeometrySnapshot) result option"
  next_content_rect :: "(PortholeError, ContentRectInfo) result option"
  next_request_system_permission_prompt :: "(PortholeError, SystemPermissionPromptOutcome) result option"
  next_ensure_system_permission :: "(PortholeError, unit) result option"
  launch_artifact_calls :: "ArtifactLaunchSpec list"
  place_surface_calls :: "(SurfaceId \<times> Rect) list"
  snapshot_geometry_calls :: "SurfaceId list"
  content_rect_calls :: "SurfaceId list"
  search_calls :: "SearchQuery list"
  surface_alive_calls :: "(u32 \<times> PlatformSurfaceRef) list"
  launch_calls :: "ProcessLaunchSpec list"
  screenshot_calls :: "SurfaceId list"
  key_calls :: "(SurfaceId \<times> KeyEvent list) list"
  key_stroke_calls :: "(SurfaceId \<times> KeyStrokeSpec) list"
  button_calls :: "(SurfaceId \<times> ButtonSpec) list"
  release_held_calls :: "SurfaceId list"
  text_calls :: "(SurfaceId \<times> string) list"
  click_calls :: "(SurfaceId \<times> ClickSpec) list"
  scroll_calls :: "(SurfaceId \<times> ScrollSpec) list"
  pointer_move_calls :: "(SurfaceId \<times> PointerMoveSpec) list"
  close_calls :: "SurfaceId list"
  focus_calls :: "SurfaceId list"
  wait_calls :: "(SurfaceId \<times> WaitCondition) list"
  attention_calls :: "nat"
  displays_calls :: "nat"
  system_permissions_calls :: "nat"
  video_capture_calls :: "SurfaceId list"

definition Script_default :: Script where
  "Script_default =
     \<lparr>next_launch_outcome = None,
      next_screenshot = None,
      next_key_result = None,
      next_text_result = None,
      next_click_result = None,
      next_scroll_result = None,
      next_pointer_move_result = None,
      next_close_result = None,
      next_focus_result = None,
      next_wait_result = None,
      next_attention = None,
      next_displays = None,
      next_system_permissions = None,
      next_search_result = None,
      next_surface_alive_result = None,
      next_launch_artifact_outcome = None,
      next_place_surface_result = None,
      next_snapshot_geometry = None,
      next_content_rect = None,
      next_request_system_permission_prompt = None,
      next_ensure_system_permission = None,
      launch_artifact_calls = [],
      place_surface_calls = [],
      snapshot_geometry_calls = [],
      content_rect_calls = [],
      search_calls = [],
      surface_alive_calls = [],
      launch_calls = [],
      screenshot_calls = [],
      key_calls = [],
      key_stroke_calls = [],
      button_calls = [],
      release_held_calls = [],
      text_calls = [],
      click_calls = [],
      scroll_calls = [],
      pointer_move_calls = [],
      close_calls = [],
      focus_calls = [],
      wait_calls = [],
      attention_calls = 0,
      displays_calls = 0,
      system_permissions_calls = 0,
      video_capture_calls = []\<rparr>"

record InMemoryAdapter =
  script :: Script
  advertise_system_permission_prompt :: bool

definition InMemoryAdapter_new :: InMemoryAdapter where
  "InMemoryAdapter_new = \<lparr>script = Script_default, advertise_system_permission_prompt = False\<rparr>"

text \<open>\<open>next.take().unwrap_or(default)\<close> with the lock on the script held: the call is recorded in
  the new script, which no longer holds the result.\<close>

definition scripted :: "'r option \<Rightarrow> 'r \<Rightarrow> Script \<Rightarrow> InMemoryAdapter system \<Rightarrow> 'r \<times> InMemoryAdapter system" where
  "scripted nxt otherwise sc s =
     (case nxt of Some r \<Rightarrow> r | None \<Rightarrow> otherwise, s\<lparr>world := (world s)\<lparr>script := sc\<rparr>\<rparr>)"

definition make_default_launch_outcome :: "SurfaceId \<Rightarrow> u32 \<Rightarrow> LaunchOutcome" where
  "make_default_launch_outcome i p =
     \<lparr>launched_surface =
        \<lparr>surface_id = i, kind = Window, state = Alive, title = Some ''test window'',
         app_name = Some ''test-app'', pid = Some p, parent_surface_id = None, platform_ref = None\<rparr>,
      launch_confidence = Strong, launch_correlation = Tag, surface_was_preexisting = False\<rparr>"

definition default_attention :: AttentionInfo where
  "default_attention =
     \<lparr>focused_surface_id = None, focused_app_name = None, focused_display_id = None,
      cursor = \<lparr>cursor_x = Finite 0, cursor_y = Finite 0, cursor_display_id = None\<rparr>,
      recently_active_surface_ids = []\<rparr>"

definition default_displays :: "DisplayInfo list" where
  "default_displays =
     [\<lparr>display_id = ''in-mem-display-0'',
       display_bounds = \<lparr>rect_x = Finite 0, rect_y = Finite 0, rect_w = Finite 1920, rect_h = Finite 1080\<rparr>,
       display_scale = Finite 1, display_primary = True, display_focused = True\<rparr>]"

fun wait_condition_tag :: "WaitCondition \<Rightarrow> string" where
  "wait_condition_tag (Stable _ _) = ''stable''"
| "wait_condition_tag (Dirty _) = ''dirty''"
| "wait_condition_tag Exists = ''exists''"
| "wait_condition_tag Gone = ''gone''"
| "wait_condition_tag (TitleMatches _) = ''title_matches''"

definition minimal_png :: "u8 list" where
  "minimal_png =
     [0x89, 0x50, 0x4e, 0x47, 0x0d, 0x0a, 0x1a, 0x0a, 0x00, 0x00, 0x00, 0x0d, 0x49, 0x48, 0x44, 0x52, 0x00, 0x00, 0x00, 0x01, 0x00, 0x00,
      0x00, 0x01, 0x08, 0x06, 0x00, 0x00, 0x00, 0x1f, 0x15, 0xc4, 0x89, 0x00, 0x00, 0x00, 0x0d, 0x49, 0x44, 0x41, 0x54, 0x78, 0x9c, 0x62,
      0x00, 0x01, 0x00, 0x00, 0x05, 0x00, 0x01, 0x0d, 0x0a, 0x2d, 0xb4, 0x00, 0x00, 0x00, 0x00, 0x49, 0x45, 0x4e, 0x44, 0xae, 0x42, 0x60,
      0x82]"

definition im_launch_process ::
    "(InMemoryAdapter system \<Rightarrow> SurfaceId) \<Rightarrow> ProcessLaunchSpec \<Rightarrow> (InMemoryAdapter, PortholeError, LaunchOutcome) io" where
  "im_launch_process new_id spec s =
     (let sc = script (world s) in
      scripted (next_launch_outcome sc) (Inr (make_default_launch_outcome (new_id s) 4242))
        (sc\<lparr>launch_calls := launch_calls sc @ [spec], next_launch_outcome := None\<rparr>) s)"

definition im_launch_artifact ::
    "(InMemoryAdapter system \<Rightarrow> SurfaceId) \<Rightarrow> ArtifactLaunchSpec \<Rightarrow> (InMemoryAdapter, PortholeError, LaunchOutcome) io" where
  "im_launch_artifact new_id spec s =
     (let sc = script (world s) in
      scripted (next_launch_artifact_outcome sc) (Inr (make_default_launch_outcome (new_id s) 7777))
        (sc\<lparr>launch_artifact_calls := launch_artifact_calls sc @ [spec], next_launch_artifact_outcome := None\<rparr>) s)"

definition im_screenshot :: "SurfaceInfo \<Rightarrow> (InMemoryAdapter, PortholeError, Screenshot) io" where
  "im_screenshot surface s =
     (let sc = script (world s) in
      scripted (next_screenshot sc) (Inr
        \<lparr>png_bytes = minimal_png,
         window_bounds_points = \<lparr>rect_x = Finite 0, rect_y = Finite 0, rect_w = Finite 800, rect_h = Finite 600\<rparr>,
         content_bounds_points = None, shot_scale = Finite 2, captured_at_unix_ms = 0\<rparr>)
        (sc\<lparr>screenshot_calls := screenshot_calls sc @ [surface_id surface], next_screenshot := None\<rparr>) s)"

definition im_key :: "SurfaceInfo \<Rightarrow> KeyEvent list \<Rightarrow> (InMemoryAdapter, PortholeError, unit) io" where
  "im_key surface events s =
     (let sc = script (world s) in
      scripted (next_key_result sc) (Inr ())
        (sc\<lparr>key_calls := key_calls sc @ [(surface_id surface, events)], next_key_result := None\<rparr>) s)"

definition im_text :: "SurfaceInfo \<Rightarrow> string \<Rightarrow> (InMemoryAdapter, PortholeError, unit) io" where
  "im_text surface txt s =
     (let sc = script (world s) in
      scripted (next_text_result sc) (Inr ())
        (sc\<lparr>text_calls := text_calls sc @ [(surface_id surface, txt)], next_text_result := None\<rparr>) s)"

definition im_click :: "SurfaceInfo \<Rightarrow> ClickSpec \<Rightarrow> (InMemoryAdapter, PortholeError, unit) io" where
  "im_click surface spec s =
     (let sc = script (world s) in
      scripted (next_click_result sc) (Inr ())
        (sc\<lparr>click_calls := click_calls sc @ [(surface_id surface, spec)], next_click_result := None\<rparr>) s)"

definition im_scroll :: "SurfaceInfo \<Rightarrow> ScrollSpec \<Rightarrow> (InMemoryAdapter, PortholeError, unit) io" where
  "im_scroll surface spec s =
     (let sc = script (world s) in
      scripted (next_scroll_result sc) (Inr ())
        (sc\<lparr>scroll_calls := scroll_calls sc @ [(surface_id surface, spec)], next_scroll_result := None\<rparr>) s)"

definition im_pointer_move :: "SurfaceInfo \<Rightarrow> PointerMoveSpec \<Rightarrow> (InMemoryAdapter, PortholeError, unit) io" where
  "im_pointer_move surface spec s =
     (let sc = script (world s) in
      scripted (next_pointer_move_result sc) (Inr ())
        (sc\<lparr>pointer_move_calls := pointer_move_calls sc @ [(surface_id surface, spec)], next_pointer_move_result := None\<rparr>) s)"

definition im_key_stroke :: "SurfaceInfo \<Rightarrow> KeyStrokeSpec \<Rightarrow> (InMemoryAdapter, PortholeError, unit) io" where
  "im_key_stroke surface spec s =
     (let sc = script (world s) in
      scripted None (Inr ())
        (sc\<lparr>key_stroke_calls := key_stroke_calls sc @ [(surface_id surface, spec)]\<rparr>) s)"

definition im_button :: "SurfaceInfo \<Rightarrow> ButtonSpec \<Rightarrow> (InMemoryAdapter, PortholeError, unit) io" where
  "im_button surface spec s =
     (let sc = script (world s) in
      scripted None (Inr ())
        (sc\<lparr>button_calls := button_calls sc @ [(surface_id surface, spec)]\<rparr>) s)"

definition im_release_held :: "SurfaceInfo \<Rightarrow> (InMemoryAdapter, PortholeError, unit) io" where
  "im_release_held surface s =
     (let sc = script (world s) in
      scripted None (Inr ())
        (sc\<lparr>release_held_calls := release_held_calls sc @ [surface_id surface]\<rparr>) s)"

definition im_close :: "SurfaceInfo \<Rightarrow> (InMemoryAdapter, PortholeError, unit) io" where
  "im_close surface s =
     (let sc = script (world s) in
      scripted (next_close_result sc) (Inr ())
        (sc\<lparr>close_calls := close_calls sc @ [surface_id surface], next_close_result := None\<rparr>) s)"

definition im_focus :: "SurfaceInfo \<Rightarrow> (InMemoryAdapter, PortholeError, unit) io" where
  "im_focus surface s =
     (let sc = script (world s) in
      scripted (next_focus_result sc) (Inr ())
        (sc\<lparr>focus_calls := focus_calls sc @ [surface_id surface], next_focus_result := None\<rparr>) s)"

definition im_wait :: "SurfaceInfo \<Rightarrow> WaitCondition \<Rightarrow> Instant \<Rightarrow> (InMemoryAdapter, WaitTimeout, WaitOutcome) io" where
  "im_wait surface condition deadline s =
     (let sc = script (world s) in
      scripted (next_wait_result sc) (Inr \<lparr>wait_condition = wait_condition_tag condition, wait_elapsed_ms = 0\<rparr>)
        (sc\<lparr>wait_calls := wait_calls sc @ [(surface_id surface, condition)], next_wait_result := None\<rparr>) s)"

definition im_attention :: "(InMemoryAdapter, PortholeError, AttentionInfo) io" where
  "im_attention s =
     (let sc = script (world s) in
      scripted (next_attention sc) (Inr default_attention)
        (sc\<lparr>attention_calls := attention_calls sc + 1, next_attention := None\<rparr>) s)"

definition im_displays :: "(InMemoryAdapter, PortholeError, DisplayInfo list) io" where
  "im_displays s =
     (let sc = script (world s) in
      scripted (next_displays sc) (Inr default_displays)
        (sc\<lparr>displays_calls := displays_calls sc + 1, next_displays := None\<rparr>) s)"

definition im_system_permissions :: "(InMemoryAdapter, PortholeError, SystemPermissionStatus list) io" where
  "im_system_permissions s =
     (let sc = script (world s) in
      scripted (next_system_permissions sc) (Inr [])
        (sc\<lparr>system_permissions_calls := system_permissions_calls sc + 1, next_system_permissions := None\<rparr>) s)"

definition im_request_system_permission_prompt :: "string \<Rightarrow> (InMemoryAdapter, PortholeError, SystemPermissionPromptOutcome) io" where
  "im_request_system_permission_prompt name s =
     (let sc = script (world s) in
      scripted (next_request_system_permission_prompt sc) (Inl (PortholeError_new AdapterUnsupported
        (Msg ''in-memory adapter does not support system permission prompts'' [])))
        (sc\<lparr>next_request_system_permission_prompt := None\<rparr>) s)"

definition im_ensure_system_permission :: "string \<Rightarrow> (InMemoryAdapter, PortholeError, unit) io" where
  "im_ensure_system_permission name s =
     (let sc = script (world s) in
      scripted (next_ensure_system_permission sc) (Inr ())
        (sc\<lparr>next_ensure_system_permission := None\<rparr>) s)"

definition im_search :: "SearchQuery \<Rightarrow> (InMemoryAdapter, PortholeError, Candidate list) io" where
  "im_search query s =
     (let sc = script (world s) in
      scripted (next_search_result sc) (Inr [])
        (sc\<lparr>search_calls := search_calls sc @ [query], next_search_result := None\<rparr>) s)"

definition im_surface_alive :: "u32 \<Rightarrow> PlatformSurfaceRef \<Rightarrow> (InMemoryAdapter, PortholeError, SurfaceInfo option) io" where
  "im_surface_alive p r s =
     (let sc = script (world s) in
      scripted (next_surface_alive_result sc) (Inr None)
        (sc\<lparr>surface_alive_calls := surface_alive_calls sc @ [(p, r)], next_surface_alive_result := None\<rparr>) s)"

definition im_place_surface :: "SurfaceInfo \<Rightarrow> Rect \<Rightarrow> (InMemoryAdapter, PortholeError, unit) io" where
  "im_place_surface surface rect s =
     (let sc = script (world s) in
      scripted (next_place_surface_result sc) (Inr ())
        (sc\<lparr>place_surface_calls := place_surface_calls sc @ [(surface_id surface, rect)], next_place_surface_result := None\<rparr>) s)"

definition im_snapshot_geometry :: "SurfaceInfo \<Rightarrow> (InMemoryAdapter, PortholeError, GeometrySnapshot) io" where
  "im_snapshot_geometry surface s =
     (let sc = script (world s) in
      scripted (next_snapshot_geometry sc) (Inr
        \<lparr>snap_display_id = ''in-mem-display-0'',
         snap_display_local = \<lparr>rect_x = Finite 0, rect_y = Finite 0, rect_w = Finite 800, rect_h = Finite 600\<rparr>\<rparr>)
        (sc\<lparr>snapshot_geometry_calls := snapshot_geometry_calls sc @ [surface_id surface], next_snapshot_geometry := None\<rparr>) s)"

definition im_content_rect :: "SurfaceInfo \<Rightarrow> (InMemoryAdapter, PortholeError, ContentRectInfo) io" where
  "im_content_rect surface s =
     (let sc = script (world s) in
      scripted (next_content_rect sc) (Inr
        \<lparr>content_rect_of = \<lparr>rect_x = Finite 0, rect_y = Finite 28, rect_w = Finite 800, rect_h = Finite 572\<rparr>,
         content_role = ''AXScrollArea'', content_descent = Contents\<rparr>)
        (sc\<lparr>content_rect_calls := content_rect_calls sc @ [surface_id surface], next_content_rect := None\<rparr>) s)"

definition im_capabilities :: "InMemoryAdapter \<Rightarrow> string list" where
  "im_capabilities w =
     [''launch_process'', ''screenshot'', ''input_key'', ''input_text'', ''input_click'', ''input_scroll'',
      ''input_pointer_move'', ''wait'', ''close'', ''focus'', ''attention'', ''attention_cursor'',
      ''attention_focused_app'', ''attention_focused_display'', ''displays'', ''search'', ''track'',
      ''launch_artifact'', ''placement'', ''replace'', ''auto_dismiss'', ''content_rect'']
     @ (if advertise_system_permission_prompt w then [''system_permission_prompt''] else [])"

definition in_memory :: "(InMemoryAdapter system \<Rightarrow> SurfaceId) \<Rightarrow> InMemoryAdapter Adapter" where
  "in_memory new_id =
     \<lparr>adapter_name = ''in-memory'',
      adapter_launch_process = im_launch_process new_id,
      adapter_screenshot = im_screenshot,
      adapter_key = im_key,
      adapter_text = im_text,
      adapter_click = im_click,
      adapter_scroll = im_scroll,
      adapter_pointer_move = im_pointer_move,
      adapter_key_stroke = im_key_stroke,
      adapter_button = im_button,
      adapter_release_held = im_release_held,
      adapter_close = im_close,
      adapter_focus = im_focus,
      adapter_begin_drive = im_focus,
      adapter_end_drive = default_end_drive,
      adapter_validate_wait = default_validate_wait,
      adapter_wait = im_wait,
      adapter_attention = im_attention,
      adapter_focused_platform_surface_ref = io_return None,
      adapter_displays = im_displays,
      adapter_system_permissions = im_system_permissions,
      adapter_request_system_permission_prompt = im_request_system_permission_prompt,
      adapter_ensure_system_permission = im_ensure_system_permission,
      adapter_search = im_search,
      adapter_surface_alive = im_surface_alive,
      adapter_launch_artifact = im_launch_artifact new_id,
      adapter_place_surface = im_place_surface,
      adapter_snapshot_geometry = im_snapshot_geometry,
      adapter_content_rect = im_content_rect,
      adapter_capabilities = im_capabilities\<rparr>"

lemma in_memory_begin_drive_default:
  "adapter_begin_drive (in_memory new_id) = default_begin_drive (in_memory new_id)"
  by (rule ext) (simp add: in_memory_def default_begin_drive_def)

section \<open>The scripted adapter meets the contract\<close>

text \<open>
  The script holds no success for a call that hands out a surface, so that ids come from
  \<open>SurfaceId::new\<close>.
\<close>

definition unscripted :: "InMemoryAdapter \<Rightarrow> bool" where
  "unscripted w \<longleftrightarrow>
     (\<forall>out. next_launch_outcome (script w) \<noteq> Some (Inr out)) \<and>
     (\<forall>out. next_launch_artifact_outcome (script w) \<noteq> Some (Inr out)) \<and>
     (\<forall>info. next_surface_alive_result (script w) \<noteq> Some (Inr (Some info)))"

definition mints_new :: "(InMemoryAdapter system \<Rightarrow> SurfaceId) \<Rightarrow> bool" where
  "mints_new new_id \<longleftrightarrow> (\<forall>s. \<not> is_ok (store_get (sys_handles s) (new_id s)))"

lemmas im_defs = im_launch_process_def im_launch_artifact_def im_key_def im_text_def im_click_def
  im_scroll_def im_pointer_move_def im_key_stroke_def im_button_def im_release_held_def im_close_def
  im_focus_def im_wait_def im_attention_def im_displays_def im_ensure_system_permission_def
  im_search_def im_surface_alive_def im_place_surface_def im_snapshot_geometry_def im_content_rect_def
  im_screenshot_def im_system_permissions_def im_request_system_permission_prompt_def

lemma scripted_step:
  assumes "unscripted (world s) \<Longrightarrow> unscripted ((world s)\<lparr>script := sc\<rparr>)"
  shows "sys_step unscripted s (snd (scripted nxt d sc s))"
  using assms by (simp add: sys_step_def scripted_def handle_steps.none)

lemma in_memory_contract:
  assumes "mints_new new_id"
  shows "adapter_contract (in_memory new_id) unscripted"
proof
  have new: "new_surface (launched_surface (make_default_launch_outcome (new_id s) p)) (s\<lparr>world := w\<rparr>)"
    for s p w
    using assms by (simp add: new_surface_def mints_new_def make_default_launch_outcome_def)
  show "new_surface (launched_surface out) s'"
    if "unscripted (world s)" "adapter_launch_process (in_memory new_id) p s = (Inr out, s')" for s s' p out
    using that new by (auto simp: in_memory_def im_launch_process_def scripted_def Let_def unscripted_def
        split: option.splits)
  show "new_surface (launched_surface out) s'"
    if "unscripted (world s)" "adapter_launch_artifact (in_memory new_id) a s = (Inr out, s')" for s s' a out
    using that new by (auto simp: in_memory_def im_launch_artifact_def scripted_def Let_def unscripted_def
        split: option.splits)
  show "new_surface info s'"
    if "unscripted (world s)" "adapter_surface_alive (in_memory new_id) q r s = (Inr (Some info), s')"
    for s s' q r info
    using that by (auto simp: in_memory_def im_surface_alive_def scripted_def Let_def unscripted_def
        split: option.splits)
qed (auto simp: call_ok_def in_memory_def im_defs Let_def default_end_drive_def unscripted_def io_return_def
    intro!: scripted_step)

text \<open>An id that is longer than every id in the store.\<close>

definition longest_id :: "'w system \<Rightarrow> SurfaceId" where
  "longest_id s = ''surf_'' @ concat (map fst (sys_handles s))"

lemma length_le_concat: "x \<in> set xs \<Longrightarrow> length x \<le> length (concat xs)"
  by (induction xs) auto

lemma longest_id_new: "map_of (sys_handles s) (longest_id s) = None"
proof (rule ccontr)
  assume "map_of (sys_handles s) (longest_id s) \<noteq> None"
  then have "longest_id s \<in> set (map fst (sys_handles s))" by (simp add: map_of_eq_None_iff)
  then have "length (longest_id s) \<le> length (concat (map fst (sys_handles s)))"
    by (rule length_le_concat)
  then show False by (simp add: longest_id_def)
qed

lemma mints_new_longest_id: "mints_new longest_id"
  by (simp add: mints_new_def store_get_def longest_id_new)

interpretation in_mem: adapter_contract "in_memory longest_id" unscripted
  by (rule in_memory_contract [OF mints_new_longest_id])

lemma unscripted_new [simp]: "unscripted InMemoryAdapter_new"
  by (simp add: unscripted_def InMemoryAdapter_new_def Script_default_def)

end
