(* ===== verification/Input_Pipeline.thy ===== *)
theory Input_Pipeline
  imports In_Memory
begin

text \<open>
  The input pipeline (\<open>porthole-core/src/input_pipeline.rs\<close>): every verb checks its arguments,
  resolves the handle to a live surface, converts window-local coordinates to logical points
  and calls the adapter.  \<open>surface_scale\<close> joins two independent queries with \<open>try_join!\<close>; which
  of them answers first is the parameter \<open>displays_first\<close> of the host.
\<close>

section \<open>The host of the pipelines\<close>

record RefPayload =
  payload_pid :: u32
  payload_platform_ref :: PlatformSurfaceRef
  payload_v :: u32

text \<open>
  The adapter, and the third-party code the pipelines call: the regex compiler, the JSON and
  base64 codecs of candidate refs, and the runtime (which branch of a join answers first, and
  \<open>Instant::now() + timeout\<close>, \<open>None\<close> when it is out of range and panics).
\<close>

record 'w host =
  adapter :: "'w Adapter"
  displays_first :: "'w system \<Rightarrow> bool"
  deadline_after :: "'w system \<Rightarrow> Duration \<Rightarrow> Instant option"
  regex_new :: "string \<Rightarrow> (string, unit) result"
  payload_to_vec :: "RefPayload \<Rightarrow> u8 list"
  payload_from_slice :: "u8 list \<Rightarrow> (string, RefPayload) result"
  base64_encode :: "u8 list \<Rightarrow> string"
  base64_decode :: "string \<Rightarrow> (string, u8 list) result"

section \<open>Coordinates\<close>

text \<open>\<open>tokio::try_join!\<close>: the first failure ends the join.\<close>

definition join_geometry_displays ::
    "'w host \<Rightarrow> SurfaceInfo \<Rightarrow> ('w, PortholeError, GeometrySnapshot \<times> DisplayInfo list) io" where
  "join_geometry_displays H info s =
     (if displays_first H s
      then io_bind (adapter_displays (adapter H)) (\<lambda>displays.
           io_bind (adapter_snapshot_geometry (adapter H) info) (\<lambda>snap. io_return (snap, displays))) s
      else io_bind (adapter_snapshot_geometry (adapter H) info) (\<lambda>snap.
           io_bind (adapter_displays (adapter H)) (\<lambda>displays. io_return (snap, displays))) s)"

definition display_scale_for :: "GeometrySnapshot \<Rightarrow> DisplayInfo list \<Rightarrow> (PortholeError, f64) result" where
  "display_scale_for snap displays =
     (case find (\<lambda>d. display_id d = snap_display_id snap) displays of
        None \<Rightarrow> Inl (PortholeError_new InternalError
                  (Msg ''display {} not found while resolving scale'' [FStr (snap_display_id snap)]))
      | Some d \<Rightarrow>
          if \<not> is_finite (display_scale d) \<or> f64_le (display_scale d) f64_zero
          then Inl (PortholeError_new InternalError
                 (Msg ''display {} reports invalid scale {}'' [FStr (display_id d), FF64 (display_scale d)]))
          else Inr (display_scale d))"

definition surface_scale :: "'w host \<Rightarrow> SurfaceInfo \<Rightarrow> ('w, PortholeError, f64) io" where
  "surface_scale H info =
     io_bind (join_geometry_displays H info) (\<lambda>(snap, displays). io_result (display_scale_for snap displays))"

definition to_logical_click ::
    "'w host \<Rightarrow> ClickSpec \<Rightarrow> CoordUnits \<Rightarrow> SurfaceInfo \<Rightarrow> ('w, PortholeError, ClickSpec) io" where
  "to_logical_click H spec units info =
     (if units = Logical then io_return spec
      else io_bind (surface_scale H info) (\<lambda>scale. io_return
        \<lparr>click_x = f64_div (click_x spec) scale, click_y = f64_div (click_y spec) scale,
         click_button = click_button spec, click_count = click_count spec,
         click_modifiers = click_modifiers spec\<rparr>))"

definition to_logical_button ::
    "'w host \<Rightarrow> ButtonSpec \<Rightarrow> CoordUnits \<Rightarrow> SurfaceInfo \<Rightarrow> ('w, PortholeError, ButtonSpec) io" where
  "to_logical_button H spec units info =
     (if units = Logical then io_return spec
      else io_bind (surface_scale H info) (\<lambda>scale. io_return
        \<lparr>btn_x = f64_div (btn_x spec) scale, btn_y = f64_div (btn_y spec) scale,
         btn_button = btn_button spec, btn_action = btn_action spec, btn_modifiers = btn_modifiers spec\<rparr>))"

definition to_logical_pointer ::
    "'w host \<Rightarrow> PointerMoveSpec \<Rightarrow> CoordUnits \<Rightarrow> SurfaceInfo \<Rightarrow> ('w, PortholeError, PointerMoveSpec) io" where
  "to_logical_pointer H spec units info =
     (if units = Logical then io_return spec
      else io_bind (surface_scale H info) (\<lambda>scale. io_return
        \<lparr>move_x = f64_div (move_x spec) scale, move_y = f64_div (move_y spec) scale\<rparr>))"

definition to_logical_scroll ::
    "'w host \<Rightarrow> ScrollSpec \<Rightarrow> CoordUnits \<Rightarrow> SurfaceInfo \<Rightarrow> ('w, PortholeError, ScrollSpec) io" where
  "to_logical_scroll H spec units info =
     (if units = Logical then io_return spec
      else io_bind (surface_scale H info) (\<lambda>scale. io_return
        \<lparr>scroll_x = f64_div (scroll_x spec) scale, scroll_y = f64_div (scroll_y spec) scale,
         scroll_delta_x = scroll_delta_x spec, scroll_delta_y = scroll_delta_y spec\<rparr>))"

definition to_logical_rect ::
    "'w host \<Rightarrow> Rect \<Rightarrow> CoordUnits \<Rightarrow> SurfaceInfo \<Rightarrow> ('w, PortholeError, Rect) io" where
  "to_logical_rect H rect units info =
     (if units = Logical then io_return rect
      else io_bind (surface_scale H info) (\<lambda>scale. io_return
        \<lparr>rect_x = f64_div (rect_x rect) scale, rect_y = f64_div (rect_y rect) scale,
         rect_w = f64_div (rect_w rect) scale, rect_h = f64_div (rect_h rect) scale\<rparr>))"

section \<open>The verbs\<close>

definition unknown_key :: "string \<Rightarrow> PortholeError" where
  "unknown_key name = PortholeError_new UnknownKey (Msg ''key '{}' is not in the supported set'' [FStr name])"

definition input_key :: "'w host \<Rightarrow> SurfaceId \<Rightarrow> KeyEvent list \<Rightarrow> ('w, PortholeError, unit) io" where
  "input_key H surface events =
     (case find (\<lambda>ev. \<not> is_supported (ke_key ev)) events of
        Some ev \<Rightarrow> io_fail (unknown_key (ke_key ev))
      | None \<Rightarrow> io_bind (alive_call surface) (\<lambda>info. adapter_key (adapter H) info events))"

definition input_text :: "'w host \<Rightarrow> SurfaceId \<Rightarrow> string \<Rightarrow> ('w, PortholeError, unit) io" where
  "input_text H surface txt = io_bind (alive_call surface) (\<lambda>info. adapter_text (adapter H) info txt)"

definition input_click :: "'w host \<Rightarrow> SurfaceId \<Rightarrow> ClickSpec \<Rightarrow> CoordUnits \<Rightarrow> ('w, PortholeError, unit) io" where
  "input_click H surface spec units =
     (if click_count spec = 0 \<or> click_count spec > 3
      then io_fail (PortholeError_new InvalidArgument
             (Msg ''click count must be 1, 2, or 3 (got {})'' [FNat (unat (click_count spec))]))
      else io_bind (alive_call surface) (\<lambda>info.
           io_bind (to_logical_click H spec units info) (\<lambda>spec'.
           adapter_click (adapter H) info spec')))"

definition input_scroll :: "'w host \<Rightarrow> SurfaceId \<Rightarrow> ScrollSpec \<Rightarrow> CoordUnits \<Rightarrow> ('w, PortholeError, unit) io" where
  "input_scroll H surface spec units =
     io_bind (alive_call surface) (\<lambda>info.
     io_bind (to_logical_scroll H spec units info) (\<lambda>spec'.
     adapter_scroll (adapter H) info spec'))"

definition input_pointer_move ::
    "'w host \<Rightarrow> SurfaceId \<Rightarrow> PointerMoveSpec \<Rightarrow> CoordUnits \<Rightarrow> ('w, PortholeError, unit) io" where
  "input_pointer_move H surface spec units =
     io_bind (alive_call surface) (\<lambda>info.
     io_bind (to_logical_pointer H spec units info) (\<lambda>spec'.
     adapter_pointer_move (adapter H) info spec'))"

definition input_key_stroke :: "'w host \<Rightarrow> SurfaceId \<Rightarrow> KeyStrokeSpec \<Rightarrow> ('w, PortholeError, unit) io" where
  "input_key_stroke H surface spec =
     (if \<not> is_supported (ks_key spec) then io_fail (unknown_key (ks_key spec))
      else io_bind (alive_call surface) (\<lambda>info. adapter_key_stroke (adapter H) info spec))"

definition input_button :: "'w host \<Rightarrow> SurfaceId \<Rightarrow> ButtonSpec \<Rightarrow> CoordUnits \<Rightarrow> ('w, PortholeError, unit) io" where
  "input_button H surface spec units =
     (if btn_action spec = PressRepeat
      then io_fail (PortholeError_new InvalidArgument
             (Msg ''a button transition is down or up; repeat is a key action'' []))
      else io_bind (alive_call surface) (\<lambda>info.
           io_bind (to_logical_button H spec units info) (\<lambda>spec'.
           adapter_button (adapter H) info spec')))"

definition input_release_held :: "'w host \<Rightarrow> SurfaceId \<Rightarrow> ('w, PortholeError, unit) io" where
  "input_release_held H surface = io_bind (alive_call surface) (adapter_release_held (adapter H))"

definition input_close :: "'w host \<Rightarrow> SurfaceId \<Rightarrow> ('w, PortholeError, unit) io" where
  "input_close H surface =
     io_bind (alive_call surface) (\<lambda>info.
     io_bind (adapter_close (adapter H) info) (\<lambda>_.
     dead_call surface))"

definition input_focus :: "'w host \<Rightarrow> SurfaceId \<Rightarrow> ('w, PortholeError, unit) io" where
  "input_focus H surface = io_bind (alive_call surface) (adapter_focus (adapter H))"

definition input_begin_drive :: "'w host \<Rightarrow> SurfaceId \<Rightarrow> ('w, PortholeError, unit) io" where
  "input_begin_drive H surface = io_bind (alive_call surface) (adapter_begin_drive (adapter H))"

definition input_end_drive :: "'w host \<Rightarrow> SurfaceId \<Rightarrow> 'w system \<Rightarrow> 'w system" where
  "input_end_drive H surface s =
     (case require_alive (sys_handles s) surface of
        Inr info \<Rightarrow> adapter_end_drive (adapter H) info s
      | Inl _ \<Rightarrow> s)"

definition input_place :: "'w host \<Rightarrow> SurfaceId \<Rightarrow> Rect \<Rightarrow> CoordUnits \<Rightarrow> ('w, PortholeError, unit) io" where
  "input_place H surface rect units =
     (if \<not> is_finite (rect_x rect) \<or> \<not> is_finite (rect_y rect) \<or> \<not> is_finite (rect_w rect) \<or> \<not> is_finite (rect_h rect)
      then io_fail (PortholeError_new InvalidArgument
             (Msg ''place: x, y, w, h must all be finite (got x={}, y={}, w={}, h={})''
                [FF64 (rect_x rect), FF64 (rect_y rect), FF64 (rect_w rect), FF64 (rect_h rect)]))
      else if f64_le (rect_w rect) f64_zero \<or> f64_le (rect_h rect) f64_zero
      then io_fail (PortholeError_new InvalidArgument
             (Msg ''place: w and h must be > 0 (got w={}, h={})'' [FF64 (rect_w rect), FF64 (rect_h rect)]))
      else io_bind (alive_call surface) (\<lambda>info.
           io_bind (to_logical_rect H rect units info) (\<lambda>rect'.
           adapter_place_surface (adapter H) info rect')))"

definition input_content_rect :: "'w host \<Rightarrow> SurfaceId \<Rightarrow> CoordUnits \<Rightarrow> ('w, PortholeError, ContentRectInfo) io" where
  "input_content_rect H surface units =
     io_bind (alive_call surface) (\<lambda>info.
     io_bind (adapter_content_rect (adapter H) info) (\<lambda>out.
     if units = Physical
     then io_bind (surface_scale H info) (\<lambda>scale. io_return (out\<lparr>content_rect_of :=
            \<lparr>rect_x = f64_mul (rect_x (content_rect_of out)) scale, rect_y = f64_mul (rect_y (content_rect_of out)) scale,
             rect_w = f64_mul (rect_w (content_rect_of out)) scale, rect_h = f64_mul (rect_h (content_rect_of out)) scale\<rparr>\<rparr>))
     else io_return out))"

definition window_logical_size :: "'w host \<Rightarrow> SurfaceId \<Rightarrow> ('w, PortholeError, f64 \<times> f64) io" where
  "window_logical_size H surface =
     io_bind (alive_call surface) (\<lambda>info.
     io_bind (adapter_snapshot_geometry (adapter H) info) (\<lambda>snap.
     io_return (rect_w (snap_display_local snap), rect_h (snap_display_local snap))))"

section \<open>The verbs use the handle store as other tasks do\<close>

locale pipeline_host =
  fixes H :: "'w host"
    and sane :: "'w \<Rightarrow> bool"
  assumes contract: "adapter_contract (adapter H) sane"

sublocale pipeline_host \<subseteq> adapter_contract "adapter H" sane
  by (rule contract)

context pipeline_host
begin

lemma call_ok_join [call_ok_intros]: "call_ok sane (join_geometry_displays H info)"
proof -
  have "call_ok sane (io_bind (adapter_displays (adapter H)) (\<lambda>displays.
      io_bind (adapter_snapshot_geometry (adapter H) info) (\<lambda>snap. io_return (snap, displays))))"
    and "call_ok sane (io_bind (adapter_snapshot_geometry (adapter H) info) (\<lambda>snap.
      io_bind (adapter_displays (adapter H)) (\<lambda>displays. io_return (snap, displays))))"
    by (intro call_ok_intros)+
  then show ?thesis by (simp add: call_ok_def join_geometry_displays_def)
qed

lemma call_ok_surface_scale [call_ok_intros]: "call_ok sane (surface_scale H info)"
  unfolding surface_scale_def by (intro call_ok_intros) (simp add: call_ok_result split: prod.splits)

lemma call_ok_to_logical [call_ok_intros]:
  "call_ok sane (to_logical_click H c units info)"
  "call_ok sane (to_logical_button H b units info)"
  "call_ok sane (to_logical_pointer H p units info)"
  "call_ok sane (to_logical_scroll H w units info)"
  "call_ok sane (to_logical_rect H r units info)"
  unfolding to_logical_click_def to_logical_button_def to_logical_pointer_def to_logical_scroll_def
    to_logical_rect_def
  by (intro call_ok_intros)+

lemma call_ok_key: "call_ok sane (input_key H i events)"
  unfolding input_key_def by (cases "find (\<lambda>ev. \<not> is_supported (ke_key ev)) events") (auto intro!: call_ok_intros)

lemma call_ok_verbs:
  "call_ok sane (input_text H i txt)"
  "call_ok sane (input_click H i c units)"
  "call_ok sane (input_scroll H i w units)"
  "call_ok sane (input_pointer_move H i p units)"
  "call_ok sane (input_key_stroke H i k)"
  "call_ok sane (input_button H i b units)"
  "call_ok sane (input_release_held H i)"
  "call_ok sane (input_close H i)"
  "call_ok sane (input_focus H i)"
  "call_ok sane (input_begin_drive H i)"
  "call_ok sane (input_place H i r units)"
  "call_ok sane (input_content_rect H i units)"
  "call_ok sane (window_logical_size H i)"
  unfolding input_text_def input_click_def input_scroll_def input_pointer_move_def input_key_stroke_def
    input_button_def input_release_held_def input_close_def input_focus_def input_begin_drive_def
    input_place_def input_content_rect_def window_logical_size_def
  by (intro call_ok_intros)+

lemma end_drive_step: "sys_step sane s (input_end_drive H i s)"
  by (simp add: input_end_drive_def input_ok(12) split: sum.splits)

lemmas input_calls_ok = call_ok_key call_ok_verbs

text \<open>A close that succeeds has marked the handle dead, in the state it returns.\<close>

lemma input_close_dead:
  assumes "input_close H i s = (Inr (), s')" and "sane (world s)" and "handles_wf (sys_handles s)"
    and "handle_steps (sys_handles s') hs"
  shows "require_alive hs i = Inl (surface_dead_error i)"
proof -
  from assms(1) obtain info t where alive: "require_alive (sys_handles s) i = Inr info"
    and close: "adapter_close (adapter H) info s = (Inr (), t)" and dead: "dead_call i t = (Inr (), s')"
    by (auto simp: input_close_def io_simps)
  have st: "handle_steps (sys_handles s) (sys_handles t)"
    using call_okD [OF input_ok(9) close] assms(2) by (simp add: sys_step_def)
  have wf: "handles_wf (sys_handles t)" using handle_steps_wf [OF st assms(3)] .
  from alive have "store_get (sys_handles s) i = Inr info" by (simp add: require_alive_Inr)
  then obtain info' where get: "store_get (sys_handles t) i = Inr info'"
    using handles.steps_get [OF handle_steps_steps [OF st] assms(3)] by blast
  from dead have "sys_handles s' = snd (mark_dead i (sys_handles t))"
    by (auto simp: dead_call_def split: prod.splits)
  with assms(4) have "handles.steps (snd (mark_dead i (sys_handles t))) hs"
    using handle_steps_steps by simp
  from handles.steps_dead_final [OF this wf get] show ?thesis by (rule require_alive_dead) simp
qed

end

section \<open>A closed surface takes no more input\<close>

lemma refused_without_call:
  assumes "require_alive (sys_handles t) i = Inl e"
  shows "input_text H i txt t = (Inl e, t)"
    and "input_scroll H i w units t = (Inl e, t)"
    and "input_pointer_move H i p units t = (Inl e, t)"
    and "input_release_held H i t = (Inl e, t)"
    and "input_close H i t = (Inl e, t)"
    and "input_focus H i t = (Inl e, t)"
    and "input_begin_drive H i t = (Inl e, t)"
    and "input_content_rect H i units t = (Inl e, t)"
    and "window_logical_size H i t = (Inl e, t)"
    and "input_end_drive H i t = t"
    and "\<exists>e'. input_key H i events t = (Inl e', t)"
    and "\<exists>e'. input_click H i c units t = (Inl e', t)"
    and "\<exists>e'. input_key_stroke H i k t = (Inl e', t)"
    and "\<exists>e'. input_button H i b units t = (Inl e', t)"
    and "\<exists>e'. input_place H i r units t = (Inl e', t)"
  using assms
  by (auto simp: input_text_def input_scroll_def input_pointer_move_def input_release_held_def
      input_close_def input_focus_def input_begin_drive_def input_content_rect_def
      window_logical_size_def input_end_drive_def input_key_def input_click_def input_key_stroke_def
      input_button_def input_place_def io_bind_alive_error io_fail_def split: option.split)

text \<open>
  After a successful \<open>close\<close>, and whatever other tasks track or close meanwhile, every input
  verb on that surface fails without calling the adapter: the verbs without argument checks
  report \<open>surface_dead\<close>, those with argument checks report an error, \<open>end_drive\<close> does nothing, and
  the system is left exactly as it was.
\<close>

theorem closed_surface_takes_no_input:
  assumes "adapter_contract (adapter H) sane" and "sane (world s)" and "handles_wf (sys_handles s)"
    and "input_close H i s = (Inr (), s')"
    and "handle_steps (sys_handles s') (sys_handles t)"
  shows "input_text H i txt t = (Inl (surface_dead_error i), t)
    \<and> input_scroll H i w units t = (Inl (surface_dead_error i), t)
    \<and> input_pointer_move H i p units t = (Inl (surface_dead_error i), t)
    \<and> input_release_held H i t = (Inl (surface_dead_error i), t)
    \<and> input_close H i t = (Inl (surface_dead_error i), t)
    \<and> input_focus H i t = (Inl (surface_dead_error i), t)
    \<and> input_begin_drive H i t = (Inl (surface_dead_error i), t)
    \<and> input_content_rect H i units t = (Inl (surface_dead_error i), t)
    \<and> window_logical_size H i t = (Inl (surface_dead_error i), t)
    \<and> input_end_drive H i t = t
    \<and> (\<exists>e. input_key H i events t = (Inl e, t))
    \<and> (\<exists>e. input_click H i c units t = (Inl e, t))
    \<and> (\<exists>e. input_key_stroke H i k t = (Inl e, t))
    \<and> (\<exists>e. input_button H i b units t = (Inl e, t))
    \<and> (\<exists>e. input_place H i r units t = (Inl e, t))"
proof -
  have "require_alive (sys_handles t) i = Inl (surface_dead_error i)"
    using pipeline_host.input_close_dead [OF pipeline_host.intro [OF assms(1)] assms(4,2,3,5)] .
  then show ?thesis by (intro conjI refused_without_call)
qed

text \<open>The pipelines on the scripted adapter: no scripted results, codecs that are not used.\<close>

definition example_host :: "InMemoryAdapter host" where
  "example_host =
     \<lparr>adapter = in_memory longest_id, displays_first = (\<lambda>s. False), deadline_after = (\<lambda>s d. Some d),
      regex_new = (\<lambda>p. Inr ()), payload_to_vec = (\<lambda>p. []), payload_from_slice = (\<lambda>b. Inl []),
      base64_encode = (\<lambda>b. []), base64_decode = (\<lambda>t. Inl [])\<rparr>"

definition example_system :: "InMemoryAdapter system" where
  "example_system = \<lparr>sys_handles = [(''a'', example_window ''a'')], world = InMemoryAdapter_new\<rparr>"

lemma example_host_contract: "adapter_contract (adapter example_host) unscripted"
  by (simp add: example_host_def in_mem.adapter_contract_axioms)

lemma example_system_wf [simp]: "handles_wf (sys_handles example_system)"
  by (auto simp: example_system_def handles_wf_def unique_alive_refs_def example_window_def SurfaceInfo_window_def)

lemma example_system_sane [simp]: "unscripted (world example_system)"
  by (simp add: example_system_def)

lemma example_close:
  "fst (input_close example_host ''a'' example_system) = Inr ()"
  "store_get (sys_handles (snd (input_close example_host ''a'' example_system))) ''a''
     = Inr ((example_window ''a'')\<lparr>state := Dead\<rparr>)"
  by (simp_all add: input_close_def io_bind_def alive_call_def dead_call_def example_host_def example_system_def
      in_memory_def im_close_def scripted_def Let_def InMemoryAdapter_new_def Script_default_def
      require_alive_def store_get_def mark_dead_def example_window_def SurfaceInfo_window_def)

theorem closed_surface_takes_no_input_witness:
  "let t = snd (input_close example_host ''a'' example_system)
   in input_text example_host ''a'' ''hello'' t = (Inl (surface_dead_error ''a''), t)"
proof -
  let ?t = "snd (input_close example_host ''a'' example_system)"
  have "input_close example_host ''a'' example_system = (Inr (), ?t)"
    by (simp add: prod_eq_iff example_close)
  from closed_surface_takes_no_input [OF example_host_contract example_system_sane example_system_wf this handle_steps.none]
  show ?thesis by (simp add: Let_def)
qed

section \<open>What reaches the adapter\<close>

text \<open>
  Two adapters that answer the same on well-formed calls: live surfaces, supported key names, one
  to three clicks, button transitions that are not repeats, rectangles with numbers for
  coordinates and a non-negative size.
\<close>

definition number :: "f64 \<Rightarrow> bool" where
  "number x \<longleftrightarrow> x \<noteq> NaN"

definition non_negative :: "f64 \<Rightarrow> bool" where
  "non_negative x \<longleftrightarrow> f64_le f64_zero x"

definition agree_on_valid :: "'w Adapter \<Rightarrow> 'w Adapter \<Rightarrow> bool" where
  "agree_on_valid A A' \<longleftrightarrow>
     adapter_displays A = adapter_displays A' \<and>
     adapter_snapshot_geometry A = adapter_snapshot_geometry A' \<and>
     (\<forall>info events. state info = Alive \<longrightarrow> (\<forall>ev \<in> set events. is_supported (ke_key ev)) \<longrightarrow>
        adapter_key A info events = adapter_key A' info events) \<and>
     (\<forall>info c. state info = Alive \<longrightarrow> 1 \<le> click_count c \<longrightarrow> click_count c \<le> 3 \<longrightarrow>
        adapter_click A info c = adapter_click A' info c) \<and>
     (\<forall>info k. state info = Alive \<longrightarrow> is_supported (ks_key k) \<longrightarrow>
        adapter_key_stroke A info k = adapter_key_stroke A' info k) \<and>
     (\<forall>info b. state info = Alive \<longrightarrow> btn_action b \<noteq> PressRepeat \<longrightarrow>
        adapter_button A info b = adapter_button A' info b) \<and>
     (\<forall>info r. state info = Alive \<longrightarrow> number (rect_x r) \<and> number (rect_y r) \<longrightarrow>
        non_negative (rect_w r) \<and> non_negative (rect_h r) \<longrightarrow>
        adapter_place_surface A info r = adapter_place_surface A' info r)"

lemma io_bind_cong:
  "(\<And>x t. m s = (Inr x, t) \<Longrightarrow> f x t = g x t) \<Longrightarrow> io_bind m f s = io_bind m g s"
  by (auto simp: io_bind_def split: prod.splits sum.splits)

lemma display_scale_for_positive:
  assumes "display_scale_for snap displays = Inr scale"
  shows "\<exists>q. scale = Finite q \<and> 0 < q"
proof -
  from assms have "is_finite scale" and "\<not> f64_le scale f64_zero"
    by (auto simp: display_scale_for_def split: option.splits if_splits)
  then show ?thesis by (cases scale) (auto simp: f64_zero_def)
qed

lemma surface_scale_positive:
  assumes "surface_scale H info s = (Inr scale, s')"
  shows "\<exists>q. scale = Finite q \<and> 0 < q"
  using assms by (auto simp: surface_scale_def io_bind_Inr io_result_eq dest: sym display_scale_for_positive)

lemma surface_scale_adapter:
  assumes "agree_on_valid (adapter H) A'"
  shows "surface_scale (H\<lparr>adapter := A'\<rparr>) info = surface_scale H info"
proof -
  have "adapter_displays A' = adapter_displays (adapter H)"
    and "adapter_snapshot_geometry A' = adapter_snapshot_geometry (adapter H)"
    using assms by (simp_all add: agree_on_valid_def)
  then have "join_geometry_displays (H\<lparr>adapter := A'\<rparr>) info = join_geometry_displays H info"
    by (intro ext) (simp add: join_geometry_displays_def)
  then show ?thesis by (simp add: surface_scale_def)
qed

lemma f64_div_positive:
  assumes "is_finite x" and "0 < q"
  shows "number (f64_div x (Finite q))" and "f64_less f64_zero x \<Longrightarrow> non_negative (f64_div x (Finite q))"
proof -
  obtain p where x: "x = Finite p" using assms(1) by (auto simp: is_finite_iff)
  then show "number (f64_div x (Finite q))" using assms(2) by (simp add: number_def)
  assume "f64_less f64_zero x"
  then have "0 \<le> p / q" using x assms(2) by (simp add: f64_zero_def)
  then show "non_negative (f64_div x (Finite q))"
    using round64_nonneg [of "p / q"] x assms(2) by (auto simp: non_negative_def f64_zero_def)
qed

text \<open>What the conversions hand on.\<close>

lemma to_logical_click_count:
  "to_logical_click H c units info s = (Inr c', s') \<Longrightarrow> click_count c' = click_count c"
  by (auto simp: to_logical_click_def io_simps split: if_splits)

lemma to_logical_button_action:
  "to_logical_button H b units info s = (Inr b', s') \<Longrightarrow> btn_action b' = btn_action b"
  by (auto simp: to_logical_button_def io_simps split: if_splits)

definition placeable :: "Rect \<Rightarrow> bool" where
  "placeable r \<longleftrightarrow> is_finite (rect_x r) \<and> is_finite (rect_y r) \<and> is_finite (rect_w r) \<and> is_finite (rect_h r) \<and>
     f64_less f64_zero (rect_w r) \<and> f64_less f64_zero (rect_h r)"

lemma placeable_number:
  "placeable r \<Longrightarrow> number (rect_x r) \<and> number (rect_y r) \<and> non_negative (rect_w r) \<and> non_negative (rect_h r)"
  by (auto simp: placeable_def number_def non_negative_def is_finite_iff f64_zero_def)

lemma to_logical_rect_number:
  assumes "placeable r" and "to_logical_rect H r units info s = (Inr r', s')"
  shows "number (rect_x r') \<and> number (rect_y r') \<and> non_negative (rect_w r') \<and> non_negative (rect_h r')"
proof (cases "units = Logical")
  case True
  with assms placeable_number show ?thesis by (simp add: to_logical_rect_def io_simps)
next
  case False
  with assms(2) obtain scale t where sc: "surface_scale H info s = (Inr scale, t)"
    and r': "r' = \<lparr>rect_x = f64_div (rect_x r) scale, rect_y = f64_div (rect_y r) scale,
         rect_w = f64_div (rect_w r) scale, rect_h = f64_div (rect_h r) scale\<rparr>"
    by (auto simp: to_logical_rect_def io_simps)
  obtain q where "scale = Finite q" "0 < q" using surface_scale_positive [OF sc] by blast
  with r' assms(1) f64_div_positive show ?thesis by (simp add: placeable_def)
qed

lemma not_placeable_rejected:
  assumes "\<not> placeable r"
  shows "\<exists>e. err_code e = InvalidArgument \<and> (\<forall>H s. input_place H i r units s = (Inl e, s))"
proof (cases "is_finite (rect_x r) \<and> is_finite (rect_y r) \<and> is_finite (rect_w r) \<and> is_finite (rect_h r)")
  case True
  with assms have "f64_le (rect_w r) f64_zero \<or> f64_le (rect_h r) f64_zero"
    by (auto simp: placeable_def is_finite_iff f64_zero_def)
  with True show ?thesis by (simp add: input_place_def io_fail_def PortholeError_new_def)
next
  case False
  then have "input_place H i r units = io_fail (PortholeError_new InvalidArgument
             (Msg ''place: x, y, w, h must all be finite (got x={}, y={}, w={}, h={})''
                [FF64 (rect_x r), FF64 (rect_y r), FF64 (rect_w r), FF64 (rect_h r)]))" for H :: "'a host"
    by (simp add: input_place_def)
  then show ?thesis by (simp add: io_fail_def PortholeError_new_def)
qed

lemma to_logical_adapter:
  assumes "agree_on_valid (adapter H) A'"
  shows "to_logical_click (H\<lparr>adapter := A'\<rparr>) c units info = to_logical_click H c units info"
    and "to_logical_button (H\<lparr>adapter := A'\<rparr>) b units info = to_logical_button H b units info"
    and "to_logical_rect (H\<lparr>adapter := A'\<rparr>) r units info = to_logical_rect H r units info"
  by (simp_all add: to_logical_click_def to_logical_button_def to_logical_rect_def surface_scale_adapter [OF assms])

lemma input_place_adapter:
  assumes "agree_on_valid (adapter H) A'"
  shows "input_place (H\<lparr>adapter := A'\<rparr>) i r units s = input_place H i r units s"
proof (cases "placeable r")
  case False
  then show ?thesis using not_placeable_rejected by metis
next
  case True
  have "adapter_place_surface A' info r' = adapter_place_surface (adapter H) info r'"
    if "state info = Alive" "to_logical_rect H r units info t = (Inr r', t')" for info r' t t'
    using assms that to_logical_rect_number [OF True that(2)] by (simp add: agree_on_valid_def)
  then show ?thesis
    unfolding input_place_def to_logical_adapter [OF assms]
    by (auto intro!: io_bind_cong simp: io_simps require_alive_Inr)
qed

text \<open>
  C33: The adapter is never called with arguments the pipeline has not accepted.  Stated as
  independence: replace the adapter by any other one that answers the same on well-formed calls
  (a live surface, only supported key names, one to three clicks, a button transition that is
  not a repeat, a rectangle without NaN and with a non-negative size), however differently it
  treats all other calls, and \<open>key\<close>, \<open>key_stroke\<close>, \<open>click\<close>, \<open>button\<close> and \<open>place\<close>, in logical or
  physical units, give the same result and the same system.
\<close>

theorem adapter_sees_only_valid_input:
  assumes "agree_on_valid (adapter H) A'"
  shows "input_key (H\<lparr>adapter := A'\<rparr>) i events s = input_key H i events s
    \<and> input_key_stroke (H\<lparr>adapter := A'\<rparr>) i k s = input_key_stroke H i k s
    \<and> input_click (H\<lparr>adapter := A'\<rparr>) i c units s = input_click H i c units s
    \<and> input_button (H\<lparr>adapter := A'\<rparr>) i b units s = input_button H i b units s
    \<and> input_place (H\<lparr>adapter := A'\<rparr>) i r units s = input_place H i r units s"
proof (intro conjI)
  show "input_key (H\<lparr>adapter := A'\<rparr>) i events s = input_key H i events s"
  proof (cases "find (\<lambda>ev. \<not> is_supported (ke_key ev)) events")
    case None
    then have "\<forall>ev \<in> set events. is_supported (ke_key ev)" by (simp add: find_None_iff)
    with None assms show ?thesis
      by (auto simp: input_key_def agree_on_valid_def io_simps require_alive_Inr intro!: io_bind_cong)
  qed (simp add: input_key_def)
  show "input_key_stroke (H\<lparr>adapter := A'\<rparr>) i k s = input_key_stroke H i k s"
    using assms by (auto simp: input_key_stroke_def agree_on_valid_def io_simps require_alive_Inr intro!: io_bind_cong)
  have pos: "click_count c \<noteq> 0 \<Longrightarrow> 1 \<le> click_count c" by (simp add: word_le_nat_alt unat_gt_0 Suc_leI)
  show "input_click (H\<lparr>adapter := A'\<rparr>) i c units s = input_click H i c units s"
    unfolding input_click_def to_logical_adapter [OF assms]
    using assms pos by (auto simp: agree_on_valid_def io_simps require_alive_Inr dest!: to_logical_click_count
        intro!: io_bind_cong)
  show "input_button (H\<lparr>adapter := A'\<rparr>) i b units s = input_button H i b units s"
    unfolding input_button_def to_logical_adapter [OF assms]
    using assms by (auto simp: agree_on_valid_def io_simps require_alive_Inr dest!: to_logical_button_action
        intro!: io_bind_cong)
  show "input_place (H\<lparr>adapter := A'\<rparr>) i r units s = input_place H i r units s"
    by (rule input_place_adapter [OF assms])
qed

text \<open>An adapter that presses no key it does not know.\<close>

definition strict_adapter :: "InMemoryAdapter Adapter" where
  "strict_adapter = (in_memory longest_id)\<lparr>adapter_key := (\<lambda>info events.
     if list_all (\<lambda>ev. is_supported (ke_key ev)) events then im_key info events
     else io_fail (PortholeError_new InternalError (Msg ''unknown key'' [])))\<rparr>"

theorem adapter_sees_only_valid_input_witness:
  "agree_on_valid (adapter example_host) strict_adapter
   \<and> input_key (example_host\<lparr>adapter := strict_adapter\<rparr>) ''a'' [\<lparr>ke_key = ''Nope'', ke_modifiers = []\<rparr> :: KeyEvent] example_system
       = input_key example_host ''a'' [\<lparr>ke_key = ''Nope'', ke_modifiers = []\<rparr>] example_system"
proof -
  have "agree_on_valid (adapter example_host) strict_adapter"
    by (auto simp: agree_on_valid_def example_host_def strict_adapter_def in_memory_def list_all_iff)
  with adapter_sees_only_valid_input [OF this] show ?thesis by blast
qed

end
