(* ===== verification/F64_Rounding.thy ===== *)
theory F64_Rounding
  imports F64
begin

text \<open>
  Facts about the rounding of \<open>f64\<close> results: it is monotone, odd, leaves representable values
  alone and overflows from \<open>2 ^ 1024\<close> on.  A value is \<open>representable\<close> when it is its own rounding,
  as every value a program can hold in an \<open>f64\<close> is.
\<close>

section \<open>The binary exponent\<close>

lemma pow2_powi: "pow2 e = 2 powi e"
  by (simp add: pow2_def power_int_def power_one_over inverse_eq_divide)

lemma pow2_not_0 [simp]: "pow2 e \<noteq> 0"
  using pow2_pos [of e] by linarith

lemma pow2_add: "pow2 (a + b) = pow2 a * pow2 b"
  by (simp add: pow2_powi power_int_add)

lemma pow2_mono: "a \<le> b \<Longrightarrow> pow2 a \<le> pow2 b"
  unfolding pow2_powi by (rule power_int_increasing) auto

lemma pow2_less_cancel: "pow2 a < pow2 b \<Longrightarrow> a < b"
  using pow2_mono [of b a] by (meson not_le)

lemma pow2_diff: "pow2 (a - b) = pow2 a / pow2 b"
  by (simp add: pow2_powi power_int_diff)

lemma bitlen_pow2:
  assumes "0 < a"
  shows "pow2 (bitlen a - 1) \<le> of_int a" and "of_int a < pow2 (bitlen a)"
proof -
  have b: "1 \<le> bitlen a" using assms by (simp add: bitlen_ge_iff_power)
  have lo: "2 ^ nat (bitlen a - 1) \<le> a" and hi: "a < 2 ^ nat (bitlen a)" using bitlen_bounds [OF assms] by auto
  from lo have "(of_int (2 ^ nat (bitlen a - 1)) :: rat) \<le> of_int a" by (simp only: of_int_le_iff)
  with b show "pow2 (bitlen a - 1) \<le> of_int a" by (simp add: pow2_def)
  from hi have "(of_int a :: rat) < of_int (2 ^ nat (bitlen a))" by (simp only: of_int_less_iff)
  with b show "of_int a < pow2 (bitlen a)" by (simp add: pow2_def)
qed

lemma log2_rat_bounds:
  assumes "0 < q"
  shows "pow2 (log2_rat q) \<le> q" and "q < pow2 (log2_rat q + 1)"
proof -
  obtain a b where ab: "quotient_of q = (a, b)" by force
  have b: "0 < b" and q: "q = of_int a / of_int b"
    using quotient_of_denom_pos [OF ab] quotient_of_div [OF ab] by auto
  with assms have a: "0 < a" by (simp add: zero_less_divide_iff)
  let ?k = "bitlen a - bitlen b"
  have "q < pow2 (bitlen a) / pow2 (bitlen b - 1)"
    unfolding q using bitlen_pow2 [OF a] bitlen_pow2 [OF b] a b
    by (intro frac_less) auto
  also have "\<dots> = pow2 (?k + 1)" by (simp add: pow2_diff [symmetric] algebra_simps)
  finally have hi: "q < pow2 (?k + 1)" .
  have "pow2 (?k - 1) = pow2 (bitlen a - 1) / pow2 (bitlen b)"
    by (simp add: pow2_diff [symmetric] algebra_simps)
  also have "\<dots> \<le> q"
    unfolding q using bitlen_pow2 [OF a] bitlen_pow2 [OF b] a b
    by (intro frac_le) (auto intro: less_imp_le)
  finally have lo: "pow2 (?k - 1) \<le> q" .
  have l: "log2_rat q = (if pow2 ?k \<le> q then ?k else ?k - 1)"
    by (simp add: log2_rat_def ab Let_def)
  show "pow2 (log2_rat q) \<le> q" using lo by (simp add: l)
  show "q < pow2 (log2_rat q + 1)" using hi by (simp add: l)
qed

lemma log2_rat_mono: "0 < p \<Longrightarrow> p \<le> q \<Longrightarrow> log2_rat p \<le> log2_rat q"
  using log2_rat_bounds(1) [of p] log2_rat_bounds(2) [of q] pow2_less_cancel [of "log2_rat p" "log2_rat q + 1"]
  by linarith

lemma log2_rat_pow2 [simp]: "log2_rat (pow2 k) = k"
proof -
  have "k < log2_rat (pow2 k) + 1" using log2_rat_bounds(2) [of "pow2 k"] by (intro pow2_less_cancel) simp
  moreover have "log2_rat (pow2 k) < k + 1"
    using log2_rat_bounds(1) [of "pow2 k"] pow2_add [of k 1] pow2_pos [of k]
    by (intro pow2_less_cancel) (simp add: pow2_def)
  ultimately show ?thesis by simp
qed

section \<open>Rounding to an integer\<close>

lemma round_half_even_cases:
  "round_half_even r = \<lfloor>r\<rfloor> \<or> round_half_even r = \<lfloor>r\<rfloor> + 1"
  by (simp add: round_half_even_def Let_def)

lemma round_half_even_mono: "r \<le> s \<Longrightarrow> round_half_even r \<le> round_half_even s"
proof -
  assume rs: "r \<le> s"
  show ?thesis
  proof (cases "\<lfloor>r\<rfloor> = \<lfloor>s\<rfloor>")
    case True
    with rs show ?thesis by (auto simp: round_half_even_def Let_def)
  next
    case False
    with rs have "\<lfloor>r\<rfloor> + 1 \<le> \<lfloor>s\<rfloor>" using floor_mono [OF rs] by linarith
    then show ?thesis using round_half_even_cases [of r] round_half_even_cases [of s] by linarith
  qed
qed

lemma round_half_even_minus: "round_half_even (- r) = - round_half_even r"
proof (cases "of_int \<lfloor>r\<rfloor> = r")
  case True
  then show ?thesis by (metis of_int_minus round_half_even_int)
next
  case False
  then have "of_int \<lfloor>r\<rfloor> < r" by (meson of_int_floor_le order_le_less)
  then have "\<lfloor>- r\<rfloor> = - \<lfloor>r\<rfloor> - 1" by (intro floor_unique) (simp_all, linarith)
  then show ?thesis by (auto simp: round_half_even_def Let_def)
qed

section \<open>Rounding to 53 bits\<close>

definition exponent64 :: "rat \<Rightarrow> int" where
  "exponent64 q = max (log2_rat \<bar>q\<bar> - 52) (-1074)"

definition rounded :: "rat \<Rightarrow> rat" where
  "rounded q = (if q = 0 then 0 else of_int (round_half_even (q / pow2 (exponent64 q))) * pow2 (exponent64 q))"

lemma round64_rounded:
  "round64 q = (if pow2 1024 \<le> \<bar>rounded q\<bar> then Infinity (q < 0) else Finite (rounded q))"
  using pow2_pos [of 1024] by (simp add: round64_def rounded_def exponent64_def Let_def not_le)

lemma rounded_minus: "rounded (- q) = - rounded q"
  by (simp add: rounded_def exponent64_def round_half_even_minus)

lemma rounded_nonneg: "0 \<le> q \<Longrightarrow> 0 \<le> rounded q"
  by (simp add: rounded_def round_half_even_nonneg less_imp_le)

lemma rounded_le_of_exponent_less:
  assumes "0 < p" and "exponent64 p < exponent64 q" and "0 < q"
  shows "rounded p \<le> rounded q"
proof -
  let ?e = "exponent64 p" and ?f = "exponent64 q"
  have f: "?f = log2_rat q - 52" using assms by (auto simp: exponent64_def)
  have "log2_rat p - 52 \<le> ?e" using assms(1) by (simp add: exponent64_def)
  then have "p < pow2 (?e + 53)"
    using log2_rat_bounds(2) [OF assms(1)] pow2_mono [of "log2_rat p + 1" "?e + 53"] by linarith
  then have "p / pow2 ?e \<le> of_int (2 ^ 53)"
    by (simp add: pow2_add divide_le_eq mult.commute) (simp add: pow2_def)
  then have "round_half_even (p / pow2 ?e) \<le> 2 ^ 53"
    using round_half_even_mono round_half_even_int by metis
  then have "(of_int (round_half_even (p / pow2 ?e)) :: rat) \<le> of_int (2 ^ 53)" by (simp only: of_int_le_iff)
  then have "rounded p \<le> 2 ^ 53 * pow2 ?e"
    using assms(1) pow2_pos [of ?e] by (simp add: rounded_def mult_right_mono)
  also have "\<dots> = pow2 (?e + 53)" by (simp add: pow2_add) (simp add: pow2_def)
  also have "\<dots> \<le> pow2 (?f + 52)" using assms(2) by (intro pow2_mono) simp
  also have "\<dots> = of_int (2 ^ 52) * pow2 ?f" by (simp add: pow2_add) (simp add: pow2_def)
  also have "\<dots> \<le> rounded q"
  proof -
    have "pow2 (?f + 52) \<le> q" using log2_rat_bounds(1) [OF assms(3)] f by simp
    then have "of_int (2 ^ 52) \<le> q / pow2 ?f"
      by (simp add: pow2_add le_divide_eq mult.commute) (simp add: pow2_def)
    then have "2 ^ 52 \<le> round_half_even (q / pow2 ?f)"
      using round_half_even_mono round_half_even_int by metis
    then have "(of_int (2 ^ 52) :: rat) \<le> of_int (round_half_even (q / pow2 ?f))" by (simp only: of_int_le_iff)
    then show ?thesis using assms(3) pow2_pos [of ?f] by (simp add: rounded_def mult_right_mono)
  qed
  finally show ?thesis .
qed

lemma rounded_mono_pos:
  assumes "0 < p" and "p \<le> q"
  shows "rounded p \<le> rounded q"
proof (cases "exponent64 p = exponent64 q")
  case True
  have "p / pow2 (exponent64 q) \<le> q / pow2 (exponent64 q)"
    using assms(2) by (simp add: divide_right_mono less_imp_le)
  then show ?thesis using assms True round_half_even_mono
    by (simp add: rounded_def mult_right_mono less_imp_le)
next
  case False
  have "exponent64 p \<le> exponent64 q"
    using log2_rat_mono [OF assms] assms by (auto simp: exponent64_def)
  with False assms show ?thesis by (intro rounded_le_of_exponent_less) auto
qed

lemma rounded_mono: "p \<le> q \<Longrightarrow> rounded p \<le> rounded q"
proof -
  assume pq: "p \<le> q"
  consider "0 < p" | "p \<le> 0" "0 \<le> q" | "q < 0" using pq by linarith
  then show ?thesis
  proof cases
    case 1
    then show ?thesis using pq by (rule rounded_mono_pos)
  next
    case 2
    then have "0 \<le> rounded (- p)" and "0 \<le> rounded q" by (simp_all add: rounded_nonneg)
    then show ?thesis by (simp add: rounded_minus)
  next
    case 3
    then have "rounded (- q) \<le> rounded (- p)" using pq by (intro rounded_mono_pos) auto
    then show ?thesis by (simp add: rounded_minus)
  qed
qed

lemma rounded_sign: "(rounded q < 0 \<longrightarrow> q < 0) \<and> (0 < rounded q \<longrightarrow> 0 < q)"
  using rounded_nonneg [of q] rounded_nonneg [of "- q"] by (auto simp: rounded_minus not_less [symmetric])

lemma round64_mono: "p \<le> q \<Longrightarrow> f64_le (round64 p) (round64 q)"
  using rounded_mono [of p q] rounded_sign [of p] rounded_sign [of q] pow2_pos [of 1024]
  by (auto simp: round64_rounded abs_if split: if_splits)

section \<open>Representable values\<close>

definition representable :: "rat \<Rightarrow> bool" where
  "representable x \<longleftrightarrow> round64 x = Finite x"

lemma representable_0 [simp]: "representable 0"
  by (simp add: representable_def)

lemma le_round64: "representable x \<Longrightarrow> x \<le> q \<Longrightarrow> f64_le (Finite x) (round64 q)"
  using round64_mono [of x q] by (simp add: representable_def)

lemma round64_le: "representable x \<Longrightarrow> q \<le> x \<Longrightarrow> f64_le (round64 q) (Finite x)"
  using round64_mono [of q x] by (simp add: representable_def)

lemma round64_between:
  assumes "representable x" and "representable y" and "x \<le> q" and "q \<le> y"
  obtains v where "round64 q = Finite v" and "x \<le> v" and "v \<le> y"
  using le_round64 [OF assms(1,3)] round64_le [OF assms(2,4)] by (cases "round64 q") auto

lemma round64_overflow:
  assumes "pow2 1024 \<le> q"
  shows "round64 q = Infinity False"
proof -
  have "exponent64 (pow2 1024) = 972" by (simp add: exponent64_def less_imp_le)
  moreover have p52: "pow2 52 = of_int (2 ^ 52)" by (simp add: pow2_def)
  moreover have "pow2 1024 / pow2 972 = of_int (2 ^ 52)"
    using pow2_diff [of 1024 972] p52 by simp
  moreover have "of_int (2 ^ 52) * pow2 972 = pow2 1024"
    using pow2_add [of 52 972] p52 by simp
  ultimately have "rounded (pow2 1024) = pow2 1024"
    using pow2_pos [of 1024] unfolding rounded_def by (simp only: round_half_even_int) simp
  moreover have "0 < q" using assms pow2_pos [of 1024] by linarith
  ultimately show ?thesis using rounded_mono [OF assms] by (simp add: round64_rounded)
qed

text \<open>Integers of at most 53 bits are representable.\<close>

lemma representable_of_int:
  assumes "\<bar>k\<bar> < 2 ^ 53"
  shows "representable (of_int k)"
proof (cases "k = 0")
  case False
  define e where "e = exponent64 (of_int k)"
  have "(of_int \<bar>k\<bar> :: rat) < of_int (2 ^ 53)" using assms by (simp only: of_int_less_iff)
  then have abs: "\<bar>of_int k :: rat\<bar> < pow2 53" by (simp add: pow2_def)
  have "pow2 (log2_rat \<bar>of_int k\<bar>) \<le> \<bar>of_int k\<bar>" using log2_rat_bounds(1) [of "\<bar>of_int k\<bar>"] False by simp
  with abs have "pow2 (log2_rat \<bar>of_int k\<bar>) < pow2 53" by linarith
  then have "log2_rat \<bar>of_int k\<bar> < 53" by (rule pow2_less_cancel)
  then have "e \<le> 0" by (simp add: e_def exponent64_def)
  then have "of_int k / pow2 e = of_int (k * 2 ^ nat (- e))" by (simp add: pow2_def)
  then have "of_int (round_half_even (of_int k / pow2 e)) = (of_int k / pow2 e :: rat)"
    by (metis round_half_even_int)
  then have "rounded (of_int k) = of_int k"
    using False pow2_pos [of e] by (simp add: rounded_def e_def [symmetric])
  moreover have "\<bar>of_int k :: rat\<bar> < pow2 1024" using abs pow2_mono [of 53 1024] by linarith
  ultimately show ?thesis by (simp add: representable_def round64_rounded)
qed simp

lemma representable_numeral: "numeral n < (2 ^ 53 :: int) \<Longrightarrow> representable (numeral n)"
  using representable_of_int [of "numeral n"] by simp

end
