(* ===== verification/Placement.thy ===== *)
theory Placement
  imports Input_Pipeline F64_Rounding
begin

text \<open>
  Placement of windows (\<open>porthole-core/src/placement.rs\<close>): the choice of the display, and the
  rectangle in global logical coordinates.  \<open>f64::clamp\<close> panics when its bounds are out of order,
  and \<open>attn_opt.as_ref().unwrap()\<close> when no attention was queried; both are the outcome
  \<open>Panicked\<close>, which is neither a value nor an error of the function.
\<close>

section \<open>Panics\<close>

datatype 'e fault = Fault 'e | Panicked

definition unwrap :: "'a option \<Rightarrow> ('e fault, 'a) result" where
  "unwrap m = (case m of None \<Rightarrow> Inl Panicked | Some x \<Rightarrow> Inr x)"

lemma unwrap_simps [simp]:
  "unwrap None = Inl Panicked"
  "unwrap (Some x) = Inr x"
  by (simp_all add: unwrap_def)

section \<open>Resolution\<close>

definition unknown_display_id_message :: "DisplayId \<Rightarrow> DisplayInfo list \<Rightarrow> message" where
  "unknown_display_id_message i displays =
     Msg ''unknown on_display id '{}'; known ids: [{}]'' [FStr i, FStr (join_with '', '' (map display_id displays))]"

definition validate_placement :: "PlacementSpec \<Rightarrow> 'w Adapter \<Rightarrow> ('w, PortholeError, unit) io" where
  "validate_placement spec A =
     (if is_effectively_empty spec then io_return ()
      else case on_display spec of
        Some (TargetId i) \<Rightarrow>
          io_bind (adapter_displays A) (\<lambda>displays.
            if \<not> list_ex (\<lambda>d. display_id d = i) displays
            then io_fail (PortholeError_new InvalidArgument (unknown_display_id_message i displays))
            else io_return ())
      | _ \<Rightarrow> io_return ())"

definition needs_attention :: "PlacementSpec \<Rightarrow> bool" where
  "needs_attention spec \<longleftrightarrow> on_display spec = Some TargetFocused \<or> anchor spec \<noteq> None"

definition find_or_first :: "(DisplayInfo \<Rightarrow> bool) \<Rightarrow> DisplayInfo list \<Rightarrow> DisplayInfo" where
  "find_or_first P displays = (case find P displays of Some d \<Rightarrow> d | None \<Rightarrow> hd displays)"

definition focused_display :: "AttentionInfo \<Rightarrow> DisplayInfo list \<Rightarrow> DisplayInfo" where
  "focused_display attn displays =
     (case focused_display_id attn of
        Some i \<Rightarrow> find_or_first (\<lambda>d. display_id d = i) displays
      | None \<Rightarrow> find_or_first display_primary displays)"

definition under_cursor :: "CursorPos \<Rightarrow> Rect \<Rightarrow> bool" where
  "under_cursor c b \<longleftrightarrow>
     f64_le (rect_x b) (cursor_x c) \<and> f64_less (cursor_x c) (f64_add (rect_x b) (rect_w b)) \<and>
     f64_le (rect_y b) (cursor_y c) \<and> f64_less (cursor_y c) (f64_add (rect_y b) (rect_h b))"

definition target_display ::
    "PlacementSpec \<Rightarrow> DisplayInfo list \<Rightarrow> AttentionInfo option \<Rightarrow> (message fault, DisplayInfo) result" where
  "target_display spec displays attn_opt =
     (case on_display spec of
        Some (TargetId i) \<Rightarrow>
          ok_or (find (\<lambda>d. display_id d = i) displays) (Fault (unknown_display_id_message i displays))
      | Some TargetPrimary \<Rightarrow> Inr (find_or_first display_primary displays)
      | Some TargetFocused \<Rightarrow> rmap (\<lambda>attn. focused_display attn displays) (unwrap attn_opt)
      | None \<Rightarrow>
          (case anchor spec of
             Some CursorAnchor \<Rightarrow>
               rmap (\<lambda>attn. find_or_first (\<lambda>d. under_cursor (cursor attn) (display_bounds d)) displays) (unwrap attn_opt)
           | Some FocusedDisplay \<Rightarrow> rmap (\<lambda>attn. focused_display attn displays) (unwrap attn_opt)
           | None \<Rightarrow> Inr (find_or_first display_primary displays)))"

text \<open>The literal \<open>0.7\<close> is the \<open>f64\<close> nearest to seven tenths.\<close>

definition f64_0_7 :: f64 where
  "f64_0_7 = round64 (7 / 10)"

definition default_rect ::
    "PlacementSpec \<Rightarrow> Rect \<Rightarrow> AttentionInfo option \<Rightarrow> (message fault, Rect) result" where
  "default_rect spec b attn_opt =
     (let w = f64_min (f64_mul (rect_w b) f64_0_7) (Finite 1400);
          h = f64_min (f64_mul (rect_h b) f64_0_7) (Finite 1000)
      in rbind (if anchor spec = Some CursorAnchor
                then rmap (\<lambda>attn. (cursor_x (cursor attn), cursor_y (cursor attn))) (unwrap attn_opt)
                else Inr (f64_add (rect_x b) (f64_div (rect_w b) (Finite 2)),
                          f64_add (rect_y b) (f64_div (rect_h b) (Finite 2)))) (\<lambda>(cx, cy).
         rbind (unwrap (f64_clamp (f64_sub cx (f64_div w (Finite 2))) (rect_x b)
                  (f64_sub (f64_add (rect_x b) (rect_w b)) w))) (\<lambda>x.
         rbind (unwrap (f64_clamp (f64_sub cy (f64_div h (Finite 2))) (rect_y b)
                  (f64_sub (f64_add (rect_y b) (rect_h b)) h))) (\<lambda>y.
         Inr \<lparr>rect_x = x, rect_y = y, rect_w = w, rect_h = h\<rparr>))))"

definition placed_rect ::
    "PlacementSpec \<Rightarrow> DisplayInfo \<Rightarrow> AttentionInfo option \<Rightarrow> (message fault, Rect) result" where
  "placed_rect spec target attn_opt =
     (case geometry spec of
        Some local \<Rightarrow> Inr
          \<lparr>rect_x = f64_add (rect_x (display_bounds target)) (rect_x local),
           rect_y = f64_add (rect_y (display_bounds target)) (rect_y local),
           rect_w = rect_w local, rect_h = rect_h local\<rparr>
      | None \<Rightarrow> default_rect spec (display_bounds target) attn_opt)"

definition resolve_placement_rect :: "PlacementSpec \<Rightarrow> 'w Adapter \<Rightarrow> ('w, message fault, Rect) io" where
  "resolve_placement_rect spec A =
     io_bind (io_map_err (\<lambda>e. Fault (err_message e)) (adapter_displays A)) (\<lambda>displays.
     if displays = [] then io_fail (Fault (Msg ''no displays enumerated'' []))
     else io_bind (if needs_attention spec
                   then io_bind (io_map_err (\<lambda>e. Fault (err_message e)) (adapter_attention A)) (\<lambda>attn. io_return (Some attn))
                   else io_return None) (\<lambda>attn_opt.
          io_result (rbind (target_display spec displays attn_opt) (\<lambda>target.
                     placed_rect spec target attn_opt))))"

section \<open>A default rectangle fits its display\<close>

text \<open>
  A display whose origin, size and far corner are exact numbers, as pixel coordinates are.
\<close>

definition exact_span :: "f64 \<Rightarrow> f64 \<Rightarrow> bool" where
  "exact_span lo len \<longleftrightarrow>
     (\<exists>a l. lo = Finite a \<and> len = Finite l \<and> 0 \<le> l \<and> representable a \<and> representable l \<and> representable (a + l))"

definition exact_bounds :: "Rect \<Rightarrow> bool" where
  "exact_bounds b \<longleftrightarrow> exact_span (rect_x b) (rect_w b) \<and> exact_span (rect_y b) (rect_h b)"

text \<open>The span \<open>[x, x + w]\<close> lies in \<open>[lo, lo + len]\<close>: \<open>x\<close> is not left of the lower end and not
  beyond the last origin at which the width fits.\<close>

definition span_within :: "f64 \<Rightarrow> f64 \<Rightarrow> f64 \<Rightarrow> f64 \<Rightarrow> bool" where
  "span_within lo len x w \<longleftrightarrow>
     f64_le lo x \<and> f64_le x (f64_sub (f64_add lo len) w) \<and> f64_le f64_zero w \<and> f64_le w len"

definition rect_within :: "Rect \<Rightarrow> Rect \<Rightarrow> bool" where
  "rect_within b r \<longleftrightarrow>
     span_within (rect_x b) (rect_w b) (rect_x r) (rect_w r) \<and>
     span_within (rect_y b) (rect_h b) (rect_y r) (rect_h r)"

lemma seven_tenths: "\<exists>c. f64_0_7 = Finite c \<and> 0 \<le> c \<and> c \<le> 1"
proof -
  have "representable 1" using representable_of_int [of 1] by simp
  then obtain c where "round64 (7 / 10) = Finite c" "0 \<le> c" "c \<le> 1"
    using round64_between [OF representable_0, of 1 "7 / 10"] by auto
  then show ?thesis by (simp add: f64_0_7_def)
qed

lemma f64_min_Finite: "f64_min (Finite a) (Finite b) = Finite (min a b)"
  by (simp add: f64_min_def min_def)

lemma width_bounded:
  assumes "representable l" and "0 \<le> l" and "0 \<le> m"
  shows "\<exists>w. f64_min (f64_mul (Finite l) f64_0_7) (Finite m) = Finite w \<and> 0 \<le> w \<and> w \<le> l \<and> w \<le> m"
proof -
  obtain c where c: "f64_0_7 = Finite c" "0 \<le> c" "c \<le> 1" using seven_tenths by blast
  then have "0 \<le> l * c" and "l * c \<le> l" using assms(2) by (simp_all add: mult_left_le)
  then obtain v where v: "round64 (l * c) = Finite v" "0 \<le> v" "v \<le> l"
    using round64_between [OF representable_0 assms(1), of "l * c"] by blast
  then have "f64_mul (Finite l) f64_0_7 = Finite v" unfolding c(1) by simp
  with v assms(3) show ?thesis by (intro exI [of _ "min v m"]) (simp add: f64_min_Finite)
qed

text \<open>Clamping along one axis never panics and keeps the span inside.\<close>

lemma clamp_within:
  assumes "exact_span lo len" and "c \<noteq> NaN" and "0 \<le> m"
  shows "\<exists>x. f64_clamp (f64_sub c (f64_div (f64_min (f64_mul len f64_0_7) (Finite m)) (Finite 2))) lo
            (f64_sub (f64_add lo len) (f64_min (f64_mul len f64_0_7) (Finite m))) = Some x
          \<and> span_within lo len x (f64_min (f64_mul len f64_0_7) (Finite m))"
proof -
  obtain a l where lo: "lo = Finite a" and len: "len = Finite l" and l: "0 \<le> l"
    and rep: "representable a" "representable l" "representable (a + l)"
    using assms(1) by (auto simp: exact_span_def)
  obtain w where w: "f64_min (f64_mul len f64_0_7) (Finite m) = Finite w" "0 \<le> w" "w \<le> l"
    using width_bounded [OF rep(2) l assms(3)] len by blast
  have hi: "f64_sub (f64_add lo len) (Finite w) = round64 (a + l - w)"
    using rep(3) by (simp add: f64_sub_def lo len representable_def)
  have le: "f64_le lo (round64 (a + l - w))" using le_round64 [OF rep(1)] w lo by simp
  have "0 \<le> w / 2" and "w / 2 \<le> l" using w by auto
  then obtain v where "round64 (w / 2) = Finite v"
    using round64_between [OF representable_0 rep(2), of "w / 2"] by blast
  then have half: "f64_sub c (f64_div (Finite w) (Finite 2)) \<noteq> NaN"
    using assms(2) by (cases c) (simp_all add: f64_sub_def)
  obtain x where x: "f64_clamp (f64_sub c (f64_div (Finite w) (Finite 2))) lo (round64 (a + l - w)) = Some x"
    using le by (simp add: f64_clamp_def)
  show ?thesis
    unfolding w(1) hi span_within_def using f64_clamp_Some [OF x half] x w(2,3) len
    by (intro exI [of _ x]) (simp add: f64_zero_def)
qed

lemma default_rect_within:
  assumes "exact_bounds b"
    and "anchor spec = Some CursorAnchor \<Longrightarrow>
      \<exists>attn. attn_opt = Some attn \<and> cursor_x (cursor attn) \<noteq> NaN \<and> cursor_y (cursor attn) \<noteq> NaN"
  shows "\<exists>r. default_rect spec b attn_opt = Inr r \<and> rect_within b r"
proof -
  have sx: "exact_span (rect_x b) (rect_w b)" and sy: "exact_span (rect_y b) (rect_h b)"
    using assms(1) by (simp_all add: exact_bounds_def)
  have mid: "f64_add lo (f64_div len (Finite 2)) \<noteq> NaN" if s: "exact_span lo len" for lo len
  proof -
    obtain a l where al: "lo = Finite a" "len = Finite l" using s by (auto simp: exact_span_def)
    then show ?thesis by (cases "round64 (l / 2)") auto
  qed
  obtain cx cy where c: "(if anchor spec = Some CursorAnchor
        then rmap (\<lambda>attn. (cursor_x (cursor attn), cursor_y (cursor attn))) (unwrap attn_opt)
        else Inr (f64_add (rect_x b) (f64_div (rect_w b) (Finite 2)),
                  f64_add (rect_y b) (f64_div (rect_h b) (Finite 2)))) = (Inr (cx, cy) :: (message fault, f64 \<times> f64) result)"
    and nan: "cx \<noteq> NaN" "cy \<noteq> NaN"
    using assms(2) mid [OF sx] mid [OF sy] by (cases "anchor spec = Some CursorAnchor") auto
  obtain x y where x: "f64_clamp (f64_sub cx (f64_div (f64_min (f64_mul (rect_w b) f64_0_7) (Finite 1400)) (Finite 2))) (rect_x b)
            (f64_sub (f64_add (rect_x b) (rect_w b)) (f64_min (f64_mul (rect_w b) f64_0_7) (Finite 1400))) = Some x"
      "span_within (rect_x b) (rect_w b) x (f64_min (f64_mul (rect_w b) f64_0_7) (Finite 1400))"
    and y: "f64_clamp (f64_sub cy (f64_div (f64_min (f64_mul (rect_h b) f64_0_7) (Finite 1000)) (Finite 2))) (rect_y b)
            (f64_sub (f64_add (rect_y b) (rect_h b)) (f64_min (f64_mul (rect_h b) f64_0_7) (Finite 1000))) = Some y"
      "span_within (rect_y b) (rect_h b) y (f64_min (f64_mul (rect_h b) f64_0_7) (Finite 1000))"
    using clamp_within [OF sx nan(1), of 1400] clamp_within [OF sy nan(2), of 1000] by auto
  show ?thesis unfolding default_rect_def Let_def c using x y by (simp add: rect_within_def)
qed

lemma find_or_first_in: "displays \<noteq> [] \<Longrightarrow> find_or_first P displays \<in> set displays"
  by (auto simp: find_or_first_def find_Some_iff split: option.split)

lemma focused_display_in: "displays \<noteq> [] \<Longrightarrow> focused_display attn displays \<in> set displays"
  by (simp add: focused_display_def find_or_first_in split: option.split)

lemma target_display_in:
  assumes "displays \<noteq> []" and "needs_attention spec \<Longrightarrow> attn_opt \<noteq> None"
    and "\<And>i. on_display spec = Some (TargetId i) \<Longrightarrow> i \<in> set (map display_id displays)"
  shows "\<exists>d \<in> set displays. target_display spec displays attn_opt = Inr d"
proof (cases "on_display spec")
  case None
  then show ?thesis
    using assms(1,2) find_or_first_in focused_display_in
    by (auto simp: target_display_def needs_attention_def split: option.split Anchor.split)
next
  case (Some t)
  show ?thesis
  proof (cases t)
    case (TargetId i)
    with Some assms(3) obtain d where "d \<in> set displays" "display_id d = i" by auto
    then obtain d' where "find (\<lambda>d. display_id d = i) displays = Some d'"
      by (cases "find (\<lambda>d. display_id d = i) displays") (auto simp: find_None_iff)
    moreover from this have "d' \<in> set displays" by (auto simp: find_Some_iff)
    ultimately show ?thesis using Some TargetId by (auto simp: target_display_def)
  qed (use Some assms(1,2) find_or_first_in focused_display_in in \<open>auto simp: target_display_def needs_attention_def\<close>)
qed

text \<open>
  A placement that names no geometry resolves to a rectangle on one of the enumerated
  displays: when the display ids it names exist, the displays have exact bounds and the cursor
  has a position, \<open>resolve_placement_rect\<close> never panics in \<open>clamp\<close> and never fails; the rectangle
  has a non-negative size no larger than the display and an origin between the display's
  origin and the last origin at which it fits, whatever the anchor and wherever the cursor is.
\<close>

theorem default_placement_fits_display:
  assumes "geometry spec = None"
    and "adapter_displays A s = (Inr displays, t)" and "displays \<noteq> []"
    and "adapter_attention A t = (Inr attn, u)"
    and "\<forall>i. on_display spec = Some (TargetId i) \<longrightarrow> i \<in> set (map display_id displays)"
    and "\<forall>d \<in> set displays. exact_bounds (display_bounds d)"
    and "cursor_x (cursor attn) \<noteq> NaN" and "cursor_y (cursor attn) \<noteq> NaN"
  shows "\<exists>d \<in> set displays. \<exists>r s'.
     resolve_placement_rect spec A s = (Inr r, s') \<and> rect_within (display_bounds d) r"
proof -
  define attn_opt where "attn_opt = (if needs_attention spec then Some attn else None)"
  have run: "resolve_placement_rect spec A s =
     (rbind (target_display spec displays attn_opt) (\<lambda>target. placed_rect spec target attn_opt),
      if needs_attention spec then u else t)"
    using assms(2,3,4)
    by (simp add: resolve_placement_rect_def io_bind_def io_map_err_def io_return_def io_result_def attn_opt_def)
  obtain d where d: "d \<in> set displays" "target_display spec displays attn_opt = Inr d"
    using target_display_in [OF assms(3), of spec attn_opt] assms(5) by (auto simp: attn_opt_def)
  obtain r where "default_rect spec (display_bounds d) attn_opt = Inr r" "rect_within (display_bounds d) r"
    using default_rect_within [of "display_bounds d" spec attn_opt] assms(6,7,8) d(1)
    by (auto simp: attn_opt_def needs_attention_def)
  with d run assms(1) show ?thesis by (auto simp: placed_rect_def)
qed

lemma example_displays_exact: "\<forall>d \<in> set default_displays. exact_bounds (display_bounds d)"
  using representable_numeral by (simp add: default_displays_def exact_bounds_def exact_span_def)

theorem default_placement_fits_display_witness:
  "\<exists>d \<in> set default_displays. \<exists>r s'.
     resolve_placement_rect \<lparr>on_display = Some TargetPrimary, geometry = None, anchor = Some CursorAnchor\<rparr>
       (in_memory longest_id) example_system = (Inr r, s') \<and> rect_within (display_bounds d) r"
  by (rule default_placement_fits_display [where t = "snd (im_displays example_system)"
        and attn = default_attention and u = "snd (im_attention (snd (im_displays example_system)))"])
    (simp_all add: in_memory_def im_displays_def im_attention_def Let_def scripted_def example_system_def
      InMemoryAdapter_new_def Script_default_def example_displays_exact default_attention_def,
     simp_all add: default_displays_def)

section \<open>The scale check and infinities\<close>

text \<open>
  The check of \<open>surface_scale\<close> keeps NaN away from the adapter, but not infinities: a positive,
  finite scale that is small enough makes a finite coordinate overflow in the division.
\<close>

lemma tiny_scale_overflows:
  "display_scale_for \<lparr>snap_display_id = ''d'', snap_display_local = r\<rparr>
     [\<lparr>display_id = ''d'', display_bounds = r, display_scale = Finite (pow2 (- 1000)),
       display_primary = True, display_focused = True\<rparr>] = Inr (Finite (pow2 (- 1000)))
   \<and> f64_div (Finite (pow2 100)) (Finite (pow2 (- 1000))) = Infinity False"
proof
  show "display_scale_for \<lparr>snap_display_id = ''d'', snap_display_local = r\<rparr>
     [\<lparr>display_id = ''d'', display_bounds = r, display_scale = Finite (pow2 (- 1000)),
       display_primary = True, display_focused = True\<rparr>] = Inr (Finite (pow2 (- 1000)))"
    by (simp add: display_scale_for_def f64_zero_def not_le)
  have "pow2 100 / pow2 (- 1000) = pow2 1100" using pow2_diff [of 100 "- 1000"] by simp
  then show "f64_div (Finite (pow2 100)) (Finite (pow2 (- 1000))) = Infinity False"
    using pow2_mono [of 1024 1100] by (simp add: round64_overflow)
qed

end
