(* ===== verification/Surface_Pipelines.thy ===== *)
theory Surface_Pipelines
  imports Placement
begin

text \<open>
  The pipelines that create, adopt and wait on surfaces (\<open>porthole-core/src\<close>: \<open>search.rs\<close>,
  \<open>attach_pipeline.rs\<close>, \<open>launch.rs\<close>, \<open>replace_pipeline.rs\<close>, \<open>wait_pipeline.rs\<close>).
\<close>

section \<open>Candidate refs\<close>

definition REF_PREFIX :: string where
  "REF_PREFIX = ''ref_''"

definition REF_SCHEMA_VERSION :: u32 where
  "REF_SCHEMA_VERSION = 1"

definition encode_ref :: "'w host \<Rightarrow> u32 \<Rightarrow> PlatformSurfaceRef \<Rightarrow> string" where
  "encode_ref H p r =
     REF_PREFIX @ base64_encode H (payload_to_vec H
       \<lparr>payload_pid = p, payload_platform_ref = r, payload_v = REF_SCHEMA_VERSION\<rparr>)"

definition ref_unknown :: "message \<Rightarrow> PortholeError" where
  "ref_unknown m = PortholeError_new CandidateRefUnknown m"

definition decode_ref :: "'w host \<Rightarrow> string \<Rightarrow> (PortholeError, u32 \<times> PlatformSurfaceRef) result" where
  "decode_ref H t =
     rbind (ok_or (strip_prefix REF_PREFIX t) (ref_unknown (Msg ''ref missing '{}' prefix'' [FStr REF_PREFIX]))) (\<lambda>body.
     rbind (map_err (\<lambda>e. ref_unknown (Msg ''ref base64 decode failed: {}'' [FStr e])) (base64_decode H body)) (\<lambda>bytes.
     rbind (map_err (\<lambda>e. ref_unknown (Msg ''ref JSON decode failed: {}'' [FStr e])) (payload_from_slice H bytes)) (\<lambda>payload.
     if payload_v payload \<noteq> REF_SCHEMA_VERSION
     then Inl (ref_unknown (Msg ''ref schema version {} is not supported (expected {})''
            [FNat (unat (payload_v payload)), FNat (unat REF_SCHEMA_VERSION)]))
     else Inr (payload_pid payload, payload_platform_ref payload))))"

section \<open>Attaching\<close>

record TrackedOutcome =
  tracked_surface :: SurfaceInfo
  reused_existing_handle :: bool

definition attach_search :: "'w host \<Rightarrow> SearchQuery \<Rightarrow> ('w, PortholeError, Candidate list) io" where
  "attach_search H query =
     (case query_title_pattern query of
        Some p \<Rightarrow>
          (case regex_new H p of
             Inl e \<Rightarrow> io_fail (PortholeError_new InvalidArgument (Msg ''invalid title_pattern regex: {}'' [FStr e]))
           | Inr _ \<Rightarrow> adapter_search (adapter H) query)
      | None \<Rightarrow> adapter_search (adapter H) query)"

definition platform_ref_args :: "PlatformSurfaceRef \<Rightarrow> fmt_arg list" where
  "platform_ref_args r =
     (case r of Macos w \<Rightarrow> [FStr ''Macos'', FNat (unat w)] | Kwin w \<Rightarrow> [FStr ''Kwin'', FStr w]
      | Windows a b \<Rightarrow> [FStr ''Windows'', FNat (unat a), FNat (unat b)])"

definition attach_track :: "'w host \<Rightarrow> string \<Rightarrow> ('w, PortholeError, TrackedOutcome) io" where
  "attach_track H t =
     io_bind (io_result (decode_ref H t)) (\<lambda>(p, r).
     io_bind (adapter_surface_alive (adapter H) p r) (\<lambda>found.
     case found of
       None \<Rightarrow> io_fail (PortholeError_new SurfaceDead
                 (Msg ''surface with platform ref {platform_ref:?} (pid {pid}) is no longer alive''
                    (platform_ref_args r @ [FNat (unat p)])))
     | Some info \<Rightarrow>
         io_bind (track_call info) (\<lambda>(surface, reused).
         io_return \<lparr>tracked_surface = surface, reused_existing_handle = reused\<rparr>)))"

section \<open>Launching\<close>

record LaunchPipelineOutcome =
  launch_outcome :: LaunchOutcome
  launch_placement :: PlacementOutcome

record ExistingSurfaceInfo =
  existing_ref :: string
  existing_app_name :: "string option"
  existing_title :: "string option"
  existing_pid :: u32
  existing_platform_ref :: PlatformSurfaceRef

datatype LaunchPipelineError = LaunchPorthole PortholeError | ReturnedExisting ExistingSurfaceInfo

fun confidence_name :: "Confidence \<Rightarrow> string" where
  "confidence_name Strong = ''Strong''"
| "confidence_name Plausible = ''Plausible''"
| "confidence_name Weak = ''Weak''"

fun require_confidence_name :: "RequireConfidence \<Rightarrow> string" where
  "require_confidence_name ReqStrong = ''Strong''"
| "require_confidence_name ReqPlausible = ''Plausible''"
| "require_confidence_name ReqWeak = ''Weak''"

definition apply_placement ::
    "'w host \<Rightarrow> SurfaceInfo \<Rightarrow> PlacementSpec option \<Rightarrow> ('w, 'e fault, PlacementOutcome) io" where
  "apply_placement H surface placement =
     (case placement of
        None \<Rightarrow> io_return NotRequested
      | Some p \<Rightarrow>
          if is_effectively_empty p then io_return NotRequested
          else (\<lambda>s. case resolve_placement_rect p (adapter H) s of
                 (Inr rect, t) \<Rightarrow>
                   (case adapter_place_surface (adapter H) surface rect t of
                      (Inr _, u) \<Rightarrow> (Inr Applied, u)
                    | (Inl e, u) \<Rightarrow> (Inr (PlacementFailed (err_message e)), u))
               | (Inl (Fault reason), t) \<Rightarrow> (Inr (PlacementFailed reason), t)
               | (Inl Panicked, t) \<Rightarrow> (Inl Panicked, t)))"

definition dispatch_launch :: "'w Adapter \<Rightarrow> LaunchSpec \<Rightarrow> ('w, PortholeError, LaunchOutcome) io" where
  "dispatch_launch A spec =
     (case spec of Process p \<Rightarrow> adapter_launch_process A p | Artifact a \<Rightarrow> adapter_launch_artifact A a)"

definition launch_fault :: "PortholeError \<Rightarrow> LaunchPipelineError fault" where
  "launch_fault e = Fault (LaunchPorthole e)"

text \<open>Steps 2 and 3 of \<open>launch\<close>: the confidence gate and the fresh-surface gate.\<close>

definition launch_gates :: "'w host \<Rightarrow> LaunchSpec \<Rightarrow> LaunchOutcome \<Rightarrow> (LaunchPipelineError fault, unit) result" where
  "launch_gates H spec outcome =
     (if \<not> meets (launch_confidence outcome) (require_confidence spec)
      then Inl (launch_fault (PortholeError_new LaunchCorrelationAmbiguous
             (Msg ''launch correlation returned confidence {:?}; required {:?}''
                [FStr (confidence_name (launch_confidence outcome)),
                 FStr (require_confidence_name (require_confidence spec))])))
      else if require_fresh_surface spec \<and> surface_was_preexisting outcome
      then (let surface = launched_surface outcome; p = (case pid surface of Some p \<Rightarrow> p | None \<Rightarrow> 0) in
            case platform_ref surface of
              None \<Rightarrow> Inl (launch_fault (PortholeError_new InternalError
                        (Msg ''preexisting launch surface has no platform_ref'' [])))
            | Some r \<Rightarrow> Inl (Fault (ReturnedExisting
                \<lparr>existing_ref = encode_ref H p r, existing_app_name = app_name surface,
                 existing_title = title surface, existing_pid = p, existing_platform_ref = r\<rparr>)))
      else Inr ())"

text \<open>Step 5: a preexisting window is moved only when the caller forces it.\<close>

definition place_launched ::
    "'w host \<Rightarrow> LaunchSpec \<Rightarrow> PlacementSpec option \<Rightarrow> bool \<Rightarrow> SurfaceInfo \<Rightarrow> ('w, 'e fault, PlacementOutcome) io" where
  "place_launched H spec placement preexisting stored =
     (if preexisting
      then (if (case placement of Some p \<Rightarrow> \<not> is_effectively_empty p | None \<Rightarrow> False)
            then (if force_place spec then apply_placement H stored placement
                  else io_return SkippedPreexisting)
            else io_return NotRequested)
      else apply_placement H stored placement)"

text \<open>Steps 4 and 5: the handle, then the placement.\<close>

definition track_and_place ::
    "'w host \<Rightarrow> LaunchSpec \<Rightarrow> PlacementSpec option \<Rightarrow> LaunchOutcome
     \<Rightarrow> ('w, LaunchPipelineError fault, LaunchPipelineOutcome) io" where
  "track_and_place H spec placement outcome =
     io_bind (track_call (launched_surface outcome)) (\<lambda>(stored, reused).
     io_bind (place_launched H spec placement (surface_was_preexisting outcome) stored) (\<lambda>placed.
     io_return \<lparr>launch_outcome = outcome\<lparr>launched_surface := stored\<rparr>, launch_placement = placed\<rparr>))"

definition launch ::
    "'w host \<Rightarrow> LaunchSpec \<Rightarrow> PlacementSpec option \<Rightarrow> ('w, LaunchPipelineError fault, LaunchPipelineOutcome) io" where
  "launch H spec placement =
     (if require_fresh_surface spec \<and> force_place spec
      then io_fail (launch_fault (PortholeError_new InvalidArgument
             (Msg ''force_place cannot be combined with require_fresh_surface'' [])))
      else io_bind (case placement of
                      Some p \<Rightarrow> io_map_err launch_fault (validate_placement p (adapter H))
                    | None \<Rightarrow> io_return ()) (\<lambda>_.
           io_bind (io_map_err launch_fault (dispatch_launch (adapter H) spec)) (\<lambda>outcome.
           io_bind (io_result (launch_gates H spec outcome)) (\<lambda>_.
           track_and_place H spec placement outcome))))"

definition launch_process :: "'w host \<Rightarrow> ProcessLaunchSpec \<Rightarrow> ('w, PortholeError fault, LaunchOutcome) io" where
  "launch_process H spec s =
     (case launch H (Process spec) None s of
        (Inr out, t) \<Rightarrow> (Inr (launch_outcome out), t)
      | (Inl (Fault (LaunchPorthole e)), t) \<Rightarrow> (Inl (Fault e), t)
      | (Inl (Fault (ReturnedExisting _)), t) \<Rightarrow>
          (Inl (Fault (PortholeError_new LaunchReturnedExisting
             (Msg ''process launch returned existing (should be unreachable for process kind)'' []))), t)
      | (Inl Panicked, t) \<Rightarrow> (Inl Panicked, t))"

text \<open>The task that \<open>schedule_auto_dismiss\<close> spawns, from the moment its timer fires.\<close>

definition auto_dismiss :: "'w host \<Rightarrow> SurfaceId \<Rightarrow> 'w system \<Rightarrow> 'w system" where
  "auto_dismiss H surface s =
     (case require_alive (sys_handles s) surface of
        Inl _ \<Rightarrow> s
      | Inr info \<Rightarrow>
          (case adapter_close (adapter H) info s of
             (Inr _, t) \<Rightarrow> snd (dead_call surface t)
           | (Inl _, t) \<Rightarrow> t))"

section \<open>Replacing\<close>

record ReplaceOutcome =
  replace_new :: LaunchPipelineOutcome
  old_surface_id :: SurfaceId

datatype ReplacePipelineError =
    ReplacePorthole PortholeError bool \<comment> \<open>\<open>old_handle_alive\<close>\<close>
  | ReplaceReturnedExisting ExistingSurfaceInfo bool

fun replace_launch_error :: "LaunchPipelineError fault \<Rightarrow> ReplacePipelineError fault" where
  "replace_launch_error (Fault (LaunchPorthole e)) = Fault (ReplacePorthole e False)"
| "replace_launch_error (Fault (ReturnedExisting info)) = Fault (ReplaceReturnedExisting info False)"
| "replace_launch_error Panicked = Panicked"

definition inherited_placement :: "PlacementSpec option \<Rightarrow> GeometrySnapshot option \<Rightarrow> PlacementSpec option" where
  "inherited_placement caller snapshot =
     (case (caller, snapshot) of
        (None, Some snap) \<Rightarrow> Some
          \<lparr>on_display = Some (TargetId (snap_display_id snap)), geometry = Some (snap_display_local snap), anchor = None\<rparr>
      | _ \<Rightarrow> caller)"

text \<open>Step 2: close the old surface; the handle follows what the adapter reports.\<close>

definition close_old :: "'w host \<Rightarrow> SurfaceId \<Rightarrow> SurfaceInfo \<Rightarrow> ('w, ReplacePipelineError fault, unit) io" where
  "close_old H old_id old_info s =
     (case adapter_close (adapter H) old_info s of
        (Inl e, t) \<Rightarrow>
          (let old_handle_alive = (err_code e \<noteq> SurfaceDead) in
           (Inl (Fault (ReplacePorthole e old_handle_alive)), if old_handle_alive then t else snd (dead_call old_id t)))
      | (Inr _, t) \<Rightarrow> io_map_err (\<lambda>e. Fault (ReplacePorthole e False)) (dead_call old_id) t)"

definition replace ::
    "'w host \<Rightarrow> SurfaceId \<Rightarrow> LaunchSpec \<Rightarrow> PlacementSpec option \<Rightarrow> ('w, ReplacePipelineError fault, ReplaceOutcome) io" where
  "replace H old_id new_spec caller_placement =
     io_bind (io_map_err (\<lambda>e. Fault (ReplacePorthole e False)) (alive_call old_id)) (\<lambda>old_info.
     io_bind (\<lambda>s. case adapter_snapshot_geometry (adapter H) old_info s of (r, t) \<Rightarrow> (Inr (ok r), t)) (\<lambda>snapshot.
     io_bind (close_old H old_id old_info) (\<lambda>_.
     io_bind (io_map_err replace_launch_error
                (launch H new_spec (inherited_placement caller_placement snapshot))) (\<lambda>out.
     io_return \<lparr>replace_new = out, old_surface_id = old_id\<rparr>))))"

section \<open>Waiting\<close>

datatype WaitPipelineError = WaitPorthole PortholeError | Timeout LastObserved u64

definition bad_threshold :: "f64 \<Rightarrow> bool" where
  "bad_threshold t \<longleftrightarrow> \<not> is_finite t \<or> f64_less t f64_zero \<or> f64_less (Finite 100) t"

definition check_threshold :: "f64 \<Rightarrow> (WaitPipelineError, unit) result" where
  "check_threshold t =
     (if bad_threshold t
      then Inl (WaitPorthole (PortholeError_new InvalidArgument
             (Msg ''threshold_pct must be in [0, 100]; got {threshold_pct}'' [FF64 t])))
      else Inr ())"

fun validate_condition :: "'w host \<Rightarrow> WaitCondition \<Rightarrow> (WaitPipelineError, unit) result" where
  "validate_condition H (Stable _ t) = check_threshold t"
| "validate_condition H (Dirty t) = check_threshold t"
| "validate_condition H (TitleMatches pattern) =
     map_err (\<lambda>e. WaitPorthole (PortholeError_new InvalidArgument
       (Msg ''invalid regex '{pattern}': {e}'' [FStr pattern, FStr e]))) (regex_new H pattern)"
| "validate_condition H Exists = Inr ()"
| "validate_condition H Gone = Inr ()"

fun required_permissions :: "WaitCondition \<Rightarrow> string list" where
  "required_permissions (Stable _ _) = [''screen_recording'', ''accessibility'']"
| "required_permissions (Dirty _) = [''screen_recording'', ''accessibility'']"
| "required_permissions (TitleMatches _) = [''screen_recording'', ''accessibility'']"
| "required_permissions _ = [''accessibility'']"

fun ensure_all :: "'w Adapter \<Rightarrow> string list \<Rightarrow> ('w, PortholeError, unit) io" where
  "ensure_all A [] = io_return ()"
| "ensure_all A (name # names) = io_bind (adapter_ensure_system_permission A name) (\<lambda>_. ensure_all A names)"

definition wait ::
    "'w host \<Rightarrow> SurfaceId \<Rightarrow> WaitCondition \<Rightarrow> Duration \<Rightarrow> ('w, WaitPipelineError fault, WaitOutcome) io" where
  "wait H surface condition timeout_duration =
     io_bind (io_result (map_err Fault (validate_condition H condition))) (\<lambda>_.
     io_bind (io_map_err (\<lambda>e. Fault (WaitPorthole e)) (alive_call surface)) (\<lambda>info.
     io_bind (io_result (map_err (\<lambda>e. Fault (WaitPorthole e)) (adapter_validate_wait (adapter H) condition))) (\<lambda>_.
     io_bind (io_map_err (\<lambda>e. Fault (WaitPorthole e)) (ensure_all (adapter H) (required_permissions condition))) (\<lambda>_ s.
     case deadline_after H s timeout_duration of
       None \<Rightarrow> (Inl Panicked, s)
     | Some deadline \<Rightarrow>
         io_map_err (\<lambda>w. Fault (Timeout (timeout_last_observed w) (timeout_elapsed_ms w)))
           (adapter_wait (adapter H) info condition deadline) s))))"

section \<open>The pipelines use the handle store as other tasks do\<close>

lemma call_ok_state: "(\<And>s. sys_step sane s (snd (m s))) \<Longrightarrow> call_ok sane m"
  by (simp add: call_ok_def)

lemma call_ok_step: "call_ok sane m \<Longrightarrow> sys_step sane s (snd (m s))"
  by (simp add: call_ok_def)

text \<open>Tracking reads back as the surface it returns, which is alive.\<close>

lemma track_call_result:
  assumes "track_call c s = (Inr (info, reused), t)" and "new_surface c s" and "handles_wf (sys_handles s)"
  shows "store_get (sys_handles t) (surface_id info) = Inr info" and "state info = Alive"
proof -
  from assms(1) have tr: "track_or_get c (sys_handles s) = ((info, reused), sys_handles t)"
    by (auto simp: track_call_def split: prod.splits)
  show "store_get (sys_handles t) (surface_id info) = Inr info"
    using handles.get_track [OF assms(3) tr, of "surface_id info"] by simp
  show "state info = Alive"
    using tr assms(2) by (auto simp: track_or_get_def new_surface_def ref_alive_def find_Some_iff
        split: option.splits)
qed

lemma track_call_not_Inl [simp]: "track_call c s \<noteq> (Inl e, t)"
  by (simp add: track_call_def split: prod.splits)

lemma track_call_stepD: "track_call c s = (r, t) \<Longrightarrow> new_surface c s \<Longrightarrow> sys_step sane s t"
  using track_call_step by (metis snd_conv)

lemma dead_call_step: "sys_step sane s (snd (dead_call i s))"
  using call_ok_dead [of sane i] by (simp add: call_ok_def)

context pipeline_host
begin

lemma call_ok_validate_placement: "call_ok sane (validate_placement p (adapter H))"
  unfolding validate_placement_def
  by (auto intro!: call_ok_intros split: option.split DisplayTarget.split)

lemma call_ok_resolve: "call_ok sane (resolve_placement_rect p (adapter H))"
  unfolding resolve_placement_rect_def by (intro call_ok_intros)

lemma call_ok_apply_placement [call_ok_intros]: "call_ok sane (apply_placement H surface placement)"
proof (cases placement)
  case None
  then show ?thesis by (simp add: apply_placement_def call_ok_return)
next
  case (Some p)
  have "sys_step sane s (snd (apply_placement H surface placement s))" for s
  proof (cases "resolve_placement_rect p (adapter H) s")
    case (Pair r t)
    have st: "sys_step sane s t" using call_okD [OF call_ok_resolve Pair] .
    have "sys_step sane s u" if "adapter_place_surface (adapter H) surface rect t = (x, u)" for rect x u
      using sys_step_trans [OF st call_okD [OF query_ok(6) that]] .
    with st Pair Some show ?thesis
      by (auto simp: apply_placement_def io_return_def split: sum.splits prod.splits fault.splits)
  qed
  then show ?thesis by (rule call_ok_state)
qed

lemma dispatch_ok: "call_ok sane (dispatch_launch (adapter H) spec)"
  by (simp add: dispatch_launch_def launch_process_ok launch_artifact_ok split: LaunchSpec.split)

lemma dispatch_new:
  "sane (world s) \<Longrightarrow> dispatch_launch (adapter H) spec s = (Inr out, t) \<Longrightarrow> new_surface (launched_surface out) t"
  by (auto simp: dispatch_launch_def process_surface_new artifact_surface_new split: LaunchSpec.splits)

lemma call_ok_place_launched [call_ok_intros]: "call_ok sane (place_launched H spec placement pre stored)"
  unfolding place_launched_def by (intro call_ok_intros)

lemma track_and_place_step:
  assumes "new_surface (launched_surface outcome) t"
  shows "sys_step sane t (snd (track_and_place H spec placement outcome t))"
proof -
  obtain info reused u where
    tr: "(track_call (launched_surface outcome) t :: (LaunchPipelineError fault, _) result \<times> _) = (Inr (info, reused), u)"
    by (metis surj_pair sum.exhaust track_call_not_Inl)
  let ?rest = "io_bind (place_launched H spec placement (surface_was_preexisting outcome) info)
     (\<lambda>placed. io_return \<lparr>launch_outcome = outcome\<lparr>launched_surface := info\<rparr>, launch_placement = placed\<rparr>)"
  have "sys_step sane t u" using track_call_stepD [OF tr assms] .
  moreover have "sys_step sane u (snd (?rest u))"
    by (rule call_ok_step) (intro call_ok_intros)
  moreover have "track_and_place H spec placement outcome t = ?rest u"
    unfolding track_and_place_def by (subst io_bind_def) (simp add: tr)
  ultimately show ?thesis using sys_step_trans by metis
qed

lemma call_ok_launch: "call_ok sane (launch H spec placement)"
proof -
  have tail: "call_ok sane (io_bind (io_map_err launch_fault (dispatch_launch (adapter H) spec)) (\<lambda>outcome.
           io_bind (io_result (launch_gates H spec outcome)) (\<lambda>_.
           track_and_place H spec placement outcome)))"
  proof (rule call_ok_bind_with [OF call_ok_map_err [OF dispatch_ok]])
    fix outcome s t
    assume "io_map_err launch_fault (dispatch_launch (adapter H) spec) s = (Inr outcome, t)" and "sane (world s)"
    then have "new_surface (launched_surface outcome) t" using dispatch_new by (auto simp: io_simps)
    from track_and_place_step [OF this]
    show "sys_step sane t (snd (io_bind (io_result (launch_gates H spec outcome)) (\<lambda>_.
           track_and_place H spec placement outcome) t))"
      by (simp add: io_bind_def io_result_def split: sum.split)
  qed
  show ?thesis
    unfolding launch_def
    by (intro call_ok_intros tail) (auto intro!: call_ok_intros call_ok_validate_placement split: option.split)
qed

lemma auto_dismiss_step: "sys_step sane s (auto_dismiss H i s)"
proof (cases "require_alive (sys_handles s) i")
  case (Inr info)
  obtain r t where c: "adapter_close (adapter H) info s = (r, t)" by force
  have "sys_step sane s t" using call_okD [OF input_ok(9) c] .
  moreover have "sys_step sane t (snd (dead_call i t))" by (rule dead_call_step)
  ultimately show ?thesis using Inr c sys_step_trans by (auto simp: auto_dismiss_def split: sum.split)
qed (simp add: auto_dismiss_def)

lemma call_ok_close_old [call_ok_intros]: "call_ok sane (close_old H i info)"
proof (rule call_ok_state)
  fix s
  obtain r t where c: "adapter_close (adapter H) info s = (r, t)" by force
  have st: "sys_step sane s t" using call_okD [OF input_ok(9) c] .
  then have "sys_step sane s (snd (dead_call i t))" using dead_call_step by (rule sys_step_trans)
  with st c show "sys_step sane s (snd (close_old H i info s))"
    by (auto simp: close_old_def io_map_err_def Let_def split: sum.split prod.split)
qed

lemma call_ok_snapshot [call_ok_intros]:
  "call_ok sane (\<lambda>s. case adapter_snapshot_geometry (adapter H) info s of (r, t) \<Rightarrow> (Inr (ok r), t))"
  using query_ok(7) [of info] by (auto simp: call_ok_def split: prod.split) (metis snd_conv)

lemma call_ok_replace: "call_ok sane (replace H i spec placement)"
  unfolding replace_def by (intro call_ok_intros call_ok_launch)

lemma call_ok_attach_search: "call_ok sane (attach_search H q)"
  unfolding attach_search_def by (auto intro!: call_ok_intros split: option.split sum.split)

lemma call_ok_ensure_all [call_ok_intros]: "call_ok sane (ensure_all (adapter H) names)"
  by (induction names) (auto intro!: call_ok_intros)

lemma call_ok_wait: "call_ok sane (wait H i c d)"
proof -
  have "call_ok sane (\<lambda>s. case deadline_after H s d of None \<Rightarrow> (Inl Panicked, s)
     | Some deadline \<Rightarrow> io_map_err (\<lambda>w. Fault (Timeout (timeout_last_observed w) (timeout_elapsed_ms w)))
           (adapter_wait (adapter H) info c deadline) s)" for info
    by (intro call_ok_state) (auto split: option.split intro: call_ok_step call_ok_map_err query_ok)
  then show ?thesis unfolding wait_def by (intro call_ok_intros)
qed

lemma call_ok_attach_track: "call_ok sane (attach_track H r)"
proof -
  have "call_ok sane (io_bind (adapter_surface_alive (adapter H) p r) (\<lambda>found.
     case found of
       None \<Rightarrow> io_fail (e p r)
     | Some info \<Rightarrow>
         io_bind (track_call info) (\<lambda>(surface, reused).
         io_return \<lparr>tracked_surface = surface, reused_existing_handle = reused\<rparr>)))" for p r and e :: "u32 \<Rightarrow> PlatformSurfaceRef \<Rightarrow> PortholeError"
  proof (rule call_ok_bind_with [OF surface_alive_ok])
    fix found s t
    assume a: "adapter_surface_alive (adapter H) p r s = (Inr found, t)" "sane (world s)"
    show "sys_step sane t (snd ((case found of None \<Rightarrow> io_fail (e p r)
     | Some info \<Rightarrow> io_bind (track_call info) (\<lambda>(surface, reused).
         io_return \<lparr>tracked_surface = surface, reused_existing_handle = reused\<rparr>)) t))"
      using track_call_stepD found_surface_new [OF a(2)] a(1)
      by (fastforce simp: io_fail_def io_bind_def io_return_def split: option.split prod.split sum.split)
  qed
  then show ?thesis
    unfolding attach_track_def by (intro call_ok_bind call_ok_result) (auto split: prod.split)
qed

end

end
