(* ===== verification/Pipeline_Runs.thy ===== *)
theory Pipeline_Runs
  imports Surface_Pipelines
begin

text \<open>
  Runs of the pipelines as a step relation, and what their callers rely on: the handle store is
  used only through its operations, launched surfaces are tracked and failed launches are not,
  \<open>replace\<close> is truthful about the surface it closes, and candidate refs lead back to their window.
\<close>

section \<open>Runs of the pipelines\<close>

text \<open>
  One step is one call into a pipeline, with any arguments; what other tasks do meanwhile is part
  of the adapter calls in it.
\<close>

inductive pipeline_step :: "'w host \<Rightarrow> 'w system \<Rightarrow> 'w system \<Rightarrow> bool" for H where
  key: "pipeline_step H s (snd (input_key H i events s))"
| type_text: "pipeline_step H s (snd (input_text H i t s))"
| click: "pipeline_step H s (snd (input_click H i c units s))"
| scroll: "pipeline_step H s (snd (input_scroll H i w units s))"
| pointer_move: "pipeline_step H s (snd (input_pointer_move H i p units s))"
| key_stroke: "pipeline_step H s (snd (input_key_stroke H i k s))"
| button: "pipeline_step H s (snd (input_button H i b units s))"
| release_held: "pipeline_step H s (snd (input_release_held H i s))"
| close: "pipeline_step H s (snd (input_close H i s))"
| focus: "pipeline_step H s (snd (input_focus H i s))"
| begin_drive: "pipeline_step H s (snd (input_begin_drive H i s))"
| end_drive: "pipeline_step H s (input_end_drive H i s)"
| place: "pipeline_step H s (snd (input_place H i r units s))"
| content_rect: "pipeline_step H s (snd (input_content_rect H i units s))"
| logical_size: "pipeline_step H s (snd (window_logical_size H i s))"
| search: "pipeline_step H s (snd (attach_search H q s))"
| track: "pipeline_step H s (snd (attach_track H rf s))"
| launch: "pipeline_step H s (snd (launch H spec placement s))"
| dismiss: "pipeline_step H s (auto_dismiss H i s)"
| replace: "pipeline_step H s (snd (replace H i spec placement s))"
| wait: "pipeline_step H s (snd (wait H i cond d s))"

inductive pipeline_run :: "'w host \<Rightarrow> 'w system \<Rightarrow> 'w system \<Rightarrow> bool" for H where
  start: "pipeline_run H s s"
| step: "pipeline_run H s t \<Longrightarrow> pipeline_step H t u \<Longrightarrow> pipeline_run H s u"

context pipeline_host
begin

lemma pipeline_step_ok: "pipeline_step H s t \<Longrightarrow> sys_step sane s t"
  by (induction rule: pipeline_step.induct)
    (auto intro: call_ok_step input_calls_ok end_drive_step auto_dismiss_step call_ok_attach_search
      call_ok_attach_track call_ok_launch call_ok_replace call_ok_wait)

lemma pipeline_run_ok: "pipeline_run H s t \<Longrightarrow> sys_step sane s t"
  by (induction rule: pipeline_run.induct) (auto intro: pipeline_step_ok sys_step_trans)

end

text \<open>
  C21: Every sequence of calls into the input, attach, launch, replace and wait pipelines, with
  any arguments, outcomes and interference by other tasks, acts on the handle store as a
  sequence of \<open>track_or_get\<close> and \<open>mark_dead\<close> operations.  From an empty store no window ever gets
  two live handles, and a handle, once returned, is never forgotten.
\<close>

theorem pipelines_refine_handle_store:
  assumes "adapter_contract (adapter H) sane" and "sane (world s)"
    and "sys_handles s = HandleStore_new" and "pipeline_run H s t" and "pipeline_run H t u"
    and "store_get (sys_handles t) i = Inr info" and "store_get (sys_handles u) j = Inr info'"
    and "ref_alive r info" and "ref_alive r info'"
  shows "handle_steps (sys_handles s) (sys_handles u)
    \<and> is_ok (store_get (sys_handles u) i)
    \<and> (is_ok (require_alive (sys_handles u) i) \<longrightarrow> i = j)"
proof -
  have host: "pipeline_host H sane" using assms(1) by (rule pipeline_host.intro)
  have st: "handle_steps (sys_handles s) (sys_handles t)" and "sane (world t)"
    using pipeline_host.pipeline_run_ok [OF host assms(4)] assms(2) by (auto simp: sys_step_def)
  then have tu: "handle_steps (sys_handles t) (sys_handles u)"
    using pipeline_host.pipeline_run_ok [OF host assms(5)] by (auto simp: sys_step_def)
  have wf: "handles_wf (sys_handles t)" using handle_steps_wf [OF st] assms(3) by simp
  have later: "store_get (sys_handles u) i = Inr info \<or> store_get (sys_handles u) i = Inr (info\<lparr>state := Dead\<rparr>)"
    using handles.steps_get [OF handle_steps_steps [OF tu] wf assms(6)] .
  have "i = j" if alive: "is_ok (require_alive (sys_handles u) i)"
  proof -
    have "store_get (sys_handles u) i = Inr info"
      using later alive by (auto simp: require_alive_def)
    then have "(i, info) \<in> set (sys_handles u)" "(j, info') \<in> set (sys_handles u)"
      using assms(7) by (auto simp: store_get_def result_simps dest: map_of_SomeD)
    with assms(8,9) show ?thesis
      using unique_alive_refsD [OF handles_wfD(3) [OF handle_steps_wf [OF tu wf]]] by blast
  qed
  with later handle_steps_trans [OF tu st] show ?thesis by auto
qed

section \<open>Launching\<close>

context pipeline_host
begin

lemma launch_preflight_ok:
  "call_ok sane (case placement of Some p \<Rightarrow> io_map_err launch_fault (validate_placement p (adapter H)) | None \<Rightarrow> io_return ())"
  by (auto intro!: call_ok_intros call_ok_validate_placement split: option.split)

lemma launch_Inr:
  assumes "launch H spec placement s = (Inr out, s')" and "sane (world s)" and "handles_wf (sys_handles s)"
  obtains hs where "handle_steps (sys_handles s) hs"
    and "store_get hs (surface_id (launched_surface (launch_outcome out)))
           = Inr (launched_surface (launch_outcome out))"
    and "state (launched_surface (launch_outcome out)) = Alive"
    and "handle_steps hs (sys_handles s')"
    and "meets (launch_confidence (launch_outcome out)) (require_confidence spec)"
    and "require_fresh_surface spec \<Longrightarrow> \<not> surface_was_preexisting (launch_outcome out)"
proof -
  have "\<not> (require_fresh_surface spec \<and> force_place spec)"
    using assms(1) by (auto simp: launch_def io_fail_def)
  with assms(1) obtain a t outcome v where
    pre: "(case placement of Some p \<Rightarrow> io_map_err launch_fault (validate_placement p (adapter H))
           | None \<Rightarrow> io_return ()) s = (Inr a, t)"
    and disp: "dispatch_launch (adapter H) spec t = (Inr outcome, v)"
    and gates: "launch_gates H spec outcome = Inr ()"
    and fin: "track_and_place H spec placement outcome v = (Inr out, s')"
    unfolding launch_def by (auto simp: io_bind_Inr io_result_eq io_map_err_Inr)
  from fin obtain info reused u where
    tr: "(track_call (launched_surface outcome) v :: (LaunchPipelineError fault, _) result \<times> _) = (Inr (info, reused), u)"
    and rest: "io_bind (place_launched H spec placement (surface_was_preexisting outcome) info)
     (\<lambda>placed. io_return \<lparr>launch_outcome = outcome\<lparr>launched_surface := info\<rparr>, launch_placement = placed\<rparr>) u
       = (Inr out :: (LaunchPipelineError fault, _) result, s')"
    unfolding track_and_place_def io_bind_Inr [of "track_call (launched_surface outcome)"] by auto
  have st: "sane (world t) \<and> handle_steps (sys_handles s) (sys_handles t)"
    using call_okD [OF launch_preflight_ok pre] assms(2) by (simp add: sys_step_def)
  have tv: "sane (world v) \<and> handle_steps (sys_handles t) (sys_handles v)"
    using call_okD [OF dispatch_ok disp] st by (simp add: sys_step_def)
  have new: "new_surface (launched_surface outcome) v" using dispatch_new disp st by blast
  have vu: "sane (world u) \<and> handle_steps (sys_handles v) (sys_handles u)"
    using track_call_stepD [OF tr new, of sane] tv by (simp add: sys_step_def)
  have us': "handle_steps (sys_handles u) (sys_handles s')"
    using call_okD [OF call_ok_bind [OF call_ok_place_launched call_ok_return] rest] vu by (simp add: sys_step_def)
  have su: "handle_steps (sys_handles s) (sys_handles u)"
    using st tv vu handle_steps_trans by blast
  have wf: "handles_wf (sys_handles v)"
    using handle_steps_wf [OF _ assms(3)] st tv handle_steps_trans by blast
  have out: "launched_surface (launch_outcome out) = info"
    "launch_confidence (launch_outcome out) = launch_confidence outcome"
    "surface_was_preexisting (launch_outcome out) = surface_was_preexisting outcome"
    using rest by (auto simp: io_simps)
  have ok: "meets (launch_confidence outcome) (require_confidence spec)"
    "require_fresh_surface spec \<Longrightarrow> \<not> surface_was_preexisting outcome"
    using gates by (auto simp: launch_gates_def Let_def split: if_splits option.splits)
  show ?thesis
    using that [OF su _ _ us'] track_call_result [OF tr new wf] ok by (simp add: out)
qed

end

text \<open>
  C34: A launch that succeeds hands out a handle that was live when it was stored: the surface in
  the outcome is the store's entry under its id (until another task closes it), the correlation
  confidence meets what the caller required, and a caller that required a fresh surface does
  not get a preexisting window.
\<close>

theorem launched_surface_is_tracked:
  assumes "adapter_contract (adapter H) sane" and "sane (world s)" and "handles_wf (sys_handles s)"
    and "launch H spec placement s = (Inr out, s')"
  shows "(let surface = launched_surface (launch_outcome out) in
       state surface = Alive
     \<and> (store_get (sys_handles s') (surface_id surface) = Inr surface
        \<or> store_get (sys_handles s') (surface_id surface) = Inr (surface\<lparr>state := Dead\<rparr>)))
     \<and> meets (launch_confidence (launch_outcome out)) (require_confidence spec)
     \<and> (require_fresh_surface spec \<longrightarrow> \<not> surface_was_preexisting (launch_outcome out))
     \<and> handles_wf (sys_handles s')"
proof -
  obtain hs where hs: "handle_steps (sys_handles s) hs" "handle_steps hs (sys_handles s')"
    and get: "store_get hs (surface_id (launched_surface (launch_outcome out))) = Inr (launched_surface (launch_outcome out))"
    and rest: "state (launched_surface (launch_outcome out)) = Alive"
      "meets (launch_confidence (launch_outcome out)) (require_confidence spec)"
      "require_fresh_surface spec \<Longrightarrow> \<not> surface_was_preexisting (launch_outcome out)"
    using pipeline_host.launch_Inr [OF pipeline_host.intro [OF assms(1)] assms(4,2,3)] by blast
  have wf: "handles_wf hs" using hs(1) assms(3) by (rule handle_steps_wf)
  show ?thesis
    unfolding Let_def
    using handles.steps_get [OF handle_steps_steps [OF hs(2)] wf get] handle_steps_wf [OF hs(2) wf] rest by blast
qed

text \<open>
  A launch that reports an error has tracked no handle: the system is as it was, or as the
  one adapter call that preceded the error left it (enumerating the displays, or the launch
  itself).  In particular a launch refused by the confidence gate or the fresh-surface gate
  leaves the window without a handle.
\<close>

theorem failed_launch_tracks_nothing:
  assumes "launch H spec placement s = (Inl (Fault e), s')"
  shows "s' = s
    \<or> (\<exists>r. adapter_displays (adapter H) s = (r, s'))
    \<or> (\<exists>r. dispatch_launch (adapter H) spec s = (r, s'))
    \<or> (\<exists>r r' t. adapter_displays (adapter H) s = (r, t) \<and> dispatch_launch (adapter H) spec t = (r', s'))"
proof -
  have pre: "t = s \<or> (\<exists>x. adapter_displays (adapter H) s = (x, t))"
    if "(case placement of Some p \<Rightarrow> io_map_err launch_fault (validate_placement p (adapter H))
         | None \<Rightarrow> io_return ()) s = (r, t)" for r t
    using that
    by (auto simp: validate_placement_def io_map_err_def io_return_def io_bind_def io_fail_def
        split: option.splits if_splits DisplayTarget.splits prod.splits sum.splits)
  have fin: "track_and_place H spec placement outcome t \<noteq> (Inl (Fault e), s')" for outcome t
  proof
    assume "track_and_place H spec placement outcome t = (Inl (Fault e), s')"
    then obtain stored u where "place_launched H spec placement (surface_was_preexisting outcome) stored u = (Inl (Fault e), s')"
      by (auto simp: track_and_place_def io_bind_Inl io_return_eq)
    then show False
      by (auto simp: place_launched_def apply_placement_def io_return_def
          split: if_splits option.splits sum.splits prod.splits fault.splits)
  qed
  show ?thesis
  proof (cases "require_fresh_surface spec \<and> force_place spec")
    case True
    with assms show ?thesis by (simp add: launch_def io_fail_eq)
  next
    case False
    with assms fin obtain t r where "t = s' \<and> (case placement of Some p \<Rightarrow> io_map_err launch_fault (validate_placement p (adapter H))
           | None \<Rightarrow> io_return ()) s = (r, t)
      \<or> (case placement of Some p \<Rightarrow> io_map_err launch_fault (validate_placement p (adapter H))
           | None \<Rightarrow> io_return ()) s = (r, t) \<and> (\<exists>x. dispatch_launch (adapter H) spec t = (x, s'))"
      unfolding launch_def by (auto simp: io_bind_Inl io_result_eq io_map_err_Inl io_map_err_Inr)
    with pre show ?thesis by blast
  qed
qed

section \<open>Concrete runs\<close>

text \<open>The scripted adapter, with launches that report the window they found.\<close>

definition window_adapter :: "InMemoryAdapter Adapter" where
  "window_adapter = (in_memory longest_id)\<lparr>adapter_launch_process := (\<lambda>spec s.
     (Inr ((make_default_launch_outcome (longest_id s) 4242)\<lparr>launched_surface := example_window (longest_id s)\<rparr>), s))\<rparr>"

definition window_host :: "InMemoryAdapter host" where
  "window_host = example_host\<lparr>adapter := window_adapter\<rparr>"

definition empty_system :: "InMemoryAdapter system" where
  "empty_system = \<lparr>sys_handles = HandleStore_new, world = InMemoryAdapter_new\<rparr>"

definition example_spec :: LaunchSpec where
  "example_spec = Process
     \<lparr>process_app = ''term'', process_args = [], process_cwd = None, process_env = [], process_timeout = 1,
      process_require_confidence = ReqStrong, process_require_fresh_surface = False, process_force_place = False\<rparr>"

lemma window_host_contract: "adapter_contract (adapter window_host) unscripted"
proof -
  have new: "new_surface (example_window (longest_id s)) s" for s :: "InMemoryAdapter system"
    using mints_new_longest_id
    by (simp add: new_surface_def mints_new_def example_window_def SurfaceInfo_window_def)
  have A: "adapter window_host = window_adapter" by (simp add: window_host_def)
  have launch: "call_ok unscripted (adapter_launch_process window_adapter p)" for p
    by (simp add: call_ok_def window_adapter_def)
  have found: "new_surface (launched_surface out) s'"
    if "adapter_launch_process window_adapter p s = (Inr out, s')" for p s out s'
    using that new by (auto simp: window_adapter_def make_default_launch_outcome_def)
  show ?thesis
    unfolding A
    by (rule adapter_contract.intro)
      (simp_all add: launch found, simp_all add: window_adapter_def in_mem.launch_artifact_ok in_mem.surface_alive_ok
        in_mem.input_ok in_mem.query_ok in_mem.artifact_surface_new in_mem.found_surface_new)
qed

lemma empty_system_simps [simp]:
  "sys_handles empty_system = HandleStore_new" "unscripted (world empty_system)"
  by (simp_all add: empty_system_def)

lemma empty_longest_id: "longest_id empty_system = ''surf_''"
  by (simp add: longest_id_def empty_system_def HandleStore_new_def)

definition example_launched :: "InMemoryAdapter system" where
  "example_launched = empty_system\<lparr>sys_handles := [(''surf_'', example_window ''surf_'')]\<rparr>"

lemma example_launch:
  "launch window_host example_spec None empty_system =
     (Inr \<lparr>launch_outcome = (make_default_launch_outcome ''surf_'' 4242)\<lparr>launched_surface := example_window ''surf_''\<rparr>,
           launch_placement = NotRequested\<rparr>, example_launched)"
proof -
  have "surface_id (example_window i) = i" for i by (simp add: example_window_def SurfaceInfo_window_def)
  moreover have "platform_ref (example_window i) = Some (Macos 42)" for i by (simp add: example_window_def)
  ultimately have "track_or_get (example_window ''surf_'') HandleStore_new
      = ((example_window ''surf_'', False), [(''surf_'', example_window ''surf_'')])"
    by (simp add: track_or_get_def HandleStore_new_def store_insert_def)
  then show ?thesis
    by (simp add: launch_def example_spec_def io_bind_def io_return_def io_result_def io_map_err_def dispatch_launch_def
        window_host_def window_adapter_def empty_longest_id launch_gates_def make_default_launch_outcome_def
        track_and_place_def track_call_def place_launched_def apply_placement_def example_launched_def)
qed

theorem launched_surface_is_tracked_witness:
  "store_get (sys_handles example_launched) ''surf_'' = Inr (example_window ''surf_'') \<and> handles_wf (sys_handles example_launched)"
  using launched_surface_is_tracked [OF window_host_contract _ _ example_launch]
  by (simp add: example_launched_def store_get_def example_window_def SurfaceInfo_window_def)

theorem pipelines_refine_handle_store_witness:
  "handle_steps (sys_handles empty_system) (sys_handles example_launched)"
proof -
  have get: "store_get (sys_handles example_launched) ''surf_'' = Inr (example_window ''surf_'')"
    by (simp add: example_launched_def store_get_def)
  have ref: "ref_alive (Macos 42) (example_window ''surf_'')"
    by (simp add: ref_alive_def example_window_def SurfaceInfo_window_def)
  have "pipeline_step window_host empty_system (snd (launch window_host example_spec None empty_system))"
    by (rule pipeline_step.launch)
  then have "pipeline_run window_host empty_system example_launched"
    using pipeline_run.step [OF pipeline_run.start] by (simp add: example_launch)
  from pipelines_refine_handle_store [OF window_host_contract _ _ this pipeline_run.start get get ref ref]
  show ?thesis by simp
qed

text \<open>A launch that finds its window with weak confidence only.\<close>

definition weak_system :: "InMemoryAdapter system" where
  "weak_system = empty_system\<lparr>world := InMemoryAdapter_new\<lparr>script := Script_default\<lparr>next_launch_outcome :=
     Some (Inr ((make_default_launch_outcome ''surf_'' 4242)\<lparr>launch_confidence := Weak\<rparr>))\<rparr>\<rparr>\<rparr>"

lemma weak_launch:
  "\<exists>e. launch example_host example_spec None weak_system =
     (Inl (Fault e), snd (dispatch_launch (adapter example_host) example_spec weak_system))"
  by (simp add: launch_def example_spec_def io_bind_def io_return_def io_result_def io_map_err_def dispatch_launch_def
      example_host_def in_memory_def im_launch_process_def Let_def scripted_def weak_system_def empty_system_def
      InMemoryAdapter_new_def Script_default_def launch_gates_def launch_fault_def)

theorem failed_launch_tracks_nothing_witness:
  "sys_handles (snd (launch example_host example_spec None weak_system)) = HandleStore_new"
proof -
  have keep: "adapter_displays (adapter example_host) t = (r, t') \<Longrightarrow> sys_handles t' = sys_handles t"
    "dispatch_launch (adapter example_host) example_spec t = (r', t') \<Longrightarrow> sys_handles t' = sys_handles t"
    for t t' r r'
    by (auto simp: dispatch_launch_def example_spec_def example_host_def in_memory_def
        im_launch_process_def im_displays_def Let_def scripted_def)
  obtain e s' where run: "launch example_host example_spec None weak_system = (Inl (Fault e), s')"
    using weak_launch by blast
  have "sys_handles s' = sys_handles weak_system"
    using failed_launch_tracks_nothing [OF run] by (auto dest!: keep)
  with run show ?thesis by (simp add: weak_system_def)
qed

section \<open>Replacing\<close>

text \<open>What a replacement can return once the old surface is closed.\<close>

definition closed_outcome :: "SurfaceId \<Rightarrow> (ReplacePipelineError fault, ReplaceOutcome) result \<Rightarrow> bool" where
  "closed_outcome i r \<longleftrightarrow>
     (\<exists>out. r = Inr \<lparr>replace_new = out, old_surface_id = i\<rparr>) \<or> (\<exists>e. r = Inl (Fault (ReplacePorthole e False))) \<or>
     (\<exists>info. r = Inl (Fault (ReplaceReturnedExisting info False))) \<or> r = Inl Panicked"

lemma closed_outcome_error: "closed_outcome i (Inl (Fault (ReplacePorthole e False)))"
  by (simp add: closed_outcome_def)

lemma replacement_outcome:
  "closed_outcome i (fst (io_bind (io_map_err replace_launch_error m)
     (\<lambda>out. io_return \<lparr>replace_new = out, old_surface_id = i\<rparr>) u))"
proof (cases "m u")
  case (Pair r t)
  show ?thesis
  proof (cases r)
    case (Inl e)
    with Pair show ?thesis
      by (cases e rule: replace_launch_error.cases) (simp_all add: closed_outcome_def io_bind_def io_map_err_def)
  qed (simp add: Pair closed_outcome_def io_bind_def io_map_err_def io_return_def)
qed

context pipeline_host
begin

text \<open>Once \<open>close_old\<close> has marked the handle dead, it stays so.\<close>

lemma close_old_cases:
  assumes "close_old H i info s = (r, t)" and "store_get (sys_handles s) i = Inr old"
    and "sane (world s)" and "handles_wf (sys_handles s)"
  shows "(\<exists>e. adapter_close (adapter H) info s = (Inl e, t) \<and> err_code e \<noteq> SurfaceDead
            \<and> r = Inl (Fault (ReplacePorthole e True)))
     \<or> (\<forall>hs. handle_steps (sys_handles t) hs \<longrightarrow> require_alive hs i = Inl (surface_dead_error i))
        \<and> (r = Inr () \<or> (\<exists>e. r = Inl (Fault (ReplacePorthole e False))))"
proof -
  obtain x u where c: "adapter_close (adapter H) info s = (x, u)" by force
  have su: "handle_steps (sys_handles s) (sys_handles u)"
    using call_okD [OF input_ok(9) c] assms(3) by (simp add: sys_step_def)
  have wf: "handles_wf (sys_handles u)" using su assms(4) by (rule handle_steps_wf)
  obtain old' where get: "store_get (sys_handles u) i = Inr old'"
    using handles.steps_get [OF handle_steps_steps [OF su] assms(4,2)] by blast
  have dead: "require_alive hs i = Inl (surface_dead_error i)"
    if "handle_steps (sys_handles (snd (dead_call i u))) hs" for hs
  proof -
    have "sys_handles (snd (dead_call i u)) = snd (mark_dead i (sys_handles u))"
      by (simp add: dead_call_def split: prod.split)
    with that have "handles.steps (snd (mark_dead i (sys_handles u))) hs" using handle_steps_steps by simp
    from handles.steps_dead_final [OF this wf get] show ?thesis by (rule require_alive_dead) simp
  qed
  show ?thesis
    using assms(1) c dead
    by (auto simp: close_old_def io_map_err_def Let_def map_err_def split: sum.splits prod.splits if_splits)
qed

text \<open>Step 4: the replacement is launched.\<close>

lemma call_ok_replacement:
  "call_ok sane (io_bind (io_map_err replace_launch_error (launch H spec p))
     (\<lambda>out. io_return \<lparr>replace_new = out, old_surface_id = i\<rparr>))"
  by (intro call_ok_intros call_ok_launch)

end

text \<open>
  \<open>replace\<close> tells the truth about the surface it was asked to replace.  When it succeeds, or
  fails with \<open>old_handle_alive: false\<close>, the old id is dead or unknown from then on, whatever other
  tasks do.  When it fails with \<open>old_handle_alive: true\<close>, the adapter refused the close with
  another error than \<open>surface_dead\<close>, that error is what the caller sees, and nothing happened
  after it: no handle was marked dead and no replacement was launched.
\<close>

theorem replace_reports_old_handle:
  assumes "adapter_contract (adapter H) sane" and "sane (world s)" and "handles_wf (sys_handles s)"
    and "replace H i spec placement s = (r, s')" and "handle_steps (sys_handles s') hs"
  shows "case r of
      Inr out \<Rightarrow> old_surface_id out = i \<and> require_alive hs i = Inl (surface_dead_error i)
    | Inl (Fault (ReplacePorthole e alive)) \<Rightarrow>
        if alive
        then err_code e \<noteq> SurfaceDead \<and> (\<exists>info t. state info = Alive \<and> adapter_close (adapter H) info t = (Inl e, s'))
        else \<not> is_ok (require_alive (sys_handles s') i)
    | Inl (Fault (ReplaceReturnedExisting info alive)) \<Rightarrow>
        \<not> alive \<and> require_alive hs i = Inl (surface_dead_error i)
    | Inl Panicked \<Rightarrow> True"
proof (cases "require_alive (sys_handles s) i")
  case (Inl e)
  then have "replace H i spec placement s = (Inl (Fault (ReplacePorthole e False)), s)"
    by (simp add: replace_def io_bind_def io_map_err_def alive_call_def)
  with assms(4) Inl show ?thesis by auto
next
  case (Inr info)
  have host: "pipeline_host H sane" using assms(1) by (rule pipeline_host.intro)
  from Inr have old: "store_get (sys_handles s) i = Inr info" and alive: "state info = Alive"
    by (simp_all add: require_alive_Inr)
  obtain x t where snap: "adapter_snapshot_geometry (adapter H) info s = (x, t)" by force
  obtain c u where close: "close_old H i info t = (c, u)" by force
  have st: "sane (world t) \<and> handle_steps (sys_handles s) (sys_handles t)"
    using call_okD [OF adapter_contract.query_ok(7) [OF assms(1)] snap] assms(2) by (simp add: sys_step_def)
  then have wf: "handles_wf (sys_handles t)" using handle_steps_wf assms(3) by blast
  obtain old' where get: "store_get (sys_handles t) i = Inr old'"
    using handles.steps_get [OF handle_steps_steps assms(3) old] st by blast
  have run: "replace H i spec placement s =
     (case c of Inl e \<Rightarrow> (Inl e, u)
      | Inr _ \<Rightarrow> io_bind (io_map_err replace_launch_error (launch H spec (inherited_placement placement (ok x))))
          (\<lambda>out. io_return \<lparr>replace_new = out, old_surface_id = i\<rparr>) u)"
    using Inr snap close by (simp add: replace_def io_bind_def io_map_err_def alive_call_def split: sum.split)
  from pipeline_host.close_old_cases [OF host close get _ wf] st
  consider (refused) e where "adapter_close (adapter H) info t = (Inl e, u)" "err_code e \<noteq> SurfaceDead"
      "c = Inl (Fault (ReplacePorthole e True))"
    | (closed) "\<forall>hs. handle_steps (sys_handles u) hs \<longrightarrow> require_alive hs i = Inl (surface_dead_error i)"
      "c = Inr () \<or> (\<exists>e. c = Inl (Fault (ReplacePorthole e False)))"
    by blast
  then show ?thesis
  proof cases
    case refused
    with run assms(4) alive show ?thesis by auto
  next
    case closed
    have "sane (world u)"
      using call_okD [OF pipeline_host.call_ok_close_old [OF host] close] st by (simp add: sys_step_def)
    then have "handle_steps (sys_handles u) (sys_handles (snd (replace H i spec placement s)))"
      unfolding run using call_ok_step [OF pipeline_host.call_ok_replacement [OF host]]
      by (auto simp: sys_step_def handle_steps.none split: sum.split)
    then have us': "handle_steps (sys_handles u) (sys_handles s')" using assms(4) by simp
    have dead: "require_alive hs' i = Inl (surface_dead_error i)" if "handle_steps (sys_handles s') hs'" for hs'
      using closed(1) handle_steps_trans [OF that us'] by blast
    have "closed_outcome i (fst (replace H i spec placement s))"
      unfolding run using closed(2) by (auto simp: replacement_outcome closed_outcome_error)
    then have "closed_outcome i r" using assms(4) by simp
    with dead [OF assms(5)] dead [OF handle_steps.none] show ?thesis by (auto simp: closed_outcome_def)
  qed
qed

theorem replace_reports_old_handle_witness:
  "\<exists>out s'. replace window_host ''surf_'' example_spec (Some \<lparr>on_display = None, geometry = None, anchor = None\<rparr>) example_launched
      = (Inr out, s') \<and> require_alive (sys_handles s') ''surf_'' = Inl (surface_dead_error ''surf_'')"
proof -
  let ?p = "Some \<lparr>on_display = None, geometry = None, anchor = None\<rparr> :: PlacementSpec option"
  have "\<exists>out s'. replace window_host ''surf_'' example_spec ?p example_launched = (Inr out, s')"
    by (simp add: replace_def close_old_def io_bind_def io_return_def io_result_def io_map_err_def alive_call_def
        dead_call_def mark_dead_def require_alive_def store_get_def example_launched_def empty_system_def
        example_window_def SurfaceInfo_window_def window_host_def window_adapter_def example_host_def in_memory_def
        im_snapshot_geometry_def im_close_def scripted_def Let_def InMemoryAdapter_new_def Script_default_def
        inherited_placement_def launch_def example_spec_def validate_placement_def is_effectively_empty_def
        dispatch_launch_def launch_gates_def make_default_launch_outcome_def track_and_place_def track_call_def
        track_or_get_def ref_alive_def store_insert_def longest_id_def place_launched_def apply_placement_def)
  then obtain out s' where run: "replace window_host ''surf_'' example_spec ?p example_launched = (Inr out, s')" by blast
  have sane: "unscripted (world example_launched)" by (simp add: example_launched_def)
  have wf: "handles_wf (sys_handles example_launched)"
    by (auto simp: example_launched_def handles_wf_def unique_alive_refs_def example_window_def SurfaceInfo_window_def)
  from replace_reports_old_handle [OF window_host_contract sane wf run handle_steps.none] run
  show ?thesis by auto
qed

section \<open>Attaching\<close>

text \<open>What the pipelines rely on of the codecs: what one encodes, the other decodes.\<close>

definition ref_codecs :: "'w host \<Rightarrow> bool" where
  "ref_codecs H \<longleftrightarrow>
     (\<forall>p. payload_from_slice H (payload_to_vec H p) = Inr p) \<and> (\<forall>b. base64_decode H (base64_encode H b) = Inr b)"

lemma decode_encode_ref: "ref_codecs H \<Longrightarrow> decode_ref H (encode_ref H p r) = Inr (p, r)"
  by (simp add: ref_codecs_def decode_ref_def encode_ref_def)

lemma decode_ref_error: "decode_ref H t = Inl e \<Longrightarrow> err_code e = CandidateRefUnknown"
  by (auto simp: decode_ref_def result_simps ok_or_def map_err_def ref_unknown_def PortholeError_new_def
      split: option.splits sum.splits if_splits)

text \<open>
  A candidate ref leads back to the window it was made for.  Tracking the ref of a window
  asks the adapter about exactly that process and window; when it is gone the answer is
  \<open>surface_dead\<close>, and when it is found and already has a live handle, that handle is returned,
  marked as reused, and the store does not change.  A string that is no ref is refused with
  \<open>candidate_ref_unknown\<close> and without a call.
\<close>

theorem ref_leads_back_to_window:
  assumes "ref_codecs H"
  shows "(\<forall>t. adapter_surface_alive (adapter H) p r s = (Inr None, t) \<longrightarrow>
          (\<exists>e. attach_track H (encode_ref H p r) s = (Inl e, t) \<and> err_code e = SurfaceDead))
    \<and> (\<forall>t e. adapter_surface_alive (adapter H) p r s = (Inl e, t) \<longrightarrow>
          attach_track H (encode_ref H p r) s = (Inl e, t))
    \<and> (\<forall>t found i old. adapter_surface_alive (adapter H) p r s = (Inr (Some found), t) \<longrightarrow>
          platform_ref found = Some r \<longrightarrow> handles_wf (sys_handles t) \<longrightarrow>
          store_get (sys_handles t) i = Inr old \<longrightarrow> ref_alive r old \<longrightarrow>
          attach_track H (encode_ref H p r) s =
            (Inr \<lparr>tracked_surface = old, reused_existing_handle = True\<rparr>, t))
    \<and> (\<forall>x e. decode_ref H x = Inl e \<longrightarrow>
          attach_track H x s = (Inl e, s) \<and> err_code e = CandidateRefUnknown)"
proof -
  have run: "attach_track H (encode_ref H p r) s =
      io_bind (adapter_surface_alive (adapter H) p r) (\<lambda>found.
       case found of
         None \<Rightarrow> io_fail (PortholeError_new SurfaceDead
                   (Msg ''surface with platform ref {platform_ref:?} (pid {pid}) is no longer alive''
                      (platform_ref_args r @ [FNat (unat p)])))
       | Some info \<Rightarrow>
           io_bind (track_call info) (\<lambda>(surface, reused).
           io_return \<lparr>tracked_surface = surface, reused_existing_handle = reused\<rparr>)) s"
    by (simp add: attach_track_def io_bind_def io_result_def decode_encode_ref [OF assms])
  have reuse: "track_or_get found hs = ((old, True), hs)"
    if "platform_ref found = Some r" "handles_wf hs" "store_get hs i = Inr old" "ref_alive r old" for found hs i old
    using handles.track_live [OF that(2,1,3,4)] .
  have none: "attach_track H x s = (Inl e, s)" if "decode_ref H x = Inl e" for x e
    using that by (simp add: attach_track_def io_bind_def io_result_def)
  show ?thesis
  proof (intro conjI allI impI)
    fix t found i old
    assume "adapter_surface_alive (adapter H) p r s = (Inr (Some found), t)" and "platform_ref found = Some r"
      and "handles_wf (sys_handles t)" and "store_get (sys_handles t) i = Inr old" and "ref_alive r old"
    with reuse show "attach_track H (encode_ref H p r) s =
            (Inr \<lparr>tracked_surface = old, reused_existing_handle = True\<rparr>, t)"
      by (simp add: run io_bind_def io_return_def track_call_def)
  qed (auto simp: run io_bind_def io_fail_def PortholeError_new_def none decode_ref_error)
qed

text \<open>A host with codecs: numbers in unary, bytes as characters.\<close>

definition unary :: "nat list \<Rightarrow> u8 list" where
  "unary ns = concat (map (\<lambda>n. replicate n 0 @ [1]) ns)"

fun from_unary :: "nat \<Rightarrow> u8 list \<Rightarrow> nat list" where
  "from_unary k [] = []"
| "from_unary k (b # bs) = (if b = 0 then from_unary (Suc k) bs else k # from_unary 0 bs)"

lemma from_unary_replicate: "from_unary k (replicate n 0 @ 1 # bs) = (k + n) # from_unary 0 bs"
  by (induction n arbitrary: k) simp_all

lemma from_unary_unary: "from_unary 0 (unary ns) = ns"
  by (induction ns) (simp_all add: unary_def from_unary_replicate)

definition payload_numbers :: "RefPayload \<Rightarrow> nat list" where
  "payload_numbers p = unat (payload_pid p) # unat (payload_v p) #
     (case payload_platform_ref p of
        Macos w \<Rightarrow> [0, unat w] | Kwin t \<Rightarrow> 1 # map of_char t | Windows a b \<Rightarrow> [2, unat a, unat b])"

fun numbers_ref :: "nat list \<Rightarrow> PlatformSurfaceRef option" where
  "numbers_ref (k # ns) =
     (if k = 1 then Some (Kwin (map char_of ns))
      else case ns of [w] \<Rightarrow> Some (Macos (of_nat w)) | [a, b] \<Rightarrow> Some (Windows (of_nat a) (of_nat b)) | _ \<Rightarrow> None)"
| "numbers_ref [] = None"

fun numbers_payload :: "nat list \<Rightarrow> (string, RefPayload) result" where
  "numbers_payload (p # v # ns) =
     ok_or (map_option (\<lambda>r. \<lparr>payload_pid = of_nat p, payload_platform_ref = r, payload_v = of_nat v\<rparr>) (numbers_ref ns)) []"
| "numbers_payload _ = Inl []"

definition ref_host :: "InMemoryAdapter host" where
  "ref_host = example_host\<lparr>
     payload_to_vec := (\<lambda>p. unary (payload_numbers p)),
     payload_from_slice := (\<lambda>b. numbers_payload (from_unary 0 b)),
     base64_encode := map (\<lambda>b. char_of (unat b)),
     base64_decode := (\<lambda>t. Inr (map (\<lambda>c. of_nat (of_char c)) t))\<rparr>"

lemma ref_host_codecs: "ref_codecs ref_host"
proof -
  have "numbers_payload (payload_numbers p) = Inr p" for p
    by (cases p; cases "payload_platform_ref p") (simp_all add: payload_numbers_def comp_def)
  moreover have "map ((\<lambda>c. of_nat (of_char c)) \<circ> (\<lambda>b. char_of (unat b))) b = b" for b :: "u8 list"
  proof (rule map_idI)
    fix x :: u8
    have "unat x < 256" using unsigned_less [of x, where ?'a = nat] by simp
    then show "((\<lambda>c. of_nat (of_char c)) \<circ> (\<lambda>b. char_of (unat b))) x = x" by simp
  qed
  ultimately show ?thesis by (simp add: ref_codecs_def ref_host_def from_unary_unary)
qed

definition found_system :: "InMemoryAdapter system" where
  "found_system = example_system\<lparr>world := InMemoryAdapter_new\<lparr>script := Script_default\<lparr>next_surface_alive_result :=
     Some (Inr (Some (example_window ''new'')))\<rparr>\<rparr>\<rparr>"

theorem ref_leads_back_to_window_witness:
  "\<exists>t. attach_track ref_host (encode_ref ref_host 7 (Macos 42)) found_system =
     (Inr \<lparr>tracked_surface = example_window ''a'', reused_existing_handle = True\<rparr>, t)"
proof -
  have "\<exists>t. adapter_surface_alive (adapter ref_host) 7 (Macos 42) found_system = (Inr (Some (example_window ''new'')), t)
      \<and> sys_handles t = sys_handles example_system"
    by (simp add: ref_host_def example_host_def in_memory_def im_surface_alive_def Let_def scripted_def found_system_def
        InMemoryAdapter_new_def Script_default_def)
  then obtain t where t: "adapter_surface_alive (adapter ref_host) 7 (Macos 42) found_system = (Inr (Some (example_window ''new'')), t)"
    "sys_handles t = sys_handles example_system" by blast
  have "platform_ref (example_window i) = Some (Macos 42)" "ref_alive (Macos 42) (example_window i)" for i
    by (simp_all add: example_window_def SurfaceInfo_window_def ref_alive_def)
  moreover have "store_get (sys_handles t) ''a'' = Inr (example_window ''a'')"
    by (simp add: t(2) example_system_def store_get_def)
  moreover have "handles_wf (sys_handles t)" by (simp add: t(2))
  ultimately show ?thesis
    using ref_leads_back_to_window [OF ref_host_codecs, of 7 "Macos 42" found_system] t(1) by blast
qed

end
