(* ===== verification/Surface_Protocol.thy ===== *)
theory Surface_Protocol
  imports Surface_Pipelines
begin

text \<open>
  The bodies of the surface API (\<open>porthole-protocol/src\<close>: \<open>input.rs\<close>, \<open>placement.rs\<close>, \<open>search.rs\<close>,
  \<open>wait.rs\<close>, \<open>content_rect.rs\<close>, \<open>screenshot.rs\<close>, \<open>close_focus.rs\<close>, \<open>launches.rs\<close>, \<open>attention.rs\<close>,
  \<open>info.rs\<close>, \<open>error.rs\<close>, \<open>system_permission.rs\<close>) and their conversions to the types of the core
  crate.  A body arrives here parsed: the JSON and query-string codecs are not part of the model,
  the values they fill in for absent fields are the \<open>default_\<close> constants.
\<close>

section \<open>Input\<close>

record KeyRequest =
  key_events :: "KeyEvent list"
  key_session :: "string option"

record KeyResponse =
  key_resp_surface_id :: string
  events_sent :: nat

record TextRequest =
  text_text :: string
  text_session :: "string option"

record TextResponse =
  text_resp_surface_id :: string
  chars_sent :: nat

record ClickRequest =
  clickreq_x :: f64
  clickreq_y :: f64
  clickreq_button :: ClickButton
  clickreq_count :: u8
  clickreq_modifiers :: "Modifier list"
  clickreq_units :: CoordUnits
  clickreq_session :: "string option"

definition default_count :: u8 where
  "default_count = 1"

definition ClickSpec_from :: "ClickRequest \<Rightarrow> ClickSpec" where
  "ClickSpec_from r =
     \<lparr>click_x = clickreq_x r, click_y = clickreq_y r, click_button = clickreq_button r,
      click_count = clickreq_count r, click_modifiers = clickreq_modifiers r\<rparr>"

record ScrollRequest =
  scrollreq_x :: f64
  scrollreq_y :: f64
  scrollreq_delta_x :: f64
  scrollreq_delta_y :: f64
  scrollreq_units :: CoordUnits
  scrollreq_session :: "string option"

definition ScrollSpec_from :: "ScrollRequest \<Rightarrow> ScrollSpec" where
  "ScrollSpec_from r =
     \<lparr>scroll_x = scrollreq_x r, scroll_y = scrollreq_y r,
      scroll_delta_x = scrollreq_delta_x r, scroll_delta_y = scrollreq_delta_y r\<rparr>"

record PointerMoveRequest =
  movereq_x :: f64
  movereq_y :: f64
  movereq_units :: CoordUnits
  movereq_session :: "string option"

definition PointerMoveSpec_from :: "PointerMoveRequest \<Rightarrow> PointerMoveSpec" where
  "PointerMoveSpec_from r = \<lparr>move_x = movereq_x r, move_y = movereq_y r\<rparr>"

text \<open>\<open>ClickResponse\<close>, \<open>ScrollResponse\<close> and \<open>PointerMoveResponse\<close> carry only the surface id.\<close>

record SurfaceIdResponse =
  resp_surface_id :: string

section \<open>Close, focus, place, content rect, screenshot\<close>

record SessionRequest = \<comment> \<open>\<open>CloseRequest\<close>, \<open>FocusRequest\<close>, \<open>ScreenshotRequest\<close>\<close>
  req_session :: "string option"

record CloseResponse =
  close_resp_surface_id :: string
  closed :: bool

record FocusResponse =
  focus_resp_surface_id :: string
  focused :: bool

record PlaceRequest =
  place_rect :: "Rect option"
  place_placement :: "PlacementSpec option"
  place_units :: CoordUnits
  place_session :: "string option"

record PlaceResponse =
  place_resp_surface_id :: string
  placed :: bool

record ContentRectQuery =
  content_query_units :: CoordUnits

record ContentRectResponse =
  content_resp_x :: f64
  content_resp_y :: f64
  content_resp_w :: f64
  content_resp_h :: f64
  content_resp_units :: CoordUnits
  content_resp_role :: string
  content_resp_descent :: Descent

record ScreenshotResponse =
  shot_resp_surface_id :: SurfaceId
  png_base64 :: string
  window_bounds :: Rect
  content_bounds :: "Rect option"
  shot_resp_scale :: f64
  shot_resp_captured_at :: u64
  shot_resp_session :: "string option"

section \<open>Search, track, wait, attention\<close>

record SearchRequest =
  search_query :: SearchQuery
  search_session :: "string option"

record SearchResponse =
  search_candidates :: "Candidate list"

record TrackRequest =
  track_ref :: string
  track_session :: "string option"

record TrackResponse =
  track_resp_surface_id :: string
  track_resp_platform_ref :: PlatformSurfaceRef
  track_resp_pid :: u32
  track_resp_app_name :: "string option"
  track_resp_title :: "string option"
  track_resp_reused :: bool

record WaitRequest =
  wait_req_condition :: WaitCondition
  wait_req_timeout_ms :: u64
  wait_req_session :: "string option"

definition default_timeout_ms :: u64 where
  "default_timeout_ms = 10000"

record WaitResponse =
  wait_resp_surface_id :: string
  wait_resp_condition :: string
  wait_resp_elapsed_ms :: u64

record WaitTimeoutBody =
  wtb_elapsed_ms :: u64
  wtb_last_observed :: LastObserved

record DisplaysResponse =
  resp_displays :: "DisplayInfo list"

section \<open>Launches\<close>

datatype WireConfidence = WireStrong | WirePlausible | WireWeak

datatype WireCorrelation = WireTag | WirePidTree | WireTemporal | WireDocumentMatch | WireFrontmostChanged

record ProcessLaunch =
  proc_app :: string
  proc_args :: "string list"
  proc_cwd :: "string option"
  proc_env :: "(string \<times> string) list" \<comment> \<open>a \<open>BTreeMap\<close>, in the order of its keys\<close>

record ArtifactLaunch =
  art_path :: string

datatype LaunchKind = KindProcess ProcessLaunch | KindArtifact ArtifactLaunch

record LaunchRequest =
  lr_kind :: LaunchKind
  lr_session :: "string option"
  lr_require_confidence :: WireConfidence
  lr_timeout_ms :: u64
  lr_placement :: "PlacementSpec option"
  lr_auto_dismiss_after_ms :: "u64 option"
  lr_require_fresh_surface :: bool
  lr_force_place :: bool

definition default_require_confidence :: WireConfidence where
  "default_require_confidence = WireStrong"

type_synonym ReplaceRequest = LaunchRequest

record LaunchResponse =
  launch_id :: string
  launch_resp_surface_id :: SurfaceId
  launch_resp_preexisting :: bool
  launch_resp_confidence :: WireConfidence
  launch_resp_correlation :: WireCorrelation
  launch_resp_placement :: PlacementOutcome

record LaunchReturnedExistingBody =
  lre_ref :: string
  lre_app_name :: "string option"
  lre_title :: "string option"
  lre_pid :: u32
  lre_platform_ref :: PlatformSurfaceRef

section \<open>Info and system permissions\<close>

record WireSystemPermission =
  wire_perm_name :: string
  wire_perm_granted :: bool
  wire_perm_purpose :: string

record AdapterInfo =
  info_adapter_name :: string
  info_loaded :: bool
  info_capabilities :: "string list"
  info_system_permissions :: "WireSystemPermission list"

record InfoResponse =
  info_daemon_version :: string
  info_uptime_seconds :: u64
  info_surface_count :: u64
  info_adapters :: "AdapterInfo list"

record WirePromptOutcome =
  wpo_permission :: string
  wpo_granted_before :: bool
  wpo_granted_after :: bool
  wpo_requires_daemon_restart :: bool
  wpo_notes :: string

definition PromptOutcome_from :: "SystemPermissionPromptOutcome \<Rightarrow> WirePromptOutcome" where
  "PromptOutcome_from out =
     \<lparr>wpo_permission = prompt_permission out, wpo_granted_before = granted_before out,
      wpo_granted_after = granted_after out, wpo_requires_daemon_restart = requires_daemon_restart out,
      wpo_notes = prompt_notes out\<rparr>"

end
