(* ===== verification/Surface_Routes.thy ===== *)
theory Surface_Routes
  imports Agent_Guard Pipeline_Runs Surface_Protocol
begin

text \<open>
  The agent-facing HTTP handlers (\<open>portholed/src/routes\<close>: \<open>input.rs\<close>, \<open>pointer.rs\<close>,
  \<open>close_focus.rs\<close>, \<open>place.rs\<close>, \<open>content_rect.rs\<close>, \<open>attach.rs\<close>, \<open>attention.rs\<close>, \<open>wait.rs\<close>,
  \<open>replace.rs\<close>, \<open>launches.rs\<close>, \<open>screenshot.rs\<close>, \<open>info.rs\<close>, \<open>system_permissions.rs\<close>), which put the
  guard in front of the pipelines, the conversion of pipeline errors (\<open>errors.rs\<close>) and the table
  of routes (\<open>server.rs\<close>).

  A handler is a sequence of guard operations and pipeline calls.  The guard works on the policy
  store and the handles as in \<open>Agent_Guard\<close>; a pipeline call works on the handles and the world
  behind the adapter as in \<open>Surface_Pipelines\<close>.  What other tasks do to the world between two
  operations is the parameter \<open>world_drift\<close>, applied before each pipeline call.
\<close>

section \<open>Handlers\<close>

text \<open>
  Where the daemon runs: the pipelines' host, the guard's surroundings, and the third-party code
  the handlers call (UUIDs, base64, serde's conversion of error bodies to JSON).
\<close>

record 'w deployment =
  dep_host :: "'w host"
  dep_env :: surroundings
  world_drift :: "nat \<Rightarrow> 'w \<Rightarrow> 'w"
  route_uuid :: "nat \<Rightarrow> string"
  png_encode :: "u8 list \<Rightarrow> string"
  timeout_to_value :: "WaitTimeoutBody \<Rightarrow> (string, json) result"
  existing_to_value :: "LaunchReturnedExistingBody \<Rightarrow> (string, json) result"
  daemon_version :: string
  uptime_seconds :: "nat \<Rightarrow> u64"

text \<open>
  The state of the daemon while a handler runs: the operations performed so far, the shared
  state, the world, and the auto-dismiss timers that were started.
\<close>

record 'w daemon =
  ops_done :: nat
  app :: AppState
  daemon_world :: 'w
  timers :: "(SurfaceId \<times> Duration) list"

type_synonym ('w, 'a) route = "'w daemon \<Rightarrow> (ApiError fault, 'a) result \<times> 'w daemon"

definition rt_return :: "'a \<Rightarrow> ('w, 'a) route" where
  "rt_return x s = (Inr x, s)"

definition rt_result :: "(ApiError fault, 'a) result \<Rightarrow> ('w, 'a) route" where
  "rt_result r s = (r, s)"

definition rt_bind :: "('w, 'a) route \<Rightarrow> ('a \<Rightarrow> ('w, 'b) route) \<Rightarrow> ('w, 'b) route" where
  "rt_bind m f s = (case m s of (Inl e, t) \<Rightarrow> (Inl e, t) | (Inr x, t) \<Rightarrow> f x t)"

definition run_task :: "'a task \<Rightarrow> ('w, 'a) route" where
  "run_task m s =
     (case m (ops_done s, app s) of (r, (n, A)) \<Rightarrow> (map_err Fault r, s\<lparr>ops_done := n, app := A\<rparr>))"

definition sys_at :: "'w deployment \<Rightarrow> 'w daemon \<Rightarrow> 'w system" where
  "sys_at X s =
     \<lparr>sys_handles = app_handles (interleave (dep_env X) (ops_done s) (app s)),
      world = world_drift X (ops_done s) (daemon_world s)\<rparr>"

definition sys_back :: "'w deployment \<Rightarrow> 'w daemon \<Rightarrow> 'w system \<Rightarrow> 'w daemon" where
  "sys_back X s t =
     s\<lparr>ops_done := Suc (ops_done s),
       app := (interleave (dep_env X) (ops_done s) (app s))\<lparr>app_handles := sys_handles t\<rparr>,
       daemon_world := world t\<rparr>"

definition run_pipeline :: "'w deployment \<Rightarrow> ('e \<Rightarrow> ApiError fault) \<Rightarrow> ('w, 'e, 'a) io \<Rightarrow> ('w, 'a) route" where
  "run_pipeline X conv m s = (case m (sys_at X s) of (r, t) \<Rightarrow> (map_err conv r, sys_back X s t))"

text \<open>\<open>tokio::spawn\<close> of the auto-dismiss task, which sleeps first.\<close>

definition schedule_auto_dismiss :: "SurfaceId \<Rightarrow> Duration \<Rightarrow> ('w, unit) route" where
  "schedule_auto_dismiss surface after s = (Inr (), s\<lparr>timers := timers s @ [(surface, after)]\<rparr>)"

definition from_millis :: "u64 \<Rightarrow> Duration" where
  "from_millis ms = unat ms * 1000000"

section \<open>Errors of the pipelines\<close>

definition api_fault :: "PortholeError \<Rightarrow> ApiError fault" where
  "api_fault e = Fault (ApiError_from_porthole e)"

fun fault_map :: "('e \<Rightarrow> 'f) \<Rightarrow> 'e fault \<Rightarrow> 'f fault" where
  "fault_map f (Fault e) = Fault (f e)"
| "fault_map f Panicked = Panicked"

fun ApiError_from_wait :: "'w deployment \<Rightarrow> WaitPipelineError \<Rightarrow> ApiError" where
  "ApiError_from_wait X (WaitPorthole e) = ApiError (WireError_from e)"
| "ApiError_from_wait X (Timeout observed elapsed) = ApiError
     \<lparr>wire_code = WaitTimeoutCode,
      wire_message = Msg ''wait condition not satisfied within timeout ({}ms elapsed)'' [FNat (unat elapsed)],
      wire_details = ok (timeout_to_value X \<lparr>wtb_elapsed_ms = elapsed, wtb_last_observed = observed\<rparr>)\<rparr>"

definition existing_to_wire :: "'w deployment \<Rightarrow> ExistingSurfaceInfo \<Rightarrow> WireError" where
  "existing_to_wire X info =
     \<lparr>wire_code = LaunchReturnedExisting,
      wire_message = Msg ''launch correlated to a preexisting surface (require_fresh_surface: true)'' [],
      wire_details = ok (existing_to_value X
        \<lparr>lre_ref = existing_ref info, lre_app_name = existing_app_name info, lre_title = existing_title info,
         lre_pid = existing_pid info, lre_platform_ref = existing_platform_ref info\<rparr>)\<rparr>"

fun ApiError_from_launch :: "'w deployment \<Rightarrow> LaunchPipelineError \<Rightarrow> ApiError" where
  "ApiError_from_launch X (LaunchPorthole e) = ApiError (WireError_from e)"
| "ApiError_from_launch X (ReturnedExisting info) = ApiError (existing_to_wire X info)"

text \<open>The entry \<open>old_handle_alive\<close> that a failed replace adds to the details.\<close>

definition json_insert :: "string \<Rightarrow> json \<Rightarrow> (string \<times> json) list \<Rightarrow> (string \<times> json) list" where
  "json_insert k v m = AList.update k v m"

fun ApiError_from_replace :: "'w deployment \<Rightarrow> ReplacePipelineError \<Rightarrow> ApiError" where
  "ApiError_from_replace X (ReplacePorthole e old_handle_alive) =
     (let wire = WireError_from e;
          merged = (case wire_details wire of
                      Some (JObj m) \<Rightarrow> JObj (json_insert ''old_handle_alive'' (JBool old_handle_alive) m)
                    | _ \<Rightarrow> JObj [(''old_handle_alive'', JBool old_handle_alive)])
      in ApiError (wire\<lparr>wire_details := Some merged\<rparr>))"
| "ApiError_from_replace X (ReplaceReturnedExisting info old_handle_alive) =
     (let wire = existing_to_wire X info
      in ApiError (case wire_details wire of
           Some (JObj m) \<Rightarrow> wire\<lparr>wire_details := Some (JObj (json_insert ''old_handle_alive'' (JBool old_handle_alive) m))\<rparr>
         | _ \<Rightarrow> wire))"

section \<open>Keyboard, pointer, focus and close\<close>

fun modifier_debug :: "Modifier \<Rightarrow> string" where
  "modifier_debug Cmd = ''Cmd''"
| "modifier_debug Ctrl = ''Ctrl''"
| "modifier_debug Alt = ''Alt''"
| "modifier_debug Shift = ''Shift''"

definition key_combination :: "KeyEvent \<Rightarrow> string" where
  "key_combination event = join_with ''+'' (map modifier_debug (ke_modifiers event) @ [take 80 (ke_key event)])"

definition post_key ::
    "'w deployment \<Rightarrow> string option option \<Rightarrow> string \<Rightarrow> KeyRequest \<Rightarrow> ('w, KeyResponse) route" where
  "post_key X headers sid req =
     rt_bind (run_task (authorize_surface_actions (dep_env X) headers sid [Drive]
       (trigger_operation ''send key events''
          (OpKey (map key_combination (take 8 (key_events req))) (length (key_events req)))))) (\<lambda>execution.
     let count = length (key_events req) in
     rt_bind (run_pipeline X api_fault (input_key (dep_host X) sid (key_events req))) (\<lambda>_.
     rt_bind (run_task (complete_route_execution (dep_env X) execution ''/surfaces/{id}/key'')) (\<lambda>_.
     rt_return \<lparr>key_resp_surface_id = sid, events_sent = count\<rparr>)))"

definition post_text ::
    "'w deployment \<Rightarrow> string option option \<Rightarrow> string \<Rightarrow> TextRequest \<Rightarrow> ('w, TextResponse) route" where
  "post_text X headers sid req =
     rt_bind (run_task (authorize_surface_actions (dep_env X) headers sid [Drive]
       (trigger_operation ''send text'' (OpText (length (text_text req)))))) (\<lambda>execution.
     let chars = length (text_text req) in
     rt_bind (run_pipeline X api_fault (input_text (dep_host X) sid (text_text req))) (\<lambda>_.
     rt_bind (run_task (complete_route_execution (dep_env X) execution ''/surfaces/{id}/text'')) (\<lambda>_.
     rt_return \<lparr>text_resp_surface_id = sid, chars_sent = chars\<rparr>)))"

definition post_click ::
    "'w deployment \<Rightarrow> string option option \<Rightarrow> string \<Rightarrow> ClickRequest \<Rightarrow> ('w, SurfaceIdResponse) route" where
  "post_click X headers sid req =
     rt_bind (run_task (authorize_surface_actions (dep_env X) headers sid [Drive]
       (trigger_from (Some ''click surface'')))) (\<lambda>execution.
     rt_bind (run_pipeline X api_fault (input_click (dep_host X) sid (ClickSpec_from req) (clickreq_units req))) (\<lambda>_.
     rt_bind (run_task (complete_route_execution (dep_env X) execution ''/surfaces/{id}/click'')) (\<lambda>_.
     rt_return \<lparr>resp_surface_id = sid\<rparr>)))"

definition post_scroll ::
    "'w deployment \<Rightarrow> string option option \<Rightarrow> string \<Rightarrow> ScrollRequest \<Rightarrow> ('w, SurfaceIdResponse) route" where
  "post_scroll X headers sid req =
     rt_bind (run_task (authorize_surface_actions (dep_env X) headers sid [Drive]
       (trigger_from (Some ''scroll surface'')))) (\<lambda>execution.
     rt_bind (run_pipeline X api_fault (input_scroll (dep_host X) sid (ScrollSpec_from req) (scrollreq_units req))) (\<lambda>_.
     rt_bind (run_task (complete_route_execution (dep_env X) execution ''/surfaces/{id}/scroll'')) (\<lambda>_.
     rt_return \<lparr>resp_surface_id = sid\<rparr>)))"

definition post_pointer_move ::
    "'w deployment \<Rightarrow> string option option \<Rightarrow> string \<Rightarrow> PointerMoveRequest \<Rightarrow> ('w, SurfaceIdResponse) route" where
  "post_pointer_move X headers sid req =
     rt_bind (run_task (authorize_surface_actions (dep_env X) headers sid [Drive]
       (trigger_from (Some ''move pointer'')))) (\<lambda>execution.
     rt_bind (run_pipeline X api_fault (input_pointer_move (dep_host X) sid (PointerMoveSpec_from req) (movereq_units req))) (\<lambda>_.
     rt_bind (run_task (complete_route_execution (dep_env X) execution ''/surfaces/{id}/pointer/move'')) (\<lambda>_.
     rt_return \<lparr>resp_surface_id = sid\<rparr>)))"

definition post_close ::
    "'w deployment \<Rightarrow> string option option \<Rightarrow> string \<Rightarrow> SessionRequest \<Rightarrow> ('w, CloseResponse) route" where
  "post_close X headers sid req =
     rt_bind (run_task (authorize_surface_actions (dep_env X) headers sid [Manage]
       (trigger_from (Some ''close surface'')))) (\<lambda>execution.
     rt_bind (run_pipeline X api_fault (input_close (dep_host X) sid)) (\<lambda>_.
     rt_bind (run_task (complete_route_execution (dep_env X) execution ''/surfaces/{id}/close'')) (\<lambda>_.
     rt_return \<lparr>close_resp_surface_id = sid, closed = True\<rparr>)))"

definition post_focus ::
    "'w deployment \<Rightarrow> string option option \<Rightarrow> string \<Rightarrow> SessionRequest \<Rightarrow> ('w, FocusResponse) route" where
  "post_focus X headers sid req =
     rt_bind (run_task (authorize_surface_actions (dep_env X) headers sid [Drive]
       (trigger_from (Some ''focus surface'')))) (\<lambda>execution.
     rt_bind (run_pipeline X api_fault (input_focus (dep_host X) sid)) (\<lambda>_.
     rt_bind (run_task (complete_route_execution (dep_env X) execution ''/surfaces/{id}/focus'')) (\<lambda>_.
     rt_return \<lparr>focus_resp_surface_id = sid, focused = True\<rparr>)))"

section \<open>Place, content rect and screenshot\<close>

definition invalid_place :: "message \<Rightarrow> ApiError fault" where
  "invalid_place m = api_fault (PortholeError_new InvalidArgument m)"

definition resolve_place_request :: "'w deployment \<Rightarrow> PlaceRequest \<Rightarrow> ('w, Rect \<times> CoordUnits) route" where
  "resolve_place_request X req =
     (let effective_placement = (case place_placement req of
            Some p \<Rightarrow> if \<not> is_effectively_empty p then Some p else None
          | None \<Rightarrow> None)
      in case (place_rect req, effective_placement) of
           (Some _, Some _) \<Rightarrow>
             rt_result (Inl (invalid_place (Msg ''place request cannot include both rect and placement'' [])))
         | (Some rect, None) \<Rightarrow> rt_return (rect, place_units req)
         | (None, Some placement) \<Rightarrow>
             if place_units req = Physical
             then rt_result (Inl (invalid_place (Msg
               ''placement uses logical display-local coordinates; units=physical only applies to rect'' [])))
             else rt_bind (run_pipeline X (\<lambda>f. case f of
                     Fault (Msg fmt args) \<Rightarrow> invalid_place (Msg (''placement could not be resolved: '' @ fmt) args)
                   | Panicked \<Rightarrow> Panicked)
                   (resolve_placement_rect placement (adapter (dep_host X)))) (\<lambda>rect.
                  rt_return (rect, Logical))
         | (None, None) \<Rightarrow>
             rt_result (Inl (invalid_place (Msg ''place request requires rect or non-empty placement'' []))))"

definition post_place ::
    "'w deployment \<Rightarrow> string option option \<Rightarrow> string \<Rightarrow> PlaceRequest \<Rightarrow> ('w, PlaceResponse) route" where
  "post_place X headers sid req =
     rt_bind (run_task (authorize_surface_actions (dep_env X) headers sid [Manage]
       (trigger_from (Some ''place surface'')))) (\<lambda>execution.
     rt_bind (resolve_place_request X req) (\<lambda>(rect, units).
     rt_bind (run_pipeline X api_fault (input_place (dep_host X) sid rect units)) (\<lambda>_.
     rt_bind (run_task (complete_route_execution (dep_env X) execution ''/surfaces/{id}/place'')) (\<lambda>_.
     rt_return \<lparr>place_resp_surface_id = sid, placed = True\<rparr>))))"

definition get_content_rect ::
    "'w deployment \<Rightarrow> string option option \<Rightarrow> string \<Rightarrow> ContentRectQuery \<Rightarrow> ('w, ContentRectResponse) route" where
  "get_content_rect X headers sid q =
     rt_bind (run_task (authorize_surface_actions (dep_env X) headers sid [Observe]
       (trigger_from (Some ''read content rect'')))) (\<lambda>execution.
     rt_bind (run_pipeline X api_fault (input_content_rect (dep_host X) sid (content_query_units q))) (\<lambda>info.
     rt_bind (run_task (complete_route_execution (dep_env X) execution ''/surfaces/{id}/content-rect'')) (\<lambda>_.
     rt_return
       \<lparr>content_resp_x = rect_x (content_rect_of info), content_resp_y = rect_y (content_rect_of info),
        content_resp_w = rect_w (content_rect_of info), content_resp_h = rect_h (content_rect_of info),
        content_resp_units = content_query_units q, content_resp_role = content_role info,
        content_resp_descent = content_descent info\<rparr>)))"

definition post_screenshot ::
    "'w deployment \<Rightarrow> string option option \<Rightarrow> string \<Rightarrow> SessionRequest \<Rightarrow> ('w, ScreenshotResponse) route" where
  "post_screenshot X headers sid req =
     rt_bind (run_task (authorize_surface_actions (dep_env X) headers sid [Observe]
       (trigger_from (Some ''capture screenshot'')))) (\<lambda>execution.
     rt_bind (run_pipeline X api_fault (alive_call sid)) (\<lambda>info.
     rt_bind (run_pipeline X api_fault (adapter_screenshot (adapter (dep_host X)) info)) (\<lambda>shot.
     rt_bind (run_task (complete_route_execution (dep_env X) execution ''/surfaces/{id}/screenshot'')) (\<lambda>_.
     rt_return
       \<lparr>shot_resp_surface_id = surface_id info, png_base64 = png_encode X (png_bytes shot),
        window_bounds = window_bounds_points shot, content_bounds = content_bounds_points shot,
        shot_resp_scale = shot_scale shot, shot_resp_captured_at = captured_at_unix_ms shot,
        shot_resp_session = None\<rparr>))))"

section \<open>Search, track, attention and displays\<close>

definition post_search ::
    "'w deployment \<Rightarrow> string option option \<Rightarrow> SearchRequest \<Rightarrow> ('w, SearchResponse) route" where
  "post_search X headers req =
     rt_bind (run_task (authorize_all_surfaces_actions (dep_env X) headers [Manage]
       (trigger_from (Some ''search surfaces'')))) (\<lambda>execution.
     rt_bind (run_pipeline X api_fault (attach_search (dep_host X) (search_query req))) (\<lambda>candidates.
     rt_bind (run_task (complete_route_execution (dep_env X) execution ''/surfaces/search'')) (\<lambda>_.
     rt_return \<lparr>search_candidates = candidates\<rparr>)))"

text \<open>The two \<open>expect\<close>s on what a tracked surface carries panic when it is absent.\<close>

definition track_response :: "TrackedOutcome \<Rightarrow> (ApiError fault, TrackResponse) result" where
  "track_response outcome =
     (let info = tracked_surface outcome in
      rbind (unwrap (platform_ref info)) (\<lambda>r.
      rbind (unwrap (pid info)) (\<lambda>p.
      Inr \<lparr>track_resp_surface_id = surface_id info, track_resp_platform_ref = r, track_resp_pid = p,
           track_resp_app_name = app_name info, track_resp_title = title info,
           track_resp_reused = reused_existing_handle outcome\<rparr>)))"

definition post_track ::
    "'w deployment \<Rightarrow> string option option \<Rightarrow> TrackRequest \<Rightarrow> ('w, TrackResponse) route" where
  "post_track X headers req =
     rt_bind (run_task (authorize_all_surfaces_actions (dep_env X) headers [Manage]
       (trigger_from (Some ''track surface'')))) (\<lambda>execution.
     rt_bind (run_pipeline X api_fault (attach_track (dep_host X) (track_ref req))) (\<lambda>outcome.
     rt_bind (run_task (complete_route_execution (dep_env X) execution ''/surfaces/track'')) (\<lambda>_.
     rt_result (track_response outcome))))"

text \<open>\<open>if let Ok(Some(platform_ref))\<close>: a failure to name the focused window leaves the answer as it is.\<close>

definition focused_surface :: "'w deployment \<Rightarrow> AttentionInfo \<Rightarrow> ('w, AttentionInfo) route" where
  "focused_surface X info =
     rt_bind (run_pipeline X api_fault
       (\<lambda>s. case adapter_focused_platform_surface_ref (adapter (dep_host X)) s of (r, t) \<Rightarrow> (Inr r, t))) (\<lambda>r.
     case r of
       Inr (Some w) \<Rightarrow>
         rt_bind (run_pipeline X api_fault (\<lambda>s. (Inr (find_by_platform_ref (sys_handles s) w), s))) (\<lambda>found.
         rt_return (info\<lparr>focused_surface_id := found\<rparr>))
     | _ \<Rightarrow> rt_return info)"

definition get_attention :: "'w deployment \<Rightarrow> string option option \<Rightarrow> ('w, AttentionInfo) route" where
  "get_attention X headers =
     rt_bind (run_task (authorize_all_surfaces_actions (dep_env X) headers [Manage]
       (trigger_from (Some ''read attention'')))) (\<lambda>execution.
     rt_bind (run_pipeline X api_fault (adapter_attention (adapter (dep_host X)))) (\<lambda>info.
     rt_bind (focused_surface X info) (\<lambda>info.
     rt_bind (run_task (complete_route_execution (dep_env X) execution ''/attention'')) (\<lambda>_.
     rt_return info))))"

definition get_displays :: "'w deployment \<Rightarrow> string option option \<Rightarrow> ('w, DisplaysResponse) route" where
  "get_displays X headers =
     rt_bind (run_task (authorize_all_surfaces_actions (dep_env X) headers [Observe]
       (trigger_from (Some ''read displays'')))) (\<lambda>execution.
     rt_bind (run_pipeline X api_fault (adapter_displays (adapter (dep_host X)))) (\<lambda>displays.
     rt_bind (run_task (complete_route_execution (dep_env X) execution ''/displays'')) (\<lambda>_.
     rt_return \<lparr>resp_displays = displays\<rparr>)))"

section \<open>Wait\<close>

definition post_wait ::
    "'w deployment \<Rightarrow> string option option \<Rightarrow> string \<Rightarrow> WaitRequest \<Rightarrow> ('w, WaitResponse) route" where
  "post_wait X headers sid req =
     rt_bind (run_task (authorize_surface_actions (dep_env X) headers sid [Observe]
       (trigger_from (Some ''wait for surface state'')))) (\<lambda>execution.
     rt_bind (run_pipeline X (fault_map (ApiError_from_wait X))
       (wait (dep_host X) sid (wait_req_condition req) (from_millis (wait_req_timeout_ms req)))) (\<lambda>outcome.
     rt_bind (run_task (complete_route_execution (dep_env X) execution ''/surfaces/{id}/wait'')) (\<lambda>_.
     rt_return
       \<lparr>wait_resp_surface_id = sid, wait_resp_condition = wait_condition outcome,
        wait_resp_elapsed_ms = wait_elapsed_ms outcome\<rparr>)))"

section \<open>Launch and replace\<close>

fun wire_to_require :: "WireConfidence \<Rightarrow> RequireConfidence" where
  "wire_to_require WireStrong = ReqStrong"
| "wire_to_require WirePlausible = ReqPlausible"
| "wire_to_require WireWeak = ReqWeak"

fun confidence_to_wire :: "Confidence \<Rightarrow> WireConfidence" where
  "confidence_to_wire Strong = WireStrong"
| "confidence_to_wire Plausible = WirePlausible"
| "confidence_to_wire Weak = WireWeak"

fun correlation_to_wire :: "Correlation \<Rightarrow> WireCorrelation" where
  "correlation_to_wire Tag = WireTag"
| "correlation_to_wire PidTree = WirePidTree"
| "correlation_to_wire Temporal = WireTemporal"
| "correlation_to_wire DocumentMatch = WireDocumentMatch"
| "correlation_to_wire FrontmostChanged = WireFrontmostChanged"

definition starts_with :: "string \<Rightarrow> string \<Rightarrow> bool" where
  "starts_with s p \<longleftrightarrow> strip_prefix p s \<noteq> None"

definition is_url_path :: "string \<Rightarrow> bool" where
  "is_url_path path \<longleftrightarrow>
     starts_with path ''http://'' \<or> starts_with path ''https://'' \<or> starts_with path ''file://''"

definition request_to_launch_spec :: "LaunchRequest \<Rightarrow> (ApiError fault, LaunchSpec) result" where
  "request_to_launch_spec req =
     (case lr_kind req of
        KindProcess p \<Rightarrow> Inr (Process
          \<lparr>process_app = proc_app p, process_args = proc_args p, process_cwd = proc_cwd p,
           process_env = proc_env p, process_timeout = from_millis (lr_timeout_ms req),
           process_require_confidence = wire_to_require (lr_require_confidence req),
           process_require_fresh_surface = lr_require_fresh_surface req,
           process_force_place = lr_force_place req\<rparr>)
      | KindArtifact a \<Rightarrow>
          if is_url_path (art_path a)
          then Inl (api_fault (PortholeError_new InvalidArgument
                 (Msg ''URL paths are not supported in this slice (defer to browser-CDP)'' [])))
          else Inr (Artifact
            \<lparr>artifact_path = art_path a, artifact_require_confidence = wire_to_require (lr_require_confidence req),
             artifact_require_fresh_surface = lr_require_fresh_surface req,
             artifact_force_place = lr_force_place req, artifact_timeout = from_millis (lr_timeout_ms req)\<rparr>))"

text \<open>
  \<open>Path::file_name\<close> on a Unix path: the last component, unless it is \<open>..\<close> or there is none;
  empty and \<open>.\<close> components do not count.
\<close>

fun path_components :: "string \<Rightarrow> string \<Rightarrow> string list" where
  "path_components cur [] = [cur]"
| "path_components cur (c # cs) =
     (if c = CHR ''/'' then cur # path_components [] cs else path_components (cur @ [c]) cs)"

definition file_name :: "string \<Rightarrow> string option" where
  "file_name path =
     (let cs = filter (\<lambda>c. c \<noteq> [] \<and> c \<noteq> ''.'') (path_components [] path) in
      if cs = [] \<or> last cs = ''..'' then None else Some (last cs))"

definition launch_application :: "LaunchKind \<Rightarrow> string" where
  "launch_application k =
     (case k of
        KindProcess p \<Rightarrow> take 256 (proc_app p)
      | KindArtifact a \<Rightarrow> take 256 (case file_name (art_path a) of None \<Rightarrow> [] | Some n \<Rightarrow> n))"

definition check_auto_dismiss :: "LaunchRequest \<Rightarrow> (ApiError fault, unit) result" where
  "check_auto_dismiss req =
     (if lr_auto_dismiss_after_ms req = Some 0
      then Inl (api_fault (PortholeError_new InvalidArgument (Msg ''auto_dismiss_after_ms must be > 0'' [])))
      else Inr ())"

definition start_auto_dismiss :: "LaunchRequest \<Rightarrow> SurfaceInfo \<Rightarrow> ('w, unit) route" where
  "start_auto_dismiss req surface =
     (case lr_auto_dismiss_after_ms req of
        Some ms \<Rightarrow> if ms > 0 then schedule_auto_dismiss (surface_id surface) (from_millis ms) else rt_return ()
      | None \<Rightarrow> rt_return ())"

definition launch_response :: "'w deployment \<Rightarrow> LaunchPipelineOutcome \<Rightarrow> ('w, LaunchResponse) route" where
  "launch_response X out s =
     (Inr \<lparr>launch_id = ''launch_'' @ route_uuid X (ops_done s),
           launch_resp_surface_id = surface_id (launched_surface (launch_outcome out)),
           launch_resp_preexisting = surface_was_preexisting (launch_outcome out),
           launch_resp_confidence = confidence_to_wire (launch_confidence (launch_outcome out)),
           launch_resp_correlation = correlation_to_wire (launch_correlation (launch_outcome out)),
           launch_resp_placement = launch_placement out\<rparr>, s)"

definition post_launches ::
    "'w deployment \<Rightarrow> string option option \<Rightarrow> LaunchRequest \<Rightarrow> ('w, LaunchResponse) route" where
  "post_launches X headers req =
     rt_bind (rt_result (check_auto_dismiss req)) (\<lambda>_.
     rt_bind (rt_result (request_to_launch_spec req)) (\<lambda>spec.
     rt_bind (run_task (authorize_launch_actions (dep_env X) headers [Manage]
       (trigger_operation ''launch surface'' (OpLaunch (launch_application (lr_kind req)))))) (\<lambda>execution.
     rt_bind (run_pipeline X (fault_map (ApiError_from_launch X))
       (launch (dep_host X) spec (lr_placement req))) (\<lambda>out.
     rt_bind (run_task (complete_route_execution (dep_env X) execution ''/launches'')) (\<lambda>_.
     rt_bind (start_auto_dismiss req (launched_surface (launch_outcome out))) (\<lambda>_.
     launch_response X out))))))"

definition post_replace ::
    "'w deployment \<Rightarrow> string option option \<Rightarrow> string \<Rightarrow> ReplaceRequest \<Rightarrow> ('w, LaunchResponse) route" where
  "post_replace X headers sid req =
     rt_bind (rt_result (check_auto_dismiss req)) (\<lambda>_.
     rt_bind (run_task (authorize_surface_actions (dep_env X) headers sid [Manage]
       (trigger_from (Some ''replace surface'')))) (\<lambda>execution.
     rt_bind (rt_result (request_to_launch_spec req)) (\<lambda>spec.
     rt_bind (run_pipeline X (fault_map (ApiError_from_replace X))
       (replace (dep_host X) sid spec (lr_placement req))) (\<lambda>out.
     rt_bind (run_task (complete_route_execution (dep_env X) execution ''/surfaces/{id}/replace'')) (\<lambda>_.
     rt_bind (start_auto_dismiss req (launched_surface (launch_outcome (replace_new out)))) (\<lambda>_.
     launch_response X (replace_new out)))))))"

section \<open>Info and system permissions\<close>

text \<open>These two handlers take no token and are not guarded.\<close>

definition to_wire_permission :: "SystemPermissionStatus \<Rightarrow> WireSystemPermission" where
  "to_wire_permission p =
     \<lparr>wire_perm_name = perm_name p, wire_perm_granted = perm_granted p, wire_perm_purpose = perm_purpose p\<rparr>"

definition get_info :: "'w deployment \<Rightarrow> ('w, InfoResponse) route" where
  "get_info X =
     rt_bind (run_pipeline X api_fault
       (\<lambda>s. case adapter_system_permissions (adapter (dep_host X)) s of (r, t) \<Rightarrow>
          (Inr (case r of Inr ps \<Rightarrow> ps | Inl _ \<Rightarrow> []), t))) (\<lambda>perms.
     rt_bind (run_pipeline X api_fault
       (\<lambda>s. (Inr (alive_count (sys_handles s), adapter_capabilities (adapter (dep_host X)) (world s)), s)))
       (\<lambda>(count, caps) s.
     (Inr \<lparr>info_daemon_version = daemon_version X, info_uptime_seconds = uptime_seconds X (ops_done s),
           info_surface_count = of_nat count,
           info_adapters = [\<lparr>info_adapter_name = adapter_name (adapter (dep_host X)), info_loaded = True,
             info_capabilities = caps, info_system_permissions = map to_wire_permission perms\<rparr>]\<rparr>, s)))"

definition post_permission_request :: "'w deployment \<Rightarrow> string \<Rightarrow> ('w, WirePromptOutcome) route" where
  "post_permission_request X name =
     rt_bind (run_pipeline X api_fault (\<lambda>s. (Inr (adapter_capabilities (adapter (dep_host X)) (world s)), s))) (\<lambda>caps.
     if \<not> List.member caps ''system_permission_prompt''
     then rt_result (Inl (api_fault (PortholeError_new CapabilityMissing
            (Msg ''adapter does not support system permission prompts'' []))))
     else rt_bind (run_pipeline X api_fault (adapter_request_system_permission_prompt (adapter (dep_host X)) name)) (\<lambda>out.
          rt_return (PromptOutcome_from out)))"

section \<open>The routes of the router\<close>

datatype AgentRequest =
    GetAttention
  | GetDisplays
  | PostLaunches LaunchRequest
  | PostSearch SearchRequest
  | PostTrack TrackRequest
  | PostScreenshot string SessionRequest
  | PostKey string KeyRequest
  | PostText string TextRequest
  | PostClick string ClickRequest
  | PostScroll string ScrollRequest
  | PostWait string WaitRequest
  | PostPlace string PlaceRequest
  | PostReplace string ReplaceRequest
  | PostClose string SessionRequest
  | PostFocus string SessionRequest
  | GetContentRect string ContentRectQuery
  | PostPointerMove string PointerMoveRequest

datatype AgentResponse =
    RespAttention AttentionInfo
  | RespDisplays DisplaysResponse
  | RespLaunch LaunchResponse
  | RespSearch SearchResponse
  | RespTrack TrackResponse
  | RespScreenshot ScreenshotResponse
  | RespKey KeyResponse
  | RespText TextResponse
  | RespSurface SurfaceIdResponse
  | RespWait WaitResponse
  | RespPlace PlaceResponse
  | RespClose CloseResponse
  | RespFocus FocusResponse
  | RespContentRect ContentRectResponse

definition rt_map :: "('a \<Rightarrow> 'b) \<Rightarrow> ('w, 'a) route \<Rightarrow> ('w, 'b) route" where
  "rt_map f m = rt_bind m (\<lambda>x. rt_return (f x))"

fun build_router :: "'w deployment \<Rightarrow> string option option \<Rightarrow> AgentRequest \<Rightarrow> ('w, AgentResponse) route" where
  "build_router X headers GetAttention = rt_map RespAttention (get_attention X headers)"
| "build_router X headers GetDisplays = rt_map RespDisplays (get_displays X headers)"
| "build_router X headers (PostLaunches req) = rt_map RespLaunch (post_launches X headers req)"
| "build_router X headers (PostSearch req) = rt_map RespSearch (post_search X headers req)"
| "build_router X headers (PostTrack req) = rt_map RespTrack (post_track X headers req)"
| "build_router X headers (PostScreenshot sid req) = rt_map RespScreenshot (post_screenshot X headers sid req)"
| "build_router X headers (PostKey sid req) = rt_map RespKey (post_key X headers sid req)"
| "build_router X headers (PostText sid req) = rt_map RespText (post_text X headers sid req)"
| "build_router X headers (PostClick sid req) = rt_map RespSurface (post_click X headers sid req)"
| "build_router X headers (PostScroll sid req) = rt_map RespSurface (post_scroll X headers sid req)"
| "build_router X headers (PostWait sid req) = rt_map RespWait (post_wait X headers sid req)"
| "build_router X headers (PostPlace sid req) = rt_map RespPlace (post_place X headers sid req)"
| "build_router X headers (PostReplace sid req) = rt_map RespLaunch (post_replace X headers sid req)"
| "build_router X headers (PostClose sid req) = rt_map RespClose (post_close X headers sid req)"
| "build_router X headers (PostFocus sid req) = rt_map RespFocus (post_focus X headers sid req)"
| "build_router X headers (GetContentRect sid q) = rt_map RespContentRect (get_content_rect X headers sid q)"
| "build_router X headers (PostPointerMove sid req) = rt_map RespSurface (post_pointer_move X headers sid req)"

text \<open>An auto-dismiss timer that has fired.\<close>

definition fire_timer :: "'w deployment \<Rightarrow> SurfaceId \<times> Duration \<Rightarrow> 'w daemon \<Rightarrow> 'w daemon" where
  "fire_timer X t s = sys_back X (s\<lparr>timers := remove1 t (timers s)\<rparr>) (auto_dismiss (dep_host X) (fst t) (sys_at X s))"

end
