(* ===== verification/Agent_Routes.thy ===== *)
theory Agent_Routes
  imports Agent_Guard
begin

text \<open>
  The operator's permission API (\<open>portholed/src/routes/agent_permissions.rs\<close>): identities and
  tokens, the inbox of pending requests, decisions on them, and grants.  A request that can no
  longer be granted (revoked requester, gone surface) is retired while it is being described.
\<close>

section \<open>Descriptions and responses\<close>

definition describe :: "surroundings \<Rightarrow> AgentId \<Rightarrow> TargetSelector \<Rightarrow> PermissionRequestContext \<Rightarrow> PermissionDescription task" where
  "describe D agent target ctx =
     tbind (store_query D (\<lambda>E S. get_identity (libs_of D) E S agent)) (\<lambda>identity.
     tbind (let surface_case = (\<lambda>sid.
              tbind (handle_query D (\<lambda>hs. ok (store_get hs sid))) (\<lambda>current.
              let available = (case current of None \<Rightarrow> False | Some s \<Rightarrow> state s = Alive);
                  surface = (case prc_surface ctx of Some p \<Rightarrow> Some p | None \<Rightarrow> map_option permission_surface current)
              in treturn (surface, Some available)))
            in case target of
                 Surface sid \<Rightarrow> surface_case sid
               | FrontmostOnce sid \<Rightarrow> surface_case sid
               | _ \<Rightarrow> treturn (prc_surface ctx, None)) (\<lambda>(surface, surface_available).
     treturn
       \<lparr>pd_agent_name = map_option si_display_name identity,
        pd_agent_revoked = (case identity of None \<Rightarrow> True | Some i \<Rightarrow> si_revoked_at i \<noteq> None),
        pd_surface = surface, pd_surface_available = surface_available, pd_operation = prc_operation ctx\<rparr>))"

definition identity_response :: "StoredAgentIdentity \<Rightarrow> AgentIdentityResponse" where
  "identity_response i =
     \<lparr>air_agent_id = si_agent_id i, air_display_name = si_display_name i, air_metadata = si_metadata i,
      air_created_at = si_created_at i, air_revoked_at = si_revoked_at i\<rparr>"

definition retire_reason :: "PermissionDescription \<Rightarrow> string option" where
  "retire_reason d =
     (if pd_agent_revoked d then Some ''requester_unavailable''
      else if pd_surface_available d = Some False then Some ''surface_unavailable''
      else None)"

definition request_response :: "surroundings \<Rightarrow> StoredPermissionRequest \<Rightarrow> AgentPermissionRequestResponse task" where
  "request_response D request =
     tbind (describe D (sr_agent_id request) (sr_target request) (sr_context request)) (\<lambda>description.
     tbind (case (if sr_status request = StatusPending then retire_reason description else None) of
              None \<Rightarrow> treturn request
            | Some reason \<Rightarrow>
                tbind (now_unix_ms D) (\<lambda>now.
                tbind (store_op D (\<lambda>E S. invalidate_request (libs_of D) E S (sr_request_id request) reason now))
                  (\<lambda>(updated, changed).
                tbind (if changed then publish (EvPermissionResolved (sr_request_id updated) ''invalidated'')
                       else treturn ()) (\<lambda>_.
                treturn updated)))) (\<lambda>request.
     treturn
       \<lparr>prr_description = description, prr_request_id = sr_request_id request, prr_agent_id = sr_agent_id request,
        prr_target = target_to_wire (sr_target request), prr_actions = sr_actions request,
        prr_reason = sr_reason request, prr_status = status_as_str (sr_status request),
        prr_invalidation_reason = sr_invalidation_reason request, prr_created_at = sr_created_at request,
        prr_resolved_at = sr_resolved_at request\<rparr>))"

definition grant_response :: "surroundings \<Rightarrow> StoredGrant \<Rightarrow> AgentGrantResponse task" where
  "grant_response D grant =
     tbind (case sg_origin_request_id grant of
              Some i \<Rightarrow>
                tbind (store_query D (\<lambda>E S. get_permission_request (libs_of D) E S i)) (\<lambda>found.
                treturn (case found of
                  Some r \<Rightarrow> (sr_context r, sr_reason r)
                | None \<Rightarrow> (PermissionRequestContext_default, None)))
            | None \<Rightarrow> treturn (PermissionRequestContext_default, None)) (\<lambda>(ctx, origin_reason).
     tbind (describe D (sg_agent_id grant) (sg_target grant) ctx) (\<lambda>description.
     treturn
       \<lparr>gresp_description = description, gresp_grant_id = sg_grant_id grant, gresp_agent_id = sg_agent_id grant,
        gresp_origin_request_id = sg_origin_request_id grant, gresp_origin_reason = origin_reason,
        gresp_target = target_to_wire (sg_target grant), gresp_actions = sg_actions grant,
        gresp_duration = duration_to_wire (sg_duration grant),
        gresp_constraints = constraints_to_wire (sg_constraints grant), gresp_created_at = sg_created_at grant,
        gresp_expires_at = sg_expires_at grant, gresp_consumed_at = sg_consumed_at grant,
        gresp_revoked_at = sg_revoked_at grant\<rparr>))"

definition not_found :: "string \<Rightarrow> ApiError" where
  "not_found msg = ApiError_from_porthole (PortholeError_new AgentIdentityNotFound (Msg msg []))"

section \<open>Handlers\<close>

definition post_identity :: "surroundings \<Rightarrow> CreateAgentIdentityRequest \<Rightarrow> CreateAgentIdentityResponse task" where
  "post_identity D request =
     tbind (now_unix_ms D) (\<lambda>now.
     tbind (store_op D (\<lambda>E S. create_identity (libs_of D) E S (cir_display_name request) (cir_metadata request) now)) (\<lambda>created.
     tbind (publish (EvIdentityCreated (ci_agent_id created) (cir_display_name request))) (\<lambda>_.
     treturn \<lparr>cip_agent_id = ci_agent_id created, cip_token = ci_token created\<rparr>)))"

definition get_identities :: "surroundings \<Rightarrow> AgentIdentityResponse list task" where
  "get_identities D =
     tbind (store_query D (\<lambda>E S. list_identities (libs_of D) E S)) (\<lambda>ids. treturn (map identity_response ids))"

definition route_get_identity :: "surroundings \<Rightarrow> string \<Rightarrow> AgentIdentityResponse task" where
  "route_get_identity D agent_id =
     tbind (store_query D (\<lambda>E S. get_identity (libs_of D) E S agent_id)) (\<lambda>found.
     case found of
       None \<Rightarrow> tresult (Inl (not_found ''agent identity not found''))
     | Some identity \<Rightarrow> treturn (identity_response identity))"

definition post_revoke_identity :: "surroundings \<Rightarrow> string \<Rightarrow> RevocationResponse task" where
  "post_revoke_identity D agent_id =
     tbind (now_unix_ms D) (\<lambda>now.
     tbind (store_op D (\<lambda>E S. revoke_identity E S agent_id now)) (\<lambda>revoked.
     tbind (if revoked then publish (EvIdentityRevoked agent_id) else treturn ()) (\<lambda>_.
     treturn \<lparr>rev_revoked = revoked\<rparr>)))"

definition post_identity_token :: "surroundings \<Rightarrow> string \<Rightarrow> MintAgentTokenResponse task" where
  "post_identity_token D agent_id =
     tbind (now_unix_ms D) (\<lambda>now.
     tbind (store_op D (\<lambda>E S. mint_token (libs_of D) E S agent_id now)) (\<lambda>created.
     tbind (publish (EvPolicyChanged ''agent_token'')) (\<lambda>_.
     treturn \<lparr>mtr_token_id = ct_token_id created, mtr_token = ct_token created\<rparr>)))"

definition post_revoke_identity_token :: "surroundings \<Rightarrow> string \<Rightarrow> string \<Rightarrow> RevocationResponse task" where
  "post_revoke_identity_token D agent_id token_id =
     tbind (now_unix_ms D) (\<lambda>now.
     tbind (store_op D (\<lambda>E S. revoke_token E S agent_id token_id now)) (\<lambda>revoked.
     tbind (if revoked then publish (EvPolicyChanged ''agent_token'') else treturn ()) (\<lambda>_.
     treturn \<lparr>rev_revoked = revoked\<rparr>)))"

fun get_requests_loop ::
  "surroundings \<Rightarrow> StoredPermissionRequest list \<Rightarrow> AgentPermissionRequestResponse list \<Rightarrow>
   AgentPermissionRequestResponse list task" where
  "get_requests_loop D [] result = treturn result"
| "get_requests_loop D (request # rest) result =
     tbind (request_response D request) (\<lambda>response.
     get_requests_loop D rest (if prr_status response = ''pending'' then result @ [response] else result))"

definition get_requests :: "surroundings \<Rightarrow> AgentPermissionRequestResponse list task" where
  "get_requests D =
     tbind (store_query D (\<lambda>E S. list_pending_permission_requests (libs_of D) E S)) (\<lambda>pending.
     get_requests_loop D pending [])"

definition get_request :: "surroundings \<Rightarrow> string \<Rightarrow> AgentPermissionRequestResponse task" where
  "get_request D request_id =
     tbind (store_query D (\<lambda>E S. get_permission_request (libs_of D) E S request_id)) (\<lambda>found.
     case found of
       None \<Rightarrow> tresult (Inl (ApiError_from_store PermissionRequestNotFound))
     | Some request \<Rightarrow> request_response D request)"

definition post_approve_request :: "surroundings \<Rightarrow> string \<Rightarrow> ApproveAgentPermissionRequest \<Rightarrow> AgentGrantResponse task" where
  "post_approve_request D request_id body =
     tbind (store_query D (\<lambda>E S. get_permission_request (libs_of D) E S request_id)) (\<lambda>found.
     case found of
       None \<Rightarrow> tresult (Inl (ApiError_from_store PermissionRequestNotFound))
     | Some request \<Rightarrow>
         tbind (request_response D request) (\<lambda>response.
         if prr_status response \<noteq> ''pending'' then tresult (Inl (ApiError_from_store PermissionRequestNotPending))
         else if sr_target request \<noteq> target_from_wire (apr_target body)
              \<or> sr_actions request \<noteq> remdups_adj (sort (apr_actions body))
         then tresult (Inl (ApiError_from_porthole (PortholeError_new InvalidArgument
                (Msg ''approve target/actions must match the pending request'' []))))
         else
           tbind (now_unix_ms D) (\<lambda>now.
           tbind (store_op D (\<lambda>E S. approve_request (libs_of D) E S request_id
                    (duration_from_wire (apr_duration body)) (constraints_from_wire (apr_constraints body)) now)) (\<lambda>grant.
           tbind (publish (EvPermissionResolved request_id ''approved'')) (\<lambda>_.
           grant_response D grant)))))"

definition post_deny_request :: "surroundings \<Rightarrow> string \<Rightarrow> DenyAgentPermissionRequest \<Rightarrow> AgentPermissionRequestResponse task" where
  "post_deny_request D request_id body =
     tbind (now_unix_ms D) (\<lambda>now.
     tbind (store_op D (\<lambda>E S. deny_request (libs_of D) E S request_id (dpr_remember body) (dpr_reason body) now)) (\<lambda>request.
     tbind (publish (EvPermissionResolved request_id ''denied'')) (\<lambda>_.
     request_response D request)))"

fun get_grants_loop ::
  "surroundings \<Rightarrow> StoredGrant list \<Rightarrow> AgentGrantResponse list \<Rightarrow> AgentGrantResponse list task" where
  "get_grants_loop D [] result = treturn result"
| "get_grants_loop D (grant # rest) result =
     tbind (grant_response D grant) (\<lambda>response.
     get_grants_loop D rest
       (if pd_agent_revoked (gresp_description response)
           \<or> gresp_duration response = WUntilSurfaceGone
             \<and> pd_surface_available (gresp_description response) = Some False
        then result else result @ [response]))"

definition get_grants :: "surroundings \<Rightarrow> AgentGrantResponse list task" where
  "get_grants D =
     tbind (now_unix_ms D) (\<lambda>now.
     tbind (store_query D (\<lambda>E S. list_active_grants (libs_of D) E S now)) (\<lambda>gs.
     get_grants_loop D gs []))"

definition post_revoke_grant :: "surroundings \<Rightarrow> string \<Rightarrow> RevocationResponse task" where
  "post_revoke_grant D gid =
     tbind (now_unix_ms D) (\<lambda>now.
     tbind (store_op D (\<lambda>E S. revoke_grant E S gid now)) (\<lambda>revoked.
     tbind (if revoked then publish (EvPolicyChanged ''agent_grant'') else treturn ()) (\<lambda>_.
     treturn \<lparr>rev_revoked = revoked\<rparr>)))"

section \<open>Handlers are runs of store operations\<close>

context task_order
begin

lemma keeps_describe:
  assumes "bounded D"
  shows "keeps (describe D a tg ctx)"
  unfolding describe_def Let_def
  by (auto intro!: keeps_intros assms split: TargetSelector.splits)

lemma keeps_request_response:
  assumes "bounded D"
  shows "keeps (request_response D q)"
proof -
  have "libs_of D = L" using assms by (simp add: bounded_def)
  then have "keeps (store_op D (\<lambda>E S. invalidate_request (libs_of D) E S i rs t))" for i rs t
    by (intro keeps_store_op [OF assms]) (auto intro: store_step.invalidate_request)
  then show ?thesis unfolding request_response_def
    by (auto intro!: keeps_intros keeps_describe assms split: option.splits)
qed

lemma keeps_grant_response: "bounded D \<Longrightarrow> keeps (grant_response D g)"
  unfolding grant_response_def by (auto intro!: keeps_intros keeps_describe split: option.splits)

lemma keeps_get_requests_loop: "bounded D \<Longrightarrow> keeps (get_requests_loop D qs res)"
  by (induction qs arbitrary: res) (auto intro!: keeps_treturn keeps_tbind keeps_request_response)

lemma keeps_get_grants_loop: "bounded D \<Longrightarrow> keeps (get_grants_loop D gs res)"
  by (induction gs arbitrary: res) (auto intro!: keeps_treturn keeps_tbind keeps_grant_response)

lemma keeps_post_approve_request:
  assumes "bounded D"
  shows "keeps (post_approve_request D i body)"
proof -
  have "libs_of D = L" using assms by (simp add: bounded_def)
  then have "keeps (store_op D (\<lambda>E S. approve_request (libs_of D) E S i d cs t))" for d cs t
    by (intro keeps_store_op [OF assms]) (auto intro: store_step.approve_request)
  then show ?thesis unfolding post_approve_request_def
    by (auto intro!: keeps_intros keeps_request_response keeps_grant_response assms split: option.splits)
qed

lemma keeps_post_deny_request:
  assumes "bounded D"
  shows "keeps (post_deny_request D i dbody)"
proof -
  have "libs_of D = L" using assms by (simp add: bounded_def)
  then have "keeps (store_op D (\<lambda>E S. deny_request (libs_of D) E S i b rs t))" for b rs t
    by (intro keeps_store_op [OF assms]) (auto intro: store_step.deny_request)
  then show ?thesis unfolding post_deny_request_def
    by (intro keeps_intros keeps_request_response assms)
qed

lemma keeps_post_identity:
  assumes "bounded D"
  shows "keeps (post_identity D req)" and "keeps (post_identity_token D i)"
    and "keeps (post_revoke_identity D i)" and "keeps (post_revoke_identity_token D i k)"
    and "keeps (post_revoke_grant D i)"
proof -
  have L: "libs_of D = L" using assms by (simp add: bounded_def)
  have "keeps (store_op D (\<lambda>E S. create_identity (libs_of D) E S nm m t))"
    and "keeps (store_op D (\<lambda>E S. mint_token (libs_of D) E S i t))"
    and "keeps (store_op D (\<lambda>E S. revoke_identity E S i t))"
    and "keeps (store_op D (\<lambda>E S. revoke_token E S i k t))"
    and "keeps (store_op D (\<lambda>E S. revoke_grant E S i t))" for nm m t
    using L by (auto intro!: keeps_store_op [OF assms] disjI2 dest: store_step.intros)
  then show "keeps (post_identity D req)" "keeps (post_identity_token D i)"
    "keeps (post_revoke_identity D i)" "keeps (post_revoke_identity_token D i k)" "keeps (post_revoke_grant D i)"
    unfolding post_identity_def post_identity_token_def post_revoke_identity_def
      post_revoke_identity_token_def post_revoke_grant_def
    by (auto intro!: keeps_intros)
qed

lemma keeps_reads:
  assumes "bounded D"
  shows "keeps (get_requests D)" and "keeps (get_request D i)" and "keeps (get_grants D)"
  unfolding get_requests_def get_request_def get_grants_def
  by (auto intro!: keeps_intros keeps_get_requests_loop keeps_get_grants_loop keeps_request_response assms
      split: option.splits)

lemmas keeps_routes = keeps_post_identity keeps_post_approve_request keeps_post_deny_request keeps_reads

end

text \<open>
  The operator API touches the policy store only through its own operations.  Every handler,
  reads included (listing the inbox retires requests that can no longer be granted), is a run
  of store operations interleaved with those of other tasks, whatever it answers.
\<close>

theorem routes_refine_store_runs:
  assumes "store_interference D" and "libs_of D = L"
  shows "(post_identity D req (n, A) = (r1, (n', A')) \<longrightarrow> store_run L (app_store A) (app_store A')) \<and>
    (post_identity_token D i (n, A) = (r2, (n', A')) \<longrightarrow> store_run L (app_store A) (app_store A')) \<and>
    (post_revoke_identity D i (n, A) = (r3, (n', A')) \<longrightarrow> store_run L (app_store A) (app_store A')) \<and>
    (post_revoke_identity_token D i k (n, A) = (r4, (n', A')) \<longrightarrow> store_run L (app_store A) (app_store A')) \<and>
    (post_revoke_grant D i (n, A) = (r5, (n', A')) \<longrightarrow> store_run L (app_store A) (app_store A')) \<and>
    (post_approve_request D i body (n, A) = (r6, (n', A')) \<longrightarrow> store_run L (app_store A) (app_store A')) \<and>
    (post_deny_request D i dbody (n, A) = (r7, (n', A')) \<longrightarrow> store_run L (app_store A) (app_store A')) \<and>
    (get_requests D (n, A) = (r8, (n', A')) \<longrightarrow> store_run L (app_store A) (app_store A')) \<and>
    (get_request D i (n, A) = (r9, (n', A')) \<longrightarrow> store_run L (app_store A) (app_store A')) \<and>
    (get_grants D (n, A) = (r10, (n', A')) \<longrightarrow> store_run L (app_store A) (app_store A'))"
proof -
  from store_interference_bounded [OF assms(1)] assms(2) have b: "app_runs.bounded L D" by simp
  note keep = app_runs.keeps_routes [OF b, THEN app_runs.keepsD, unfolded app_run_def]
  show ?thesis by (intro conjI impI; erule keep)
qed

theorem routes_refine_store_runs_witness:
  "\<exists>r n' A'. post_revoke_grant calm_surroundings ''grant_g0'' (0, example_app) = (r, (n', A')) \<and>
     store_run example_libs example_approved (app_store A')"
proof -
  obtain r n' A' where run: "post_revoke_grant calm_surroundings ''grant_g0'' (0, example_app) = (r, (n', A'))"
    by (metis surj_pair)
  from routes_refine_store_runs [OF calm_interference refl, of undefined 0 example_app _ n' A' "''grant_g0''"] run show ?thesis
    by (auto simp: calm_surroundings_def example_app_def)
qed

section \<open>The inbox and approvals\<close>

lemma invalidate_status:
  assumes "invalidate_request L E S qid rs t = (Inr (q, b), S')"
  shows "sr_status q \<noteq> StatusPending"
proof
  assume pend: "sr_status q = StatusPending"
  from assms obtain q0 where q0: "select_request_by_id L E 1 S qid = Inr (Some q0)"
    by (auto simp: invalidate_request_atomic Let_def result_simps)
  have "count_where (\<lambda>r. rq_request_id r = qid \<and> rq_status r = ''pending'') (requests S) \<noteq> 0"
    if "sr_status q0 = StatusPending"
    using select_request_decided [OF q0] that by (auto simp: count_where_0)
  with assms q0 pend show False
    by (auto simp: invalidate_request_atomic Let_def result_simps split: if_splits)
qed

lemma request_response_pending:
  assumes "request_response D q (n, A) = (Inr resp, s)" and "prr_status resp = ''pending''"
  shows "retire_reason (prr_description resp) = None"
proof -
  have [simp]: "status_as_str st = ''pending'' \<longleftrightarrow> st = StatusPending" for st by (cases st) auto
  from assms show ?thesis
    by (auto simp: request_response_def task_simps split: option.splits if_splits dest!: invalidate_status)
qed

lemma get_requests_loop_pending:
  assumes "get_requests_loop D qs res (n, A) = (Inr out, s)"
    and "\<forall>resp \<in> set res. prr_status resp = ''pending'' \<and> retire_reason (prr_description resp) = None"
  shows "\<forall>resp \<in> set out. prr_status resp = ''pending'' \<and> retire_reason (prr_description resp) = None"
  using assms
proof (induction qs arbitrary: res n A)
  case Nil
  then show ?case by (auto simp: task_simps)
next
  case (Cons q qs)
  from Cons.prems(1) obtain resp m B where r: "request_response D q (n, A) = (Inr resp, (m, B))"
    "get_requests_loop D qs (if prr_status resp = ''pending'' then res @ [resp] else res) (m, B) = (Inr out, s)"
    by (auto simp: task_simps)
  show ?case
    by (rule Cons.IH [OF r(2)]) (use Cons.prems(2) request_response_pending [OF r(1)] in auto)
qed

text \<open>
  The operator's inbox shows only requests that can still be granted.  Every request that
  \<open>get_requests\<close> lists is pending, its requester exists and is not revoked, and the window it is
  about, if it is about one, is alive; the others are retired instead of listed.
\<close>

theorem inbox_lists_only_grantable:
  assumes "get_requests D (n, A) = (Inr out, s)" and "resp \<in> set out"
  shows "prr_status resp = ''pending'' \<and> \<not> pd_agent_revoked (prr_description resp) \<and>
    pd_surface_available (prr_description resp) \<noteq> Some False"
proof -
  from assms(1) obtain qs m B where "get_requests_loop D qs [] (m, B) = (Inr out, s)"
    by (auto simp: get_requests_def task_simps)
  from get_requests_loop_pending [OF this] assms(2) show ?thesis
    by (auto simp: retire_reason_def split: if_splits)
qed

definition inbox_app :: AppState where
  "inbox_app = example_app\<lparr>app_store := example_requested\<rparr>"

lemmas route_eval = guard_eval inbox_app_def get_requests_def request_response_def describe_def retire_reason_def
  get_identity_def select_identity_def stored_identity_from_tuple_def list_pending_permission_requests_def
  post_approve_request_def grant_response_def get_permission_request_def permission_surface_def

theorem inbox_lists_only_grantable_witness:
  "\<exists>resp s. get_requests calm_surroundings (0, inbox_app) = (Inr [resp], s) \<and>
     prr_request_id resp = ''apr_q0'' \<and> \<not> pd_agent_revoked (prr_description resp)"
proof -
  obtain resp s where run: "get_requests calm_surroundings (0, inbox_app) = (Inr [resp], s)" "prr_request_id resp = ''apr_q0''"
    by (simp add: route_eval)
  with inbox_lists_only_grantable [OF run(1), of resp] show ?thesis by auto
qed

text \<open>A decoded request reads the same target and actions from its row in every later state.\<close>

lemma request_later_same:
  assumes "store_le S S'" and "store_wf S'" and "r \<in> set (requests S)" and "r' \<in> set (requests S')"
    and "rq_request_id r' = rq_request_id r"
  shows "rq_target_json r' = rq_target_json r" "rq_actions_json r' = rq_actions_json r" "rq_agent_id r' = rq_agent_id r"
proof -
  from assms(1,3) obtain h where h: "h \<in> set (requests S')" "request_evolves r h"
    unfolding store_le_def by (blast elim: extends_in)
  then have eq: "h = r\<lparr>rq_status := rq_status h, rq_resolved_at := rq_resolved_at h,
            rq_invalidation_reason := rq_invalidation_reason h\<rparr>" by (simp add: request_evolves_def)
  from arg_cong [OF eq, of rq_request_id] have "rq_request_id h = rq_request_id r'" using assms(5) by simp
  with assms(2,4) h(1) have "h = r'" by (auto simp: store_wf_def store_keys_def distinct_map dest: inj_onD)
  with arg_cong [OF eq, of rq_target_json] arg_cong [OF eq, of rq_actions_json] arg_cong [OF eq, of rq_agent_id]
  show "rq_target_json r' = rq_target_json r" "rq_actions_json r' = rq_actions_json r" "rq_agent_id r' = rq_agent_id r"
    by simp_all
qed

lemma get_permission_request_Some:
  assumes "get_permission_request L E S qid = Inr (Some q)"
  obtains r where "r \<in> set (requests S)" "rq_request_id r = qid" "stored_request_from_tuple L r = Inr q"
  using assms
  by (auto simp: get_permission_request_def read_conn_def split: option.splits elim: select_request_by_id_Some)

lemma grant_response_Inr:
  assumes "grant_response D g s = (Inr resp, s')"
  shows "gresp_grant_id resp = sg_grant_id g" "gresp_agent_id resp = sg_agent_id g"
    "gresp_target resp = target_to_wire (sg_target g)" "gresp_actions resp = sg_actions g"
    "gresp_duration resp = duration_to_wire (sg_duration g)"
    "gresp_constraints resp = constraints_to_wire (sg_constraints g)"
    "gresp_origin_request_id resp = sg_origin_request_id g"
  using assms by (auto simp: grant_response_def task_simps)

lemma approve_request_terms:
  assumes "approve_request L E S qid d cs t = (Inr sg, S')"
  shows "sg_duration sg = d" "sg_constraints sg = cs" "sg_origin_request_id sg = Some qid"
  using assms unfolding approve_request_atomic
  by (auto simp: Let_def result_simps split: if_splits dest!: select_request_decided)

lemma approved_grant:
  assumes "post_approve_request D qid body (n, A) = (Inr resp, (n', A'))"
    and "store_interference D" and "store_run (libs_of D) init_schema (app_store A)"
  shows "gresp_target resp = apr_target body \<and> set (gresp_actions resp) = set (apr_actions body) \<and>
    gresp_duration resp = apr_duration body \<and> gresp_constraints resp = apr_constraints body \<and>
    gresp_origin_request_id resp = Some qid \<and>
    (\<exists>r. r \<in> set (requests (app_store (interleave D n A))) \<and> rq_request_id r = qid \<and>
       rq_agent_id r = gresp_agent_id resp)"
proof -
  let ?L = "libs_of D"
  let ?A1 = "interleave D n A"
  from assms(1) obtain q response m B now g S s2 where
    read: "get_permission_request ?L (call_env D n) (app_store ?A1) qid = Inr (Some q)"
    and rr: "request_response D q (Suc n, ?A1) = (Inr response, (m, B))"
    and eqs: "sr_target q = target_from_wire (apr_target body)" "sr_actions q = remdups_adj (sort (apr_actions body))"
    and call: "approve_request ?L (call_env D m) (app_store (interleave D m B)) qid
      (duration_from_wire (apr_duration body)) (constraints_from_wire (apr_constraints body)) now = (Inr g, S)"
    and gresp: "grant_response D g s2 = (Inr resp, (n', A'))"
    by (auto simp: post_approve_request_def task_simps split: option.splits if_splits)
  let ?B1 = "interleave D m B"
  have b: "app_runs.bounded ?L D" using assms(2) by (rule store_interference_bounded)
  have "app_run ?L ?A1 B" using app_runs.keepsD [OF app_runs.keeps_request_response [OF b] rr] .
  then have run: "store_run ?L (app_store ?A1) (app_store ?B1)" and run0: "store_run ?L (app_store A) (app_store ?A1)"
    using assms(2) store_run_trans unfolding app_run_def store_interference_def by blast+
  have wf1: "store_wf (app_store ?A1)" using store_reachable_wf store_run_trans [OF assms(3) run0] by blast
  then have wf2: "store_wf (app_store ?B1)" using store_run_wf [OF run] by blast
  from read obtain r where r: "r \<in> set (requests (app_store ?A1))" "rq_request_id r = qid"
    "stored_request_from_tuple ?L r = Inr q" by (rule get_permission_request_Some)
  let ?r = "decided_row (app_store ?B1) qid"
  from approve_request_Inr [OF call] obtain q' where q': "stored_request_from_tuple ?L ?r = Inr q'"
    "?r \<in> set (requests (app_store ?B1))" "rq_request_id ?r = qid" by blast
  from request_later_same [OF store_run_le [OF run wf1] wf2 r(1) q'(2)] q'(3) r(2)
  have same: "rq_target_json ?r = rq_target_json r" "rq_actions_json ?r = rq_actions_json r" "rq_agent_id ?r = rq_agent_id r"
    by simp_all
  then have "sr_target q' = sr_target q" "sr_actions q' = sr_actions q"
    using stored_request_fields(4,5) [OF r(3)] stored_request_fields(4,5) [OF q'(1)] by simp_all
  with approve_request_grant [OF call q'(1)] eqs same(3) have
    g: "sg_agent_id g = rq_agent_id r" "sg_target g = target_from_wire (apr_target body)"
      "set (sg_actions g) = set (apr_actions body)" by (simp_all add: canonicalize_actions_props)
  show ?thesis
    using grant_response_Inr [OF gresp] approve_request_terms [OF call] g r(1,2)
    by (auto simp: targets.to_from durations.to_from constraints_to_from)
qed

text \<open>
  Approving through the API grants exactly what the operator was shown.  When
  \<open>post_approve_request\<close> answers with a grant, that grant has the target, duration and constraints
  of the request body and its action set, belongs to the agent that asked, and stems from this
  request, even though other tasks may have run between the check of the body against the
  request and the approval.
\<close>

theorem approval_grants_what_was_shown:
  assumes "post_approve_request D qid body (n, A) = (Inr resp, (n', A'))"
    and "store_interference D" and "store_run (libs_of D) init_schema (app_store A)"
  shows "gresp_target resp = apr_target body \<and> set (gresp_actions resp) = set (apr_actions body) \<and>
    gresp_duration resp = apr_duration body \<and> gresp_constraints resp = apr_constraints body \<and>
    gresp_origin_request_id resp = Some qid \<and>
    (\<exists>r. r \<in> set (requests (app_store (interleave D n A))) \<and> rq_request_id r = qid \<and>
       rq_agent_id r = gresp_agent_id resp)"
  using assms by (rule approved_grant)

definition example_body :: ApproveAgentPermissionRequest where
  "example_body = \<lparr>apr_duration = WPersistent, apr_target = WSurface ''surf_1'', apr_actions = [Drive, Observe, Drive],
     apr_constraints = AgentPermissionConstraints_default\<rparr>"

theorem approval_grants_what_was_shown_witness:
  "\<exists>resp s. post_approve_request calm_surroundings ''apr_q0'' example_body (0, inbox_app) = (Inr resp, s) \<and>
     gresp_target resp = WSurface ''surf_1'' \<and> set (gresp_actions resp) = {Drive, Observe}"
proof -
  obtain resp n' A' where run: "post_approve_request calm_surroundings ''apr_q0'' example_body (0, inbox_app) = (Inr resp, (n', A'))"
    by (simp add: route_eval example_body_def constraints_from_wire_def AgentPermissionConstraints_default_def)
  from approval_grants_what_was_shown [OF run calm_interference] example_run(2) run show ?thesis
    by (auto simp: calm_surroundings_def inbox_app_def example_body_def)
qed

end
