(* ===== verification/Route_Runs.thy ===== *)
theory Route_Runs
  imports Surface_Routes Agent_Routes
begin

text \<open>
  What the agent-facing handlers guarantee: no effect before the guard has admitted the request, an
  audit entry for every request that was carried out, and use of the policy store and the handle
  store through their own operations only.
\<close>

section \<open>Admission\<close>

text \<open>The context in which the guard looks for a grant, by what the request is about.\<close>

fun context_of :: "TargetSelector \<Rightarrow> AgentId \<Rightarrow> TargetContext \<Rightarrow> bool" where
  "context_of (Surface sid) a t \<longleftrightarrow> ctx_surface_id t = Some sid"
| "context_of LaunchedByAgent a t \<longleftrightarrow> ctx_surface_id t = None \<and> ctx_launched_by_agent t = Some a"
| "context_of AllSurfaces a t \<longleftrightarrow> ctx_surface_id t = None \<and> ctx_launched_by_agent t = None"
| "context_of _ _ _ \<longleftrightarrow> False"

text \<open>
  The guard, started at the \<open>n\<close>-th operation in state \<open>A\<close> and ending in \<open>A'\<close>, admitted actions on
  a target: the token authenticated the agent, a policy snapshot loaded meanwhile allowed the
  actions by the reported grant, and a one-time grant was spent.
\<close>

definition admitted ::
    "surroundings \<Rightarrow> string option option \<Rightarrow> TargetSelector \<Rightarrow> ActionClass list \<Rightarrow> AuthorizedRouteExecution \<Rightarrow>
     nat \<Rightarrow> AppState \<Rightarrow> AppState \<Rightarrow> bool" where
  "admitted D headers tg acts x n A A' \<longleftrightarrow>
     exec_target x = tg \<and> exec_actions x = acts \<and>
     (\<exists>token. bearer_token headers = Inr token \<and>
        authenticate_agent_token (libs_of D) (call_env D n) (app_store (interleave D n A)) token = Inr (Some (exec_agent_id x))) \<and>
     (\<exists>tctx. context_of tg (exec_agent_id x) tctx \<and> allowed_at D tctx x A A') \<and>
     (exec_consumes_grant x \<longrightarrow> consumed_at D x A A')"

lemma admitted_target:
  assumes "authorize_target_actions D a tg tc ds acts rs rd False (m, B) = (Inr x, (n', A'))"
    and "store_interference D" and "app_run (libs_of D) A B" and "context_of tg a tc"
    and "bearer_token headers = Inr token"
    and "authenticate_agent_token (libs_of D) (call_env D n) (app_store (interleave D n A)) token = Inr (Some a)"
  shows "admitted D headers tg acts x n A A'"
proof -
  from authorize_target_actions_Inr [OF assms(1,2)] have x: "exec_agent_id x = a" "exec_target x = tg"
    "exec_actions x = acts" and al: "allowed_at D tc x B A'" and co: "exec_consumes_grant x \<longrightarrow> consumed_at D x B A'"
    by auto
  from x assms(4-6) allowed_at_weaken [OF assms(3) al] co consumed_at_weaken [OF assms(3)]
  show ?thesis unfolding admitted_def by blast
qed

lemma interleave_run: "store_interference D \<Longrightarrow> app_run (libs_of D) A (interleave D n A)"
  by (simp add: store_interference_def app_run_def)

lemma authorize_surface_admitted:
  assumes "authorize_surface_actions D headers sid acts rs (n, A) = (Inr x, (n', A'))"
    and "store_interference D"
  shows "admitted D headers (Surface sid) acts x n A A'"
proof -
  let ?A1 = "interleave D n A"
  let ?A2 = "interleave D (Suc n) ?A1"
  from assms(1) obtain token a tctx rd ds where tok: "bearer_token headers = Inr token"
    "authenticate_agent_token (libs_of D) (call_env D n) (app_store ?A1) token = Inr (Some a)"
    and run: "authorize_target_actions D a (Surface sid) tctx ds acts rs rd False (Suc (Suc n), ?A2) = (Inr x, (n', A'))"
    and ctx: "ctx_surface_id tctx = Some sid"
    by (auto simp: authorize_surface_actions_def authorize_surface_actions_inner_def task_simps
        authenticated_agent_id_Inr result_simps eq_commute [of "Inr _" "map_err ApiError_from_porthole _"])
  show ?thesis
    using app_run_trans [OF interleave_run interleave_run, OF assms(2) assms(2)]
    by (intro admitted_target [OF run assms(2) _ _ tok]) (simp_all add: ctx)
qed

lemma authorize_global_admitted:
  assumes "store_interference D"
  shows "authorize_launch_actions D headers acts rs (n, A) = (Inr x, (n', A')) \<Longrightarrow>
           admitted D headers LaunchedByAgent acts x n A A'"
    and "authorize_all_surfaces_actions D headers acts rs (n, A) = (Inr x, (n', A')) \<Longrightarrow>
           admitted D headers AllSurfaces acts x n A A'"
  using interleave_run [OF assms]
  by (auto simp: authorize_launch_actions_def authorize_all_surfaces_actions_def task_simps
      authenticated_agent_id_Inr intro!: admitted_target [OF _ assms])

section \<open>Guarded handlers\<close>

named_theorems rt_simps \<open>unfolding of handlers\<close>

lemma rt_bind_Inr [rt_simps]: "rt_bind m f s = (Inr y, u) \<longleftrightarrow> (\<exists>x t. m s = (Inr x, t) \<and> f x t = (Inr y, u))"
  by (auto simp: rt_bind_def split: prod.splits sum.splits)

lemma rt_bind_Inl [rt_simps]:
  "rt_bind m f s = (Inl e, u) \<longleftrightarrow> m s = (Inl e, u) \<or> (\<exists>x t. m s = (Inr x, t) \<and> f x t = (Inl e, u))"
  by (auto simp: rt_bind_def split: prod.splits sum.splits)

lemma rt_return_eq [rt_simps]: "rt_return x s = (r, t) \<longleftrightarrow> r = Inr x \<and> t = s"
  by (auto simp: rt_return_def)

lemma rt_result_eq [rt_simps]: "rt_result m s = (r, t) \<longleftrightarrow> r = m \<and> t = s"
  by (auto simp: rt_result_def)

lemma rt_map_Inr [rt_simps]: "rt_map f m s = (Inr y, t) \<longleftrightarrow> (\<exists>x. m s = (Inr x, t) \<and> y = f x)"
  by (auto simp: rt_map_def rt_simps)

lemma rt_map_Inl [rt_simps]: "rt_map f m s = (Inl e, t) \<longleftrightarrow> m s = (Inl e, t)"
  by (auto simp: rt_map_def rt_simps)

lemma rt_bind_assoc: "rt_bind (rt_bind m f) g = rt_bind m (\<lambda>x. rt_bind (f x) g)"
  by (auto simp: rt_bind_def fun_eq_iff split: prod.splits sum.splits)

text \<open>What a request is about and the action it needs, the reference for its handler.\<close>

fun request_target :: "AgentRequest \<Rightarrow> TargetSelector" where
  "request_target GetAttention = AllSurfaces"
| "request_target GetDisplays = AllSurfaces"
| "request_target (PostSearch _) = AllSurfaces"
| "request_target (PostTrack _) = AllSurfaces"
| "request_target (PostLaunches _) = LaunchedByAgent"
| "request_target (PostScreenshot sid _) = Surface sid"
| "request_target (PostKey sid _) = Surface sid"
| "request_target (PostText sid _) = Surface sid"
| "request_target (PostClick sid _) = Surface sid"
| "request_target (PostScroll sid _) = Surface sid"
| "request_target (PostWait sid _) = Surface sid"
| "request_target (PostPlace sid _) = Surface sid"
| "request_target (PostReplace sid _) = Surface sid"
| "request_target (PostClose sid _) = Surface sid"
| "request_target (PostFocus sid _) = Surface sid"
| "request_target (GetContentRect sid _) = Surface sid"
| "request_target (PostPointerMove sid _) = Surface sid"

fun request_action :: "AgentRequest \<Rightarrow> ActionClass" where
  "request_action GetAttention = Manage"
| "request_action GetDisplays = Observe"
| "request_action (PostSearch _) = Manage"
| "request_action (PostTrack _) = Manage"
| "request_action (PostLaunches _) = Manage"
| "request_action (PostScreenshot _ _) = Observe"
| "request_action (PostKey _ _) = Drive"
| "request_action (PostText _ _) = Drive"
| "request_action (PostClick _ _) = Drive"
| "request_action (PostScroll _ _) = Drive"
| "request_action (PostWait _ _) = Observe"
| "request_action (PostPlace _ _) = Manage"
| "request_action (PostReplace _ _) = Manage"
| "request_action (PostClose _ _) = Manage"
| "request_action (PostFocus _ _) = Drive"
| "request_action (GetContentRect _ _) = Observe"
| "request_action (PostPointerMove _ _) = Drive"

text \<open>
  A handler is guarded when it either answers with an error and leaves the world and the timers
  alone, or was admitted.
\<close>

definition guarded ::
    "surroundings \<Rightarrow> string option option \<Rightarrow> TargetSelector \<Rightarrow> ActionClass list \<Rightarrow> ('w, 'a) route \<Rightarrow> bool" where
  "guarded D headers tg acts m \<longleftrightarrow>
     (\<forall>s r t. m s = (r, t) \<longrightarrow>
        (\<exists>e n A. r = Inl (Fault e) \<and> t = s\<lparr>ops_done := n, app := A\<rparr>) \<or>
        (\<exists>x A. admitted D headers tg acts x (ops_done s) (app s) A))"

lemma guarded_guard:
  assumes "\<And>n A x n' A'. g (n, A) = (Inr x, (n', A')) \<Longrightarrow> admitted D headers tg acts x n A A'"
  shows "guarded D headers tg acts (rt_bind (run_task g) body)"
  unfolding guarded_def
proof (intro allI impI)
  fix s r t assume run: "rt_bind (run_task g) body s = (r, t)"
  obtain x n A where g: "g (ops_done s, app s) = (x, (n, A))" by (cases "g (ops_done s, app s)") auto
  show "(\<exists>e n A. r = Inl (Fault e) \<and> t = s\<lparr>ops_done := n, app := A\<rparr>) \<or>
    (\<exists>x A. admitted D headers tg acts x (ops_done s) (app s) A)"
  proof (cases x)
    case (Inl e)
    with run g have "r = Inl (Fault e)" "t = s\<lparr>ops_done := n, app := A\<rparr>"
      by (auto simp: rt_bind_def run_task_def map_err_def)
    then show ?thesis by blast
  next
    case (Inr x')
    then show ?thesis using assms [OF g [unfolded Inr]] by blast
  qed
qed

lemma guarded_check:
  assumes "\<And>e. check = Inl e \<Longrightarrow> \<exists>e'. e = Fault e'" and "\<And>x. guarded D headers tg acts (f x)"
  shows "guarded D headers tg acts (rt_bind (rt_result check) f)"
proof (cases check)
  case (Inl e)
  with assms(1) obtain e' where "check = Inl (Fault e')" by blast
  moreover have "\<exists>n A. s = s\<lparr>ops_done := n, app := A\<rparr>" for s :: "'b daemon"
    by (rule exI [of _ "ops_done s"], rule exI [of _ "app s"]) simp
  ultimately show ?thesis by (auto simp: guarded_def rt_bind_def rt_result_def)
next
  case (Inr x)
  with assms(2) [of x] show ?thesis by (simp add: guarded_def rt_bind_def rt_result_def)
qed

lemma guarded_map:
  assumes "guarded D headers tg acts m"
  shows "guarded D headers tg acts (rt_map f m)"
  unfolding guarded_def
proof (intro allI impI)
  fix s r t assume run: "rt_map f m s = (r, t)"
  obtain r' t' where m: "m s = (r', t')" by (cases "m s")
  with run have t: "t' = t" "\<And>e. r' = Inl e \<Longrightarrow> r = Inl e"
    by (auto simp: rt_map_def rt_bind_def rt_return_def split: sum.splits)
  from assms m have "(\<exists>e n A. r' = Inl (Fault e) \<and> t = s\<lparr>ops_done := n, app := A\<rparr>) \<or>
      (\<exists>x A. admitted D headers tg acts x (ops_done s) (app s) A)"
    unfolding guarded_def t(1) by blast
  with t(2) show "(\<exists>e n A. r = Inl (Fault e) \<and> t = s\<lparr>ops_done := n, app := A\<rparr>) \<or>
      (\<exists>x A. admitted D headers tg acts x (ops_done s) (app s) A)" by blast
qed

lemma guarded_rejections:
  "check_auto_dismiss req = Inl e \<Longrightarrow> \<exists>e'. e = Fault e'"
  "request_to_launch_spec req = Inl e \<Longrightarrow> \<exists>e'. e = Fault e'"
  by (auto simp: check_auto_dismiss_def request_to_launch_spec_def api_fault_def split: if_splits LaunchKind.splits)

lemma build_router_guarded:
  assumes "store_interference (dep_env X)"
  shows "guarded (dep_env X) headers (request_target req) [request_action req] (build_router X headers req)"
proof -
  note surface = authorize_surface_admitted [OF _ assms] and global = authorize_global_admitted [OF assms]
  show ?thesis
    by (cases req)
      (simp_all add: get_attention_def get_displays_def post_launches_def post_search_def post_track_def
        post_screenshot_def post_key_def post_text_def post_click_def post_scroll_def post_wait_def
        post_place_def post_replace_def post_close_def post_focus_def get_content_rect_def post_pointer_move_def
        guarded_map guarded_check guarded_rejections guarded_guard surface global)
qed


section \<open>Audit\<close>


















section \<open>Runs of the daemon\<close>

text \<open>
  The operations on the policy store and on the handles together are an order that sequencing
  respects, so the facts on guard and operator handlers hold for it as well.
\<close>

definition daemon_order :: "libs \<Rightarrow> AppState \<Rightarrow> AppState \<Rightarrow> bool" where
  "daemon_order L A A' \<longleftrightarrow>
     store_run L (app_store A) (app_store A') \<and> handle_steps (app_handles A) (app_handles A')"

lemma daemon_order_trans: "daemon_order L A B \<Longrightarrow> daemon_order L B C \<Longrightarrow> daemon_order L A C"
  unfolding daemon_order_def using store_run_trans handle_steps_trans by blast

interpretation daemon_runs: task_order L "daemon_order L" for L
  by unfold_locales
    (auto simp: daemon_order_def handle_steps.none intro: store_run_single
      daemon_order_trans [unfolded daemon_order_def, THEN conjunct1]
      daemon_order_trans [unfolded daemon_order_def, THEN conjunct2])

text \<open>What is asked of the other tasks: the same operations, and sane states of the world.\<close>

definition daemon_interference :: "'w deployment \<Rightarrow> ('w \<Rightarrow> bool) \<Rightarrow> bool" where
  "daemon_interference X sane \<longleftrightarrow>
     (\<forall>n A. daemon_order (libs_of (dep_env X)) A (interleave (dep_env X) n A)) \<and>
     (\<forall>n w. sane w \<longrightarrow> sane (world_drift X n w))"

definition rt_ok :: "'w deployment \<Rightarrow> ('w \<Rightarrow> bool) \<Rightarrow> ('w, 'a) route \<Rightarrow> bool" where
  "rt_ok X sane m \<longleftrightarrow>
     (\<forall>s r t. m s = (r, t) \<longrightarrow> sane (daemon_world s) \<longrightarrow>
        sane (daemon_world t) \<and> daemon_order (libs_of (dep_env X)) (app s) (app t))"

named_theorems rt_ok_intros \<open>well-behaved handlers\<close>

lemma daemon_order_refl [simp]: "daemon_order L A A"
  by (rule daemon_runs.order_refl)

lemma rt_ok_answer [rt_ok_intros]: "rt_ok X sane (rt_return x)" "rt_ok X sane (rt_result r)"
  by (auto simp: rt_ok_def rt_simps)

lemma rt_ok_answer_launch [rt_ok_intros]: "rt_ok X sane (launch_response Y out)" "rt_ok X sane (start_auto_dismiss req info)"
  by (auto simp: rt_ok_def launch_response_def start_auto_dismiss_def schedule_auto_dismiss_def rt_return_def
      split: option.splits if_splits)

lemma rt_ok_bind [rt_ok_intros]:
  assumes "rt_ok X sane m" and "\<And>x. rt_ok X sane (f x)"
  shows "rt_ok X sane (rt_bind m f)"
  unfolding rt_ok_def
proof (intro allI impI)
  fix s r u assume run: "rt_bind m f s = (r, u)" and sane: "sane (daemon_world s)"
  obtain x t where m: "m s = (x, t)" by (cases "m s")
  with assms(1) sane have t: "sane (daemon_world t)" "daemon_order (libs_of (dep_env X)) (app s) (app t)"
    unfolding rt_ok_def by blast+
  show "sane (daemon_world u) \<and> daemon_order (libs_of (dep_env X)) (app s) (app u)"
  proof (cases x)
    case (Inl e)
    with run m t show ?thesis by (auto simp: rt_bind_def)
  next
    case (Inr y)
    with run m have "f y t = (r, u)" by (simp add: rt_bind_def)
    with assms(2) [of y] t show ?thesis unfolding rt_ok_def using daemon_order_trans by blast
  qed
qed

lemma rt_ok_map [rt_ok_intros]: "rt_ok X sane m \<Longrightarrow> rt_ok X sane (rt_map f m)"
  unfolding rt_map_def by (intro rt_ok_intros)

lemma rt_ok_snd:
  "rt_ok X sane m \<Longrightarrow> sane (daemon_world s) \<Longrightarrow>
   sane (daemon_world (snd (m s))) \<and> daemon_order (libs_of (dep_env X)) (app s) (app (snd (m s)))"
  unfolding rt_ok_def by (metis prod.collapse)

lemma rt_ok_task: "daemon_runs.keeps (libs_of (dep_env X)) g \<Longrightarrow> rt_ok X sane (run_task g)"
  by (auto simp: rt_ok_def run_task_def split: prod.splits dest: daemon_runs.keepsD)

lemma daemon_bounded: "daemon_interference X sane \<Longrightarrow> daemon_runs.bounded (libs_of (dep_env X)) (dep_env X)"
  by (simp add: daemon_runs.bounded_def daemon_interference_def)

lemma sys_back_ok:
  assumes "daemon_interference X sane" and "sys_step sane (sys_at X s) t" and "sane (daemon_world s)"
  shows "sane (daemon_world (sys_back X s t)) \<and>
    daemon_order (libs_of (dep_env X)) (app s) (app (sys_back X s t))"
proof -
  let ?A = "interleave (dep_env X) (ops_done s) (app s)"
  from assms(1,3) have "sane (world (sys_at X s))" and A: "daemon_order (libs_of (dep_env X)) (app s) ?A"
    by (simp_all add: daemon_interference_def sys_at_def)
  with assms(2) have "sane (world t)" "handle_steps (app_handles ?A) (sys_handles t)"
    by (simp_all add: sys_step_def) (simp add: sys_at_def)
  moreover then have "daemon_order (libs_of (dep_env X)) ?A (?A\<lparr>app_handles := sys_handles t\<rparr>)"
    by (simp add: daemon_order_def)
  ultimately show ?thesis using daemon_order_trans [OF A] by (simp add: sys_back_def)
qed

lemma rt_ok_pipeline:
  assumes "daemon_interference X sane" and "call_ok sane m"
  shows "rt_ok X sane (run_pipeline X conv m)"
  using sys_back_ok [OF assms(1) call_okD [OF assms(2)]]
  by (auto simp: rt_ok_def run_pipeline_def split: prod.splits)

text \<open>
  One step of the daemon: it serves a request of an agent or of the operator, answers about
  itself, asks the platform for a permission, or a timer fires.
\<close>

inductive daemon_step :: "'w deployment \<Rightarrow> 'w daemon \<Rightarrow> 'w daemon \<Rightarrow> bool" for X where
  agent: "daemon_step X s (snd (build_router X headers req s))"
| info: "daemon_step X s (snd (get_info X s))"
| prompt: "daemon_step X s (snd (post_permission_request X name s))"
| timer: "tm \<in> set (timers s) \<Longrightarrow> daemon_step X s (fire_timer X tm s)"
| identity: "daemon_step X s (snd (run_task (post_identity (dep_env X) body) s))"
| identities: "daemon_step X s (snd (run_task (get_identities (dep_env X)) s))"
| one_identity: "daemon_step X s (snd (run_task (route_get_identity (dep_env X) i) s))"
| revoke_identity: "daemon_step X s (snd (run_task (post_revoke_identity (dep_env X) i) s))"
| mint_token: "daemon_step X s (snd (run_task (post_identity_token (dep_env X) i) s))"
| revoke_token: "daemon_step X s (snd (run_task (post_revoke_identity_token (dep_env X) i k) s))"
| inbox: "daemon_step X s (snd (run_task (get_requests (dep_env X)) s))"
| one_request: "daemon_step X s (snd (run_task (get_request (dep_env X) i) s))"
| approve: "daemon_step X s (snd (run_task (post_approve_request (dep_env X) i abody) s))"
| deny: "daemon_step X s (snd (run_task (post_deny_request (dep_env X) i dbody) s))"
| grants: "daemon_step X s (snd (run_task (get_grants (dep_env X)) s))"
| revoke_grant: "daemon_step X s (snd (run_task (post_revoke_grant (dep_env X) i) s))"

inductive daemon_run :: "'w deployment \<Rightarrow> 'w daemon \<Rightarrow> 'w daemon \<Rightarrow> bool" for X where
  start: "daemon_run X s s"
| step: "daemon_run X s t \<Longrightarrow> daemon_step X t u \<Longrightarrow> daemon_run X s u"

context task_order
begin

lemma keeps_identity_reads:
  "bounded D \<Longrightarrow> keeps (get_identities D)" "bounded D \<Longrightarrow> keeps (route_get_identity D i)"
  unfolding get_identities_def route_get_identity_def by (auto intro!: keeps_intros split: option.splits)

end

text \<open>A daemon on an adapter that meets its contract, among tasks that use the stores as it does.\<close>

locale serving =
  fixes X :: "'w deployment"
    and sane :: "'w \<Rightarrow> bool"
  assumes host_contract: "adapter_contract (adapter (dep_host X)) sane"
    and interference: "daemon_interference X sane"

sublocale serving \<subseteq> pipeline_host "dep_host X" sane
  by (rule pipeline_host.intro) (rule host_contract)

context serving
begin

lemma rt_ok_guards [rt_ok_intros]:
  "rt_ok X sane (run_task (authorize_surface_actions (dep_env X) headers sid acts rs))"
  "rt_ok X sane (run_task (authorize_launch_actions (dep_env X) headers acts rs))"
  "rt_ok X sane (run_task (authorize_all_surfaces_actions (dep_env X) headers acts rs))"
  "rt_ok X sane (run_task (complete_route_execution (dep_env X) x route))"
  unfolding authorize_surface_actions_def
  by (rule rt_ok_task, rule daemon_runs.keeps_guard, rule daemon_bounded, rule interference)+

lemma rt_ok_call [rt_ok_intros]: "call_ok sane m \<Longrightarrow> rt_ok X sane (run_pipeline X conv m)"
  by (rule rt_ok_pipeline [OF interference])

lemma call_ok_total: "call_ok sane m \<Longrightarrow> call_ok sane (\<lambda>s. case m s of (r, t) \<Rightarrow> (f r, t))"
  by (auto simp: call_ok_def split: prod.splits) (metis snd_conv)

lemma call_ok_read: "call_ok sane (\<lambda>s. (f s, s))"
  by (simp add: call_ok_def)

lemma rt_ok_resolve [rt_ok_intros]: "rt_ok X sane (resolve_place_request X req)"
  unfolding resolve_place_request_def Let_def
  by (auto intro!: rt_ok_intros call_ok_resolve split: option.splits)

lemma rt_ok_focused [rt_ok_intros]: "rt_ok X sane (focused_surface X info)"
  unfolding focused_surface_def
  by (auto intro!: rt_ok_intros call_ok_total call_ok_read query_ok split: sum.splits option.splits)

lemma rt_ok_build_router: "rt_ok X sane (build_router X headers req)"
  by (cases req)
    (auto simp: get_attention_def get_displays_def post_launches_def post_search_def post_track_def
      post_screenshot_def post_key_def post_text_def post_click_def post_scroll_def post_wait_def
      post_place_def post_replace_def post_close_def post_focus_def get_content_rect_def post_pointer_move_def Let_def
      intro!: rt_ok_intros query_ok call_ok_alive input_calls_ok call_ok_attach_search call_ok_attach_track
        call_ok_launch call_ok_replace call_ok_wait)

lemma rt_ok_info: "rt_ok X sane (get_info X)" "rt_ok X sane (post_permission_request X name)"
proof -
  have "rt_ok X sane (\<lambda>s. (Inr (g s), s))" for g by (simp add: rt_ok_def)
  then show "rt_ok X sane (get_info X)" unfolding get_info_def
    by (auto intro!: rt_ok_intros call_ok_total call_ok_read query_ok split: prod.splits)
  show "rt_ok X sane (post_permission_request X name)" unfolding post_permission_request_def
    by (auto intro!: rt_ok_intros call_ok_read query_ok)
qed

lemmas rt_ok_operator = daemon_runs.keeps_routes [OF daemon_bounded [OF interference], THEN rt_ok_task]
  daemon_runs.keeps_identity_reads [OF daemon_bounded [OF interference], THEN rt_ok_task]

lemma daemon_step_ok:
  assumes "daemon_step X s t" and "sane (daemon_world s)"
  shows "sane (daemon_world t) \<and> daemon_order (libs_of (dep_env X)) (app s) (app t)"
proof -
  note ok = rt_ok_snd [where X = X and sane = sane and s = s, OF _ assms(2)]
  from assms(1) show ?thesis
  proof cases
    case (timer tm)
    let ?s = "s\<lparr>timers := remove1 tm (timers s)\<rparr>"
    have "sys_at X ?s = sys_at X s" by (simp add: sys_at_def)
    with sys_back_ok [OF interference, of ?s] auto_dismiss_step assms(2) timer(1) show ?thesis
      by (simp add: fire_timer_def)
  qed (auto simp only: intro!: ok rt_ok_build_router rt_ok_info rt_ok_operator)
qed

lemma daemon_run_ok:
  "daemon_run X s t \<Longrightarrow> sane (daemon_world s) \<Longrightarrow>
   sane (daemon_world t) \<and> daemon_order (libs_of (dep_env X)) (app s) (app t)"
proof (induction rule: daemon_run.induct)
  case (step s t u)
  then show ?case using daemon_step_ok daemon_order_trans by blast
qed simp

end

text \<open>The in-memory adapter, with any source of new surface ids, is such a host.\<close>

lemma serving_in_memory:
  assumes "adapter (dep_host X) = in_memory new_id" and "mints_new new_id" and "daemon_interference X unscripted"
  shows "serving X unscripted"
  using in_memory_contract [OF assms(2)] assms(1,3) by (intro serving.intro) simp_all

definition example_deployment :: "InMemoryAdapter deployment" where
  "example_deployment =
     \<lparr>dep_host = example_host, dep_env = calm_surroundings, world_drift = (\<lambda>_ w. w), route_uuid = (\<lambda>_. ''0''),
      png_encode = (\<lambda>_. []), timeout_to_value = (\<lambda>_. Inr JNull), existing_to_value = (\<lambda>_. Inr (JObj [])),
      daemon_version = ''0.1.0'', uptime_seconds = (\<lambda>_. 0)\<rparr>"

definition example_daemon :: "AppState \<Rightarrow> InMemoryAdapter daemon" where
  "example_daemon A = \<lparr>ops_done = 0, app = A, daemon_world = InMemoryAdapter_new, timers = []\<rparr>"

lemma example_deployment_interference:
  "daemon_interference example_deployment unscripted" "store_interference (dep_env example_deployment)"
  by (simp_all add: daemon_interference_def example_deployment_def calm_surroundings_def store_interference_def)

interpretation in_memory_daemon: serving example_deployment unscripted
  by (rule serving_in_memory [OF _ mints_new_longest_id])
    (simp_all add: example_deployment_interference, simp add: example_deployment_def example_host_def)

text \<open>
  C7: However agents, the operator, timers and other tasks use it, the daemon changes its policy store
  only by the store's operations and its handles only by tracking and marking dead.  From a fresh
  start its policy store stays consistent (keys, at most one pending request per question, grants
  backed by approved requests, decisions audited) and no window ever has two live handles.
\<close>

theorem daemon_keeps_its_stores:
  assumes "adapter_contract (adapter (dep_host X)) sane" and "daemon_interference X sane" and "sane (daemon_world s)"
    and "app_store (app s) = init_schema" and "app_handles (app s) = HandleStore_new" and "daemon_run X s t"
  shows "store_run (libs_of (dep_env X)) init_schema (app_store (app t)) \<and> store_wf (app_store (app t)) \<and>
    handle_steps HandleStore_new (app_handles (app t)) \<and> handles_wf (app_handles (app t))"
proof -
  have "serving X sane" using assms(1,2) by (rule serving.intro)
  from serving.daemon_run_ok [OF this assms(6,3)] have
    "store_run (libs_of (dep_env X)) init_schema (app_store (app t))" "handle_steps HandleStore_new (app_handles (app t))"
    using assms(4,5) by (simp_all add: daemon_order_def)
  then show ?thesis using store_reachable_wf handle_steps_wf handles_wf_new by blast
qed

lemma revoke_identity_existed:
  "revoke_identity E S a t = (Inr True, S') \<Longrightarrow> a \<in> id_agent_id ` set (identities S)"
  using count_where_0 [of "\<lambda>r. id_agent_id r = a \<and> id_revoked_at r = None" "identities S"]
  by (fastforce simp: revoke_identity_atomic result_simps Let_def)

text \<open>
  C4: A revoked agent is refused by every surface route.  Once the operator's request to revoke an
  identity was answered with success, then at any later time, after any further requests, approvals,
  minted tokens and interference, each of the routes under \<open>/launches\<close> and \<open>/surfaces\<close> that
  \<open>build_router\<close> holds, called with a token of that agent, answers with an error, without any call
  to the adapter and without starting a timer.  This is about new requests to these routes: work that
  was admitted before the revocation goes on, an export that carries input included, and the routes
  that ask for no token, such as the system permission prompt, are open to anyone.
\<close>

theorem revoked_agent_refused_by_surface_routes:
  assumes "adapter_contract (adapter (dep_host X)) sane" and "daemon_interference X sane" and "sane (daemon_world s)"
    and "app_store (app s) = init_schema" and "daemon_run X s t"
    and "run_task (post_revoke_identity (dep_env X) a) t = (Inr resp, u)" and "rev_revoked resp"
    and "daemon_run X u v" and "build_router X headers req v = (r, w)"
    and "bearer_token headers = Inr token" and "parse_token_agent_id token = Some a"
  shows "(\<exists>e. r = Inl (Fault e)) \<and> daemon_world w = daemon_world v \<and> timers w = timers v"
proof -
  let ?D = "dep_env X" let ?L = "libs_of ?D"
  have serving: "serving X sane" using assms(1,2) by (rule serving.intro)
  have runs: "store_run ?L (app_store A) (app_store (interleave ?D n A))" for n A
    using assms(2) by (simp add: daemon_interference_def daemon_order_def)
  then have D: "store_interference ?D" by (simp add: store_interference_def)
  have t: "sane (daemon_world t)" "store_run ?L init_schema (app_store (app t))"
    using serving.daemon_run_ok [OF serving assms(5,3)] assms(4) by (simp_all add: daemon_order_def)
  obtain S E now where S: "S = app_store (interleave ?D (ops_done t) (app t))"
    and call: "revoke_identity E S a now = (Inr True, app_store (app u))" and world: "daemon_world u = daemon_world t"
    using assms(6,7)
    by (auto simp: run_task_def post_revoke_identity_def task_simps map_err_def split: prod.splits sum.splits if_splits)
  have S_run: "store_run ?L init_schema S" using store_run_trans [OF t(2) runs] by (simp add: S)
  have v: "store_run ?L (app_store (app u)) (app_store (app v))"
    using serving.daemon_run_ok [OF serving assms(8)] t(1) world by (simp add: daemon_order_def)
  have "\<not> admitted ?D headers (request_target req) [request_action req] x (ops_done v) (app v) A" for x A
  proof
    assume "admitted ?D headers (request_target req) [request_action req] x (ops_done v) (app v) A"
    then have auth: "authenticate_agent_token ?L (call_env ?D (ops_done v))
        (app_store (interleave ?D (ops_done v) (app v))) token = Inr (Some (exec_agent_id x))"
      using assms(10) by (auto simp: admitted_def)
    then have "exec_agent_id x = a" using assms(11) by (simp add: authenticate_Some)
    with auth revoke_identity_locks_out [OF S_run revoke_identity_existed [OF call] call store_run_trans [OF v runs]]
    show False by simp
  qed
  with build_router_guarded [OF D, of headers req] assms(9) show ?thesis
    unfolding guarded_def by fastforce
qed

section \<open>The theorems at work\<close>

definition example_typing :: AgentRequest where
  "example_typing = PostText ''surf_1'' \<lparr>text_text = ''ls'', text_session = None\<rparr>"





definition fresh_app :: AppState where
  "fresh_app = \<lparr>app_handles = HandleStore_new, app_store = init_schema, app_events = []\<rparr>"

definition example_identity :: CreateAgentIdentityRequest where
  "example_identity = \<lparr>cir_display_name = ''bot'', cir_metadata = None\<rparr>"

definition enrolled_daemon :: "InMemoryAdapter daemon" where
  "enrolled_daemon = snd (run_task (post_identity calm_surroundings example_identity) (example_daemon fresh_app))"

lemma enrolled_run: "daemon_run example_deployment (example_daemon fresh_app) enrolled_daemon"
  using daemon_run.step [OF daemon_run.start daemon_step.identity [where body = example_identity and X = example_deployment]]
  by (simp add: enrolled_daemon_def example_deployment_def)

theorem daemon_keeps_its_stores_witness:
  "store_wf (app_store (app enrolled_daemon)) \<and> identities (app_store (app enrolled_daemon)) \<noteq> []"
proof
  show "store_wf (app_store (app enrolled_daemon))"
    using daemon_keeps_its_stores [OF in_memory_daemon.host_contract example_deployment_interference(1) _ _ _ enrolled_run]
    by (simp add: example_daemon_def fresh_app_def)
  show "identities (app_store (app enrolled_daemon)) \<noteq> []"
    by (simp add: enrolled_daemon_def run_task_def post_identity_def example_daemon_def fresh_app_def example_identity_def
        tbind_def treturn_def tresult_def store_op_def try_store_def now_unix_ms_def publish_def calm_surroundings_def
        create_identity_atomic init_schema_def store_eval Let_def map_err_def)
qed

lemma example_revocation:
  "\<exists>resp u. run_task (post_revoke_identity (dep_env example_deployment) ''agent_k0'') enrolled_daemon = (Inr resp, u) \<and> rev_revoked resp"
  by (simp add: enrolled_daemon_def run_task_def post_identity_def example_daemon_def fresh_app_def example_identity_def
      tbind_def treturn_def tresult_def store_op_def try_store_def now_unix_ms_def publish_def calm_surroundings_def
      create_identity_atomic init_schema_def store_eval Let_def map_err_def example_deployment_def
      post_revoke_identity_def revoke_identity_atomic)

theorem revoked_agent_refused_by_surface_routes_witness:
  "\<exists>u e w. run_task (post_revoke_identity calm_surroundings ''agent_k0'') enrolled_daemon = (Inr \<lparr>rev_revoked = True\<rparr>, u) \<and>
     build_router example_deployment (Some (Some ''Bearer pta_agent_k0.k000'')) example_typing u = (Inl (Fault e), w) \<and>
     daemon_world w = daemon_world u"
proof -
  obtain resp u where rev: "run_task (post_revoke_identity (dep_env example_deployment) ''agent_k0'') enrolled_daemon = (Inr resp, u)"
    "rev_revoked resp" using example_revocation by blast
  obtain r w where run: "build_router example_deployment (Some (Some ''Bearer pta_agent_k0.k000'')) example_typing u = (r, w)"
    by (metis surj_pair)
  have tok: "bearer_token (Some (Some ''Bearer pta_agent_k0.k000'')) = Inr ''pta_agent_k0.k000''"
    "parse_token_agent_id ''pta_agent_k0.k000'' = Some ''agent_k0''"
    by (simp_all add: bearer_token_def eq_ignore_ascii_case_def ascii_lower_def parse_token_agent_id_def)
  have "(\<exists>e. r = Inl (Fault e)) \<and> daemon_world w = daemon_world u \<and> timers w = timers u"
    by (rule revoked_agent_refused_by_surface_routes [OF in_memory_daemon.host_contract example_deployment_interference(1) _ _ enrolled_run
          rev daemon_run.start run tok])
      (simp_all add: example_daemon_def fresh_app_def)
  with rev run show ?thesis by (cases resp) (auto simp: example_deployment_def)
qed

end
