(* ===== verification/Calendar.thy ===== *)
theory Calendar
  imports Prelude "HOL-Library.Signed_Division"
begin

text \<open>
  How the command line client prints a time (\<open>porthole/src/commands/agents.rs\<close>): milliseconds since
  the epoch to a UTC date, by arithmetic on days counted from the first of March of year 0.  The
  arithmetic is shown to step through the Gregorian calendar day by day.
\<close>

section \<open>Times\<close>

definition as_i32 :: "int \<Rightarrow> int" where
  "as_i32 i = (i + 2 ^ 31) mod 2 ^ 32 - 2 ^ 31"

definition as_u32 :: "int \<Rightarrow> int" where
  "as_u32 i = i mod 2 ^ 32"

definition civil_from_days :: "int \<Rightarrow> int \<times> int \<times> int" where
  "civil_from_days days_since_unix_epoch =
     (let z = days_since_unix_epoch + 719468;
          era = (if z \<ge> 0 then z else z - 146096) sdiv 146097;
          day_of_era = z - era * 146097;
          year_of_era = (day_of_era - day_of_era sdiv 1460 + day_of_era sdiv 36524 - day_of_era sdiv 146096) sdiv 365;
          year = year_of_era + era * 400;
          day_of_year = day_of_era - (365 * year_of_era + year_of_era sdiv 4 - year_of_era sdiv 100);
          month_parameter = (5 * day_of_year + 2) sdiv 153;
          day = day_of_year - (153 * month_parameter + 2) sdiv 5 + 1;
          month = month_parameter + (if month_parameter < 10 then 3 else - 9);
          year = (if month \<le> 2 then year + 1 else year)
      in (as_i32 year, as_u32 month, as_u32 day))"

text \<open>Zero padding, \<open>{:02}\<close> and the like; the width includes a sign.\<close>

definition pad :: "nat \<Rightarrow> string \<Rightarrow> string" where
  "pad n s = replicate (n - length s) (CHR ''0'') @ s"

definition padded :: "nat \<Rightarrow> int \<Rightarrow> string" where
  "padded n i = (if i < 0 then CHR ''-'' # pad (n - 1) (decimal (nat (- i))) else pad n (decimal (nat i)))"

definition format_unix_ms_utc :: "u64 \<Rightarrow> string" where
  "format_unix_ms_utc unix_ms =
     (let total_seconds = unat unix_ms div 1000;
          millis = unat unix_ms mod 1000;
          days = int (total_seconds div 86400);
          seconds_of_day = total_seconds mod 86400;
          hour = seconds_of_day div 3600;
          minute = (seconds_of_day mod 3600) div 60;
          second = seconds_of_day mod 60;
          (year, month, day) = civil_from_days days
      in padded 4 year @ ''-'' @ padded 2 month @ ''-'' @ padded 2 day @ ''T'' @
         padded 2 (int hour) @ '':'' @ padded 2 (int minute) @ '':'' @ padded 2 (int second) @ ''.'' @
         padded 3 (int millis) @ ''Z'')"

section \<open>The calendar\<close>

definition leap :: "int \<Rightarrow> bool" where
  "leap y \<longleftrightarrow> y mod 4 = 0 \<and> (y mod 100 \<noteq> 0 \<or> y mod 400 = 0)"

definition month_days :: "int \<Rightarrow> int \<Rightarrow> int" where
  "month_days y m = (if m = 2 then if leap y then 29 else 28 else if m \<in> {4, 6, 9, 11} then 30 else 31)"

definition next_day :: "int \<times> int \<times> int \<Rightarrow> int \<times> int \<times> int" where
  "next_day date = (case date of (y, m, d) \<Rightarrow>
     if d < month_days y m then (y, m, d + 1)
     else if m < 12 then (y, m + 1, 1)
     else (y + 1, 1, 1))"

section \<open>Years of an era\<close>

text \<open>Day 0 of an era is the first of March of a year divisible by 400.\<close>

definition era_year :: "int \<Rightarrow> int" where
  "era_year d = (d - d div 1460 + d div 36524 - d div 146096) div 365"

definition year_start :: "int \<Rightarrow> int" where
  "year_start y = 365 * y + y div 4 - y div 100 + y div 400"

definition march_date :: "int \<Rightarrow> int \<times> int" where
  "march_date doy =
     (let m = (5 * doy + 2) div 153 in (m + (if m < 10 then 3 else - 9), doy - (153 * m + 2) div 5 + 1))"

lemma years_checked:
  "list_all (\<lambda>y. (365 * y \<le> (let d = year_start y in d - d div 1460 + d div 36524 - d div 146096)) \<and>
      ((let d = year_start (y + 1) - 1 in d - d div 1460 + d div 36524 - d div 146096) < 365 * (y + 1)) \<and>
      year_start (y + 1) - year_start y = (if leap (y + 1) then 366 else 365)) [0..399]"
  by code_simp

lemma months_checked:
  "list_all (\<lambda>doy. case march_date doy of (m, d) \<Rightarrow> case march_date (doy + 1) of (m', d') \<Rightarrow>
      1 \<le> m \<and> m \<le> 12 \<and> 1 \<le> d \<and> d \<le> 31 \<and>
      (if d < (if m = 2 then 28 else month_days 0 m) then m' = m \<and> d' = d + 1
       else m \<noteq> 2 \<and> d' = 1 \<and> m' = (if m < 12 then m + 1 else 1))) [0..363]"
  by code_simp

lemma days_checked: "list_all (\<lambda>doy. case march_date doy of (_, d) \<Rightarrow> 1 \<le> d \<and> d \<le> 31) [0..365]"
  by code_simp

lemma year_checks:
  assumes "0 \<le> y" "y < 400"
  shows "365 * y \<le> (let d = year_start y in d - d div 1460 + d div 36524 - d div 146096)"
    and "(let d = year_start (y + 1) - 1 in d - d div 1460 + d div 36524 - d div 146096) < 365 * (y + 1)"
    and "year_start (y + 1) - year_start y = (if leap (y + 1) then 366 else 365)"
  using years_checked assms unfolding list_all_iff by (simp_all add: Ball_def)

lemma quarter: "q \<le> r \<Longrightarrow> r \<le> q + 1 \<Longrightarrow> q - q div 4 \<le> r - r div 4" for q r :: int
  by presburger

lemma count_step: "a' \<le> a + 1 \<Longrightarrow> q - r \<le> q' - r' \<Longrightarrow> i - a + q - r \<le> (i + 1) - a' + q' - r'"
  for a a' q q' r r' i :: int
  by simp

lemma era_count_mono:
  fixes c d :: int
  assumes "c \<le> d" "0 \<le> c"
  shows "c - c div 1460 + c div 36524 - c div 146096 \<le> d - d div 1460 + d div 36524 - d div 146096"
  using assms
proof (induction d rule: int_ge_induct)
  case (step i)
  have "i - i div 1460 + i div 36524 - i div 146096 \<le>
      (i + 1) - (i + 1) div 1460 + (i + 1) div 36524 - (i + 1) div 146096"
  proof -
    have split: "x div 146096 = x div 36524 div 4" for x :: int
      using zdiv_zmult2_eq [of 4 x 36524] by simp
    have next_div: "(i + 1) div k \<le> i div k + 1" if "0 < k" for k
      using zdiv_mono1 [of "i + 1" "i + k" k] div_add_self2 [of k i] that by auto
    have "i div 36524 \<le> (i + 1) div 36524" by (rule zdiv_mono1) simp_all
    then have "i div 36524 - i div 36524 div 4 \<le> (i + 1) div 36524 - (i + 1) div 36524 div 4"
      by (rule quarter) (simp add: next_div)
    from count_step [OF next_div this] show ?thesis unfolding split by (simp add: diff_diff_eq)
  qed
  with step.IH [OF step.prems] show ?case by (rule order_trans)
qed simp

lemma year_of_day:
  assumes "0 \<le> d" "d < 146097"
  obtains y where "0 \<le> y" "y < 400" "year_start y \<le> d" "d < year_start (y + 1)"
proof -
  have "d < year_start (int k) \<Longrightarrow> \<exists>y. 0 \<le> y \<and> y < int k \<and> year_start y \<le> d \<and> d < year_start (y + 1)" for k
  proof (induction k)
    case 0
    then show ?case using assms(1) by (simp add: year_start_def)
  next
    case (Suc k)
    show ?case
    proof (cases "d < year_start (int k)")
      case True
      then show ?thesis using Suc.IH by fastforce
    next
      case False
      then show ?thesis using Suc.prems by (intro exI [of _ "int k"]) (simp add: ac_simps)
    qed
  qed
  moreover have "year_start (int 400) = 146097" by (simp add: year_start_def)
  ultimately obtain y where "0 \<le> y" "y < int 400" "year_start y \<le> d" "d < year_start (y + 1)" using assms(2) by metis
  then show ?thesis by (intro that) simp_all
qed

lemma era_year_eq:
  assumes "0 \<le> y" "y < 400" "year_start y \<le> d" "d < year_start (y + 1)"
  shows "era_year d = y"
proof -
  have "0 \<le> year_start y" using assms(1) by (simp add: year_start_def)
  then have "365 * y \<le> d - d div 1460 + d div 36524 - d div 146096"
    using era_count_mono [OF assms(3)] year_checks(1) [OF assms(1,2)] by (simp add: Let_def)
  moreover have "d - d div 1460 + d div 36524 - d div 146096 < 365 * (y + 1)"
    using era_count_mono [of d "year_start (y + 1) - 1"] year_checks(2) [OF assms(1,2)] assms(3,4) \<open>0 \<le> year_start y\<close>
    by (simp add: Let_def)
  ultimately show ?thesis unfolding era_year_def by (auto intro!: int_div_pos_eq [where r = "_ - 365 * y"])
qed

section \<open>Day by day\<close>

text \<open>The date of a day of the March-based year \<open>y\<close>.\<close>

definition date_in_year :: "int \<Rightarrow> int \<Rightarrow> int \<times> int \<times> int" where
  "date_in_year y doy = (case march_date doy of (m, d) \<Rightarrow> (if m \<le> 2 then y + 1 else y, m, d))"

lemma leap_era [simp]: "leap (y + 400 * e) = leap y"
proof -
  have "(y + 400 * e) mod k = y mod k" if "400 = k * j" for k j :: int
    using mod_mult_self2 [of y k "j * e"] by (simp add: that mult.assoc)
  from this [of 4 100] this [of 100 4] this [of 400 1] show ?thesis by (simp add: leap_def)
qed

lemma next_day_in_year:
  assumes "0 \<le> doy" "doy < 364"
  shows "next_day (date_in_year y doy) = date_in_year y (doy + 1)"
proof -
  obtain m d m' d' where md: "march_date doy = (m, d)" "march_date (doy + 1) = (m', d')" by fastforce
  have "1 \<le> m \<and> m \<le> 12 \<and> 1 \<le> d \<and> d \<le> 31 \<and>
      (if d < (if m = 2 then 28 else month_days 0 m) then m' = m \<and> d' = d + 1
       else m \<noteq> 2 \<and> d' = 1 \<and> m' = (if m < 12 then m + 1 else 1))"
    using bspec [OF months_checked [unfolded list_all_iff], of doy] assms md by (simp split: if_split_asm)
  then consider "m = 2" "d < 28" "m' = 2" "d' = d + 1"
    | "m \<noteq> 2" "d < month_days 0 m" "m' = m" "d' = d + 1"
    | "m \<noteq> 2" "\<not> d < month_days 0 m" "d' = 1" "m' = (if m < 12 then m + 1 else 1)" "1 \<le> m"
    by (cases "m = 2"; cases "d < (if m = 2 then 28 else month_days 0 m)") simp_all
  then show ?thesis
  proof cases
    case 1
    then show ?thesis using md by (simp add: next_day_def date_in_year_def month_days_def)
  next
    case 2
    then have "d < month_days Y m" for Y by (simp add: month_days_def)
    then show ?thesis using md 2 by (simp add: next_day_def date_in_year_def)
  next
    case 3
    then have "\<not> d < month_days Y m" for Y by (simp add: month_days_def)
    then show ?thesis using md 3 by (simp add: next_day_def date_in_year_def)
  qed
qed

lemma next_day_at_end:
  "next_day (date_in_year y 364) = (if leap (y + 1) then date_in_year y 365 else date_in_year (y + 1) 0)"
  "leap (y + 1) \<Longrightarrow> next_day (date_in_year y 365) = date_in_year (y + 1) 0"
  by (simp_all add: next_day_def date_in_year_def march_date_def month_days_def)

section \<open>The code's dates\<close>

text \<open>The date the arithmetic finds, before its conversions: in which era, which year of it, which day.\<close>

definition era_date :: "int \<Rightarrow> int \<times> int \<times> int" where
  "era_date z = (let e = z div 146097; d = z mod 146097; y = era_year d in date_in_year (y + 400 * e) (d - year_start y))"

lemma sdiv_nonneg [simp]: "0 \<le> a \<Longrightarrow> 0 < b \<Longrightarrow> a sdiv b = a div b" for a b :: int
  by (cases "a = 0") (simp_all add: signed_divide_int_def)

lemma era_date_at:
  assumes "0 \<le> y" "y < 400" "year_start y \<le> d" "d < year_start (y + 1)" "0 \<le> d" "d < 146097"
  shows "era_date (146097 * e + d) = date_in_year (y + 400 * e) (d - year_start y)"
  using assms(5,6) by (simp add: era_date_def era_year_eq [OF assms(1-4)] Let_def)

lemma day_of_year_bounds:
  assumes "0 \<le> d" "d < 146097"
  shows "0 \<le> era_year d" "era_year d < 400" "0 \<le> d - year_start (era_year d)" "d - year_start (era_year d) \<le> 365"
    "d - year_start (era_year d) = 365 \<Longrightarrow> leap (era_year d + 1)"
proof -
  obtain y where y: "0 \<le> y" "y < 400" "year_start y \<le> d" "d < year_start (y + 1)" by (rule year_of_day [OF assms])
  with year_checks(3) [OF y(1,2)] show "0 \<le> era_year d" "era_year d < 400" "0 \<le> d - year_start (era_year d)"
    "d - year_start (era_year d) \<le> 365" "d - year_start (era_year d) = 365 \<Longrightarrow> leap (era_year d + 1)"
    by (auto simp: era_year_eq [OF y] split: if_splits)
qed

lemma next_day_era: "next_day (era_date z) = era_date (z + 1)"
proof -
  define e d where "e = z div 146097" and "d = z mod 146097"
  have z: "z = 146097 * e + d" and d: "0 \<le> d" "d < 146097" by (simp_all add: e_def d_def)
  obtain y where y: "0 \<le> y" "y < 400" "year_start y \<le> d" "d < year_start (y + 1)" by (rule year_of_day [OF d])
  let ?doy = "d - year_start y" and ?Y = "y + 400 * e"
  have now: "era_date z = date_in_year ?Y ?doy" unfolding z by (rule era_date_at [OF y d])
  have len: "year_start (y + 1) - year_start y = (if leap (y + 1) then 366 else 365)" by (rule year_checks(3) [OF y(1,2)])
  have leap: "leap (?Y + 1) = leap (y + 1)" using leap_era [of "y + 1" e] by (simp add: algebra_simps)
  show ?thesis
  proof (cases "d + 1 < year_start (y + 1)")
    case True
    have "year_start (y + 1) \<le> 146097"
      using y(2) by (simp add: year_start_def)
    then have "era_date (z + 1) = date_in_year ?Y (?doy + 1)"
      using era_date_at [of y "d + 1" e] y True d unfolding z by (simp add: algebra_simps)
    moreover have "next_day (date_in_year ?Y ?doy) = date_in_year ?Y (?doy + 1)"
    proof (cases "?doy < 364")
      case True
      then show ?thesis using next_day_in_year [of ?doy ?Y] y(3) by simp
    next
      case False
      then have "?doy = 364" "leap (y + 1)" using len \<open>d + 1 < year_start (y + 1)\<close> by (auto split: if_splits)
      then show ?thesis using next_day_at_end(1) [of ?Y] leap by simp
    qed
    ultimately show ?thesis by (simp add: now)
  next
    case False
    then have last_day: "d + 1 = year_start (y + 1)" using y(4) by simp
    have "era_date (z + 1) = date_in_year (?Y + 1) 0"
    proof (cases "y = 399")
      case True
      have "year_start 400 = 146097" by (simp add: year_start_def)
      then have "z + 1 = 146097 * (e + 1) + 0" using last_day True by (simp add: z)
      then show ?thesis using era_date_at [of 0 0 "e + 1"] True by (simp add: year_start_def algebra_simps)
    next
      case False
      then have next_year: "0 \<le> y + 1" "y + 1 < 400" using y by simp_all
      then have "year_start (y + 1) < year_start (y + 1 + 1)" using year_checks(3) [OF next_year] by (simp split: if_splits)
      moreover from this next_year have "d + 1 < 146097" using last_day by (simp add: year_start_def)
      ultimately show ?thesis using era_date_at [OF next_year, of "d + 1" e] last_day d unfolding z by (simp add: algebra_simps)
    qed
    moreover have "?doy = (if leap (y + 1) then 365 else 364)" using len last_day by (auto split: if_splits)
    ultimately show ?thesis using next_day_at_end [of ?Y] leap by (auto simp: now split: if_splits)
  qed
qed

lemma as_i32_id: "- (2 ^ 31) \<le> i \<Longrightarrow> i < 2 ^ 31 \<Longrightarrow> as_i32 i = i"
  by (simp add: as_i32_def)

lemma as_u32_id: "0 \<le> i \<Longrightarrow> i < 2 ^ 32 \<Longrightarrow> as_u32 i = i"
  by (simp add: as_u32_def)

text \<open>No conversion of the code cuts anything off, for every day a \<open>u64\<close> of milliseconds can reach.\<close>

lemma civil_from_days_eq:
  assumes "0 \<le> n" "n < 2 ^ 39"
  shows "civil_from_days n = era_date (n + 719468)"
proof -
  define z where "z = n + 719468"
  define e d where "e = z div 146097" and "d = z mod 146097"
  have z: "0 \<le> z" "z < 2 ^ 39 + 719468" using assms by (simp_all add: z_def)
  have e: "0 \<le> e" "e < 2 ^ 31 div 500" using z by (simp_all add: e_def) 
  have d: "0 \<le> d" "d < 146097" "z - e * 146097 = d"
    by (simp_all add: d_def e_def minus_div_mult_eq_mod)
  note y = day_of_year_bounds [OF d(1,2)]
  let ?y = "era_year d" and ?doy = "d - year_start (era_year d)"
  have small: "?y div 400 = 0" using y(1,2) by simp
  have count: "0 \<le> d - d div 1460 + d div 36524 - d div 146096" using era_count_mono [of 0 d] d(1) by simp
  let ?mp = "(5 * ?doy + 2) div 153"
  have mp: "0 \<le> ?mp" "?mp \<le> 11" using y(3,4) by simp_all
  have day: "0 \<le> ?doy - (153 * ?mp + 2) div 5 + 1 \<and> ?doy - (153 * ?mp + 2) div 5 + 1 < 2 ^ 32"
    using bspec [OF days_checked [unfolded list_all_iff], of ?doy] y(3,4) by (simp add: march_date_def Let_def)
  have code: "(if z \<ge> 0 then z else z - 146096) sdiv 146097 = e"
    "(d - d sdiv 1460 + d sdiv 36524 - d sdiv 146096) sdiv 365 = ?y"
    "365 * ?y + ?y sdiv 4 - ?y sdiv 100 = year_start ?y"
    "(5 * ?doy + 2) sdiv 153 = ?mp" "(153 * ?mp + 2) sdiv 5 = (153 * ?mp + 2) div 5"
  proof -
    show "(if z \<ge> 0 then z else z - 146096) sdiv 146097 = e" using z(1) by (simp add: e_def)
    show "(d - d sdiv 1460 + d sdiv 36524 - d sdiv 146096) sdiv 365 = ?y"
      unfolding era_year_def using d(1) count by (simp only: sdiv_nonneg zero_less_numeral)
    show "365 * ?y + ?y sdiv 4 - ?y sdiv 100 = year_start ?y"
      using y(1) small by (simp only: sdiv_nonneg zero_less_numeral year_start_def)
    show "(5 * ?doy + 2) sdiv 153 = ?mp" using y(3) by (intro sdiv_nonneg) simp_all
    show "(153 * ?mp + 2) sdiv 5 = (153 * ?mp + 2) div 5" using mp(1) by (intro sdiv_nonneg) simp_all
  qed
  have "civil_from_days n =
      (as_i32 (if ?mp + (if ?mp < 10 then 3 else - 9) \<le> 2 then ?y + e * 400 + 1 else ?y + e * 400),
       as_u32 (?mp + (if ?mp < 10 then 3 else - 9)), as_u32 (?doy - (153 * ?mp + 2) div 5 + 1))"
    unfolding civil_from_days_def z_def [symmetric] Let_def code d(3) by (simp only: if_distrib)
  also have "\<dots> = era_date z"
    using e y(1,2) mp day
    by (simp add: era_date_def e_def [symmetric] d_def [symmetric] date_in_year_def march_date_def Let_def as_i32_id as_u32_id
      mult.commute)
  finally show ?thesis by (simp add: z_def)
qed

lemma civil_from_days_steps: "n < 2 ^ 39 \<Longrightarrow> civil_from_days (int n) = (next_day ^^ n) (1970, 1, 1)"
proof (induction n)
  case 0
  show ?case by code_simp
next
  case (Suc n)
  then have "civil_from_days (int (Suc n)) = next_day (civil_from_days (int n))"
    using next_day_era [of "int n + 719468"] by (simp add: civil_from_days_eq ac_simps)
  with Suc show ?case by simp
qed

lemma units_sum:
  fixes m :: nat
  assumes "m = s * 1000 + a" "s = n * 86400 + r" "r = h * 3600 + u" "u = i * 60 + k"
  shows "m = (((n * 24 + h) * 60 + i) * 60 + k) * 1000 + a"
  using assms by simp

text \<open>
  C20: Printed times are right.  For every value of the timestamp, the time printed is the UTC time:
  its date is the one that so many steps of the Gregorian calendar after the first of January 1970 lead to,
  and days, hours, minutes, seconds and milliseconds add up to the timestamp.
\<close>

theorem printed_time_is_the_date:
  "\<exists>n h mi s ms. unat t = (((n * 24 + h) * 60 + mi) * 60 + s) * 1000 + ms \<and> h < 24 \<and> mi < 60 \<and> s < 60 \<and> ms < 1000 \<and>
     format_unix_ms_utc t = (case (next_day ^^ n) (1970, 1, 1) of (y, m, d) \<Rightarrow>
       padded 4 y @ ''-'' @ padded 2 m @ ''-'' @ padded 2 d @ ''T'' @
       padded 2 (int h) @ '':'' @ padded 2 (int mi) @ '':'' @ padded 2 (int s) @ ''.'' @ padded 3 (int ms) @ ''Z'')"
proof -
  let ?s = "unat t div 1000"
  let ?n = "?s div 86400" and ?r = "?s mod 86400"
  have "unat t < 2 ^ 64" by (rule order_less_le_trans [OF unsigned_less]) simp
  then have "?n < 2 ^ 39" by simp
  note date = civil_from_days_steps [OF this]
  have "unat t = (((?n * 24 + ?r div 3600) * 60 + ?r mod 3600 div 60) * 60 + ?r mod 60) * 1000 + unat t mod 1000"
  proof (rule units_sum)
    show "?r mod 3600 = ?r mod 3600 div 60 * 60 + ?r mod 60"
      using div_mult_mod_eq [of "?r mod 3600" 60] mod_mod_cancel [of 60 3600 ?r] by simp
  qed (rule div_mult_mod_eq [symmetric])+
  moreover have "?r div 3600 < 24" by (rule less_mult_imp_div_less) simp
  moreover have "?r mod 3600 div 60 < 60" by (rule less_mult_imp_div_less) simp
  moreover have "?r mod 60 < 60" "unat t mod 1000 < 1000" by simp_all
  moreover have "format_unix_ms_utc t = (case (next_day ^^ ?n) (1970, 1, 1) of (y, m, d) \<Rightarrow>
       padded 4 y @ ''-'' @ padded 2 m @ ''-'' @ padded 2 d @ ''T'' @
       padded 2 (int (?r div 3600)) @ '':'' @ padded 2 (int (?r mod 3600 div 60)) @ '':'' @
       padded 2 (int (?r mod 60)) @ ''.'' @ padded 3 (int (unat t mod 1000)) @ ''Z'')"
    unfolding format_unix_ms_utc_def Let_def date by (simp only: prod.case)
  ultimately show ?thesis by blast
qed

end
