(* ===== verification/Operator_Cli.thy ===== *)
theory Operator_Cli
  imports Agent_Routes Calendar
begin

text \<open>
  The operator's commands of the client: what it prints about requests and grants
  (\<open>porthole/src/commands/permission_display.rs\<close>) and the commands under \<open>porthole agents\<close>
  (\<open>commands/agents.rs\<close>).  The client trait is a record of functions; it is instantiated with the daemon's
  handlers, with the transport between them left out.
\<close>

section \<open>Display\<close>

text \<open>
  \<open>char::is_control\<close>, and the line and paragraph separators and the bidirectional controls.  Characters
  of the model are those below 256, so the last two ranges match none of them.
\<close>

definition is_control :: "char \<Rightarrow> bool" where
  "is_control c \<longleftrightarrow> (let n = of_char c :: nat in n < 32 \<or> 127 \<le> n \<and> n < 160)"

definition unsafe_char :: "char \<Rightarrow> bool" where
  "unsafe_char c \<longleftrightarrow> is_control c \<or> (let n = of_char c :: nat in 8232 \<le> n \<and> n \<le> 8238 \<or> 8294 \<le> n \<and> n \<le> 8297)"

definition clean :: "string \<Rightarrow> string" where
  "clean value = map (\<lambda>c. if unsafe_char c then CHR '' '' else c) value"

fun display_scope :: "AgentPermissionTarget \<Rightarrow> string" where
  "display_scope (WSurface i) = ''this window ('' @ i @ '')''"
| "display_scope (WFrontmostOnce i) = ''selected frontmost window ('' @ i @ '')''"
| "display_scope (WApp (WBundleId b)) = ''all windows of app '' @ b"
| "display_scope (WApp (WExecutablePath p)) = ''all windows of executable '' @ p"
| "display_scope (WApp (WAppName n)) = ''all windows of app named '' @ n"
| "display_scope WLaunchedByAgent = ''launches / windows launched by this agent''"
| "display_scope WAllSurfaces = ''all windows''"

definition unwrap_or :: "'a option \<Rightarrow> 'a \<Rightarrow> 'a" where
  "unwrap_or m d = (case m of None \<Rightarrow> d | Some x \<Rightarrow> x)"

definition closed_mark :: "PermissionDescription \<Rightarrow> string" where
  "closed_mark d = (if pd_surface_available d = Some False then '' [closed/unavailable]'' else [])"

definition surface_label :: "PermissionSurface \<Rightarrow> string" where
  "surface_label s = unwrap_or (ps_app_name s) ''unknown app'' @ '': '' @ unwrap_or (ps_title s) ''untitled''"

definition display_target :: "AgentPermissionTarget \<Rightarrow> PermissionDescription \<Rightarrow> string" where
  "display_target target d =
     clean ((case pd_surface d of None \<Rightarrow> [] | Some s \<Rightarrow> surface_label s @ '' | '') @ display_scope target @ closed_mark d)"

fun action_label :: "ActionClass \<Rightarrow> string" where
  "action_label Observe = ''observe''"
| "action_label Drive = ''drive (keyboard, text, pointer)''"
| "action_label Manage = ''manage (launch, place, close)''"
| "action_label Record = ''record''"

definition display_actions :: "ActionClass list \<Rightarrow> string" where
  "display_actions actions = join_with '' + '' (map action_label actions)"

definition display_operation :: "PermissionDescription \<Rightarrow> string option \<Rightarrow> string" where
  "display_operation d reason =
     clean (case pd_operation d of
       Some (OpKey combinations event_count) \<Rightarrow>
         ''send '' @ decimal event_count @ '' key events: '' @ join_with '', '' combinations @
         (if event_count > length combinations then '' ...'' else [])
     | Some (OpText characters) \<Rightarrow> ''type '' @ decimal characters @ '' characters (contents not retained)''
     | Some (OpLaunch application) \<Rightarrow> ''launch '' @ application
     | Some (OpCapture native) \<Rightarrow> ''capture window ('' @ (if native then ''native frames'' else ''CPU frames'') @ '')''
     | None \<Rightarrow> unwrap_or reason ''not recorded'')"

fun display_duration :: "AgentPermissionDuration \<Rightarrow> string" where
  "display_duration WOnce = ''once (next matching operation)''"
| "display_duration WUntilSurfaceGone = ''until this window closes''"
| "display_duration WPersistent = ''persistent (until revoked)''"
| "display_duration (WSession session) = ''session '' @ clean session @ '' (not currently enforced)''"
| "display_duration (WTimeBounded e) = ''until '' @ format_unix_ms_utc e"

fun default_duration :: "AgentPermissionTarget \<Rightarrow> AgentPermissionDuration" where
  "default_duration (WSurface _) = WUntilSurfaceGone"
| "default_duration _ = WOnce"

definition requester :: "string \<Rightarrow> PermissionDescription \<Rightarrow> string" where
  "requester i d =
     clean (unwrap_or (pd_agent_name d) ''unknown agent'' @ '' ('' @ i @ '')'' @
       (if pd_agent_revoked d then '' [revoked/unavailable]'' else []))"

definition retired_text :: "string \<Rightarrow> string" where
  "retired_text reason =
     (if reason = ''surface_unavailable'' then ''window unavailable; agent must find it again and retry''
      else if reason = ''requester_unavailable'' then ''requester revoked or removed''
      else reason)"

definition request_lines :: "AgentPermissionRequestResponse \<Rightarrow> string list" where
  "request_lines r =
     [''request_id: '' @ clean (prr_request_id r),
      ''requester: '' @ requester (prr_agent_id r) (prr_description r),
      ''target: '' @ display_target (prr_target r) (prr_description r),
      ''first requested operation: '' @ display_operation (prr_description r) (prr_reason r),
      ''permission scope: '' @ display_actions (prr_actions r),
      ''suggested duration: '' @ display_duration (default_duration (prr_target r)),
      ''status: '' @ clean (prr_status r),
      ''requested: '' @ format_unix_ms_utc (prr_created_at r)] @
     (case prr_invalidation_reason r of None \<Rightarrow> [] | Some reason \<Rightarrow> [''retired: '' @ clean (retired_text reason)])"

definition grant_lines :: "AgentGrantResponse \<Rightarrow> string list" where
  "grant_lines g =
     [''grant_id: '' @ clean (gresp_grant_id g),
      ''requester: '' @ requester (gresp_agent_id g) (gresp_description g),
      ''target: '' @ display_target (gresp_target g) (gresp_description g),
      ''permission scope: '' @ display_actions (gresp_actions g),
      ''first requested operation: '' @ display_operation (gresp_description g) (gresp_origin_reason g),
      ''duration: '' @ display_duration (gresp_duration g),
      ''granted: '' @ format_unix_ms_utc (gresp_created_at g)] @
     (if requires_frontmost (gresp_constraints g) then [''constraint: requires frontmost''] else []) @
     (case max_duration_ms (gresp_constraints g) of
        None \<Rightarrow> [] | Some ms \<Rightarrow> [''constraint: maximum duration '' @ decimal (unat ms) @ ''ms'']) @
     (if allowed_input (gresp_constraints g) \<noteq> []
      then [''constraint: allowed input '' @ clean (join_with '', '' (allowed_input (gresp_constraints g)))] else []) @
     (if Record \<in> set (gresp_actions g)
      then [''Revoking affects future permission checks; running capture continues.''] else [])"

section \<open>Commands\<close>

datatype ClientError = ClientTransport string | ClientApi WireError | ClientLocal string

text \<open>The client, over the state of what it talks to.\<close>

type_synonym ('s, 'a) call = "'s \<Rightarrow> (ClientError, 'a) result \<times> 's"

record 's AgentClient =
  cl_create_identity :: "CreateAgentIdentityRequest \<Rightarrow> ('s, CreateAgentIdentityResponse) call"
  cl_list_identities :: "('s, AgentIdentityResponse list) call"
  cl_get_identity :: "string \<Rightarrow> ('s, AgentIdentityResponse) call"
  cl_revoke_identity :: "string \<Rightarrow> ('s, RevocationResponse) call"
  cl_mint_token :: "string \<Rightarrow> ('s, MintAgentTokenResponse) call"
  cl_revoke_token :: "string \<Rightarrow> string \<Rightarrow> ('s, RevocationResponse) call"
  cl_list_requests :: "('s, AgentPermissionRequestResponse list) call"
  cl_get_request :: "string \<Rightarrow> ('s, AgentPermissionRequestResponse) call"
  cl_approve_request :: "string \<Rightarrow> ApproveAgentPermissionRequest \<Rightarrow> ('s, AgentGrantResponse) call"
  cl_deny_request :: "string \<Rightarrow> DenyAgentPermissionRequest \<Rightarrow> ('s, AgentPermissionRequestResponse) call"
  cl_list_grants :: "('s, AgentGrantResponse list) call"
  cl_revoke_grant :: "string \<Rightarrow> ('s, RevocationResponse) call"

definition cbind :: "('s, 'a) call \<Rightarrow> ('a \<Rightarrow> ('s, 'b) call) \<Rightarrow> ('s, 'b) call" where
  "cbind m f s = (case m s of (Inl e, t) \<Rightarrow> (Inl e, t) | (Inr x, t) \<Rightarrow> f x t)"

definition cresult :: "(ClientError, 'a) result \<Rightarrow> ('s, 'a) call" where
  "cresult r s = (r, s)"

datatype AgentDurationArg = ArgOnce | ArgUntilSurfaceGone | ArgPersistent

fun duration_from_arg :: "AgentDurationArg \<Rightarrow> AgentPermissionDuration" where
  "duration_from_arg ArgOnce = WOnce"
| "duration_from_arg ArgUntilSurfaceGone = WUntilSurfaceGone"
| "duration_from_arg ArgPersistent = WPersistent"

datatype AgentsCommand =
    Review nat
  | CreateAgent string bool
  | ListAgents bool
  | ShowAgent string bool
  | RevokeAgent string bool
  | TokenCreate string bool
  | TokenRevoke string string bool
  | Grants bool
  | GrantRevoke string bool
  | Requests bool
  | ShowRequest string bool
  | ApproveRequest string AgentDurationArg bool
  | DenyRequest string bool "string option" bool

text \<open>Pretty-printed JSON is serde's.\<close>

record json_printers =
  js_created :: "CreateAgentIdentityResponse \<Rightarrow> (string, string) result"
  js_identities :: "AgentIdentityResponse list \<Rightarrow> (string, string) result"
  js_identity :: "AgentIdentityResponse \<Rightarrow> (string, string) result"
  js_token :: "MintAgentTokenResponse \<Rightarrow> (string, string) result"
  js_revocation :: "RevocationResponse \<Rightarrow> (string, string) result"
  js_requests :: "AgentPermissionRequestResponse list \<Rightarrow> (string, string) result"
  js_request :: "AgentPermissionRequestResponse \<Rightarrow> (string, string) result"
  js_grants :: "AgentGrantResponse list \<Rightarrow> (string, string) result"
  js_grant :: "AgentGrantResponse \<Rightarrow> (string, string) result"

abbreviation newline :: string where
  "newline \<equiv> [CHR 0x0A]"

definition render_json :: "('a \<Rightarrow> (string, string) result) \<Rightarrow> 'a \<Rightarrow> (ClientError, string) result" where
  "render_json to_json value =
     (case to_json value of Inl e \<Rightarrow> Inl (ClientLocal (''json encode: '' @ e)) | Inr text \<Rightarrow> Inr (text @ newline))"

definition render_create_identity :: "json_printers \<Rightarrow> CreateAgentIdentityResponse \<Rightarrow> bool \<Rightarrow> (ClientError, string) result" where
  "render_create_identity J response json =
     (if json then render_json (js_created J) response
      else Inr (''agent_id: '' @ cip_agent_id response @ newline @ ''token: '' @ cip_token response @ newline))"

definition render_mint_token :: "json_printers \<Rightarrow> MintAgentTokenResponse \<Rightarrow> bool \<Rightarrow> (ClientError, string) result" where
  "render_mint_token J response json =
     (if json then render_json (js_token J) response
      else Inr (''token_id: '' @ mtr_token_id response @ newline @ ''token: '' @ mtr_token response @ newline))"

definition render_identities :: "json_printers \<Rightarrow> AgentIdentityResponse list \<Rightarrow> bool \<Rightarrow> (ClientError, string) result" where
  "render_identities J response json =
     (if json then render_json (js_identities J) response
      else Inr (join_with newline (map (\<lambda>i. ''agent_id: '' @ air_agent_id i @ newline @
             ''display_name: '' @ air_display_name i @ newline) response)))"

definition render_identity :: "json_printers \<Rightarrow> AgentIdentityResponse \<Rightarrow> bool \<Rightarrow> (ClientError, string) result" where
  "render_identity J response json =
     (if json then render_json (js_identity J) response
      else Inr (''agent_id: '' @ air_agent_id response @ newline @ ''display_name: '' @ air_display_name response @ newline @
             ''created_at: '' @ format_unix_ms_utc (air_created_at response) @ newline @
             ''revoked_at: '' @ (case air_revoked_at response of None \<Rightarrow> ''-'' | Some t \<Rightarrow> format_unix_ms_utc t) @ newline))"

definition render_request :: "json_printers \<Rightarrow> AgentPermissionRequestResponse \<Rightarrow> bool \<Rightarrow> (ClientError, string) result" where
  "render_request J response json =
     (if json then render_json (js_request J) response
      else Inr (join_with newline (request_lines response) @ newline))"

definition render_requests :: "json_printers \<Rightarrow> AgentPermissionRequestResponse list \<Rightarrow> bool \<Rightarrow> (ClientError, string) result" where
  "render_requests J response json =
     (if json then render_json (js_requests J) response
      else if response = [] then Inr (''No pending requests.'' @ newline)
      else Inr (join_with newline (map (\<lambda>r. join_with newline (request_lines r) @ newline) response)))"

definition render_grant :: "json_printers \<Rightarrow> AgentGrantResponse \<Rightarrow> bool \<Rightarrow> (ClientError, string) result" where
  "render_grant J response json =
     (if json then render_json (js_grant J) response
      else Inr (join_with newline (grant_lines response) @ newline))"

definition render_grants :: "json_printers \<Rightarrow> AgentGrantResponse list \<Rightarrow> bool \<Rightarrow> (ClientError, string) result" where
  "render_grants J response json =
     (if json then render_json (js_grants J) response
      else if response = [] then Inr (''No active grants.'' @ newline)
      else Inr (join_with newline (map (\<lambda>g. join_with newline (grant_lines g) @ newline) response)))"

definition render_revocation :: "json_printers \<Rightarrow> RevocationResponse \<Rightarrow> bool \<Rightarrow> (ClientError, string) result" where
  "render_revocation J response json =
     (if json then render_json (js_revocation J) response
      else Inr (''revoked: '' @ (if rev_revoked response then ''true'' else ''false'') @ newline))"

definition cmap :: "('a \<Rightarrow> (ClientError, 'b) result) \<Rightarrow> ('s, 'a) call \<Rightarrow> ('s, 'b) call" where
  "cmap f m = cbind m (\<lambda>x. cresult (f x))"

fun run_with_output :: "json_printers \<Rightarrow> 's AgentClient \<Rightarrow> AgentsCommand \<Rightarrow> ('s, string) call" where
  "run_with_output J C (Review _) = cresult (Inl (ClientLocal ''review requires an interactive terminal''))"
| "run_with_output J C (CreateAgent name json) =
     cmap (\<lambda>r. render_create_identity J r json) (cl_create_identity C \<lparr>cir_display_name = name, cir_metadata = None\<rparr>)"
| "run_with_output J C (ListAgents json) = cmap (\<lambda>r. render_identities J r json) (cl_list_identities C)"
| "run_with_output J C (ShowAgent agent_id json) = cmap (\<lambda>r. render_identity J r json) (cl_get_identity C agent_id)"
| "run_with_output J C (RevokeAgent agent_id json) = cmap (\<lambda>r. render_revocation J r json) (cl_revoke_identity C agent_id)"
| "run_with_output J C (TokenCreate agent_id json) = cmap (\<lambda>r. render_mint_token J r json) (cl_mint_token C agent_id)"
| "run_with_output J C (TokenRevoke agent_id token_id json) =
     cmap (\<lambda>r. render_revocation J r json) (cl_revoke_token C agent_id token_id)"
| "run_with_output J C (Grants json) = cmap (\<lambda>r. render_grants J r json) (cl_list_grants C)"
| "run_with_output J C (GrantRevoke gid json) = cmap (\<lambda>r. render_revocation J r json) (cl_revoke_grant C gid)"
| "run_with_output J C (Requests json) = cmap (\<lambda>r. render_requests J r json) (cl_list_requests C)"
| "run_with_output J C (ShowRequest request_id json) = cmap (\<lambda>r. render_request J r json) (cl_get_request C request_id)"
| "run_with_output J C (ApproveRequest request_id duration json) =
     cbind (cl_get_request C request_id) (\<lambda>request.
     cmap (\<lambda>r. render_grant J r json)
       (cl_approve_request C request_id
         \<lparr>apr_duration = duration_from_arg duration, apr_target = prr_target request, apr_actions = prr_actions request,
          apr_constraints = AgentPermissionConstraints_default\<rparr>))"
| "run_with_output J C (DenyRequest request_id remember reason json) =
     cmap (\<lambda>r. render_request J r json) (cl_deny_request C request_id \<lparr>dpr_remember = remember, dpr_reason = reason\<rparr>)"

text \<open>The client of a daemon: each method is the request that the corresponding handler answers.\<close>

definition handled :: "'a task \<Rightarrow> (task_state, 'a) call" where
  "handled m s = (case m s of (r, t) \<Rightarrow> (map_err (\<lambda>e. case e of ApiError w \<Rightarrow> ClientApi w) r, t))"

definition DaemonClient :: "surroundings \<Rightarrow> task_state AgentClient" where
  "DaemonClient D =
     \<lparr>cl_create_identity = (\<lambda>request. handled (post_identity D request)),
      cl_list_identities = handled (get_identities D),
      cl_get_identity = (\<lambda>i. handled (route_get_identity D i)),
      cl_revoke_identity = (\<lambda>i. handled (post_revoke_identity D i)),
      cl_mint_token = (\<lambda>i. handled (post_identity_token D i)),
      cl_revoke_token = (\<lambda>i j. handled (post_revoke_identity_token D i j)),
      cl_list_requests = handled (get_requests D),
      cl_get_request = (\<lambda>i. handled (get_request D i)),
      cl_approve_request = (\<lambda>i body. handled (post_approve_request D i body)),
      cl_deny_request = (\<lambda>i body. handled (post_deny_request D i body)),
      cl_list_grants = handled (get_grants D),
      cl_revoke_grant = (\<lambda>i. handled (post_revoke_grant D i))\<rparr>"

section \<open>What reaches the terminal\<close>

text \<open>What a terminal shows as one character: neither a C0 nor a C1 control code, nor delete.\<close>

definition printable_char :: "char \<Rightarrow> bool" where
  "printable_char c \<longleftrightarrow> of_char c \<in> set [32..<127] \<or> of_char c \<in> set [160..<256]"

abbreviation printable :: "string \<Rightarrow> bool" where
  "printable s \<equiv> list_all (\<lambda>c. \<not> unsafe_char c) s"

named_theorems printable_intros \<open>texts without control characters\<close>

declare decimal.simps [simp del]

lemma printable_safe: "printable s \<longleftrightarrow> list_all (\<lambda>c. 32 \<le> (of_char c :: nat) \<and> \<not> (127 \<le> (of_char c :: nat) \<and> (of_char c :: nat) < 160)) s"
proof -
  have "unsafe_char c \<longleftrightarrow> is_control c" for c
    unfolding unsafe_char_def Let_def using nat_of_char_less_256 [of c] by linarith
  then show ?thesis by (auto simp: is_control_def list_all_iff not_less Let_def)
qed

lemma safe_printable_char: "\<not> unsafe_char c \<longleftrightarrow> printable_char c"
  unfolding unsafe_char_def is_control_def printable_char_def Let_def set_upt atLeastLessThan_iff
  using nat_of_char_less_256 [of c] by linarith

lemma printable_clean [printable_intros]: "printable (clean s)"
  by (auto simp: clean_def list_all_iff unsafe_char_def is_control_def Let_def)

lemma printable_digit: "printable [char_of (48 + n mod 10 :: nat)]"
proof -
  have "n mod 10 < 10" by simp
  then show ?thesis unfolding printable_safe by simp
qed

lemma printable_decimal [printable_intros]: "printable (decimal n)"
proof (induction n rule: decimal.induct)
  case (1 n)
  show ?case
  proof (cases "n < 10")
    case True
    then show ?thesis using printable_digit [of n] by (simp add: decimal.simps [of n])
  next
    case False
    then show ?thesis using 1 printable_digit [of n] by (simp add: decimal.simps [of n])
  qed
qed

lemma printable_padded [printable_intros]: "printable (padded n i)"
  using printable_decimal by (auto simp: padded_def pad_def list_all_iff unsafe_char_def is_control_def Let_def)

lemma printable_join [printable_intros]:
  "printable sep \<Longrightarrow> list_all printable xs \<Longrightarrow> printable (join_with sep xs)"
  by (induction sep xs rule: join_with.induct) simp_all

lemma printable_format [printable_intros]: "printable (format_unix_ms_utc t)"
proof -
  obtain y m d where "civil_from_days (int (unat t div 1000 div 86400)) = (y, m, d)" by (metis prod_cases3)
  moreover have "printable ''-''" "printable ''T''" "printable '':''" "printable ''.''" "printable ''Z''"
    by (simp_all add: unsafe_char_def is_control_def Let_def)
  ultimately show ?thesis
    unfolding format_unix_ms_utc_def Let_def
    by (simp only: prod.case list_all_append printable_padded simp_thms)
qed

lemma printable_duration [printable_intros]: "printable (display_duration d)"
  using printable_clean printable_format
  by (cases d) (simp_all add: list_all_append unsafe_char_def is_control_def Let_def)

lemma printable_actions [printable_intros]: "printable (display_actions as)"
proof -
  have "printable (action_label a)" for a by (cases a) (simp_all add: unsafe_char_def is_control_def Let_def)
  then show ?thesis unfolding display_actions_def
    by (intro printable_join) (auto simp: list_all_iff unsafe_char_def is_control_def Let_def)
qed

lemma printable_described [printable_intros]:
  "printable (requester i d)" "printable (display_target t d)" "printable (display_operation d reason)"
  unfolding requester_def display_target_def display_operation_def by (rule printable_clean)+

lemma printable_lines: "list_all printable [] = True"
  "list_all printable (x # xs) \<longleftrightarrow> printable x \<and> list_all printable xs"
  "list_all printable (xs @ ys) \<longleftrightarrow> list_all printable xs \<and> list_all printable ys"
  "printable (s @ t) \<longleftrightarrow> printable s \<and> printable t"
  by simp_all

lemma printable_texts:
  "printable '', ''"
  "printable ''Revoking affects future permission checks; running capture continues.''"
  "printable ''constraint: allowed input ''"
  "printable ''constraint: maximum duration ''"
  "printable ''constraint: requires frontmost''"
  "printable ''duration: ''"
  "printable ''first requested operation: ''"
  "printable ''grant_id: ''"
  "printable ''granted: ''"
  "printable ''ms''"
  "printable ''permission scope: ''"
  "printable ''request_id: ''"
  "printable ''requested: ''"
  "printable ''requester: ''"
  "printable ''retired: ''"
  "printable ''status: ''"
  "printable ''suggested duration: ''"
  "printable ''target: ''"
  by (simp_all add: printable_safe)

text \<open>
  C19: A description of a request or of a grant cannot drive the terminal.  Whatever names, titles,
  reasons and operations a request or a grant carries, every line that describes it consists of printable
  characters: no escape sequence, no line break that would add a row.  The characters of the model are
  those below 256, so this says nothing of the bidirectional controls.  It is about these lines only: the
  listing of identities prints registered names as they are (\<open>listed_names_are_raw\<close>).
\<close>

theorem described_lines_are_printable: "list_all (list_all printable_char) (request_lines r @ grant_lines g)"
proof -
  have "list_all printable (request_lines r)" unfolding request_lines_def
    by (cases "prr_invalidation_reason r") (simp_all only: option.case printable_lines printable_texts printable_intros simp_thms)
  moreover have "list_all printable (grant_lines g)" unfolding grant_lines_def
    by (cases "max_duration_ms (gresp_constraints g)"; cases "requires_frontmost (gresp_constraints g)";
        cases "allowed_input (gresp_constraints g) = []"; cases "Record \<in> set (gresp_actions g)")
      (simp_all only: option.case if_True if_False printable_lines printable_texts printable_intros simp_thms)
  ultimately show ?thesis by (simp add: safe_printable_char)
qed

text \<open>The listing of identities is not covered: it prints the registered name as it is.\<close>

lemma listed_names_are_raw:
  "render_identities J [\<lparr>air_agent_id = ''agent_0'', air_display_name = [CHR 0x1B, CHR ''['', CHR ''2'', CHR ''J''],
      air_metadata = None, air_created_at = 0, air_revoked_at = None\<rparr>] False = Inr out \<Longrightarrow> \<not> list_all printable [out]"
  by (auto simp: render_identities_def unsafe_char_def is_control_def Let_def)

section \<open>Approving from the command line\<close>

lemma handled_Inr [simp]: "handled m s = (Inr x, t) \<longleftrightarrow> m s = (Inr x, t)"
  by (auto simp: handled_def map_err_def split: prod.splits sum.splits)

lemma cmap_Inr: "cmap f m s = (Inr y, t) \<longleftrightarrow> (\<exists>x. m s = (Inr x, t) \<and> f x = Inr y)"
  by (auto simp: cmap_def cbind_def cresult_def split: prod.splits sum.splits)

lemma cbind_Inr: "cbind m f s = (Inr y, u) \<longleftrightarrow> (\<exists>x t. m s = (Inr x, t) \<and> f x t = (Inr y, u))"
  by (auto simp: cbind_def split: prod.splits sum.splits)

text \<open>
  C18: \<open>porthole agents approve\<close> grants what the request asked for, for the duration on the command line.
  Whatever other tasks do between its two calls: when it prints a grant, that grant has the target and the
  set of actions of the request that it read, the operator's duration, no constraints, and stems from that
  request.
\<close>

theorem command_line_approval_grants_the_request:
  assumes "run_with_output J (DaemonClient D) (ApproveRequest qid duration json) (n, A) = (Inr out, (n', A'))"
    and "store_interference D" and "store_run (libs_of D) init_schema (app_store A)"
  shows "\<exists>r g m B. get_request D qid (n, A) = (Inr r, (m, B)) \<and> render_grant J g json = Inr out \<and>
    gresp_target g = prr_target r \<and> set (gresp_actions g) = set (prr_actions r) \<and>
    gresp_duration g = duration_from_arg duration \<and> gresp_constraints g = AgentPermissionConstraints_default \<and>
    gresp_origin_request_id g = Some qid"
proof -
  from assms(1) obtain r m B g where read: "get_request D qid (n, A) = (Inr r, (m, B))"
    and approve: "post_approve_request D qid \<lparr>apr_duration = duration_from_arg duration, apr_target = prr_target r,
        apr_actions = prr_actions r, apr_constraints = AgentPermissionConstraints_default\<rparr> (m, B) = (Inr g, (n', A'))"
    and out: "render_grant J g json = Inr out"
    by (auto simp: cbind_Inr cmap_Inr DaemonClient_def)
  have b: "app_runs.bounded (libs_of D) D" using assms(2) by (rule store_interference_bounded)
  have "app_run (libs_of D) A B" using app_runs.keepsD [OF app_runs.keeps_reads(2) [OF b] read] .
  with assms(3) have "store_run (libs_of D) init_schema (app_store B)" unfolding app_run_def by (rule store_run_trans)
  from approved_grant [OF approve assms(2) this] read out show ?thesis by fastforce
qed

definition example_printers :: json_printers where
  "example_printers =
     \<lparr>js_created = (\<lambda>_. Inr []), js_identities = (\<lambda>_. Inr []), js_identity = (\<lambda>_. Inr []), js_token = (\<lambda>_. Inr []),
      js_revocation = (\<lambda>_. Inr []), js_requests = (\<lambda>_. Inr []), js_request = (\<lambda>_. Inr []), js_grants = (\<lambda>_. Inr []),
      js_grant = (\<lambda>_. Inr [])\<rparr>"

lemma example_cli_approval:
  "\<exists>out s. run_with_output example_printers (DaemonClient calm_surroundings) (ApproveRequest ''apr_q0'' ArgPersistent True)
     (0, inbox_app) = (Inr out, s)"
  by (simp add: route_eval cbind_def cmap_def cresult_def handled_def DaemonClient_def get_request_def render_grant_def
      render_json_def example_printers_def constraints_from_wire_def AgentPermissionConstraints_default_def)

theorem command_line_approval_grants_the_request_witness:
  "\<exists>g. gresp_duration g = WPersistent \<and> gresp_origin_request_id g = Some ''apr_q0'' \<and>
     (\<exists>out s. run_with_output example_printers (DaemonClient calm_surroundings) (ApproveRequest ''apr_q0'' ArgPersistent True)
        (0, inbox_app) = (Inr out, s) \<and> render_grant example_printers g True = Inr out)"
proof -
  obtain out n' A' where run: "run_with_output example_printers (DaemonClient calm_surroundings)
      (ApproveRequest ''apr_q0'' ArgPersistent True) (0, inbox_app) = (Inr out, (n', A'))"
    using example_cli_approval by (metis prod.exhaust)
  from command_line_approval_grants_the_request [OF run calm_interference] example_run(2) run show ?thesis
    by (auto simp: calm_surroundings_def inbox_app_def)
qed

end
