(* ===== verification/Operator_Inbox.thy ===== *)
theory Operator_Inbox
  imports Operator_Cli
begin

text \<open>
  The operator's live inbox, \<open>porthole agents review\<close> (\<open>porthole/src/commands/approvals.rs\<close>): a list of
  pending requests and of grants that the operator decides on with single keys.  A network task keeps a
  snapshot of both up to date and carries out one decision at a time; the two talk over a watch channel
  that holds the latest update and a queue for one decision.  Terminal drawing is modelled as far as it
  chooses texts and changes the state; layout and wrapping belong to the terminal library.
\<close>

section \<open>State\<close>

record InboxSnapshot =
  sn_requests :: "AgentPermissionRequestResponse list"
  sn_grants :: "AgentGrantResponse list"

record Update =
  up_snapshot :: "InboxSnapshot option"
  up_connected :: bool
  up_message :: message
  up_completed :: u64

definition Update_default :: Update where
  "Update_default = \<lparr>up_snapshot = None, up_connected = False, up_message = Msg [] [], up_completed = 0\<rparr>"

datatype Decision =
    DecApprove AgentPermissionRequestResponse AgentPermissionDuration
  | DecDeny AgentPermissionRequestResponse
  | DecRevoke string

datatype Detail =
    DetailRequest AgentPermissionRequestResponse AgentPermissionDuration
  | DetailGrant AgentGrantResponse

record Scope =
  sc_selected :: "string option"
  sc_filter :: string
  sc_offset :: nat

text \<open>The two scopes are an array; the second one is in use while \<open>ib_grants\<close>.\<close>

record Inbox =
  ib_snapshot :: InboxSnapshot
  ib_scope_requests :: Scope
  ib_scope_grants :: Scope
  ib_grants :: bool
  ib_filtering :: bool
  ib_detail :: "Detail option"
  ib_detail_scroll :: u16
  ib_list_durations :: "(string \<times> AgentPermissionRequestResponse \<times> AgentPermissionDuration) list"
  ib_connected :: bool
  ib_busy :: bool
  ib_completed :: u64
  ib_message :: message

record InboxRow =
  row_id :: string
  row_cells :: "string list"

definition Inbox_new :: Inbox where
  "Inbox_new =
     (let scope = \<lparr>sc_selected = None, sc_filter = [], sc_offset = 0\<rparr> in
      \<lparr>ib_snapshot = \<lparr>sn_requests = [], sn_grants = []\<rparr>, ib_scope_requests = scope, ib_scope_grants = scope,
       ib_grants = False, ib_filtering = False, ib_detail = None, ib_detail_scroll = 0, ib_list_durations = [],
       ib_connected = False, ib_busy = False, ib_completed = 0, ib_message = Msg ''Connecting...'' []\<rparr>)"

definition scope_of :: "Inbox \<Rightarrow> Scope" where
  "scope_of I = (if ib_grants I then ib_scope_grants I else ib_scope_requests I)"

definition change_scope :: "(Scope \<Rightarrow> Scope) \<Rightarrow> Inbox \<Rightarrow> Inbox" where
  "change_scope f I =
     (if ib_grants I then I\<lparr>ib_scope_grants := f (ib_scope_grants I)\<rparr>
      else I\<lparr>ib_scope_requests := f (ib_scope_requests I)\<rparr>)"

section \<open>Rows\<close>

fun short_action :: "ActionClass \<Rightarrow> string" where
  "short_action Observe = ''observe''"
| "short_action Drive = ''drive''"
| "short_action Manage = ''manage''"
| "short_action Record = ''record''"

definition short_actions :: "ActionClass list \<Rightarrow> string" where
  "short_actions actions = join_with '' + '' (map short_action actions)"

fun compact_target :: "AgentPermissionTarget \<Rightarrow> PermissionDescription \<Rightarrow> string" where
  "compact_target target d =
     (case (target, pd_surface d) of
        (WSurface _, Some s) \<Rightarrow> clean (surface_label s @ closed_mark d)
      | _ \<Rightarrow> display_target target
          \<lparr>pd_agent_name = None, pd_agent_revoked = False, pd_surface = None,
           pd_surface_available = pd_surface_available d, pd_operation = None\<rparr>)"

fun compact_duration :: "AgentPermissionDuration \<Rightarrow> string" where
  "compact_duration WOnce = ''Once''"
| "compact_duration WUntilSurfaceGone = ''Until window closes''"
| "compact_duration WPersistent = ''Persistent''"
| "compact_duration d = display_duration d"

definition grant_entry :: "AgentGrantResponse \<Rightarrow> InboxRow" where
  "grant_entry g =
     \<lparr>row_id = gresp_grant_id g,
      row_cells = [clean (unwrap_or (pd_agent_name (gresp_description g)) (gresp_agent_id g)),
        compact_target (gresp_target g) (gresp_description g), short_actions (gresp_actions g),
        display_operation (gresp_description g) (gresp_origin_reason g), compact_duration (gresp_duration g)]\<rparr>"

definition request_entry :: "AgentPermissionRequestResponse \<Rightarrow> InboxRow" where
  "request_entry r =
     \<lparr>row_id = prr_request_id r,
      row_cells = [clean (unwrap_or (pd_agent_name (prr_description r)) (prr_agent_id r)),
        compact_target (prr_target r) (prr_description r), short_actions (prr_actions r),
        display_operation (prr_description r) (prr_reason r)]\<rparr>"

text \<open>\<open>str::to_lowercase\<close> on characters below 256, and \<open>str::contains\<close>.\<close>

definition to_lowercase :: "string \<Rightarrow> string" where
  "to_lowercase s =
     map (\<lambda>c. let n = of_char c :: nat in
            if 65 \<le> n \<and> n \<le> 90 \<or> 192 \<le> n \<and> n \<le> 222 \<and> n \<noteq> 215 then char_of (n + 32) else c) s"

fun contains :: "string \<Rightarrow> string \<Rightarrow> bool" where
  "contains [] part = (part = [])"
| "contains (c # cs) part = (take (length part) (c # cs) = part \<or> contains cs part)"

definition entries :: "Inbox \<Rightarrow> InboxRow list" where
  "entries I =
     (let part = to_lowercase (sc_filter (scope_of I));
          rows = (if ib_grants I then map grant_entry (sn_grants (ib_snapshot I)) else map request_entry (sn_requests (ib_snapshot I)))
      in filter (\<lambda>row. contains (to_lowercase (row_id row)) part \<or>
           list_ex (\<lambda>cell. contains (to_lowercase cell) part) (row_cells row)) rows)"

section \<open>Operations\<close>

definition first_id :: "InboxRow list \<Rightarrow> string option" where
  "first_id rows = (case rows of [] \<Rightarrow> None | row # _ \<Rightarrow> Some (row_id row))"

definition reconcile :: "Inbox \<Rightarrow> Inbox" where
  "reconcile I =
     (let rows = entries I in
      if list_ex (\<lambda>row. Some (row_id row) = sc_selected (scope_of I)) rows then I
      else change_scope (\<lambda>s. s\<lparr>sc_selected := first_id rows, sc_offset := 0\<rparr>) I)"

text \<open>A map collected from a list keeps the last entry of each key.\<close>

definition current_request :: "InboxSnapshot \<Rightarrow> string \<Rightarrow> AgentPermissionRequestResponse option" where
  "current_request S i = map_of (rev (map (\<lambda>r. (prr_request_id r, r)) (sn_requests S))) i"

definition inbox_update :: "Update \<Rightarrow> Inbox \<Rightarrow> Inbox" where
  "inbox_update u I =
     (let I = (case up_snapshot u of
                 None \<Rightarrow> I
               | Some S \<Rightarrow> I\<lparr>ib_snapshot := S,
                   ib_list_durations := filter (\<lambda>(i, request, _). current_request S i = Some request) (ib_list_durations I)\<rparr>);
          I = (if up_completed u \<noteq> ib_completed I then I\<lparr>ib_busy := False\<rparr> else I)
      in reconcile (I\<lparr>ib_completed := up_completed u, ib_connected := up_connected u, ib_message := up_message u\<rparr>))"

fun position :: "('a \<Rightarrow> bool) \<Rightarrow> 'a list \<Rightarrow> nat option" where
  "position p [] = None"
| "position p (x # xs) = (if p x then Some 0 else map_option Suc (position p xs))"

definition navigate :: "bool \<Rightarrow> Inbox \<Rightarrow> Inbox" where
  "navigate down I =
     (if ib_detail I \<noteq> None then
        I\<lparr>ib_detail_scroll := if down then (if ib_detail_scroll I = - 1 then ib_detail_scroll I else ib_detail_scroll I + 1)
                             else (if ib_detail_scroll I = 0 then 0 else ib_detail_scroll I - 1)\<rparr>
      else
        let rows = entries I;
            current = unwrap_or (position (\<lambda>row. Some (row_id row) = sc_selected (scope_of I)) rows) 0;
            next_row = (if down then min (current + 1) (length rows - 1) else current - 1)
        in change_scope (\<lambda>s. s\<lparr>sc_selected := if next_row < length rows then Some (row_id (rows ! next_row)) else None\<rparr>) I)"

definition selected_detail :: "Inbox \<Rightarrow> Detail option" where
  "selected_detail I =
     (let selected = sc_selected (scope_of I) in
      if ib_grants I then
        map_option DetailGrant (find (\<lambda>g. Some (gresp_grant_id g) = selected) (sn_grants (ib_snapshot I)))
      else
        map_option (\<lambda>r. DetailRequest r
            (case map_of (ib_list_durations I) (prr_request_id r) of
               Some (request, duration) \<Rightarrow> if request = r then duration else default_duration (prr_target r)
             | None \<Rightarrow> default_duration (prr_target r)))
          (find (\<lambda>r. Some (prr_request_id r) = selected) (sn_requests (ib_snapshot I))))"

definition active_detail :: "Inbox \<Rightarrow> Detail option" where
  "active_detail I = (case ib_detail I of Some d \<Rightarrow> Some d | None \<Rightarrow> selected_detail I)"

definition open_detail :: "Inbox \<Rightarrow> Inbox" where
  "open_detail I = I\<lparr>ib_detail := selected_detail I, ib_detail_scroll := 0\<rparr>"

definition horizontal :: "bool \<Rightarrow> Inbox \<Rightarrow> Inbox" where
  "horizontal right I =
     (if ib_detail I \<noteq> None then (if right then I else I\<lparr>ib_detail := None\<rparr>)
      else reconcile (I\<lparr>ib_grants := right\<rparr>))"

definition chosen_duration :: "char \<Rightarrow> AgentPermissionTarget \<Rightarrow> AgentPermissionDuration option" where
  "chosen_duration key target =
     (if key = CHR ''1'' then Some WOnce
      else if key = CHR ''2'' \<and> (case target of WSurface _ \<Rightarrow> True | _ \<Rightarrow> False) then Some WUntilSurfaceGone
      else if key = CHR ''3'' then Some WPersistent
      else None)"

definition choose_duration :: "char \<Rightarrow> Inbox \<Rightarrow> Inbox" where
  "choose_duration key I =
     (if ib_busy I then I
      else case active_detail I of
        Some (DetailRequest r _) \<Rightarrow>
          (case chosen_duration key (prr_target r) of
             None \<Rightarrow> I
           | Some duration \<Rightarrow>
               let I' = I\<lparr>ib_list_durations := AList.update (prr_request_id r) (r, duration) (ib_list_durations I)\<rparr>
               in if ib_detail I \<noteq> None then I'\<lparr>ib_detail := Some (DetailRequest r duration)\<rparr> else I')
      | _ \<Rightarrow> I)"

definition actionable :: "Inbox \<Rightarrow> bool" where
  "actionable I \<longleftrightarrow>
     ib_connected I \<and> \<not> ib_busy I \<and>
     (case active_detail I of
        Some (DetailRequest r _) \<Rightarrow> list_ex (\<lambda>c. c = r \<and> prr_status c = ''pending'') (sn_requests (ib_snapshot I))
      | Some (DetailGrant g) \<Rightarrow> list_ex (\<lambda>c. c = g) (sn_grants (ib_snapshot I))
      | None \<Rightarrow> False)"

definition decision :: "char \<Rightarrow> Inbox \<Rightarrow> (string, Decision) result" where
  "decision key I =
     (if \<not> ib_connected I then Inl ''offline; waiting to reconnect.''
      else if ib_busy I then Inl ''a decision is already in progress.''
      else case active_detail I of
        None \<Rightarrow> Inl ''no entry selected.''
      | Some detail \<Rightarrow>
          if \<not> actionable I then Inl ''entry changed or was resolved; return to the list to refresh it.''
          else case detail of
            DetailRequest r duration \<Rightarrow>
              if key = CHR ''a'' then
                if pd_agent_revoked (prr_description r) then Inl ''requester unavailable; it was revoked or removed.''
                else if pd_surface_available (prr_description r) = Some False
                then Inl ''window unavailable; the agent must find it again and retry.''
                else Inr (DecApprove r duration)
              else if key = CHR ''d'' then Inr (DecDeny r)
              else Inl ''action does not apply to this entry.''
          | DetailGrant g \<Rightarrow>
              if key = CHR ''r'' then Inr (DecRevoke (gresp_grant_id g))
              else Inl ''action does not apply to this entry.'')"

text \<open>True if the program is to end.\<close>

definition escape :: "Inbox \<Rightarrow> bool \<times> Inbox" where
  "escape I =
     (if ib_filtering I then (False, I\<lparr>ib_filtering := False\<rparr>)
      else (ib_detail I = None, I\<lparr>ib_detail := None\<rparr>))"

section \<open>The screen\<close>

definition starts_with :: "string \<Rightarrow> string \<Rightarrow> bool" where
  "starts_with line part \<longleftrightarrow> take (length part) line = part"

fun replace_first :: "('a \<Rightarrow> bool) \<Rightarrow> 'a \<Rightarrow> 'a list \<Rightarrow> 'a list" where
  "replace_first p y [] = []"
| "replace_first p y (x # xs) = (if p x then y # xs else x # replace_first p y xs)"

definition header_line :: "Inbox \<Rightarrow> string" where
  "header_line I =
     (if ib_grants I then '' Requests   [Grants] '' else '' [Requests]   Grants '') @ ''  '' @
     (if ib_connected I then ''LIVE'' else ''OFFLINE'') @ ''  | local daemon''"

definition filter_line :: "Inbox \<Rightarrow> string" where
  "filter_line I =
     (if ib_filtering I then ''Filter (Enter to finish)'' else ''Filter'') @ '': '' @ sc_filter (scope_of I)"

definition context_line :: "Inbox \<Rightarrow> string" where
  "context_line I =
     (case active_detail I of
        Some (DetailRequest r duration) \<Rightarrow>
          if ib_filtering I then filter_line I
          else (case decision (CHR ''a'') I of
            Inl reason \<Rightarrow> ''Cannot approve: '' @ reason
          | Inr _ \<Rightarrow>
              ''APPROVE FOR: '' @ display_duration duration @
              (if sc_filter (scope_of I) = [] then [] else '' | Filter: '' @ sc_filter (scope_of I)))
      | _ \<Rightarrow> filter_line I)"

definition detail_lines :: "Inbox \<Rightarrow> Detail \<Rightarrow> string list" where
  "detail_lines I detail =
     (case detail of
        DetailRequest r _ \<Rightarrow>
          (let lines = filter (\<lambda>line. \<not> starts_with line ''suggested duration:'') (request_lines r);
               listed = find (\<lambda>c. prr_request_id c = prr_request_id r) (sn_requests (ib_snapshot I));
               status = (if \<not> ib_connected I then Some ''status: last seen pending (offline)''
                         else if listed = None then Some ''status: no longer pending'' else None);
               lines = (case status of None \<Rightarrow> lines | Some text \<Rightarrow> replace_first (\<lambda>line. starts_with line ''status:'') text lines);
               description = (case listed of None \<Rightarrow> prr_description r | Some c \<Rightarrow> prr_description c)
           in lines @ [''This grants the capability scope above, not just the triggering operation.''] @
              (if pd_agent_revoked description \<or> pd_surface_available description = Some False
               then [''Approval unavailable: requester revoked or window unavailable.''] else []))
      | DetailGrant g \<Rightarrow> grant_lines g) @
     (if actionable I then []
      else [''Actions unavailable: resolved, changed, offline, or target unavailable. Esc to refresh selection.''])"

definition actions_line :: "Inbox \<Rightarrow> string" where
  "actions_line I =
     (if ib_filtering I then ''Type to filter  Ctrl-U clear  Enter/Esc finish''
      else case active_detail I of
        None \<Rightarrow> []
      | Some (DetailRequest r _) \<Rightarrow>
          if \<not> is_ok (decision (CHR ''a'') I)
          then (if is_ok (decision (CHR ''d'') I) then ''d deny request'' else ''Actions unavailable'')
          else (case prr_target r of
            WSurface _ \<Rightarrow> ''a approve  d deny  1 once  2 until window closes  3 persistent''
          | _ \<Rightarrow> ''a approve  d deny  1 once  3 persistent'')
      | Some (DetailGrant g) \<Rightarrow>
          if \<not> is_ok (decision (CHR ''r'') I) then ''Actions unavailable'' else ''r revoke grant (future checks only)'')"

text \<open>
  Drawing changes the state: it bounds the scroll position by the number of wrapped rows, and otherwise
  reconciles the selection and stores where the table was scrolled to.
\<close>

definition draw_effect :: "nat \<Rightarrow> nat \<Rightarrow> nat \<Rightarrow> Inbox \<Rightarrow> Inbox" where
  "draw_effect rows visible offset I =
     (if ib_detail I \<noteq> None
      then I\<lparr>ib_detail_scroll := min (ib_detail_scroll I) (of_nat (min (rows - visible) 65535))\<rparr>
      else change_scope (\<lambda>s. s\<lparr>sc_offset := offset\<rparr>) (reconcile I))"

section \<open>Keys\<close>

datatype KeyCode = KEsc | KEnter | KBackspace | KTab | KBackTab | KLeft | KRight | KUp | KDown | KChar char | KOther

record KeyPress =
  kp_code :: KeyCode
  kp_control :: bool
  kp_press :: bool \<comment> \<open>not a repeat or a release\<close>

datatype SendResult = SendOk | SendFull | SendClosed

datatype Reaction = Quit | Go Inbox "Decision option"

definition change_filter :: "(string \<Rightarrow> string) \<Rightarrow> Inbox \<Rightarrow> Inbox" where
  "change_filter f I = reconcile (change_scope (\<lambda>s. s\<lparr>sc_filter := f (sc_filter s)\<rparr>) I)"

definition filter_key :: "KeyPress \<Rightarrow> Inbox \<Rightarrow> Inbox" where
  "filter_key k I =
     (case kp_code k of
        KEnter \<Rightarrow> I\<lparr>ib_filtering := False\<rparr>
      | KBackspace \<Rightarrow> change_filter butlast I
      | KChar c \<Rightarrow>
          if c = CHR ''u'' \<and> kp_control k then change_filter (\<lambda>_. []) I
          else if \<not> is_control c then change_filter (\<lambda>s. s @ [c]) I
          else I
      | _ \<Rightarrow> I)"

definition decide_key :: "SendResult \<Rightarrow> char \<Rightarrow> Inbox \<Rightarrow> Reaction" where
  "decide_key sent c I =
     (case decision c I of
        Inr d \<Rightarrow>
          (case sent of
             SendOk \<Rightarrow> Go (I\<lparr>ib_busy := True, ib_message := Msg ''Sending decision...'' []\<rparr>) (Some d)
           | SendFull \<Rightarrow> Go (I\<lparr>ib_message := Msg ''Not sent: another decision is queued. Try again after it completes.'' []\<rparr>) None
           | SendClosed \<Rightarrow> Go (I\<lparr>ib_message := Msg ''Not sent: approval worker stopped. Reopen the inbox.'' []\<rparr>) None)
      | Inl reason \<Rightarrow>
          Go (I\<lparr>ib_message := Msg ''Cannot {action}: {reason}''
                [FStr (if c = CHR ''a'' then ''approve'' else if c = CHR ''d'' then ''deny'' else ''revoke''), FStr reason]\<rparr>) None)"

definition plain_key :: "SendResult \<Rightarrow> KeyCode \<Rightarrow> Inbox \<Rightarrow> Reaction" where
  "plain_key sent code I =
     (case code of
        KTab \<Rightarrow> Go (if ib_detail I = None then reconcile (I\<lparr>ib_grants := \<not> ib_grants I\<rparr>) else I) None
      | KBackTab \<Rightarrow> Go (if ib_detail I = None then reconcile (I\<lparr>ib_grants := \<not> ib_grants I\<rparr>) else I) None
      | KLeft \<Rightarrow> Go (horizontal False I) None
      | KRight \<Rightarrow> Go (horizontal True I) None
      | KDown \<Rightarrow> Go (navigate True I) None
      | KUp \<Rightarrow> Go (navigate False I) None
      | KEnter \<Rightarrow> Go (if ib_detail I = None then open_detail I else I) None
      | KChar c \<Rightarrow>
          if c = CHR ''q'' then Quit
          else if c = CHR ''/'' then Go (if ib_detail I = None then I\<lparr>ib_filtering := True\<rparr> else I) None
          else if c = CHR ''j'' then Go (navigate True I) None
          else if c = CHR ''k'' then Go (navigate False I) None
          else if c \<in> {CHR ''1'', CHR ''2'', CHR ''3''} then Go (choose_duration c I) None
          else if c \<in> {CHR ''a'', CHR ''d'', CHR ''r''} then decide_key sent c I
          else Go I None
      | _ \<Rightarrow> Go I None)"

text \<open>One key event; \<open>sent\<close> is what the queue answers to a decision.\<close>

definition handle_key :: "SendResult \<Rightarrow> KeyPress \<Rightarrow> Inbox \<Rightarrow> Reaction" where
  "handle_key sent k I =
     (if \<not> kp_press k then Go I None
      else if kp_code k = KChar (CHR ''c'') \<and> kp_control k then Quit
      else if kp_code k = KEsc then (case escape I of (True, _) \<Rightarrow> Quit | (False, I) \<Rightarrow> Go I None)
      else if ib_filtering I then Go (filter_key k I) None
      else plain_key sent (kp_code k) I)"

section \<open>The network task\<close>

datatype OperatorCall =
    CallApprove string ApproveAgentPermissionRequest
  | CallDeny string DenyAgentPermissionRequest
  | CallRevoke string

fun decision_call :: "Decision \<Rightarrow> OperatorCall" where
  "decision_call (DecApprove r duration) =
     CallApprove (prr_request_id r)
       \<lparr>apr_duration = duration, apr_target = prr_target r, apr_actions = prr_actions r,
        apr_constraints = AgentPermissionConstraints_default\<rparr>"
| "decision_call (DecDeny r) = CallDeny (prr_request_id r) \<lparr>dpr_remember = False, dpr_reason = None\<rparr>"
| "decision_call (DecRevoke i) = CallRevoke i"

text \<open>What a call ends with: its answer (for a revocation, whether it changed anything), an error, or a timeout.\<close>

datatype Answer = Answered bool | Failed message | TimedOut

fun done_message :: "OperatorCall \<Rightarrow> bool \<Rightarrow> string" where
  "done_message (CallApprove _ _) _ = ''Approved.''"
| "done_message (CallDeny _ _) _ = ''Denied this request.''"
| "done_message (CallRevoke _) revoked =
     (if revoked then ''Revoked for future checks; existing work continues.'' else ''Grant was already revoked.'')"

record Network =
  nw_state :: Update
  nw_events :: bool

definition Network_new :: Network where
  "Network_new = \<lparr>nw_state = Update_default, nw_events = False\<rparr>"

datatype Refresh = Refreshed InboxSnapshot | RefreshFailed message | RefreshTimedOut

text \<open>A round begins with the event stream, if there is none, and then the snapshot.\<close>

definition refresh :: "bool \<Rightarrow> Refresh \<Rightarrow> Network \<Rightarrow> Network" where
  "refresh subscribed answer N =
     (let events = nw_events N \<or> subscribed; u = nw_state N; lost = \<lambda>m. \<lparr>nw_state = u\<lparr>up_connected := False, up_message := m\<rparr>, nw_events = False\<rparr> in
      case answer of
        Refreshed S \<Rightarrow>
          if events then
            \<lparr>nw_state = u\<lparr>up_snapshot := Some S, up_connected := True,
               up_message := if up_connected u then up_message u
                 else Msg ''Live. Approval grants the permission scope; Operation shows what prompted it.'' []\<rparr>,
             nw_events = True\<rparr>
          else lost (Msg ''Event stream unavailable. Retrying; actions disabled.'' [])
      | RefreshFailed e \<Rightarrow> lost (Msg ''Disconnected: {error}. Retrying; actions disabled.'' [FMsg e])
      | RefreshTimedOut \<Rightarrow> lost (Msg ''Disconnected or timed out. Retrying; actions disabled.'' []))"

definition decided :: "Answer \<Rightarrow> Decision \<Rightarrow> Network \<Rightarrow> Network" where
  "decided answer d N =
     (let u = nw_state N in
      N\<lparr>nw_state := u\<lparr>
          up_message :=
            if \<not> up_connected u then Msg ''Not sent: connection unavailable.'' []
            else (case answer of
              Answered revoked \<Rightarrow> Msg (done_message (decision_call d) revoked) []
            | Failed e \<Rightarrow> Msg ''Action failed: {error}'' [FMsg e]
            | TimedOut \<Rightarrow> Msg ''Action timed out; outcome unknown. Refreshing, without retrying it.'' []),
          up_completed := up_completed u + 1\<rparr>\<rparr>)"

definition events_lost :: "Network \<Rightarrow> Network" where
  "events_lost N =
     \<lparr>nw_state = (nw_state N)\<lparr>up_connected := False,
        up_message := Msg ''Event connection lost. Resynchronizing; actions disabled.'' []\<rparr>, nw_events = False\<rparr>"

section \<open>What the inbox keeps\<close>

text \<open>
  Every chosen duration is one that the keys offer for its request, and the selection of the scope in use
  is one of its rows, unless there is none.
\<close>

definition offered :: "AgentPermissionTarget \<Rightarrow> AgentPermissionDuration \<Rightarrow> bool" where
  "offered target d \<longleftrightarrow> d = WOnce \<or> d = WPersistent \<or> d = WUntilSurfaceGone \<and> (\<exists>i. target = WSurface i)"

definition durations_ok :: "Inbox \<Rightarrow> bool" where
  "durations_ok I \<longleftrightarrow>
     (\<forall>(i, r, d) \<in> set (ib_list_durations I). offered (prr_target r) d) \<and>
     (\<forall>r d. ib_detail I = Some (DetailRequest r d) \<longrightarrow> offered (prr_target r) d)"

definition selection_ok :: "Inbox \<Rightarrow> bool" where
  "selection_ok I \<longleftrightarrow>
     list_ex (\<lambda>row. Some (row_id row) = sc_selected (scope_of I)) (entries I) \<or>
     entries I = [] \<and> sc_selected (scope_of I) = None"

lemma offered_default: "offered target (default_duration target)"
  by (cases target) (simp_all add: offered_def)

lemma offered_chosen: "chosen_duration key target = Some d \<Longrightarrow> offered target d"
  by (auto simp: chosen_duration_def offered_def split: if_splits AgentPermissionTarget.splits)

lemma scope_changed [simp]: "scope_of (change_scope f I) = f (scope_of I)"
  by (simp add: scope_of_def change_scope_def)

lemma change_scope_simps [simp]:
  "ib_grants (change_scope f I) = ib_grants I" "ib_snapshot (change_scope f I) = ib_snapshot I"
  "ib_detail (change_scope f I) = ib_detail I" "ib_list_durations (change_scope f I) = ib_list_durations I"
  "ib_connected (change_scope f I) = ib_connected I" "ib_busy (change_scope f I) = ib_busy I"
  "ib_completed (change_scope f I) = ib_completed I" "ib_filtering (change_scope f I) = ib_filtering I"
  by (simp_all add: change_scope_def)

lemma entries_cong:
  "ib_grants I = ib_grants J \<Longrightarrow> ib_snapshot I = ib_snapshot J \<Longrightarrow> sc_filter (scope_of I) = sc_filter (scope_of J) \<Longrightarrow>
   entries I = entries J"
  by (simp add: entries_def)

lemma entries_change_scope [simp]: "(\<And>s. sc_filter (f s) = sc_filter s) \<Longrightarrow> entries (change_scope f I) = entries I"
  by (rule entries_cong) simp_all

lemma reconcile_simps [simp]:
  "ib_grants (reconcile I) = ib_grants I" "ib_snapshot (reconcile I) = ib_snapshot I"
  "ib_detail (reconcile I) = ib_detail I" "ib_list_durations (reconcile I) = ib_list_durations I"
  "ib_connected (reconcile I) = ib_connected I" "ib_busy (reconcile I) = ib_busy I"
  "ib_completed (reconcile I) = ib_completed I" "ib_filtering (reconcile I) = ib_filtering I"
  by (simp_all add: reconcile_def Let_def)

lemma reconcile_selects: "selection_ok (reconcile I)"
proof -
  have "list_ex (\<lambda>row. Some (row_id row) = first_id rows) rows \<or> rows = [] \<and> first_id rows = None" for rows
    by (cases rows) (simp_all add: first_id_def)
  then show ?thesis by (simp add: selection_ok_def reconcile_def Let_def)
qed

lemma durations_cong:
  "ib_list_durations I = ib_list_durations J \<Longrightarrow> ib_detail I = ib_detail J \<Longrightarrow> durations_ok I = durations_ok J"
  by (simp add: durations_ok_def)

lemma durations_reconcile [simp]: "durations_ok (reconcile I) = durations_ok I"
  by (rule durations_cong) simp_all

lemma durations_change_scope [simp]: "durations_ok (change_scope f I) = durations_ok I"
  by (rule durations_cong) simp_all

lemma update_inbox_ok: "durations_ok I \<Longrightarrow> durations_ok (inbox_update u I) \<and> selection_ok (inbox_update u I)"
  unfolding inbox_update_def Let_def
  by (auto simp: reconcile_selects) (auto simp: durations_ok_def split: option.splits)

lemma selected_offered: "selected_detail I = Some (DetailRequest r d) \<Longrightarrow> durations_ok I \<Longrightarrow> offered (prr_target r) d"
  by (auto simp: selected_detail_def Let_def durations_ok_def offered_default dest!: map_of_SomeD split: if_splits option.splits)

lemma active_offered: "active_detail I = Some (DetailRequest r d) \<Longrightarrow> durations_ok I \<Longrightarrow> offered (prr_target r) d"
  using selected_offered by (auto simp: active_detail_def durations_ok_def split: option.splits)

lemma navigate_ok:
  assumes "durations_ok I" "selection_ok I"
  shows "durations_ok (navigate down I) \<and> selection_ok (navigate down I)"
proof (cases "ib_detail I = None")
  case True
  let ?rows = "entries I"
  have bound: "position p rows = Some k \<Longrightarrow> k < length rows" for p k and rows :: "InboxRow list"
    by (induction rows arbitrary: k) (auto split: if_splits)
  define k where "k = (let c = unwrap_or (position (\<lambda>row. Some (row_id row) = sc_selected (scope_of I)) ?rows) 0
    in if down then min (c + 1) (length ?rows - 1) else c - 1)"
  have nav: "navigate down I = change_scope (\<lambda>s. s\<lparr>sc_selected := if k < length ?rows then Some (row_id (?rows ! k)) else None\<rparr>) I"
    using True by (simp add: navigate_def k_def Let_def)
  have "k < length ?rows \<or> ?rows = []"
  proof (cases "?rows = []")
    case False
    then have "unwrap_or (position (\<lambda>row. Some (row_id row) = sc_selected (scope_of I)) ?rows) 0 < length ?rows"
      using bound [of _ ?rows] by (simp add: unwrap_or_def split: option.splits)
    then show ?thesis by (auto simp: k_def Let_def)
  qed simp
  then have "selection_ok (navigate down I)" by (auto simp: nav selection_ok_def list_ex_iff)
  then show ?thesis using assms(1) by (simp add: nav)
next
  case False
  then show ?thesis using assms
    by (auto simp: navigate_def durations_ok_def selection_ok_def entries_def scope_of_def)
qed

lemma in_AList_update: "x \<in> set (AList.update k v xs) \<Longrightarrow> x = (k, v) \<or> x \<in> set xs"
  by (induction xs) (auto split: if_splits)

lemma choose_duration_ok:
  assumes "durations_ok I" "selection_ok I"
  shows "durations_ok (choose_duration c I) \<and> selection_ok (choose_duration c I)"
proof -
  have "selection_ok (choose_duration c I) = selection_ok I"
    by (auto simp: choose_duration_def selection_ok_def entries_def scope_of_def Let_def split: option.splits Detail.splits)
  moreover have "durations_ok (choose_duration c I)" using assms(1)
    by (auto simp: choose_duration_def durations_ok_def Let_def dest!: in_AList_update offered_chosen
        split: option.splits Detail.splits)
  ultimately show ?thesis using assms(2) by simp
qed

lemma detail_keeps_selection [simp]:
  "selection_ok (I\<lparr>ib_detail := d\<rparr>) = selection_ok I" "selection_ok (I\<lparr>ib_detail_scroll := n\<rparr>) = selection_ok I"
  "selection_ok (I\<lparr>ib_filtering := b\<rparr>) = selection_ok I" "selection_ok (I\<lparr>ib_busy := b\<rparr>) = selection_ok I"
  "selection_ok (I\<lparr>ib_message := m\<rparr>) = selection_ok I"
  by (simp_all add: selection_ok_def entries_def scope_of_def)

lemma other_fields_keep_durations [simp]:
  "durations_ok (I\<lparr>ib_detail_scroll := n\<rparr>) = durations_ok I" "durations_ok (I\<lparr>ib_filtering := b\<rparr>) = durations_ok I"
  "durations_ok (I\<lparr>ib_busy := b\<rparr>) = durations_ok I" "durations_ok (I\<lparr>ib_message := m\<rparr>) = durations_ok I"
  "durations_ok (I\<lparr>ib_grants := b\<rparr>) = durations_ok I" "durations_ok I \<Longrightarrow> durations_ok (I\<lparr>ib_detail := None\<rparr>)"
  by (simp_all add: durations_ok_def)

lemma draw_effect_ok:
  assumes "durations_ok I" "selection_ok I"
  shows "durations_ok (draw_effect rows visible offset I) \<and> selection_ok (draw_effect rows visible offset I)"
proof -
  have "selection_ok (change_scope (\<lambda>s. s\<lparr>sc_offset := offset\<rparr>) J) = selection_ok J" for J
    by (simp add: selection_ok_def)
  with assms show ?thesis by (auto simp: draw_effect_def reconcile_selects)
qed

lemma filter_key_ok:
  "durations_ok I \<Longrightarrow> selection_ok I \<Longrightarrow> durations_ok (filter_key k I) \<and> selection_ok (filter_key k I)"
  by (auto simp: filter_key_def change_filter_def reconcile_selects split: KeyCode.splits)

lemma handle_key_ok:
  assumes "handle_key sent k I = Go J d" "durations_ok I" "selection_ok I"
  shows "durations_ok J \<and> selection_ok J"
proof -
  have opened: "durations_ok (open_detail I) \<and> selection_ok (open_detail I)"
    using assms(2,3) selected_offered [of I] by (auto simp: open_detail_def durations_ok_def)
  have turned: "durations_ok (horizontal b I) \<and> selection_ok (horizontal b I)" for b
    using assms(2,3) by (auto simp: horizontal_def reconcile_selects)
  have decided: "durations_ok J \<and> selection_ok J" if "decide_key sent c I = Go J d" for c
    using that assms(2,3) by (auto simp: decide_key_def split: sum.splits SendResult.splits)
  have "durations_ok J \<and> selection_ok J" if "plain_key sent code I = Go J d" for code
    using that assms(2,3) opened turned navigate_ok [OF assms(2,3)] choose_duration_ok [OF assms(2,3)] decided
    by (auto simp: plain_key_def reconcile_selects split: KeyCode.splits if_splits)
  then show ?thesis using assms filter_key_ok [OF assms(2,3)]
    by (auto simp: handle_key_def escape_def split: if_splits bool.splits)
qed

text \<open>Which fields the keys leave alone, and when a key sends a decision.\<close>

lemma filter_key_keeps:
  "ib_connected (filter_key k I) = ib_connected I \<and> ib_completed (filter_key k I) = ib_completed I \<and>
   ib_busy (filter_key k I) = ib_busy I"
  by (simp add: filter_key_def change_filter_def split: KeyCode.splits)

lemma key_keeps:
  "ib_connected (navigate b I) = ib_connected I" "ib_completed (navigate b I) = ib_completed I" "ib_busy (navigate b I) = ib_busy I"
  "ib_connected (horizontal b I) = ib_connected I" "ib_completed (horizontal b I) = ib_completed I" "ib_busy (horizontal b I) = ib_busy I"
  "ib_connected (choose_duration c I) = ib_connected I" "ib_completed (choose_duration c I) = ib_completed I"
  "ib_busy (choose_duration c I) = ib_busy I" "ib_connected (open_detail I) = ib_connected I"
  "ib_completed (open_detail I) = ib_completed I" "ib_busy (open_detail I) = ib_busy I"
  by (auto simp: navigate_def horizontal_def choose_duration_def open_detail_def Let_def split: option.splits Detail.splits)

lemma plain_key_shape:
  assumes "plain_key sent code I = Go J d" and "\<And>c. code = KChar c \<Longrightarrow> c \<notin> {CHR ''a'', CHR ''d'', CHR ''r''}"
  shows "d = None \<and> (J = I \<or> J = reconcile (I\<lparr>ib_grants := \<not> ib_grants I\<rparr>) \<or> (\<exists>b. J = horizontal b I \<or> J = navigate b I) \<or>
    J = open_detail I \<or> J = I\<lparr>ib_filtering := True\<rparr> \<or> (\<exists>c. J = choose_duration c I))"
proof (cases code)
  case (KChar c)
  have "c \<notin> {CHR ''a'', CHR ''d'', CHR ''r''}" using assms(2) KChar .
  from assms(1) [unfolded KChar plain_key_def KeyCode.case if_not_P [OF this]] show ?thesis
    by (cases "c = CHR ''q''"; cases "c = CHR ''/''"; cases "c = CHR ''j''"; cases "c = CHR ''k''";
        cases "c \<in> {CHR ''1'', CHR ''2'', CHR ''3''}"; cases "ib_detail I = None"; simp only: if_True if_False Reaction.simps simp_thms; blast)
qed (use assms(1) in \<open>auto simp: plain_key_def split: if_splits\<close>)

lemma handle_key_cases:
  assumes "handle_key sent k I = Go J d"
  obtains (kept) "d = None" "ib_connected J = ib_connected I" "ib_completed J = ib_completed I" "ib_busy J = ib_busy I"
  | (sends) c x where "d = Some x" "kp_code k = KChar c" "\<not> ib_filtering I" "decision c I = Inr x" "sent = SendOk" "ib_busy J"
      "ib_connected J = ib_connected I" "ib_completed J = ib_completed I"
proof -
  let ?kept = "d = None \<and> ib_connected J = ib_connected I \<and> ib_completed J = ib_completed I \<and> ib_busy J = ib_busy I"
  let ?sends = "\<lambda>c x. d = Some x \<and> kp_code k = KChar c \<and> \<not> ib_filtering I \<and> decision c I = Inr x \<and> sent = SendOk \<and> ib_busy J \<and>
      ib_connected J = ib_connected I \<and> ib_completed J = ib_completed I"
  have decide: "?kept \<or> ?sends c (the d)" if "decide_key sent c I = Go J d" "kp_code k = KChar c" "\<not> ib_filtering I" for c
    using that by (auto simp: decide_key_def split: sum.splits SendResult.splits)
  have plain: "?kept \<or> (\<exists>c. ?sends c (the d))" if run: "plain_key sent (kp_code k) I = Go J d" and "\<not> ib_filtering I"
  proof (cases "\<exists>c. kp_code k = KChar c \<and> plain_key sent (KChar c) I = decide_key sent c I")
    case True
    then show ?thesis using decide that by metis
  next
    case False
    then have "\<And>c. kp_code k = KChar c \<Longrightarrow> c \<notin> {CHR ''a'', CHR ''d'', CHR ''r''}" by (auto simp: plain_key_def)
    with plain_key_shape [OF run] have ?kept by (auto simp: key_keeps split: if_splits)
    then show ?thesis ..
  qed
  have "?kept \<or> (\<exists>c. ?sends c (the d))"
  proof (cases "\<not> kp_press k \<or> kp_code k = KEsc \<or> ib_filtering I")
    case True
    then have ?kept using assms filter_key_keeps [of k I]
      by (auto simp: handle_key_def escape_def split: if_splits bool.splits)
    then show ?thesis ..
  next
    case False
    then have "plain_key sent (kp_code k) I = Go J d" using assms by (simp add: handle_key_def split: if_splits)
    with False plain show ?thesis by blast
  qed
  then show thesis using kept sends by metis
qed

section \<open>The inbox and the network task together\<close>

datatype net_phase = Polling | Waiting | Deciding Decision

text \<open>
  \<open>rv_channel\<close> is the watch channel, \<open>rv_changed\<close> whether the inbox has not taken its value yet.  The
  last fields record history: how many decisions were sent, how many had been finished when the network task,
  the channel and the inbox got what they hold, and when the snapshot in it was fetched.
\<close>

record Review =
  rv_inbox :: Inbox
  rv_net :: Network
  rv_phase :: net_phase
  rv_channel :: Update
  rv_changed :: bool
  rv_queue :: "Decision option"
  rv_sent :: nat
  rv_finished :: nat
  rv_fetched :: nat
  rv_chan_finished :: nat
  rv_chan_fetched :: nat
  rv_ui_finished :: nat
  rv_ui_fetched :: nat

definition Review_new :: Review where
  "Review_new =
     \<lparr>rv_inbox = Inbox_new, rv_net = Network_new, rv_phase = Polling, rv_channel = Update_default, rv_changed = False,
      rv_queue = None, rv_sent = 0, rv_finished = 0, rv_fetched = 0, rv_chan_finished = 0, rv_chan_fetched = 0,
      rv_ui_finished = 0, rv_ui_fetched = 0\<rparr>"

definition publish_update :: "Review \<Rightarrow> Review" where
  "publish_update R =
     R\<lparr>rv_channel := nw_state (rv_net R), rv_changed := True, rv_chan_finished := rv_finished R, rv_chan_fetched := rv_fetched R\<rparr>"

definition net_round :: "bool \<Rightarrow> Refresh \<Rightarrow> Review \<Rightarrow> Review" where
  "net_round subscribed answer R =
     (let N = refresh subscribed answer (rv_net R) in
      publish_update (R\<lparr>rv_net := N, rv_phase := Waiting,
        rv_fetched := if up_connected (nw_state N) then rv_finished R else rv_fetched R\<rparr>))"

definition net_finish :: "Answer \<Rightarrow> Decision \<Rightarrow> Review \<Rightarrow> Review" where
  "net_finish answer d R =
     R\<lparr>rv_net := decided answer d (rv_net R), rv_phase := Polling, rv_finished := Suc (rv_finished R)\<rparr>"

definition net_lost :: "Review \<Rightarrow> Review" where
  "net_lost R = publish_update (R\<lparr>rv_net := events_lost (rv_net R), rv_phase := Polling\<rparr>)"

definition ui_update :: "Review \<Rightarrow> Review" where
  "ui_update R =
     R\<lparr>rv_inbox := inbox_update (rv_channel R) (rv_inbox R), rv_changed := False,
       rv_ui_finished := rv_chan_finished R, rv_ui_fetched := rv_chan_fetched R\<rparr>"

definition ui_key :: "Inbox \<Rightarrow> Decision option \<Rightarrow> Review \<Rightarrow> Review" where
  "ui_key I d R =
     (let R = R\<lparr>rv_inbox := I\<rparr> in
      case d of None \<Rightarrow> R | Some _ \<Rightarrow> R\<lparr>rv_queue := d, rv_sent := Suc (rv_sent R)\<rparr>)"

definition queue_answer :: "Review \<Rightarrow> SendResult" where
  "queue_answer R = (if rv_queue R = None then SendOk else SendFull)"

inductive review_step :: "Review \<Rightarrow> Review \<Rightarrow> bool" where
  round: "rv_phase R = Polling \<Longrightarrow> review_step R (net_round subscribed answer R)"
| take_decision: "rv_phase R = Waiting \<Longrightarrow> rv_queue R = Some d \<Longrightarrow> review_step R (R\<lparr>rv_queue := None, rv_phase := Deciding d\<rparr>)"
| finish: "rv_phase R = Deciding d \<Longrightarrow> review_step R (net_finish answer d R)"
| event: "rv_phase R = Waiting \<Longrightarrow> review_step R (R\<lparr>rv_phase := Polling\<rparr>)"
| lost: "rv_phase R = Waiting \<Longrightarrow> review_step R (net_lost R)"
| update: "rv_changed R \<Longrightarrow> review_step R (ui_update R)"
| key: "handle_key (queue_answer R) k (rv_inbox R) = Go I d \<Longrightarrow> review_step R (ui_key I d R)"
| draw: "review_step R (R\<lparr>rv_inbox := draw_effect rows visible offset (rv_inbox R)\<rparr>)"

inductive_cases review_stepE: "review_step R S"

abbreviation review_run :: "Review \<Rightarrow> bool" where
  "review_run R \<equiv> review_step\<^sup>*\<^sup>* Review_new R"

text \<open>
  Decisions are in the queue, with the network task, or finished; the inbox is busy exactly while it
  has not seen the end of the last one; and whoever is connected has a snapshot from after the
  last decision it knows to be finished.
\<close>

definition counts_ok :: "Review \<Rightarrow> bool" where
  "counts_ok R \<longleftrightarrow>
     rv_sent R = rv_finished R + (if rv_queue R = None then 0 else 1) + (case rv_phase R of Deciding _ \<Rightarrow> 1 | _ \<Rightarrow> 0) \<and>
     rv_ui_finished R \<le> rv_chan_finished R \<and> rv_chan_finished R \<le> rv_finished R \<and>
     rv_sent R = rv_ui_finished R + (if ib_busy (rv_inbox R) then 1 else 0)"

definition stamps_ok :: "Review \<Rightarrow> bool" where
  "stamps_ok R \<longleftrightarrow>
     up_completed (nw_state (rv_net R)) = of_nat (rv_finished R) \<and>
     up_completed (rv_channel R) = of_nat (rv_chan_finished R) \<and>
     ib_completed (rv_inbox R) = of_nat (rv_ui_finished R) \<and>
     (up_connected (rv_channel R) \<longrightarrow> rv_chan_fetched R = rv_chan_finished R) \<and>
     (ib_connected (rv_inbox R) \<longrightarrow> rv_ui_fetched R = rv_ui_finished R)"

definition review_ok :: "Review \<Rightarrow> bool" where
  "review_ok R \<longleftrightarrow> counts_ok R \<and> stamps_ok R \<and> durations_ok (rv_inbox R) \<and> selection_ok (rv_inbox R)"

lemma refresh_completed [simp]: "up_completed (nw_state (refresh subscribed answer N)) = up_completed (nw_state N)"
  by (simp add: refresh_def Let_def split: Refresh.splits)

lemma events_lost_simps [simp]:
  "up_completed (nw_state (events_lost N)) = up_completed (nw_state N)" "\<not> up_connected (nw_state (events_lost N))"
  by (simp_all add: events_lost_def)

lemma inbox_update_simps [simp]:
  "ib_connected (inbox_update u I) = up_connected u" "ib_completed (inbox_update u I) = up_completed u"
  "ib_busy (inbox_update u I) = (ib_busy I \<and> up_completed u = ib_completed I)"
  by (auto simp: inbox_update_def Let_def split: option.splits)

lemma draw_effect_simps [simp]:
  "ib_connected (draw_effect r v n I) = ib_connected I" "ib_completed (draw_effect r v n I) = ib_completed I"
  "ib_busy (draw_effect r v n I) = ib_busy I"
  by (simp_all add: draw_effect_def)

lemma busy_counts:
  assumes "counts_ok R"
  shows "rv_chan_finished R = rv_ui_finished R \<or> ib_busy (rv_inbox R) \<and> rv_chan_finished R = Suc (rv_ui_finished R)"
    and "\<not> ib_busy (rv_inbox R) \<Longrightarrow> rv_queue R = None \<and> (\<forall>d. rv_phase R \<noteq> Deciding d) \<and>
      rv_finished R = rv_sent R \<and> rv_ui_finished R = rv_sent R"
    and "rv_queue R = None \<or> (\<forall>d. rv_phase R \<noteq> Deciding d)"
  using assms by (auto simp: counts_ok_def split: if_splits net_phase.splits)

lemma of_nat_Suc_neq: "(of_nat (Suc n) :: u64) \<noteq> of_nat n"
  by simp

lemma review_ok_new: "review_ok Review_new"
  by (simp add: review_ok_def counts_ok_def stamps_ok_def durations_ok_def selection_ok_def Review_new_def Inbox_new_def
      Network_new_def Update_default_def entries_def scope_of_def Let_def)

lemma ui_update_ok:
  assumes "review_ok R"
  shows "review_ok (ui_update R)"
proof -
  have c: "counts_ok R" and s: "stamps_ok R" and d: "durations_ok (rv_inbox R)" using assms by (simp_all add: review_ok_def)
  have "(of_nat (rv_chan_finished R) = (of_nat (rv_ui_finished R) :: u64)) = (rv_chan_finished R = rv_ui_finished R)"
    using busy_counts(1) [OF c] of_nat_Suc_neq by auto
  then have busy: "ib_busy (rv_inbox (ui_update R)) = (ib_busy (rv_inbox R) \<and> rv_chan_finished R = rv_ui_finished R)"
    using s by (simp add: ui_update_def stamps_ok_def)
  have same: "rv_sent (ui_update R) = rv_sent R" "rv_finished (ui_update R) = rv_finished R" "rv_queue (ui_update R) = rv_queue R"
    "rv_phase (ui_update R) = rv_phase R" "rv_chan_finished (ui_update R) = rv_chan_finished R"
    "rv_ui_finished (ui_update R) = rv_chan_finished R" by (simp_all add: ui_update_def)
  have "counts_ok (ui_update R)" using busy_counts(1) [OF c]
  proof
    assume "rv_chan_finished R = rv_ui_finished R"
    then show ?thesis using c by (simp add: counts_ok_def same busy)
  next
    assume "ib_busy (rv_inbox R) \<and> rv_chan_finished R = Suc (rv_ui_finished R)"
    then show ?thesis using c by (simp add: counts_ok_def same busy)
  qed
  moreover have "stamps_ok (ui_update R)" using s by (simp add: stamps_ok_def ui_update_def)
  ultimately show ?thesis using update_inbox_ok [OF d] by (simp add: review_ok_def ui_update_def)
qed

lemma ui_key_ok:
  assumes "review_ok R" and "handle_key (queue_answer R) k (rv_inbox R) = Go I d"
  shows "review_ok (ui_key I d R)"
proof -
  have c: "counts_ok R" and s: "stamps_ok R" and ok: "durations_ok (rv_inbox R)" "selection_ok (rv_inbox R)"
    using assms(1) by (simp_all add: review_ok_def)
  from assms(2) have "counts_ok (ui_key I d R) \<and> stamps_ok (ui_key I d R)"
  proof (cases rule: handle_key_cases)
    case kept
    then show ?thesis using c s by (simp add: ui_key_def counts_ok_def stamps_ok_def)
  next
    case (sends x y)
    then have "\<not> ib_busy (rv_inbox R)" by (simp add: decision_def split: if_splits)
    with busy_counts(2) [OF c] sends show ?thesis using c s
      by (auto simp: ui_key_def counts_ok_def stamps_ok_def split: net_phase.splits)
  qed
  with handle_key_ok [OF assms(2) ok] show ?thesis
    by (simp add: review_ok_def ui_key_def Let_def split: option.splits)
qed

lemma review_step_ok:
  assumes "review_step R S" and "review_ok R"
  shows "review_ok S"
  using assms
proof cases
  case (key k I d)
  then show ?thesis using ui_key_ok assms(2) by simp
next
  case update
  then show ?thesis using ui_update_ok assms(2) by simp
next
  case (draw rows visible offset)
  then show ?thesis using assms(2) draw_effect_ok by (simp add: review_ok_def counts_ok_def stamps_ok_def)
qed (use assms(2) in \<open>auto simp: review_ok_def counts_ok_def stamps_ok_def net_round_def net_finish_def net_lost_def
      publish_update_def decided_def Let_def\<close>)

lemma review_run_ok: "review_run R \<Longrightarrow> review_ok R"
  by (induction rule: rtranclp_induct) (auto intro: review_ok_new review_step_ok)

lemma decision_Inr:
  assumes "decision key I = Inr d"
  shows "ib_connected I \<and> \<not> ib_busy I \<and>
    (case d of
       DecApprove r duration \<Rightarrow> key = CHR ''a'' \<and> active_detail I = Some (DetailRequest r duration) \<and>
         r \<in> set (sn_requests (ib_snapshot I)) \<and> prr_status r = ''pending'' \<and>
         \<not> pd_agent_revoked (prr_description r) \<and> pd_surface_available (prr_description r) \<noteq> Some False
     | DecDeny r \<Rightarrow> r \<in> set (sn_requests (ib_snapshot I)) \<and> prr_status r = ''pending''
     | DecRevoke i \<Rightarrow> \<exists>g \<in> set (sn_grants (ib_snapshot I)). gresp_grant_id g = i)"
  using assms by (auto simp: decision_def actionable_def list_ex_iff split: if_splits option.splits Detail.splits)

text \<open>
  C17: The operator decides on what is pending now, one decision at a time.  Whatever keys are pressed, and
  however answers, timeouts, lost connections and updates interleave: when the inbox lets a decision go, every
  earlier one has been finished, the queue is free, and the snapshot it is taken from was fetched after
  that.  The entry is in this snapshot; a request is pending; an approval is of a request whose agent is not
  revoked and whose window is not gone, for a duration that applies to its target.
\<close>

theorem operator_decides_on_fresh_entries:
  assumes "review_run R" and "decision key (rv_inbox R) = Inr d"
  shows "rv_finished R = rv_sent R \<and> rv_ui_fetched R = rv_sent R \<and> queue_answer R = SendOk \<and> (\<forall>e. rv_phase R \<noteq> Deciding e) \<and>
    (case d of
       DecApprove r duration \<Rightarrow> r \<in> set (sn_requests (ib_snapshot (rv_inbox R))) \<and> prr_status r = ''pending'' \<and>
         \<not> pd_agent_revoked (prr_description r) \<and> pd_surface_available (prr_description r) \<noteq> Some False \<and>
         offered (prr_target r) duration
     | DecDeny r \<Rightarrow> r \<in> set (sn_requests (ib_snapshot (rv_inbox R))) \<and> prr_status r = ''pending''
     | DecRevoke i \<Rightarrow> \<exists>g \<in> set (sn_grants (ib_snapshot (rv_inbox R))). gresp_grant_id g = i)"
proof -
  have ok: "counts_ok R" "stamps_ok R" "durations_ok (rv_inbox R)" using review_run_ok [OF assms(1)] by (simp_all add: review_ok_def)
  note d = decision_Inr [OF assms(2)]
  then have idle: "\<not> ib_busy (rv_inbox R)" "ib_connected (rv_inbox R)" by simp_all
  with busy_counts(2) [OF ok(1)] ok(2) have "rv_finished R = rv_sent R \<and> rv_ui_fetched R = rv_sent R \<and> queue_answer R = SendOk \<and>
      (\<forall>e. rv_phase R \<noteq> Deciding e)" by (simp add: stamps_ok_def queue_answer_def)
  moreover have "offered (prr_target r) duration" if "d = DecApprove r duration" for r duration
    using d that active_offered [OF _ ok(3)] by fastforce
  ultimately show ?thesis using d by (auto split: Decision.splits)
qed

lemma selected_detail_request:
  "selected_detail I = Some (DetailRequest r d) \<Longrightarrow> sc_selected (scope_of I) = Some (prr_request_id r)"
  by (auto simp: selected_detail_def Let_def dest: find_Some_in split: if_splits)

lemma reviewed_approval:
  assumes "review_run R" and "handle_key (queue_answer R) k (rv_inbox R) = Go I (Some (DecApprove r duration))"
    and "decision_call (DecApprove r duration) = CallApprove qid body"
    and "post_approve_request D qid body (n, A) = (Inr resp, (n', A'))"
    and "store_interference D" and "store_run (libs_of D) init_schema (app_store A)"
  shows "context_line (rv_inbox R) = ''APPROVE FOR: '' @ display_duration duration @
      (if sc_filter (scope_of (rv_inbox R)) = [] then [] else '' | Filter: '' @ sc_filter (scope_of (rv_inbox R)))"
    and "case ib_detail (rv_inbox R) of Some detail \<Rightarrow> detail = DetailRequest r duration
      | None \<Rightarrow> sc_selected (scope_of (rv_inbox R)) = Some (prr_request_id r) \<and>
          list_ex (\<lambda>row. row_id row = prr_request_id r) (entries (rv_inbox R))"
    and "gresp_target resp = prr_target r \<and> set (gresp_actions resp) = set (prr_actions r) \<and>
      gresp_duration resp = duration \<and> gresp_constraints resp = AgentPermissionConstraints_default \<and>
      gresp_origin_request_id resp = Some (prr_request_id r)"
proof -
  let ?I = "rv_inbox R"
  from assms(2) have sent: "decision (CHR ''a'') ?I = Inr (DecApprove r duration) \<and> \<not> ib_filtering ?I"
  proof (cases rule: handle_key_cases)
    case (sends c x)
    from sends(1) have x: "x = DecApprove r duration" by simp
    have "c = CHR ''a''" using decision_Inr [OF sends(4)] unfolding x by simp
    then show ?thesis using sends(3,4) unfolding x by blast
  qed simp
  have d: "active_detail ?I = Some (DetailRequest r duration)"
    using decision_Inr [OF sent [THEN conjunct1]] by simp
  show "context_line ?I = ''APPROVE FOR: '' @ display_duration duration @
      (if sc_filter (scope_of ?I) = [] then [] else '' | Filter: '' @ sc_filter (scope_of ?I))"
    unfolding context_line_def d using sent by (simp only: option.case Detail.case sum.case if_False simp_thms)
  have "selection_ok ?I" using review_run_ok [OF assms(1)] by (simp add: review_ok_def)
  then show "case ib_detail ?I of Some detail \<Rightarrow> detail = DetailRequest r duration
      | None \<Rightarrow> sc_selected (scope_of ?I) = Some (prr_request_id r) \<and>
          list_ex (\<lambda>row. row_id row = prr_request_id r) (entries ?I)"
  proof (cases "ib_detail ?I")
    case None
    then have "selected_detail ?I = Some (DetailRequest r duration)" using d by (simp add: active_detail_def)
    then have "sc_selected (scope_of ?I) = Some (prr_request_id r)" by (rule selected_detail_request)
    with \<open>selection_ok ?I\<close> None show ?thesis by (simp add: selection_ok_def)
  next
    case (Some x)
    then show ?thesis using d by (simp add: active_detail_def)
  qed
  show "gresp_target resp = prr_target r \<and> set (gresp_actions resp) = set (prr_actions r) \<and>
      gresp_duration resp = duration \<and> gresp_constraints resp = AgentPermissionConstraints_default \<and>
      gresp_origin_request_id resp = Some (prr_request_id r)"
    using approved_grant [OF assms(4-6)] assms(3) unfolding decision_call.simps OperatorCall.inject
    by (elim conjE) (drule sym [of _ body], simp)
qed

text \<open>
  C16: What the operator approves is what the screen shows, and it is what the daemon grants.  When the key
  \<open>a\<close> sends an approval, the line above the list says for which duration, and the request is the open one or
  the selected row of the list.  If the daemon, after whatever else it did meanwhile, answers the approval
  with a grant, that grant has the target and actions of this request and the duration of that line, has no
  constraints, and stems from this request.
\<close>

theorem reviewed_approval_grants_what_was_shown:
  assumes "review_run R" and "handle_key (queue_answer R) k (rv_inbox R) = Go I (Some (DecApprove r duration))"
    and "decision_call (DecApprove r duration) = CallApprove qid body"
    and "post_approve_request D qid body (n, A) = (Inr resp, (n', A'))"
    and "store_interference D" and "store_run (libs_of D) init_schema (app_store A)"
  shows "context_line (rv_inbox R) = ''APPROVE FOR: '' @ display_duration duration @
      (if sc_filter (scope_of (rv_inbox R)) = [] then [] else '' | Filter: '' @ sc_filter (scope_of (rv_inbox R))) \<and>
    (case ib_detail (rv_inbox R) of Some detail \<Rightarrow> detail = DetailRequest r duration
      | None \<Rightarrow> sc_selected (scope_of (rv_inbox R)) = Some (prr_request_id r) \<and>
          list_ex (\<lambda>row. row_id row = prr_request_id r) (entries (rv_inbox R))) \<and>
    gresp_target resp = prr_target r \<and> set (gresp_actions resp) = set (prr_actions r) \<and>
    gresp_duration resp = duration \<and> gresp_constraints resp = AgentPermissionConstraints_default \<and>
    gresp_origin_request_id resp = Some (prr_request_id r)"
  using reviewed_approval [OF assms] by (intro conjI) simp_all

section \<open>An example\<close>

text \<open>The first snapshot lists one request; the operator presses \<open>a\<close>.\<close>

definition example_listed :: AgentPermissionRequestResponse where
  "example_listed =
     \<lparr>prr_description = \<lparr>pd_agent_name = Some ''bot'', pd_agent_revoked = False, pd_surface = None,
        pd_surface_available = Some True, pd_operation = None\<rparr>,
      prr_request_id = ''apr_q0'', prr_agent_id = ''agent_c0'', prr_target = WSurface ''surf_1'',
      prr_actions = [Observe, Drive], prr_reason = None, prr_status = ''pending'', prr_invalidation_reason = None,
      prr_created_at = 0, prr_resolved_at = None\<rparr>"

definition example_review :: Review where
  "example_review = ui_update (net_round True (Refreshed \<lparr>sn_requests = [example_listed], sn_grants = []\<rparr>) Review_new)"

definition press :: "char \<Rightarrow> KeyPress" where
  "press c = \<lparr>kp_code = KChar c, kp_control = False, kp_press = True\<rparr>"

lemma example_review_run: "review_run example_review"
proof -
  let ?R = "net_round True (Refreshed \<lparr>sn_requests = [example_listed], sn_grants = []\<rparr>) Review_new"
  have "review_step Review_new ?R" by (rule review_step.round) (simp add: Review_new_def)
  moreover have "review_step ?R example_review" unfolding example_review_def
    by (rule review_step.update) (simp add: net_round_def publish_update_def Let_def)
  ultimately show ?thesis by (meson converse_rtranclp_into_rtranclp rtranclp.rtrancl_refl)
qed

lemma contains_Nil [simp]: "contains s []"
  by (cases s) simp_all

lemma example_inbox:
  "ib_snapshot (rv_inbox example_review) = \<lparr>sn_requests = [example_listed], sn_grants = []\<rparr>"
  "active_detail (rv_inbox example_review) = Some (DetailRequest example_listed WUntilSurfaceGone)"
  "ib_connected (rv_inbox example_review)" "\<not> ib_busy (rv_inbox example_review)" "\<not> ib_filtering (rv_inbox example_review)"
  "queue_answer example_review = SendOk"
  by (simp_all add: example_review_def ui_update_def net_round_def publish_update_def Review_new_def Inbox_new_def
      Network_new_def Update_default_def refresh_def inbox_update_def reconcile_def first_id_def entries_def scope_of_def
      change_scope_def request_entry_def active_detail_def selected_detail_def queue_answer_def Let_def to_lowercase_def
      example_listed_def)

lemma example_decision: "decision (CHR ''a'') (rv_inbox example_review) = Inr (DecApprove example_listed WUntilSurfaceGone)"
  by (simp add: decision_def actionable_def example_inbox) (simp add: example_listed_def)

theorem operator_decides_on_fresh_entries_witness:
  "rv_finished example_review = rv_sent example_review \<and> offered (WSurface ''surf_1'') WUntilSurfaceGone"
  using operator_decides_on_fresh_entries [OF example_review_run example_decision] by (simp add: example_listed_def)

lemma example_press: "\<exists>I. handle_key (queue_answer example_review) (press (CHR ''a'')) (rv_inbox example_review) =
    Go I (Some (DecApprove example_listed WUntilSurfaceGone))"
  by (simp add: handle_key_def press_def example_inbox plain_key_def decide_key_def example_decision)

theorem reviewed_approval_grants_what_was_shown_witness:
  "context_line (rv_inbox example_review) = ''APPROVE FOR: until this window closes'' \<and>
   (\<exists>resp qid body s. post_approve_request calm_surroundings qid body (0, inbox_app) = (Inr resp, s) \<and>
     gresp_target resp = WSurface ''surf_1'' \<and> gresp_duration resp = WUntilSurfaceGone)"
proof -
  obtain I where key: "handle_key (queue_answer example_review) (press (CHR ''a'')) (rv_inbox example_review) =
      Go I (Some (DecApprove example_listed WUntilSurfaceGone))" using example_press by blast
  obtain qid body where call: "decision_call (DecApprove example_listed WUntilSurfaceGone) = CallApprove qid body" by simp
  then obtain resp n' A' where run: "post_approve_request calm_surroundings qid body (0, inbox_app) = (Inr resp, (n', A'))"
    by (auto simp: example_listed_def route_eval constraints_from_wire_def AgentPermissionConstraints_default_def)
  have start: "store_run (libs_of calm_surroundings) init_schema (app_store inbox_app)"
    using example_run(2) by (simp add: calm_surroundings_def inbox_app_def)
  note facts = reviewed_approval_grants_what_was_shown [OF example_review_run key call run calm_interference start]
  have "sc_filter (scope_of (rv_inbox example_review)) = []"
    by (simp add: example_review_def ui_update_def net_round_def publish_update_def Review_new_def Inbox_new_def
      inbox_update_def reconcile_def scope_of_def change_scope_def Let_def split: option.splits)
  then have "context_line (rv_inbox example_review) = ''APPROVE FOR: until this window closes''" using facts by simp
  moreover have "gresp_target resp = WSurface ''surf_1'' \<and> gresp_duration resp = WUntilSurfaceGone"
    using facts by (simp add: example_listed_def)
  ultimately show ?thesis using run by blast
qed

end
