(* ===== verification/Bridge_Wire.thy ===== *)
theory Bridge_Wire
  imports Prelude
begin

text \<open>
  The framing of the bridge link (\<open>jackstay-bridge/src/wire.rs\<close>): a 32-byte little-endian header
  and a body, frame bodies with their 144-byte descriptor and op list, and the clock messages.
  A reader is the list of pieces in which the transport delivers the bytes, each of them a
  non-empty run of bytes or an I/O error; \<open>read\<close> hands out at most one piece, as a socket does.
  The \<open>expect\<close> panics of the encoders are \<open>None\<close>.  \<open>FrameDescriptor\<close> and \<open>ClockDomain\<close> come from
  the transport crate: the descriptor has the fields that \<open>decode_descriptor\<close> fills in (its
  \<open>reserved\<close> field, always zero, is left out), and the number of the host-time domain is the
  parameter \<open>host_time\<close>.
\<close>

section \<open>Little-endian integers\<close>

primrec nat_to_le :: "nat \<Rightarrow> nat \<Rightarrow> u8 list" where
  "nat_to_le 0 k = []"
| "nat_to_le (Suc n) k = of_nat k # nat_to_le n (k div 256)"

primrec nat_from_le :: "u8 list \<Rightarrow> nat" where
  "nat_from_le [] = 0"
| "nat_from_le (b # bs) = unat b + 256 * nat_from_le bs"

definition le16 :: "u16 \<Rightarrow> u8 list" where
  "le16 v = nat_to_le 2 (unat v)"

definition le32 :: "u32 \<Rightarrow> u8 list" where
  "le32 v = nat_to_le 4 (unat v)"

definition le64 :: "u64 \<Rightarrow> u8 list" where
  "le64 v = nat_to_le 8 (unat v)"

definition u16_at :: "u8 list \<Rightarrow> nat \<Rightarrow> u16" where
  "u16_at bs i = of_nat (nat_from_le (take 2 (drop i bs)))"

definition u32_at :: "u8 list \<Rightarrow> nat \<Rightarrow> u32" where
  "u32_at bs i = of_nat (nat_from_le (take 4 (drop i bs)))"

definition u64_at :: "u8 list \<Rightarrow> nat \<Rightarrow> u64" where
  "u64_at bs i = of_nat (nat_from_le (take 8 (drop i bs)))"

section \<open>Messages\<close>

definition VERSION :: u8 where
  "VERSION = 1"

definition HEADER_LEN :: nat where
  "HEADER_LEN = 32"

definition DESCRIPTOR_LEN :: nat where
  "DESCRIPTOR_LEN = 144"

definition MAX_BODY :: nat where
  "MAX_BODY = 64 * 1024 * 1024"

datatype Kind = Hello | Frame | CodecConfig | Target | Release | KeyframeRequest | ClockPingKind | ClockPongKind | Input

fun kind_as_u8 :: "Kind \<Rightarrow> u8" where
  "kind_as_u8 Hello = 0"
| "kind_as_u8 Frame = 1"
| "kind_as_u8 CodecConfig = 2"
| "kind_as_u8 Target = 3"
| "kind_as_u8 Release = 4"
| "kind_as_u8 KeyframeRequest = 5"
| "kind_as_u8 ClockPingKind = 6"
| "kind_as_u8 ClockPongKind = 7"
| "kind_as_u8 Input = 8"

definition kind_from_u8 :: "u8 \<Rightarrow> Kind option" where
  "kind_from_u8 v =
     (if v = 0 then Some Hello else if v = 1 then Some Frame else if v = 2 then Some CodecConfig
      else if v = 3 then Some Target else if v = 4 then Some Release else if v = 5 then Some KeyframeRequest
      else if v = 6 then Some ClockPingKind else if v = 7 then Some ClockPongKind
      else if v = 8 then Some Input else None)"

record Header =
  hdr_kind :: Kind
  hdr_flags :: u16
  hdr_stream_id :: u32
  hdr_seq :: u64
  hdr_timestamp_ns :: u64
  hdr_chunk_index :: u16
  hdr_chunk_count :: u16
  hdr_body_len :: u32

record Message =
  msg_header :: Header
  msg_body :: "u8 list"

datatype WireError =
    BadVersion u8
  | BadKind u8
  | TooLarge u32
  | Truncated string
  | OpKind u8
  | JsonError string
  | IoError string

definition header_encode :: "Header \<Rightarrow> u8 list" where
  "header_encode h =
     [VERSION, kind_as_u8 (hdr_kind h)] @ le16 (hdr_flags h) @ le32 (hdr_stream_id h) @ le64 (hdr_seq h)
     @ le64 (hdr_timestamp_ns h) @ le16 (hdr_chunk_index h) @ le16 (hdr_chunk_count h) @ le32 (hdr_body_len h)"

text \<open>The argument is an array of \<open>HEADER_LEN\<close> bytes.\<close>

definition header_decode :: "u8 list \<Rightarrow> (WireError, Header) result" where
  "header_decode bytes =
     (if bytes ! 0 \<noteq> VERSION then Inl (BadVersion (bytes ! 0))
      else rbind (ok_or (kind_from_u8 (bytes ! 1)) (BadKind (bytes ! 1))) (\<lambda>kind.
        let body_len = u32_at bytes 28 in
        if unat body_len > MAX_BODY then Inl (TooLarge body_len)
        else Inr \<lparr>hdr_kind = kind, hdr_flags = u16_at bytes 2, hdr_stream_id = u32_at bytes 4,
                  hdr_seq = u64_at bytes 8, hdr_timestamp_ns = u64_at bytes 16,
                  hdr_chunk_index = u16_at bytes 24, hdr_chunk_count = u16_at bytes 26,
                  hdr_body_len = body_len\<rparr>))"

definition u32_try_from :: "nat \<Rightarrow> u32 option" where
  "u32_try_from n = (if n < 2 ^ 32 then Some (of_nat n) else None)"

definition Message_new :: "Kind \<Rightarrow> u64 \<Rightarrow> u8 list \<Rightarrow> Message option" where
  "Message_new kind seq body =
     map_option (\<lambda>len. \<lparr>msg_header = \<lparr>hdr_kind = kind, hdr_flags = 0, hdr_stream_id = 0, hdr_seq = seq,
         hdr_timestamp_ns = 0, hdr_chunk_index = 0, hdr_chunk_count = 1, hdr_body_len = len\<rparr>, msg_body = body\<rparr>)
       (u32_try_from (length body))"

text \<open>\<open>write_to\<close> as the bytes it writes; the writer itself may fail between them.\<close>

definition write_to :: "Message \<Rightarrow> (WireError, u8 list) result" where
  "write_to m =
     rbind (ok_or (u32_try_from (length (msg_body m))) (TooLarge 0xFFFFFFFF)) (\<lambda>len.
     Inr (header_encode ((msg_header m)\<lparr>hdr_body_len := len\<rparr>) @ msg_body m))"

section \<open>Reading\<close>

type_synonym Reader = "(string + u8 list) list"

fun reader_read :: "nat \<Rightarrow> Reader \<Rightarrow> (string, u8 list) result \<times> Reader" where
  "reader_read n [] = (Inr [], [])"
| "reader_read n (Inl e # rs) = (Inl e, rs)"
| "reader_read n (Inr bs # rs) =
     (Inr (take n bs), if length bs \<le> n then rs else Inr (drop n bs) # rs)"

text \<open>\<open>read_exact\<close> reads until the buffer is full; a short stream is an error.\<close>

function reader_read_exact :: "nat \<Rightarrow> Reader \<Rightarrow> (string, u8 list) result \<times> Reader" where
  "reader_read_exact n rs =
     (if n = 0 then (Inr [], rs)
      else case reader_read n rs of
        (Inl e, rs') \<Rightarrow> (Inl e, rs')
      | (Inr bs, rs') \<Rightarrow>
          if bs = [] then (Inl ''failed to fill whole buffer'', rs')
          else case reader_read_exact (n - length bs) rs' of
            (Inl e, rs'') \<Rightarrow> (Inl e, rs'')
          | (Inr cs, rs'') \<Rightarrow> (Inr (bs @ cs), rs''))"
  by pat_completeness auto
termination
  by (relation "measure fst") (auto simp: neq_Nil_conv elim!: reader_read.elims split: if_splits)

declare reader_read_exact.simps [simp del]

definition read_from :: "Reader \<Rightarrow> (WireError, Message option) result \<times> Reader" where
  "read_from rs =
     (case reader_read HEADER_LEN rs of
        (Inl e, rs') \<Rightarrow> (Inl (IoError e), rs')
      | (Inr head, rs') \<Rightarrow>
          if head = [] then (Inr None, rs')
          else case (if length head < HEADER_LEN then reader_read_exact (HEADER_LEN - length head) rs' else (Inr [], rs')) of
            (Inl _, rs'') \<Rightarrow> (Inl (Truncated ''header''), rs'')
          | (Inr tail, rs'') \<Rightarrow>
              (case header_decode (head @ tail) of
                 Inl e \<Rightarrow> (Inl e, rs'')
               | Inr header \<Rightarrow>
                   (case reader_read_exact (unat (hdr_body_len header)) rs'' of
                      (Inl _, rs''') \<Rightarrow> (Inl (Truncated ''body''), rs''')
                    | (Inr body, rs''') \<Rightarrow> (Inr (Some \<lparr>msg_header = header, msg_body = body\<rparr>), rs'''))))"

section \<open>Frame bodies\<close>

record FrameDescriptor =
  fd_cursor :: u64
  fd_sequence :: u64
  fd_timestamp_ns :: u64
  fd_config_generation :: u64
  fd_pool_id :: u64
  fd_payload_offset :: u64
  fd_payload_len :: u64
  fd_modifier :: u64
  fd_fence_id :: u64
  fd_fence_value :: u64
  fd_damage_base_sequence :: u64
  fd_producer_drop_count :: u64
  fd_width :: u32
  fd_height :: u32
  fd_stride :: u32
  fd_pixel_format :: u32
  fd_slot_id :: u32
  fd_color_space :: u32
  fd_sync_kind :: u32
  fd_payload_kind :: u32
  fd_damage_kind :: u32
  fd_dropped_before_publish :: u32
  fd_flags :: u32

definition encode_descriptor :: "u32 \<Rightarrow> FrameDescriptor \<Rightarrow> u8 list" where
  "encode_descriptor host_time d =
     concat (map le64 [fd_cursor d, fd_sequence d, fd_timestamp_ns d, fd_config_generation d, fd_pool_id d,
       fd_payload_offset d, fd_payload_len d, fd_modifier d, fd_fence_id d, fd_fence_value d,
       fd_damage_base_sequence d, fd_producer_drop_count d])
     @ concat (map le32 [fd_width d, fd_height d, fd_stride d, fd_pixel_format d, fd_slot_id d, host_time,
       fd_color_space d, fd_sync_kind d, fd_payload_kind d, fd_damage_kind d, fd_dropped_before_publish d, fd_flags d])"

definition decode_descriptor :: "u8 list \<Rightarrow> (WireError, FrameDescriptor) result" where
  "decode_descriptor bytes =
     (if length bytes < DESCRIPTOR_LEN then Inl (Truncated ''descriptor'')
      else Inr \<lparr>fd_cursor = u64_at bytes 0, fd_sequence = u64_at bytes 8, fd_timestamp_ns = u64_at bytes 16,
        fd_config_generation = u64_at bytes 24, fd_pool_id = u64_at bytes 32, fd_payload_offset = u64_at bytes 40,
        fd_payload_len = u64_at bytes 48, fd_modifier = u64_at bytes 56, fd_fence_id = u64_at bytes 64,
        fd_fence_value = u64_at bytes 72, fd_damage_base_sequence = u64_at bytes 80,
        fd_producer_drop_count = u64_at bytes 88, fd_width = u32_at bytes 96, fd_height = u32_at bytes 100,
        fd_stride = u32_at bytes 104, fd_pixel_format = u32_at bytes 108, fd_slot_id = u32_at bytes 112,
        fd_color_space = u32_at bytes 120, fd_sync_kind = u32_at bytes 124, fd_payload_kind = u32_at bytes 128,
        fd_damage_kind = u32_at bytes 132, fd_dropped_before_publish = u32_at bytes 136,
        fd_flags = u32_at bytes 140\<rparr>)"

record Rect32 =
  r32_x :: u32
  r32_y :: u32
  r32_width :: u32
  r32_height :: u32

datatype Op = Video Rect32 u32 u32 "u8 list" \<comment> \<open>\<open>rect\<close>, \<open>stream_id\<close>, \<open>plane_mask\<close>, \<open>access_unit\<close>\<close>

definition OP_VIDEO :: u8 where
  "OP_VIDEO = 1"

record FrameBody =
  fb_descriptor :: FrameDescriptor
  fb_ops :: "Op list"

fun op_encoded_len :: "Op \<Rightarrow> nat" where
  "op_encoded_len (Video _ _ _ access_unit) = 1 + 4 + 16 + 4 + 4 + length access_unit"

fun op_encode :: "Op \<Rightarrow> u8 list option" where
  "op_encode (Video rect stream_id plane_mask access_unit) =
     map_option (\<lambda>len. [OP_VIDEO] @ le32 len
         @ concat (map le32 [r32_x rect, r32_y rect, r32_width rect, r32_height rect, stream_id, plane_mask])
         @ access_unit)
       (u32_try_from (16 + 4 + 4 + length access_unit))"

definition op_decode :: "u8 \<Rightarrow> u8 list \<Rightarrow> (WireError, Op) result" where
  "op_decode kind payload =
     (if kind = OP_VIDEO
      then if length payload < 24 then Inl (Truncated ''video op'')
           else Inr (Video \<lparr>r32_x = u32_at payload 0, r32_y = u32_at payload 4,
                            r32_width = u32_at payload 8, r32_height = u32_at payload 12\<rparr>
                       (u32_at payload 16) (u32_at payload 20) (drop 24 payload))
      else Inl (OpKind kind))"

fun ops_encode :: "Op list \<Rightarrow> u8 list option" where
  "ops_encode [] = Some []"
| "ops_encode (op # ops) =
     (case op_encode op of None \<Rightarrow> None | Some bs \<Rightarrow> map_option (\<lambda>cs. bs @ cs) (ops_encode ops))"

definition frame_encode :: "u32 \<Rightarrow> FrameBody \<Rightarrow> u8 list option" where
  "frame_encode host_time fb =
     (if length (fb_ops fb) < 2 ^ 16
      then map_option (\<lambda>ops. encode_descriptor host_time (fb_descriptor fb) @ le16 (of_nat (length (fb_ops fb))) @ ops)
             (ops_encode (fb_ops fb))
      else None)"

text \<open>\<open>take\<close> of the decoder: the next \<open>n\<close> bytes at the cursor, and the cursor behind them.\<close>

definition take_at :: "u8 list \<Rightarrow> nat \<Rightarrow> nat \<Rightarrow> (WireError, u8 list \<times> nat) result" where
  "take_at bytes at n =
     (if at + n \<le> length bytes then Inr (take n (drop at bytes), at + n) else Inl (Truncated ''op''))"

fun ops_decode :: "u8 list \<Rightarrow> nat \<Rightarrow> nat \<Rightarrow> (WireError, Op list) result" where
  "ops_decode bytes 0 at = Inr []"
| "ops_decode bytes (Suc count) at =
     rbind (take_at bytes at 1) (\<lambda>(k, at1).
     rbind (take_at bytes at1 4) (\<lambda>(l, at2).
     rbind (take_at bytes at2 (nat_from_le l)) (\<lambda>(payload, at3).
     rbind (op_decode (hd k) payload) (\<lambda>op.
     rbind (ops_decode bytes count at3) (\<lambda>ops. Inr (op # ops))))))"

definition frame_decode :: "u8 list \<Rightarrow> (WireError, FrameBody) result" where
  "frame_decode bytes =
     rbind (decode_descriptor bytes) (\<lambda>descriptor.
     rbind (take_at bytes DESCRIPTOR_LEN 2) (\<lambda>(c, at).
     rbind (ops_decode bytes (nat_from_le c) at) (\<lambda>ops.
     Inr \<lparr>fb_descriptor = descriptor, fb_ops = ops\<rparr>)))"

section \<open>Clock messages\<close>

record ClockPing =
  ping_t1 :: u64

record ClockPong =
  pong_t1 :: u64
  pong_t2 :: u64
  pong_t3 :: u64

definition ping_encode :: "ClockPing \<Rightarrow> u8 list" where
  "ping_encode p = le64 (ping_t1 p)"

definition ping_decode :: "u8 list \<Rightarrow> (WireError, ClockPing) result" where
  "ping_decode b = (if length b < 8 then Inl (Truncated ''ping'') else Inr \<lparr>ping_t1 = u64_at b 0\<rparr>)"

definition pong_encode :: "ClockPong \<Rightarrow> u8 list" where
  "pong_encode p = le64 (pong_t1 p) @ le64 (pong_t2 p) @ le64 (pong_t3 p)"

definition pong_decode :: "u8 list \<Rightarrow> (WireError, ClockPong) result" where
  "pong_decode b =
     (if length b < 24 then Inl (Truncated ''pong'')
      else Inr \<lparr>pong_t1 = u64_at b 0, pong_t2 = u64_at b 8, pong_t3 = u64_at b 16\<rparr>)"

section \<open>Round trips of the parts\<close>

lemma length_nat_to_le [simp]: "length (nat_to_le n k) = n"
  by (induction n arbitrary: k) simp_all

lemma nat_from_le_to_le: "nat_from_le (nat_to_le n k) = k mod 256 ^ n"
proof (induction n arbitrary: k)
  case (Suc n)
  have "unat (of_nat k :: u8) = k mod 256" by (simp add: unat_of_nat)
  with Suc show ?case by (simp add: mod_mult2_eq)
qed simp

lemma length_le [simp]: "length (le16 a) = 2" "length (le32 b) = 4" "length (le64 c) = 8"
  by (simp_all add: le16_def le32_def le64_def)

lemma nat_from_le_le:
  "nat_from_le (le16 a) = unat a" "nat_from_le (le32 b) = unat b" "nat_from_le (le64 c) = unat c"
  using unsigned_less [of a, where ?'a = nat] unsigned_less [of b, where ?'a = nat] unsigned_less [of c, where ?'a = nat]
  by (simp_all add: le16_def le32_def le64_def nat_from_le_to_le)

text \<open>Reading an integer past a prefix, and reading it where it stands.\<close>

lemma at_skip:
  "length xs \<le> i \<Longrightarrow> u16_at (xs @ ys) i = u16_at ys (i - length xs)"
  "length xs \<le> i \<Longrightarrow> u32_at (xs @ ys) i = u32_at ys (i - length xs)"
  "length xs \<le> i \<Longrightarrow> u64_at (xs @ ys) i = u64_at ys (i - length xs)"
  by (simp_all add: u16_at_def u32_at_def u64_at_def)

lemma at_cons:
  "0 < i \<Longrightarrow> u16_at (x # ys) i = u16_at ys (i - 1)"
  "0 < i \<Longrightarrow> u32_at (x # ys) i = u32_at ys (i - 1)"
  "0 < i \<Longrightarrow> u64_at (x # ys) i = u64_at ys (i - 1)"
  by (simp_all add: u16_at_def u32_at_def u64_at_def drop_Cons')

lemma at_here [simp]:
  "u16_at (le16 a @ ys) 0 = a" "u32_at (le32 b @ ys) 0 = b" "u64_at (le64 c @ ys) 0 = c"
  "u16_at (le16 a) 0 = a" "u32_at (le32 b) 0 = b" "u64_at (le64 c) 0 = c"
  by (simp_all add: u16_at_def u32_at_def u64_at_def nat_from_le_le)

lemma kind_from_as [simp]: "kind_from_u8 (kind_as_u8 k) = Some k"
  by (cases k) (simp_all add: kind_from_u8_def)

lemma length_header_encode [simp]: "length (header_encode h) = HEADER_LEN"
  by (simp add: header_encode_def HEADER_LEN_def)

lemma header_decode_encode:
  assumes "unat (hdr_body_len h) \<le> MAX_BODY"
  shows "header_decode (header_encode h) = Inr h"
  using assms by (simp add: header_decode_def header_encode_def at_cons at_skip Let_def)

lemma header_decode_bound: "header_decode bs = Inr h \<Longrightarrow> unat (hdr_body_len h) \<le> MAX_BODY"
  by (auto simp: header_decode_def result_simps Let_def split: if_splits)

lemma length_encode_descriptor [simp]: "length (encode_descriptor t d) = DESCRIPTOR_LEN"
  by (simp add: encode_descriptor_def DESCRIPTOR_LEN_def)

lemma decode_encode_descriptor: "decode_descriptor (encode_descriptor t d @ bs) = Inr d"
proof -
  have "\<not> length (encode_descriptor t d @ bs) < DESCRIPTOR_LEN" by simp
  then show ?thesis
    unfolding decode_descriptor_def by (simp add: encode_descriptor_def at_skip)
qed

lemma u32_try_from_Some: "u32_try_from n = Some w \<Longrightarrow> unat w = n"
  by (auto simp: u32_try_from_def unat_of_nat split: if_splits)

lemma op_decode_encode:
  assumes "op_encode op = Some bs"
  obtains len payload where "bs = OP_VIDEO # le32 len @ payload" and "length payload = unat len"
    and "op_decode OP_VIDEO payload = Inr op"
proof (cases op)
  case (Video rect stream_id plane_mask access_unit)
  let ?payload = "concat (map le32 [r32_x rect, r32_y rect, r32_width rect, r32_height rect, stream_id, plane_mask]) @ access_unit"
  from assms Video obtain len where len: "u32_try_from (24 + length access_unit) = Some len"
    and bs: "bs = OP_VIDEO # le32 len @ ?payload" by auto
  have "unat len = 24 + length access_unit" using len by (rule u32_try_from_Some)
  then have "length ?payload = unat len" by simp
  moreover have "op_decode OP_VIDEO ?payload = Inr op"
    by (simp add: op_decode_def Video at_skip)
  ultimately show ?thesis using that bs by blast
qed

lemma take_at_here: "length ys = n \<Longrightarrow> take_at (xs @ ys @ zs) (length xs) n = Inr (ys, length xs + n)"
  by (simp add: take_at_def)

lemma ops_decode_encode:
  assumes "ops_encode ops = Some bs"
  shows "ops_decode (xs @ bs @ ys) (length ops) (length xs) = Inr ops"
  using assms
proof (induction ops arbitrary: xs bs)
  case (Cons op ops)
  then obtain os cs where os: "op_encode op = Some os" and cs: "ops_encode ops = Some cs" and bs: "bs = os @ cs"
    by (auto split: option.splits)
  obtain len payload where p: "os = OP_VIDEO # le32 len @ payload" "length payload = unat len"
    "op_decode OP_VIDEO payload = Inr op" using op_decode_encode [OF os] by blast
  let ?all = "xs @ bs @ ys"
  have k: "take_at ?all (length xs) 1 = Inr ([OP_VIDEO], length xs + 1)"
    using take_at_here [of "[OP_VIDEO]" 1 xs] by (simp add: bs p(1))
  have l: "take_at ?all (length xs + 1) 4 = Inr (le32 len, length xs + 5)"
    using take_at_here [of "le32 len" 4 "xs @ [OP_VIDEO]"] by (simp add: bs p(1))
  have q: "take_at ?all (length xs + 5) (unat len) = Inr (payload, length (xs @ os))"
    using take_at_here [of payload "unat len" "xs @ [OP_VIDEO] @ le32 len"] p by (simp add: bs add.assoc)
  have r: "ops_decode ?all (length ops) (length (xs @ os)) = Inr ops"
    using Cons.IH [OF cs, of "xs @ os"] by (simp add: bs)
  show ?case using k l q r p(3) by (simp add: nat_from_le_le)
qed simp

text \<open>
  C39: A frame body survives the link.  Whatever the encoder produces for a descriptor and any
  number of ops that fits the wire, with any access units, the decoder reads back as the same
  frame body, also when bytes follow it; clock pings and pongs are read back too.
\<close>

theorem frame_body_roundtrip:
  assumes "frame_encode host_time fb = Some bytes"
  shows "frame_decode (bytes @ rest) = Inr fb
    \<and> ping_decode (ping_encode p @ rest) = Inr p
    \<and> pong_decode (pong_encode q @ rest) = Inr q"
proof (intro conjI)
  from assms obtain ops where len: "length (fb_ops fb) < 2 ^ 16" and ops: "ops_encode (fb_ops fb) = Some ops"
    and bytes: "bytes = encode_descriptor host_time (fb_descriptor fb) @ le16 (of_nat (length (fb_ops fb))) @ ops"
    by (auto simp: frame_encode_def split: if_splits)
  let ?d = "encode_descriptor host_time (fb_descriptor fb)" and ?c = "le16 (of_nat (length (fb_ops fb)))"
  have count: "nat_from_le ?c = length (fb_ops fb)" using len by (simp add: nat_from_le_le unat_of_nat)
  have desc: "decode_descriptor (bytes @ rest) = Inr (fb_descriptor fb)"
    using decode_encode_descriptor [of host_time "fb_descriptor fb" "?c @ ops @ rest"] by (simp add: bytes)
  have at: "take_at (bytes @ rest) DESCRIPTOR_LEN 2 = Inr (?c, DESCRIPTOR_LEN + 2)"
    using take_at_here [of ?c 2 ?d "ops @ rest"] by (simp add: bytes)
  have "ops_decode (bytes @ rest) (length (fb_ops fb)) (DESCRIPTOR_LEN + 2) = Inr (fb_ops fb)"
    using ops_decode_encode [OF ops, of "?d @ ?c" rest] by (simp add: bytes)
  with desc at count show "frame_decode (bytes @ rest) = Inr fb" by (simp add: frame_decode_def)
qed (simp_all add: ping_decode_def ping_encode_def pong_decode_def pong_encode_def at_skip)

definition example_descriptor :: FrameDescriptor where
  "example_descriptor = \<lparr>fd_cursor = 1, fd_sequence = 2, fd_timestamp_ns = 3, fd_config_generation = 1, fd_pool_id = 0,
     fd_payload_offset = 0, fd_payload_len = 8, fd_modifier = 0, fd_fence_id = 0, fd_fence_value = 0,
     fd_damage_base_sequence = 1, fd_producer_drop_count = 0, fd_width = 2, fd_height = 1, fd_stride = 8,
     fd_pixel_format = 1, fd_slot_id = 0, fd_color_space = 0, fd_sync_kind = 0, fd_payload_kind = 0,
     fd_damage_kind = 1, fd_dropped_before_publish = 0, fd_flags = 1\<rparr>"

definition example_frame :: FrameBody where
  "example_frame = \<lparr>fb_descriptor = example_descriptor,
     fb_ops = [Video \<lparr>r32_x = 0, r32_y = 0, r32_width = 2, r32_height = 1\<rparr> 7 0 [9, 8, 7]]\<rparr>"

theorem frame_body_roundtrip_witness:
  "\<exists>bytes. frame_encode 3 example_frame = Some bytes \<and> frame_decode (bytes @ [255]) = Inr example_frame"
proof -
  obtain bytes where e: "frame_encode 3 example_frame = Some bytes"
    by (simp add: frame_encode_def example_frame_def u32_try_from_def)
  with frame_body_roundtrip [OF e, of "[255]"] show ?thesis by blast
qed

section \<open>Streams of messages\<close>

text \<open>A reader that delivers these bytes, in any pieces, and then ends.\<close>

fun delivers :: "Reader \<Rightarrow> u8 list \<Rightarrow> bool" where
  "delivers [] bs \<longleftrightarrow> bs = []"
| "delivers (Inl e # rs) bs \<longleftrightarrow> False"
| "delivers (Inr cs # rs) bs \<longleftrightarrow> cs \<noteq> [] \<and> take (length cs) bs = cs \<and> delivers rs (drop (length cs) bs)"

lemma reader_read_delivers:
  assumes "delivers rs bs" and "0 < n"
  obtains m rs' where "reader_read n rs = (Inr (take m bs), rs')" and "m \<le> n" and "m \<le> length bs"
    and "bs \<noteq> [] \<Longrightarrow> 0 < m" and "delivers rs' (drop m bs)"
proof (cases rs)
  case Nil
  with assms that [of 0 "[]"] show ?thesis by simp
next
  case (Cons r rs1)
  with assms obtain cs where r: "r = Inr cs" and cs: "cs \<noteq> []" "take (length cs) bs = cs"
    and rest: "delivers rs1 (drop (length cs) bs)" by (cases r) auto
  have len: "length cs \<le> length bs" using cs(2) by (metis length_take min.cobounded1)
  show ?thesis
  proof (cases "length cs \<le> n")
    case True
    with that [of "length cs" rs1] Cons r cs rest len show ?thesis by simp
  next
    case False
    have "take n cs = take n bs" using cs(2) False by (metis min.absorb1 nle_le take_take)
    moreover have "take (length cs - n) (drop n bs) = drop n cs" using cs(2) False
      by (metis drop_take)
    ultimately show ?thesis
      using that [of n "Inr (drop n cs) # rs1"] Cons r cs(1) rest len False assms(2) by simp
  qed
qed

lemma read_exact_delivers:
  assumes "delivers rs bs"
  shows "n \<le> length bs \<Longrightarrow> \<exists>rs'. reader_read_exact n rs = (Inr (take n bs), rs') \<and> delivers rs' (drop n bs)"
    and "length bs < n \<Longrightarrow> \<exists>e rs'. reader_read_exact n rs = (Inl e, rs')"
  using assms
proof (induction n arbitrary: rs bs rule: less_induct)
  case (less n)
  {
    case 1
    show ?case
    proof (cases "n = 0")
      case True
      with 1 show ?thesis by (subst reader_read_exact.simps) simp
    next
      case False
      obtain m rs1 where rd: "reader_read n rs = (Inr (take m bs), rs1)" "m \<le> n" "m \<le> length bs" "0 < m"
        "delivers rs1 (drop m bs)"
        using reader_read_delivers [OF 1(2), of n] False 1(1) by (metis le_0_eq list.size(3) neq0_conv)
      have "n - m < n" "n - m \<le> length (drop m bs)" using rd 1(1) False by auto
      from less(1) [OF this(1) this(2) rd(5)] obtain rs2 where
        r2: "reader_read_exact (n - m) rs1 = (Inr (take (n - m) (drop m bs)), rs2)" "delivers rs2 (drop (n - m) (drop m bs))"
        by blast
      have "take m bs @ take (n - m) (drop m bs) = take n bs" using rd(2) by (metis le_add_diff_inverse take_add)
      moreover have "take m bs \<noteq> []" using rd(3,4) by auto
      ultimately show ?thesis using rd r2 False by (subst reader_read_exact.simps) (simp add: min_absorb2)
    qed
  next
    case 2
    show ?case
    proof (cases "bs = []")
      case True
      with 2(2) have "rs = []" by (cases rs; cases "hd rs") auto
      with 2(1) show ?thesis by (subst reader_read_exact.simps) simp
    next
      case False
      obtain m rs1 where rd: "reader_read n rs = (Inr (take m bs), rs1)" "m \<le> n" "m \<le> length bs" "0 < m"
        "delivers rs1 (drop m bs)"
        using reader_read_delivers [OF 2(2), of n] False 2(1) by (metis gr_implies_not0 neq0_conv)
      have "n - m < n" "length (drop m bs) < n - m" using rd 2(1) by auto
      from less(2) [OF this(1) this(2) rd(5)] obtain e rs2 where "reader_read_exact (n - m) rs1 = (Inl e, rs2)" by blast
      moreover have "take m bs \<noteq> []" using rd(3,4) by auto
      ultimately show ?thesis using rd 2(1) by (subst reader_read_exact.simps) (simp add: min_absorb2)
    qed
  }
qed

text \<open>The header comes in one read or in several.\<close>

lemma read_from_header:
  assumes "delivers rs bs" and "HEADER_LEN \<le> length bs"
  obtains rs' where "delivers rs' (drop HEADER_LEN bs)"
    and "read_from rs =
      (case header_decode (take HEADER_LEN bs) of
         Inl e \<Rightarrow> (Inl e, rs')
       | Inr header \<Rightarrow>
           (case reader_read_exact (unat (hdr_body_len header)) rs' of
              (Inl _, rs'') \<Rightarrow> (Inl (Truncated ''body''), rs'')
            | (Inr body, rs'') \<Rightarrow> (Inr (Some \<lparr>msg_header = header, msg_body = body\<rparr>), rs'')))"
proof -
  have "bs \<noteq> []" and "0 < HEADER_LEN" using assms(2) by (auto simp: HEADER_LEN_def)
  then obtain m rs1 where rd: "reader_read HEADER_LEN rs = (Inr (take m bs), rs1)" "m \<le> HEADER_LEN" "m \<le> length bs"
    "0 < m" "delivers rs1 (drop m bs)"
    using reader_read_delivers [OF assms(1)] by metis
  have head: "take m bs \<noteq> []" "length (take m bs) = m" using rd(3,4) by auto
  show ?thesis
  proof (cases "m < HEADER_LEN")
    case True
    have "HEADER_LEN - m \<le> length (drop m bs)" using assms(2) by simp
    from read_exact_delivers(1) [OF rd(5) this] obtain rs2 where
      r2: "reader_read_exact (HEADER_LEN - m) rs1 = (Inr (take (HEADER_LEN - m) (drop m bs)), rs2)"
      "delivers rs2 (drop (HEADER_LEN - m) (drop m bs))" by blast
    have "take m bs @ take (HEADER_LEN - m) (drop m bs) = take HEADER_LEN bs"
      using True by (metis le_add_diff_inverse less_imp_le take_add)
    with that [of rs2] r2 rd(1) head True show ?thesis by (simp add: read_from_def)
  next
    case False
    with rd(2) have "m = HEADER_LEN" by simp
    with that [of rs1] rd(1,5) head show ?thesis by (simp add: read_from_def)
  qed
qed

text \<open>A message as \<open>Message::new\<close> and the senders build it: its header states its length.\<close>

definition wire_message :: "Message \<Rightarrow> bool" where
  "wire_message m \<longleftrightarrow> length (msg_body m) \<le> MAX_BODY \<and> hdr_body_len (msg_header m) = of_nat (length (msg_body m))"

definition message_bytes :: "Message \<Rightarrow> u8 list" where
  "message_bytes m = header_encode (msg_header m) @ msg_body m"

lemma wire_message_len:
  assumes "wire_message m"
  shows "unat (hdr_body_len (msg_header m)) = length (msg_body m)"
    and "write_to m = Inr (message_bytes m)"
proof -
  have l: "length (msg_body m) \<le> MAX_BODY" "hdr_body_len (msg_header m) = of_nat (length (msg_body m))"
    using assms by (simp_all add: wire_message_def)
  then show "unat (hdr_body_len (msg_header m)) = length (msg_body m)" by (simp add: MAX_BODY_def unat_of_nat)
  have "(msg_header m)\<lparr>hdr_body_len := of_nat (length (msg_body m))\<rparr> = msg_header m"
    using l(2) by (cases "msg_header m") simp
  with l(1) show "write_to m = Inr (message_bytes m)"
    by (simp add: write_to_def u32_try_from_def message_bytes_def MAX_BODY_def)
qed

lemma read_from_header_encode:
  assumes "delivers rs (header_encode (msg_header m) @ bs)" and "wire_message m"
  obtains rs' where "delivers rs' bs"
    and "read_from rs = (case reader_read_exact (length (msg_body m)) rs' of
              (Inl _, rs'') \<Rightarrow> (Inl (Truncated ''body''), rs'')
            | (Inr body, rs'') \<Rightarrow> (Inr (Some \<lparr>msg_header = msg_header m, msg_body = body\<rparr>), rs''))"
proof -
  have hd: "header_decode (header_encode (msg_header m)) = Inr (msg_header m)"
    using assms(2) wire_message_len(1) [OF assms(2)] by (intro header_decode_encode) (simp add: wire_message_def)
  obtain rs' where "delivers rs' (drop HEADER_LEN (header_encode (msg_header m) @ bs))"
    and "read_from rs =
      (case header_decode (take HEADER_LEN (header_encode (msg_header m) @ bs)) of
         Inl e \<Rightarrow> (Inl e, rs')
       | Inr header \<Rightarrow>
           (case reader_read_exact (unat (hdr_body_len header)) rs' of
              (Inl _, rs'') \<Rightarrow> (Inl (Truncated ''body''), rs'')
            | (Inr body, rs'') \<Rightarrow> (Inr (Some \<lparr>msg_header = header, msg_body = body\<rparr>), rs'')))"
    by (rule read_from_header [OF assms(1)]) simp
  with that [of rs'] hd wire_message_len(1) [OF assms(2)] show ?thesis by simp
qed

lemma read_from_message:
  assumes "delivers rs (message_bytes m @ bs)" and "wire_message m"
  obtains rs' where "read_from rs = (Inr (Some m), rs')" and "delivers rs' bs"
proof -
  have "delivers rs (header_encode (msg_header m) @ msg_body m @ bs)" using assms(1) by (simp add: message_bytes_def)
  then obtain rs1 where d: "delivers rs1 (msg_body m @ bs)"
    and run: "read_from rs = (case reader_read_exact (length (msg_body m)) rs1 of
              (Inl _, rs'') \<Rightarrow> (Inl (Truncated ''body''), rs'')
            | (Inr body, rs'') \<Rightarrow> (Inr (Some \<lparr>msg_header = msg_header m, msg_body = body\<rparr>), rs''))"
    using assms(2) by (rule read_from_header_encode)
  obtain rs2 where "reader_read_exact (length (msg_body m)) rs1 = (Inr (msg_body m), rs2)" "delivers rs2 bs"
    using read_exact_delivers(1) [OF d, of "length (msg_body m)"] by auto
  with run that show ?thesis by simp
qed

lemma read_from_end: "delivers rs [] \<Longrightarrow> read_from rs = (Inr None, [])"
  by (cases rs; cases "hd rs") (auto simp: read_from_def)

primrec read_messages :: "nat \<Rightarrow> Reader \<Rightarrow> (WireError, Message option list) result \<times> Reader" where
  "read_messages 0 rs = (Inr [], rs)"
| "read_messages (Suc n) rs =
     (case read_from rs of
        (Inl e, rs') \<Rightarrow> (Inl e, rs')
      | (Inr m, rs') \<Rightarrow>
          (case read_messages n rs' of (Inl e, rs'') \<Rightarrow> (Inl e, rs'') | (Inr ms, rs'') \<Rightarrow> (Inr (m # ms), rs'')))"

text \<open>
  The framing of the bridge link does not depend on how the carrier cuts the byte stream.
  Written one after the other, any messages with bodies within the limit are read back by
  \<open>Message::read_from\<close> in order and unchanged, whatever the pieces the bytes arrive in (headers and
  bodies split at any point, several messages in one piece), and after the last one the reader
  reports a clean end of stream.
\<close>

theorem message_stream_roundtrip:
  assumes "\<forall>m \<in> set ms. wire_message m" and "\<forall>m \<in> set ms. write_to m = Inr (bytes m)"
    and "delivers rs (concat (map bytes ms))"
  shows "read_messages (length ms + 1) rs = (Inr (map Some ms @ [None]), [])"
  using assms
proof (induction ms arbitrary: rs)
  case Nil
  then show ?case by (simp add: read_from_end)
next
  case (Cons m ms)
  have "bytes m = message_bytes m" using Cons.prems(1,2) wire_message_len(2) [of m] by simp
  then obtain rs' where "read_from rs = (Inr (Some m), rs')" "delivers rs' (concat (map bytes ms))"
    using read_from_message [of rs m "concat (map bytes ms)"] Cons.prems by auto
  with Cons.IH [of rs'] Cons.prems(1,2) show ?case by simp
qed

definition example_message :: Message where
  "example_message = \<lparr>msg_header = \<lparr>hdr_kind = Input, hdr_flags = 16, hdr_stream_id = 5, hdr_seq = 1, hdr_timestamp_ns = 0,
     hdr_chunk_index = 0, hdr_chunk_count = 1, hdr_body_len = 2\<rparr>, msg_body = [170, 187]\<rparr>"

lemma example_message_wire: "wire_message example_message" "write_to example_message = Inr (message_bytes example_message)"
  by (simp_all add: wire_message_def example_message_def MAX_BODY_def write_to_def u32_try_from_def message_bytes_def)

theorem message_stream_roundtrip_witness:
  "read_messages 3 [Inr (take 10 (message_bytes example_message)),
      Inr (drop 10 (message_bytes example_message) @ message_bytes example_message)]
   = (Inr [Some example_message, Some example_message, None], [])"
proof -
  have len: "length (message_bytes example_message) = 34"
    by (simp add: message_bytes_def example_message_def HEADER_LEN_def)
  let ?b = "message_bytes example_message"
  have pieces: "take (24 + 34) (drop 10 ?b @ ?b) = drop 10 ?b @ ?b" using len by simp
  have "delivers [Inr (take 10 ?b), Inr (drop 10 ?b @ ?b)] (concat (map message_bytes [example_message, example_message]))"
    using len by (auto simp: min_def)
  from message_stream_roundtrip [OF _ _ this] show ?thesis using example_message_wire by (simp add: numeral_3_eq_3)
qed

lemma reader_read_length: "reader_read n rs = (Inr bs, rs') \<Longrightarrow> length bs \<le> n"
  by (cases rs; cases "hd rs") (auto split: if_splits)

lemma read_exact_length: "reader_read_exact n rs = (Inr bs, rs') \<Longrightarrow> length bs = n"
proof (induction n arbitrary: rs bs rs' rule: less_induct)
  case (less n)
  show ?case
  proof (cases "n = 0")
    case True
    with less.prems show ?thesis by (subst (asm) reader_read_exact.simps) simp
  next
    case False
    with less.prems obtain cs ds rs1 rs2 where c: "reader_read n rs = (Inr cs, rs1)" "cs \<noteq> []"
      "reader_read_exact (n - length cs) rs1 = (Inr ds, rs2)" "bs = cs @ ds"
      by (subst (asm) reader_read_exact.simps) (auto split: prod.splits sum.splits if_splits)
    have "n - length cs < n" using False c(2) by simp
    from less.IH [OF this c(3)] c(4) reader_read_length [OF c(1)] show ?thesis by simp
  qed
qed

lemma read_from_bounded:
  assumes "read_from rs = (Inr (Some m), rs')"
  shows "length (msg_body m) = unat (hdr_body_len (msg_header m))" and "length (msg_body m) \<le> MAX_BODY"
proof -
  from assms obtain bs header body rs1 where "header_decode bs = Inr header"
    and "reader_read_exact (unat (hdr_body_len header)) rs1 = (Inr body, rs')"
    and "m = \<lparr>msg_header = header, msg_body = body\<rparr>"
    by (auto simp: read_from_def split: prod.splits sum.splits if_splits)
  with header_decode_bound read_exact_length show "length (msg_body m) = unat (hdr_body_len (msg_header m))"
    and "length (msg_body m) \<le> MAX_BODY" by auto
qed

lemma read_from_short_header:
  assumes "delivers rs bs" and "bs \<noteq> []" and "length bs < HEADER_LEN"
  shows "\<exists>rs'. read_from rs = (Inl (Truncated ''header''), rs')"
proof -
  obtain m rs1 where rd: "reader_read HEADER_LEN rs = (Inr (take m bs), rs1)" "m \<le> length bs" "0 < m"
    "delivers rs1 (drop m bs)"
    using reader_read_delivers [OF assms(1), of HEADER_LEN] assms(2,3) by (metis gr_implies_not0 neq0_conv)
  have len: "take m bs \<noteq> []" "length (take m bs) = m" "m < HEADER_LEN" using rd(2,3) assms(3) by auto
  obtain e rs2 where "reader_read_exact (HEADER_LEN - m) rs1 = (Inl e, rs2)"
    using read_exact_delivers(2) [OF rd(4), of "HEADER_LEN - m"] assms(3) rd(2) diff_less_mono by auto
  with rd(1) len show ?thesis by (simp add: read_from_def)
qed

lemma read_from_truncated:
  assumes "wire_message m" and "0 < k" and "k < length (message_bytes m)" and "delivers rs (take k (message_bytes m))"
  shows "\<exists>what rs'. read_from rs = (Inl (Truncated what), rs')"
proof (cases "k < HEADER_LEN")
  case True
  then show ?thesis using read_from_short_header [OF assms(4)] assms(2,3) by fastforce
next
  case False
  let ?part = "take (k - HEADER_LEN) (msg_body m)"
  have "delivers rs (header_encode (msg_header m) @ ?part)" using assms(4) False by (simp add: message_bytes_def)
  then obtain rs1 where d: "delivers rs1 ?part"
    and run: "read_from rs = (case reader_read_exact (length (msg_body m)) rs1 of
              (Inl _, rs'') \<Rightarrow> (Inl (Truncated ''body''), rs'')
            | (Inr body, rs'') \<Rightarrow> (Inr (Some \<lparr>msg_header = msg_header m, msg_body = body\<rparr>), rs''))"
    using assms(1) by (rule read_from_header_encode)
  have "length ?part < length (msg_body m)" using assms(3) False by (simp add: message_bytes_def)
  with read_exact_delivers(2) [OF d] run show ?thesis by fastforce
qed

text \<open>
  What a peer sends cannot make the reader hold more than the limit: every message that
  \<open>read_from\<close> accepts, from any stream of pieces and errors, has exactly the body its header
  states, of at most 64 MiB; and a stream that ends inside a message is reported as
  truncated, never as a message or as a clean end.
\<close>

theorem read_message_bounded:
  "(read_from rs = (Inr (Some m), rs') \<longrightarrow>
      length (msg_body m) = unat (hdr_body_len (msg_header m)) \<and> length (msg_body m) \<le> MAX_BODY)
   \<and> (wire_message m \<longrightarrow> 0 < k \<longrightarrow> k < length (message_bytes m) \<longrightarrow> delivers rs (take k (message_bytes m)) \<longrightarrow>
      (\<exists>what rs''. read_from rs = (Inl (Truncated what), rs'')))"
  using read_from_bounded read_from_truncated by blast

theorem read_message_bounded_witness:
  "\<exists>what rs''. read_from [Inr (take 33 (message_bytes example_message))] = (Inl (Truncated what), rs'')"
proof -
  have len: "length (message_bytes example_message) = 34"
    by (simp add: message_bytes_def example_message_def HEADER_LEN_def)
  then have "delivers [Inr (take 33 (message_bytes example_message))] (take 33 (message_bytes example_message))"
    by auto
  with len example_message_wire(1)
    read_message_bounded [where m = example_message and k = 33 and rs = "[Inr (take 33 (message_bytes example_message))]"]
  show ?thesis by simp
qed

end
