(* ===== verification/Bridge_Relay.thy ===== *)
theory Bridge_Relay
  imports Bridge_Wire "HOL-Library.AList" "HOL-Library.Sublist"
begin

text \<open>
  The input relay of the bridge (\<open>jackstay-bridge/src/input_relay.rs\<close>): controller connections on
  one host, each carried as one stream of \<open>Input\<close> messages over the control connection to the
  executor's socket on the other host, and back.

  A relay is used by several threads: one accepts connections and attaches them, one reads the
  control connection, and every stream has a pump that reads the local socket.  The model has one
  step per critical section or system call of each thread, and the steps of all threads of both
  halves interleave freely.  The control connection is the log of the messages written to it, which
  the peer reads in order (that bytes and messages correspond is proved in \<open>Bridge_Wire\<close>); it has
  no write timeout, so a failed write means that it is gone and nothing written later arrives.
  Connecting, reading, writing and starting threads may fail at any time.
\<close>

section \<open>The relay\<close>

definition INPUT_OPEN :: u16 where
  "INPUT_OPEN = 16"

definition INPUT_CLOSE :: u16 where
  "INPUT_CLOSE = 32"

definition CHUNK :: nat where
  "CHUNK = 16 * 1024"

text \<open>
  A local socket with everything read from it and everything written to it so far, and the stream
  id it was registered under.
\<close>

record LocalSock =
  sk_id :: u32
  sk_in :: "u8 list"
  sk_out :: "u8 list"
  sk_shut :: bool

text \<open>Where the accepting thread is inside \<open>attach\<close>; the socket is an index into \<open>socks\<close>.\<close>

datatype AttachState = AttachIdle | AttachInserted u32 nat | AttachAnnounced u32 nat

text \<open>Where the control reader is inside \<open>on_message\<close>.\<close>

datatype ReaderState =
    ReaderIdle
  | AtOpen Message
  | AtRefuse Message \<comment> \<open>the open failed: tell the peer and return\<close>
  | AtSpawn Message nat
  | AtBody Message
  | AtCut Message \<comment> \<open>the local peer stopped reading: cut it\<close>
  | AtCutSend Message
  | AtClose Message

datatype PumpState = PumpLoop | PumpReading | PumpHolding "u8 list" | PumpFinishing | PumpLeaving | PumpDone

record InputRelay =
  link_up :: bool
  sent :: "Message list" \<comment> \<open>everything written to the control connection\<close>
  streams :: "(u32 \<times> nat) list"
  socks :: "LocalSock list"
  pumps :: "(u32 \<times> nat \<times> PumpState) list"
  seq :: u64
  next_id :: u32
  has_target :: bool
  stop :: bool
  opened :: u64
  closed_count :: u64
  bytes_out :: u64
  bytes_in :: u64
  attaching :: AttachState
  reader :: ReaderState
  received :: nat \<comment> \<open>messages of the peer read so far\<close>
  attaches :: nat \<comment> \<open>calls of \<open>attach\<close>\<close>

definition InputRelay_new :: "bool \<Rightarrow> InputRelay" where
  "InputRelay_new target =
     \<lparr>link_up = True, sent = [], streams = [], socks = [], pumps = [], seq = 2 ^ 32, next_id = 1,
      has_target = target, stop = False, opened = 0, closed_count = 0, bytes_out = 0, bytes_in = 0,
      attaching = AttachIdle, reader = ReaderIdle, received = 0, attaches = 0\<rparr>"

definition relay_message :: "u32 \<Rightarrow> u16 \<Rightarrow> u8 list \<Rightarrow> u64 \<Rightarrow> Message" where
  "relay_message sid fl body n =
     \<lparr>msg_header = \<lparr>hdr_kind = Input, hdr_flags = fl, hdr_stream_id = sid, hdr_seq = n, hdr_timestamp_ns = 0,
        hdr_chunk_index = 0, hdr_chunk_count = 1, hdr_body_len = of_nat (length body)\<rparr>, msg_body = body\<rparr>"

text \<open>\<open>send\<close>: whether the write succeeds is up to the environment, and it cannot on a broken link.\<close>

definition relay_send :: "bool \<Rightarrow> u32 \<Rightarrow> u16 \<Rightarrow> u8 list \<Rightarrow> InputRelay \<Rightarrow> bool \<times> InputRelay" where
  "relay_send works sid fl body R =
     (let m = relay_message sid fl body (seq R); R = R\<lparr>seq := seq R + 1\<rparr> in
      if works \<and> link_up R then (True, R\<lparr>sent := sent R @ [m]\<rparr>) else (False, R\<lparr>link_up := False\<rparr>))"

definition relay_insert :: "u32 \<Rightarrow> InputRelay \<Rightarrow> InputRelay" where
  "relay_insert sid R =
     R\<lparr>socks := socks R @ [\<lparr>sk_id = sid, sk_in = [], sk_out = [], sk_shut = False\<rparr>],
       streams := AList.update sid (length (socks R)) (streams R), opened := opened R + 1\<rparr>"

definition close_local :: "u32 \<Rightarrow> InputRelay \<Rightarrow> InputRelay" where
  "close_local sid R =
     (case map_of (streams R) sid of
        None \<Rightarrow> R
      | Some k \<Rightarrow> R\<lparr>streams := AList.delete sid (streams R), socks := (socks R)[k := (socks R ! k)\<lparr>sk_shut := True\<rparr>],
                    closed_count := closed_count R + 1\<rparr>)"

definition spawn_pump :: "bool \<Rightarrow> u32 \<Rightarrow> nat \<Rightarrow> InputRelay \<Rightarrow> InputRelay" where
  "spawn_pump starts sid k R =
     (if stop R \<or> \<not> starts then close_local sid R
      else R\<lparr>pumps := pumps R @ [(sid, k, PumpLoop)]\<rparr>)"

definition is_open :: "u32 \<Rightarrow> InputRelay \<Rightarrow> bool" where
  "is_open sid R \<longleftrightarrow> map_of (streams R) sid \<noteq> None"

section \<open>Attaching a connection\<close>

definition attach_insert :: "bool \<Rightarrow> InputRelay \<Rightarrow> InputRelay" where
  "attach_insert works R =
     (let sid = next_id R; R = R\<lparr>next_id := next_id R + 1, attaches := attaches R + 1\<rparr> in
      if works then (relay_insert sid R)\<lparr>attaching := AttachInserted sid (length (socks R))\<rparr> else R)"

definition attach_announce :: "bool \<Rightarrow> u32 \<Rightarrow> nat \<Rightarrow> InputRelay \<Rightarrow> InputRelay" where
  "attach_announce works sid k R =
     (case relay_send works sid INPUT_OPEN [] R of
        (True, R') \<Rightarrow> R'\<lparr>attaching := AttachAnnounced sid k\<rparr>
      | (False, R') \<Rightarrow> (close_local sid R')\<lparr>attaching := AttachIdle\<rparr>)"

definition attach_spawn :: "bool \<Rightarrow> u32 \<Rightarrow> nat \<Rightarrow> InputRelay \<Rightarrow> InputRelay" where
  "attach_spawn starts sid k R = (spawn_pump starts sid k R)\<lparr>attaching := AttachIdle\<rparr>"

section \<open>A message from the peer\<close>

definition msg_id :: "Message \<Rightarrow> u32" where
  "msg_id m = hdr_stream_id (msg_header m)"

definition has_flag :: "Message \<Rightarrow> u16 \<Rightarrow> bool" where
  "has_flag m f \<longleftrightarrow> and (hdr_flags (msg_header m)) f \<noteq> 0"

text \<open>
  One step of \<open>on_message\<close>: \<open>works\<close> is the outcome of the connection, write or thread start in it,
  and \<open>n\<close> how many bytes of the body got through when the write fails.
\<close>

definition write_local :: "bool \<Rightarrow> nat \<Rightarrow> Message \<Rightarrow> InputRelay \<Rightarrow> InputRelay" where
  "write_local works n m R =
     (let R = R\<lparr>bytes_in := bytes_in R + of_nat (length (msg_body m))\<rparr> in
      case map_of (streams R) (msg_id m) of
        None \<Rightarrow> R\<lparr>reader := AtClose m\<rparr>
      | Some k \<Rightarrow>
          R\<lparr>socks := (socks R)[k := (socks R ! k)\<lparr>sk_out := sk_out (socks R ! k)
               @ (if works then msg_body m else take n (msg_body m))\<rparr>],
            reader := (if works then AtClose m else AtCut m)\<rparr>)"

fun on_message :: "bool \<Rightarrow> nat \<Rightarrow> ReaderState \<Rightarrow> InputRelay \<Rightarrow> InputRelay" where
  "on_message works n ReaderIdle R = R"
| "on_message works n (AtOpen m) R =
     (if \<not> has_flag m INPUT_OPEN then R\<lparr>reader := AtBody m\<rparr>
      else if \<not> has_target R \<or> \<not> works then R\<lparr>reader := AtRefuse m\<rparr>
      else (relay_insert (msg_id m) R)\<lparr>reader := AtSpawn m (length (socks R))\<rparr>)"
| "on_message works n (AtRefuse m) R = (snd (relay_send works (msg_id m) INPUT_CLOSE [] R))\<lparr>reader := ReaderIdle\<rparr>"
| "on_message works n (AtSpawn m k) R = (spawn_pump works (msg_id m) k R)\<lparr>reader := AtBody m\<rparr>"
| "on_message works n (AtBody m) R =
     (if msg_body m = [] then R\<lparr>reader := AtClose m\<rparr> else write_local works n m R)"
| "on_message works n (AtCut m) R = (close_local (msg_id m) R)\<lparr>reader := AtCutSend m\<rparr>"
| "on_message works n (AtCutSend m) R = (snd (relay_send works (msg_id m) INPUT_CLOSE [] R))\<lparr>reader := AtClose m\<rparr>"
| "on_message works n (AtClose m) R =
     (if has_flag m INPUT_CLOSE then close_local (msg_id m) R else R)\<lparr>reader := ReaderIdle\<rparr>"

section \<open>The pump of a stream\<close>

definition set_pump :: "nat \<Rightarrow> PumpState \<Rightarrow> InputRelay \<Rightarrow> InputRelay" where
  "set_pump p st R = (case pumps R ! p of (sid, k, _) \<Rightarrow> R\<lparr>pumps := (pumps R)[p := (sid, k, st)]\<rparr>)"

text \<open>
  One step of \<open>pump\<close>; \<open>bs\<close> is what the read returned, empty at the end of the stream and on an
  error, and a read that does not work was interrupted.  A pump that is done stays in \<open>pumps\<close>, where
  the code drops its handle when the next one starts.
\<close>

fun pump_step :: "bool \<Rightarrow> u8 list \<Rightarrow> nat \<Rightarrow> u32 \<times> nat \<times> PumpState \<Rightarrow> InputRelay \<Rightarrow> InputRelay" where
  "pump_step works bs p (sid, k, PumpLoop) R = set_pump p (if stop R then PumpFinishing else PumpReading) R"
| "pump_step works bs p (sid, k, PumpReading) R =
     (if \<not> works then set_pump p PumpLoop R
      else if bs = [] then set_pump p PumpFinishing R
      else (set_pump p (PumpHolding (take CHUNK bs)) R)\<lparr>
             socks := (socks R)[k := (socks R ! k)\<lparr>sk_in := sk_in (socks R ! k) @ take CHUNK bs\<rparr>],
             bytes_out := bytes_out R + of_nat (length (take CHUNK bs))\<rparr>)"
| "pump_step works bs p (sid, k, PumpHolding held) R =
     (case relay_send works sid 0 held R of
        (True, R') \<Rightarrow> set_pump p PumpLoop R'
      | (False, R') \<Rightarrow> set_pump p PumpFinishing R')"
| "pump_step works bs p (sid, k, PumpFinishing) R =
     (case map_of (streams R) sid of
        None \<Rightarrow> set_pump p PumpDone R
      | Some _ \<Rightarrow> (set_pump p PumpLeaving R)\<lparr>streams := AList.delete sid (streams R),
                    closed_count := closed_count R + 1\<rparr>)"
| "pump_step works bs p (sid, k, PumpLeaving) R =
     set_pump p PumpDone (snd (relay_send works sid INPUT_CLOSE [] R))"
| "pump_step works bs p (sid, k, PumpDone) R = R"

section \<open>Both halves\<close>

text \<open>The ingress half accepts controllers; the egress half has the executor's socket as its target.\<close>

record Bridge =
  ingress :: InputRelay
  egress :: InputRelay

definition Bridge_new :: Bridge where
  "Bridge_new = \<lparr>ingress = InputRelay_new False, egress = InputRelay_new True\<rparr>"

text \<open>The steps that both halves have; \<open>peer\<close> is the log of the other half.\<close>

inductive half_step :: "Message list \<Rightarrow> InputRelay \<Rightarrow> InputRelay \<Rightarrow> bool" for peer where
  receive: "reader R = ReaderIdle \<Longrightarrow> received R < length peer \<Longrightarrow>
    half_step peer R (R\<lparr>reader := AtOpen (peer ! received R), received := received R + 1\<rparr>)"
| handle: "reader R \<noteq> ReaderIdle \<Longrightarrow> half_step peer R (on_message works n (reader R) R)"
| pump: "p < length (pumps R) \<Longrightarrow> half_step peer R (pump_step works bs p (pumps R ! p) R)"
| shut_one: "half_step peer R (close_local sid R)"
| stopping: "half_step peer R (R\<lparr>stop := True\<rparr>)"

inductive bridge_step :: "Bridge \<Rightarrow> Bridge \<Rightarrow> bool" where
  at_ingress: "half_step (sent (egress b)) (ingress b) R \<Longrightarrow> bridge_step b (b\<lparr>ingress := R\<rparr>)"
| at_egress: "half_step (sent (ingress b)) (egress b) R \<Longrightarrow> bridge_step b (b\<lparr>egress := R\<rparr>)"
| accept: "attaching (ingress b) = AttachIdle \<Longrightarrow> bridge_step b (b\<lparr>ingress := attach_insert works (ingress b)\<rparr>)"
| announce: "attaching (ingress b) = AttachInserted sid k \<Longrightarrow>
    bridge_step b (b\<lparr>ingress := attach_announce works sid k (ingress b)\<rparr>)"
| start: "attaching (ingress b) = AttachAnnounced sid k \<Longrightarrow>
    bridge_step b (b\<lparr>ingress := attach_spawn starts sid k (ingress b)\<rparr>)"

inductive bridge_run :: "Bridge \<Rightarrow> bool" where
  fresh: "bridge_run Bridge_new"
| step: "bridge_run b \<Longrightarrow> bridge_step b c \<Longrightarrow> bridge_run c"

section \<open>Effects of the operations\<close>

text \<open>The bytes a log carries for a stream.\<close>

definition data_of :: "u32 \<Rightarrow> Message list \<Rightarrow> u8 list" where
  "data_of sid ms = concat (map msg_body (filter (\<lambda>m. msg_id m = sid) ms))"

lemma data_of_simps [simp]:
  "data_of sid [] = []"
  "data_of sid (ms @ ns) = data_of sid ms @ data_of sid ns"
  "data_of sid [m] = (if msg_id m = sid then msg_body m else [])"
  by (simp_all add: data_of_def)

lemma data_of_take_Suc:
  "n < length ms \<Longrightarrow> data_of sid (take (Suc n) ms) = data_of sid (take n ms) @ data_of sid [ms ! n]"
  by (simp add: take_Suc_conv_app_nth)

lemma data_of_prefix: "prefix (data_of sid (take n ms)) (data_of sid ms)"
  by (metis append_take_drop_id data_of_simps(2) prefixI)

lemma relay_message_simps [simp]:
  "msg_id (relay_message sid fl body n) = sid"
  "msg_body (relay_message sid fl body n) = body"
  "has_flag (relay_message sid fl body n) f \<longleftrightarrow> and fl f \<noteq> 0"
  by (simp_all add: relay_message_def msg_id_def has_flag_def)

lemma flag_simps [simp]:
  "INPUT_OPEN \<noteq> 0" "and INPUT_CLOSE INPUT_OPEN = 0"
  by (simp_all add: INPUT_OPEN_def INPUT_CLOSE_def)

text \<open>Everything but the log, the sequence number and the link is as before a send.\<close>

lemma relay_send_fields [simp]:
  "streams (snd (relay_send works sid fl body R)) = streams R"
  "socks (snd (relay_send works sid fl body R)) = socks R"
  "pumps (snd (relay_send works sid fl body R)) = pumps R"
  "reader (snd (relay_send works sid fl body R)) = reader R"
  "received (snd (relay_send works sid fl body R)) = received R"
  "attaching (snd (relay_send works sid fl body R)) = attaching R"
  "attaches (snd (relay_send works sid fl body R)) = attaches R"
  "next_id (snd (relay_send works sid fl body R)) = next_id R"
  "has_target (snd (relay_send works sid fl body R)) = has_target R"
  by (simp_all add: relay_send_def Let_def)

lemma relay_send_sent:
  "sent (snd (relay_send works sid fl body R)) =
     sent R @ (if fst (relay_send works sid fl body R) then [relay_message sid fl body (seq R)] else [])"
  by (simp add: relay_send_def Let_def)

lemma close_local_fields [simp]:
  "sent (close_local sid R) = sent R"
  "pumps (close_local sid R) = pumps R"
  "reader (close_local sid R) = reader R"
  "received (close_local sid R) = received R"
  "attaching (close_local sid R) = attaching R"
  "attaches (close_local sid R) = attaches R"
  "next_id (close_local sid R) = next_id R"
  "has_target (close_local sid R) = has_target R"
  "length (socks (close_local sid R)) = length (socks R)"
  "map_of (streams (close_local sid R)) = (map_of (streams R))(sid := None)"
  by (auto simp: close_local_def delete_conv' split: option.splits)

text \<open>An update of one element that keeps a field keeps it everywhere.\<close>

lemma nth_update_field:
  assumes "\<And>x. f (g x) = f x"
  shows "f (xs[i := g (xs ! i)] ! k) = f (xs ! k)"
  using assms by (cases "i = k"; cases "k < length xs") (simp_all add: list_update_beyond)

lemma map_update_field:
  assumes "\<And>x. f (g x) = f x"
  shows "map f (xs[i := g (xs ! i)]) = map f xs"
  using nth_update_field [of f g, OF assms] by (intro nth_equalityI) (simp_all add: nth_map)

lemma sock_update_fields [simp]:
  "map sk_id (xs[i := (xs ! i)\<lparr>sk_out := v\<rparr>]) = map sk_id xs"
  "map sk_id (xs[i := (xs ! i)\<lparr>sk_in := v\<rparr>]) = map sk_id xs"
  "sk_in (xs[i := (xs ! i)\<lparr>sk_out := v\<rparr>] ! k) = sk_in (xs ! k)"
  "sk_out (xs[i := (xs ! i)\<lparr>sk_in := v\<rparr>] ! k) = sk_out (xs ! k)"
  "sk_id (xs[i := (xs ! i)\<lparr>sk_out := v\<rparr>] ! k) = sk_id (xs ! k)"
  "sk_id (xs[i := (xs ! i)\<lparr>sk_in := v\<rparr>] ! k) = sk_id (xs ! k)"
  using map_update_field [of sk_id "\<lambda>x. x\<lparr>sk_out := v\<rparr>"] map_update_field [of sk_id "\<lambda>x. x\<lparr>sk_in := v\<rparr>"]
    nth_update_field [of sk_in "\<lambda>x. x\<lparr>sk_out := v\<rparr>"] nth_update_field [of sk_out "\<lambda>x. x\<lparr>sk_in := v\<rparr>"]
    nth_update_field [of sk_id "\<lambda>x. x\<lparr>sk_out := v\<rparr>"] nth_update_field [of sk_id "\<lambda>x. x\<lparr>sk_in := v\<rparr>"]
  by simp_all

lemma sock_update_ids [simp]:
  "sk_id ` set (xs[i := (xs ! i)\<lparr>sk_out := v\<rparr>]) = sk_id ` set xs"
  "sk_id ` set (xs[i := (xs ! i)\<lparr>sk_in := v\<rparr>]) = sk_id ` set xs"
  by (metis sock_update_fields(1) list.set_map, metis sock_update_fields(2) list.set_map)

lemma close_local_socks [simp]:
  "k < length (socks R) \<Longrightarrow> sk_id (socks (close_local sid R) ! k) = sk_id (socks R ! k)"
  "k < length (socks R) \<Longrightarrow> sk_in (socks (close_local sid R) ! k) = sk_in (socks R ! k)"
  "k < length (socks R) \<Longrightarrow> sk_out (socks (close_local sid R) ! k) = sk_out (socks R ! k)"
  by (auto simp: close_local_def nth_update_field [of _ "\<lambda>x. x\<lparr>sk_shut := True\<rparr>"] split: option.splits)

lemma close_local_ids [simp]: "map sk_id (socks (close_local sid R)) = map sk_id (socks R)"
  by (rule nth_equalityI) simp_all

lemma relay_insert_fields [simp]:
  "sent (relay_insert sid R) = sent R"
  "pumps (relay_insert sid R) = pumps R"
  "reader (relay_insert sid R) = reader R"
  "received (relay_insert sid R) = received R"
  "attaching (relay_insert sid R) = attaching R"
  "attaches (relay_insert sid R) = attaches R"
  "next_id (relay_insert sid R) = next_id R"
  "has_target (relay_insert sid R) = has_target R"
  "socks (relay_insert sid R) = socks R @ [\<lparr>sk_id = sid, sk_in = [], sk_out = [], sk_shut = False\<rparr>]"
  "map_of (streams (relay_insert sid R)) = (map_of (streams R))(sid \<mapsto> length (socks R))"
  by (simp_all add: relay_insert_def update_conv')

lemma set_pump_fields [simp]:
  "sent (set_pump p st R) = sent R" "streams (set_pump p st R) = streams R" "socks (set_pump p st R) = socks R"
  "reader (set_pump p st R) = reader R" "received (set_pump p st R) = received R"
  "attaching (set_pump p st R) = attaching R" "attaches (set_pump p st R) = attaches R"
  "next_id (set_pump p st R) = next_id R" "has_target (set_pump p st R) = has_target R"
  by (simp_all add: set_pump_def split: prod.splits)

lemma set_pump_pumps:
  "pumps R ! p = (sid, k, st0) \<Longrightarrow> pumps (set_pump p st R) = (pumps R)[p := (sid, k, st)]"
  by (simp add: set_pump_def)

section \<open>One half\<close>

text \<open>Sockets that are registered and whose pump has not been started yet.\<close>

fun attach_sock :: "AttachState \<Rightarrow> (u32 \<times> nat) list" where
  "attach_sock AttachIdle = []"
| "attach_sock (AttachInserted sid k) = [(sid, k)]"
| "attach_sock (AttachAnnounced sid k) = [(sid, k)]"

fun reader_sock :: "ReaderState \<Rightarrow> (u32 \<times> nat) list" where
  "reader_sock (AtSpawn m k) = [(msg_id m, k)]"
| "reader_sock _ = []"

definition starting :: "InputRelay \<Rightarrow> (u32 \<times> nat) list" where
  "starting R = attach_sock (attaching R) @ reader_sock (reader R)"

definition pump_socks :: "InputRelay \<Rightarrow> nat list" where
  "pump_socks R = map (\<lambda>(sid, k, st). k) (pumps R)"

text \<open>How what a pump has sent relates to what it has read.\<close>

fun pump_data :: "PumpState \<Rightarrow> u8 list \<Rightarrow> u8 list \<Rightarrow> bool" where
  "pump_data PumpLoop d i \<longleftrightarrow> d = i"
| "pump_data PumpReading d i \<longleftrightarrow> d = i"
| "pump_data (PumpHolding bs) d i \<longleftrightarrow> d @ bs = i"
| "pump_data _ d i \<longleftrightarrow> prefix d i"

lemma pump_data_prefix: "pump_data st d i \<Longrightarrow> prefix d i"
  by (cases st) auto

definition table_ok :: "InputRelay \<Rightarrow> bool" where
  "table_ok R \<longleftrightarrow>
     distinct (map sk_id (socks R)) \<and>
     (\<forall>sid k. map_of (streams R) sid = Some k \<longrightarrow> k < length (socks R) \<and> sk_id (socks R ! k) = sid)"

definition pumps_ok :: "InputRelay \<Rightarrow> bool" where
  "pumps_ok R \<longleftrightarrow>
     distinct (pump_socks R @ map snd (starting R)) \<and>
     (\<forall>sid k. (sid, k) \<in> set (starting R) \<longrightarrow> k < length (socks R) \<and> sk_id (socks R ! k) = sid) \<and>
     (\<forall>sid k st. (sid, k, st) \<in> set (pumps R) \<longrightarrow>
        k < length (socks R) \<and> sk_id (socks R ! k) = sid \<and>
        pump_data st (data_of sid (sent R)) (sk_in (socks R ! k))) \<and>
     (\<forall>k < length (socks R). k \<notin> set (pump_socks R) \<longrightarrow>
        sk_in (socks R ! k) = [] \<and> data_of (sk_id (socks R ! k)) (sent R) = []) \<and>
     (\<forall>sid. sid \<notin> sk_id ` set (socks R) \<longrightarrow> data_of sid (sent R) = [])"

lemma pumps_okI:
  assumes "distinct (pump_socks R @ map snd (starting R))"
    and "\<And>sid k. (sid, k) \<in> set (starting R) \<Longrightarrow> k < length (socks R) \<and> sk_id (socks R ! k) = sid"
    and "\<And>sid k st. (sid, k, st) \<in> set (pumps R) \<Longrightarrow> k < length (socks R) \<and> sk_id (socks R ! k) = sid \<and>
        pump_data st (data_of sid (sent R)) (sk_in (socks R ! k))"
    and "\<And>k. k < length (socks R) \<Longrightarrow> k \<notin> set (pump_socks R) \<Longrightarrow>
        sk_in (socks R ! k) = [] \<and> data_of (sk_id (socks R ! k)) (sent R) = []"
    and "\<And>sid. sid \<notin> sk_id ` set (socks R) \<Longrightarrow> data_of sid (sent R) = []"
  shows "pumps_ok R"
  using assms unfolding pumps_ok_def by blast

lemma pumps_okD:
  assumes "pumps_ok R"
  shows "distinct (pump_socks R @ map snd (starting R))"
    and "(sid, k) \<in> set (starting R) \<Longrightarrow> k < length (socks R) \<and> sk_id (socks R ! k) = sid"
    and "(sid, k, st) \<in> set (pumps R) \<Longrightarrow> k < length (socks R) \<and> sk_id (socks R ! k) = sid \<and>
        pump_data st (data_of sid (sent R)) (sk_in (socks R ! k))"
    and "k < length (socks R) \<Longrightarrow> k \<notin> set (pump_socks R) \<Longrightarrow>
        sk_in (socks R ! k) = [] \<and> data_of (sk_id (socks R ! k)) (sent R) = []"
    and "sid \<notin> sk_id ` set (socks R) \<Longrightarrow> data_of sid (sent R) = []"
  using assms unfolding pumps_ok_def by blast+

lemma ids_same:
  assumes "map sk_id (socks R') = map sk_id (socks R)"
  shows "length (socks R') = length (socks R)" and "k < length (socks R) \<Longrightarrow> sk_id (socks R' ! k) = sk_id (socks R ! k)"
    and "sk_id ` set (socks R') = sk_id ` set (socks R)"
proof -
  show len: "length (socks R') = length (socks R)" using assms by (metis length_map)
  show "k < length (socks R) \<Longrightarrow> sk_id (socks R' ! k) = sk_id (socks R ! k)" using assms len by (metis nth_map)
  show "sk_id ` set (socks R') = sk_id ` set (socks R)" using assms by (metis list.set_map)
qed

text \<open>A step that concerns no pump: it sends no data and reads none.\<close>

lemma pumps_ok_same:
  assumes "pumps_ok R" and "pumps R' = pumps R" and "distinct (map snd (starting R'))"
    and "set (starting R') \<subseteq> set (starting R)"
    and "map sk_id (socks R') = map sk_id (socks R)"
    and "\<And>k. k < length (socks R) \<Longrightarrow> sk_in (socks R' ! k) = sk_in (socks R ! k)"
    and "\<And>sid. data_of sid (sent R') = data_of sid (sent R)"
  shows "pumps_ok R'"
proof (rule pumps_okI)
  note old = pumps_okD [OF assms(1)] and ids = ids_same [OF assms(5)]
  have ps: "pump_socks R' = pump_socks R" using assms(2) by (simp add: pump_socks_def)
  show "distinct (pump_socks R' @ map snd (starting R'))"
    using old(1) assms(3,4) ps by (auto simp: image_iff)
  show "k < length (socks R') \<and> sk_id (socks R' ! k) = sid" if "(sid, k) \<in> set (starting R')" for sid k
    using old(2) [of sid k] that assms(4) ids by auto
  show "k < length (socks R') \<and> sk_id (socks R' ! k) = sid \<and> pump_data st (data_of sid (sent R')) (sk_in (socks R' ! k))"
    if "(sid, k, st) \<in> set (pumps R')" for sid k st
    using old(3) [of sid k st] that assms(2,6,7) ids by auto
  show "sk_in (socks R' ! k) = [] \<and> data_of (sk_id (socks R' ! k)) (sent R') = []"
    if "k < length (socks R')" "k \<notin> set (pump_socks R')" for k
    using old(4) [of k] that assms(6,7) ids ps by auto
  show "data_of sid (sent R') = []" if "sid \<notin> sk_id ` set (socks R')" for sid
    using old(5) [of sid] that assms(7) ids by auto
qed

text \<open>A step of the pump at \<open>p\<close>.\<close>

lemma pumps_ok_pump:
  assumes "pumps_ok R" and "table_ok R" and "p < length (pumps R)" and "pumps R ! p = (sid, k, st0)"
    and "pumps R' = (pumps R)[p := (sid, k, st)]" and "starting R' = starting R"
    and "map sk_id (socks R') = map sk_id (socks R)"
    and "\<And>j. j < length (socks R) \<Longrightarrow> j \<noteq> k \<Longrightarrow> sk_in (socks R' ! j) = sk_in (socks R ! j)"
    and "\<And>s. s \<noteq> sid \<Longrightarrow> data_of s (sent R') = data_of s (sent R)"
    and "pump_data st (data_of sid (sent R')) (sk_in (socks R' ! k))"
  shows "pumps_ok R'"
proof (rule pumps_okI)
  note old = pumps_okD [OF assms(1)] and ids = ids_same [OF assms(7)]
  have p: "(sid, k, st0) \<in> set (pumps R)" using assms(3,4) by (metis nth_mem)
  have kp: "k < length (socks R)" "sk_id (socks R ! k) = sid" using old(3) [OF p] by auto
  have "map (\<lambda>(sid, k, st). k) ((pumps R)[p := (sid, k, st)]) = map (\<lambda>(sid, k, st). k) (pumps R)"
    using assms(3,4) by (simp add: map_update list_update_same_conv)
  then have ps: "pump_socks R' = pump_socks R" by (simp add: pump_socks_def assms(5))
  have one: "j = k" if "j < length (socks R)" "sk_id (socks R ! j) = sid" for j
    using assms(2) kp that by (auto simp: table_ok_def distinct_conv_nth)
  show "distinct (pump_socks R' @ map snd (starting R'))" using old(1) assms(6) ps by simp
  show "j < length (socks R') \<and> sk_id (socks R' ! j) = s" if "(s, j) \<in> set (starting R')" for s j
    using old(2) [of s j] that assms(6) ids by auto
  show "j < length (socks R') \<and> sk_id (socks R' ! j) = s \<and> pump_data t (data_of s (sent R')) (sk_in (socks R' ! j))"
    if pump: "(s, j, t) \<in> set (pumps R')" for s j t
  proof (cases "(s, j, t) = (sid, k, st)")
    case True
    then show ?thesis using kp ids assms(10) by auto
  next
    case False
    obtain q where "q < length (pumps R)" "(pumps R)[p := (sid, k, st)] ! q = (s, j, t)"
      using pump unfolding assms(5) by (auto simp: in_set_conv_nth)
    with False assms(3) have q: "q < length (pumps R)" "q \<noteq> p" "pumps R ! q = (s, j, t)"
      by (auto simp: nth_list_update split: if_splits)
    then have "(s, j, t) \<in> set (pumps R)" by (metis nth_mem)
    note t = old(3) [OF this]
    have "pump_socks R ! q = j" "pump_socks R ! p = k" using q assms(3,4) by (simp_all add: pump_socks_def)
    moreover have "pump_socks R ! q \<noteq> pump_socks R ! p"
      using old(1) q assms(3) nth_eq_iff_index_eq [of "pump_socks R" q p] by (simp add: pump_socks_def)
    ultimately have "j \<noteq> k" by simp
    then have "s \<noteq> sid" using t one by blast
    with t \<open>j \<noteq> k\<close> ids assms(8,9) show ?thesis by auto
  qed
  have k_in: "k \<in> set (pump_socks R)" using p by (force simp: pump_socks_def)
  show "sk_in (socks R' ! j) = [] \<and> data_of (sk_id (socks R' ! j)) (sent R') = []"
    if j: "j < length (socks R')" "j \<notin> set (pump_socks R')" for j
  proof -
    have "j \<noteq> k" "j < length (socks R)" using j k_in ps ids by auto
    with one have "sk_id (socks R ! j) \<noteq> sid" by blast
    with old(4) [of j] j ps ids \<open>j \<noteq> k\<close> assms(8,9) show ?thesis by auto
  qed
  show "data_of s (sent R') = []" if "s \<notin> sk_id ` set (socks R')" for s
  proof -
    have "s \<noteq> sid" using that ids kp by (metis image_eqI nth_mem)
    with old(5) [of s] that ids assms(9) show ?thesis by auto
  qed
qed

text \<open>A new socket is registered.\<close>

lemma pumps_ok_insert:
  assumes "pumps_ok R" and "sid \<notin> sk_id ` set (socks R)" and "pumps R' = pumps R" and "sent R' = sent R"
    and "socks R' = socks R @ [\<lparr>sk_id = sid, sk_in = [], sk_out = [], sk_shut = False\<rparr>]"
    and "starting R = xs @ ys" and "starting R' = xs @ (sid, length (socks R)) # ys"
  shows "pumps_ok R'"
proof (rule pumps_okI)
  note old = pumps_okD [OF assms(1)]
  have ps: "pump_socks R' = pump_socks R" using assms(3) by (simp add: pump_socks_def)
  have lt: "k < length (socks R)" if "k \<in> set (pump_socks R @ map snd (starting R))" for k
    using that old(2,3) by (fastforce simp: pump_socks_def)
  then have "length (socks R) \<notin> set (pump_socks R @ map snd (starting R))" by blast
  then show "distinct (pump_socks R' @ map snd (starting R'))" using old(1) unfolding ps assms(6,7) by auto
  show "k < length (socks R') \<and> sk_id (socks R' ! k) = s" if "(s, k) \<in> set (starting R')" for s k
    using old(2) [of s k] that unfolding assms(5-7) by (auto simp: nth_append)
  show "k < length (socks R') \<and> sk_id (socks R' ! k) = s \<and> pump_data st (data_of s (sent R')) (sk_in (socks R' ! k))"
    if "(s, k, st) \<in> set (pumps R')" for s k st
    using old(3) [of s k st] that unfolding assms(3-5) by (auto simp: nth_append)
  show "sk_in (socks R' ! k) = [] \<and> data_of (sk_id (socks R' ! k)) (sent R') = []"
    if "k < length (socks R')" "k \<notin> set (pump_socks R')" for k
    using old(4) [of k] old(5) [OF assms(2)] that unfolding assms(4,5) ps by (auto simp: nth_append less_Suc_eq)
  show "data_of s (sent R') = []" if "s \<notin> sk_id ` set (socks R')" for s
    using old(5) [of s] that unfolding assms(4,5) by auto
qed

text \<open>The pump of a registered socket is started.\<close>

lemma pumps_ok_spawn:
  assumes "pumps_ok R" and "pumps R' = pumps R @ [(sid, k, PumpLoop)]" and "sent R' = sent R" and "socks R' = socks R"
    and "starting R = xs @ (sid, k) # ys" and "starting R' = xs @ ys"
  shows "pumps_ok R'"
proof (rule pumps_okI)
  note old = pumps_okD [OF assms(1)]
  have ps: "pump_socks R' = pump_socks R @ [k]" by (simp add: pump_socks_def assms(2))
  have k: "k < length (socks R)" "sk_id (socks R ! k) = sid" "k \<notin> set (pump_socks R)"
    using old(1) old(2) [of sid k] assms(5) by auto
  show "distinct (pump_socks R' @ map snd (starting R'))" using old(1) unfolding ps assms(5,6) by auto
  show "j < length (socks R') \<and> sk_id (socks R' ! j) = s" if "(s, j) \<in> set (starting R')" for s j
    using old(2) [of s j] that unfolding assms(4-6) by auto
  show "j < length (socks R') \<and> sk_id (socks R' ! j) = s \<and> pump_data st (data_of s (sent R')) (sk_in (socks R' ! j))"
    if "(s, j, st) \<in> set (pumps R')" for s j st
    using old(3) [of s j st] old(4) [of k] that k unfolding assms(2-4) by auto
  show "sk_in (socks R' ! j) = [] \<and> data_of (sk_id (socks R' ! j)) (sent R') = []"
    if "j < length (socks R')" "j \<notin> set (pump_socks R')" for j
    using old(4) [of j] that unfolding assms(3,4) ps by auto
  show "data_of s (sent R') = []" if "s \<notin> sk_id ` set (socks R')" for s
    using old(5) [of s] that unfolding assms(3,4) by auto
qed

lemma table_ok_inj:
  "table_ok R \<Longrightarrow> i < length (socks R) \<Longrightarrow> j < length (socks R) \<Longrightarrow> sk_id (socks R ! i) = sk_id (socks R ! j) \<Longrightarrow> i = j"
  using nth_eq_iff_index_eq [of "map sk_id (socks R)" i j] by (simp add: table_ok_def)

lemma table_ok_same:
  assumes "table_ok R" and "map sk_id (socks R') = map sk_id (socks R)"
    and "map_of (streams R') \<subseteq>\<^sub>m map_of (streams R)"
  shows "table_ok R'"
proof -
  have "k < length (socks R') \<and> sk_id (socks R' ! k) = sid" if "map_of (streams R') sid = Some k" for sid k
  proof -
    have "map_of (streams R) sid = Some k" using that assms(3) by (metis domI map_le_def)
    with assms(1) ids_same [OF assms(2)] show ?thesis by (auto simp: table_ok_def)
  qed
  with assms(1,2) show ?thesis by (simp add: table_ok_def)
qed

lemma table_ok_insert:
  "table_ok R \<Longrightarrow> sid \<notin> sk_id ` set (socks R) \<Longrightarrow> table_ok (relay_insert sid R)"
  by (auto simp: table_ok_def nth_append) (metis less_SucI)+

definition half_ok :: "InputRelay \<Rightarrow> bool" where
  "half_ok R \<longleftrightarrow> table_ok R \<and> pumps_ok R"

lemma starting_fields:
  "attaching R' = attaching R \<Longrightarrow> reader_sock (reader R') = reader_sock (reader R) \<Longrightarrow> starting R' = starting R"
  by (simp add: starting_def)

lemma starting_distinct: "pumps_ok R \<Longrightarrow> distinct (map snd (starting R))"
  using pumps_okD(1) by fastforce

lemma half_ok_same:
  assumes "half_ok R" and "pumps R' = pumps R" and "starting R = xs @ zs @ ys" and "starting R' = xs @ ys"
    and "map sk_id (socks R') = map sk_id (socks R)"
    and "\<And>k. k < length (socks R) \<Longrightarrow> sk_in (socks R' ! k) = sk_in (socks R ! k)"
    and "\<And>sid. data_of sid (sent R') = data_of sid (sent R)"
    and "map_of (streams R') \<subseteq>\<^sub>m map_of (streams R)"
  shows "half_ok R'"
proof -
  have "distinct (map snd (starting R'))" "set (starting R') \<subseteq> set (starting R)"
    using starting_distinct [of R] assms(1,3,4) by (auto simp: half_ok_def)
  with assms show ?thesis unfolding half_ok_def using pumps_ok_same [of R R'] table_ok_same [of R R'] by blast
qed

lemma half_ok_quiet:
  assumes "half_ok R" and "pumps R' = pumps R" and "starting R' = starting R"
    and "map sk_id (socks R') = map sk_id (socks R)"
    and "\<And>k. k < length (socks R) \<Longrightarrow> sk_in (socks R' ! k) = sk_in (socks R ! k)"
    and "\<And>sid. data_of sid (sent R') = data_of sid (sent R)"
    and "map_of (streams R') \<subseteq>\<^sub>m map_of (streams R)"
  shows "half_ok R'"
  using assms by (intro half_ok_same [of R R' "starting R" "[]" "[]"]) auto

lemma map_le_delete [simp]: "m(sid := None) \<subseteq>\<^sub>m m"
  by (simp add: map_le_def)

lemma half_ok_close_local: "half_ok R \<Longrightarrow> half_ok (close_local sid R)"
  by (rule half_ok_quiet) (auto simp: starting_def)

lemma half_ok_send_empty: "half_ok R \<Longrightarrow> half_ok (snd (relay_send works sid fl [] R))"
  by (rule half_ok_quiet) (auto simp: starting_def relay_send_sent)

lemma half_ok_reader: "half_ok R \<Longrightarrow> reader_sock st = reader_sock (reader R) \<Longrightarrow> half_ok (R\<lparr>reader := st\<rparr>)"
  by (rule half_ok_quiet) (auto simp: starting_def)

lemma half_ok_reader_spawn:
  assumes "half_ok R" and "reader R = AtSpawn m k" and "reader_sock st = []"
  shows "half_ok ((spawn_pump works (msg_id m) k R)\<lparr>reader := st\<rparr>)"
proof (cases "stop R \<or> \<not> works")
  case True
  with assms show ?thesis
    by (intro half_ok_same [OF assms(1), of _ "attach_sock (attaching R)" "[(msg_id m, k)]" "[]"])
      (auto simp: spawn_pump_def starting_def)
next
  case False
  with assms show ?thesis
    by (auto simp: half_ok_def spawn_pump_def starting_def table_ok_def
        intro!: pumps_ok_spawn [of R _ "msg_id m" k "attach_sock (attaching R)" "[]"])
qed

lemma half_ok_write_local:
  assumes "half_ok R" and "reader R = AtBody m"
  shows "half_ok (write_local works n m R)"
  by (rule half_ok_quiet [OF assms(1)])
    (auto simp: write_local_def Let_def starting_def assms(2) split: option.splits)

text \<open>The id of an announced stream is new to the half that opens it.\<close>

definition open_fresh :: "InputRelay \<Rightarrow> bool" where
  "open_fresh R \<longleftrightarrow> (\<forall>m. reader R = AtOpen m \<longrightarrow> has_flag m INPUT_OPEN \<longrightarrow> has_target R \<longrightarrow>
     msg_id m \<notin> sk_id ` set (socks R))"

lemma half_ok_on_message:
  assumes "half_ok R" and "open_fresh R"
  shows "half_ok (on_message works n (reader R) R)"
proof (cases "reader R")
  case (AtOpen m)
  show ?thesis
  proof (cases "has_flag m INPUT_OPEN \<and> has_target R \<and> works")
    case True
    then have new: "msg_id m \<notin> sk_id ` set (socks R)" using assms(2) AtOpen by (simp add: open_fresh_def)
    let ?R = "(relay_insert (msg_id m) R)\<lparr>reader := AtSpawn m (length (socks R))\<rparr>"
    have "table_ok (relay_insert (msg_id m) R)" using assms(1) new by (simp add: half_ok_def table_ok_insert)
    then have "table_ok ?R" by (simp add: table_ok_def)
    moreover have "pumps_ok R" using assms(1) by (simp add: half_ok_def)
    then have "pumps_ok ?R"
      by (rule pumps_ok_insert [OF _ new, where xs = "attach_sock (attaching R)" and ys = "[]"])
        (simp_all add: starting_def AtOpen)
    moreover have "on_message works n (reader R) R = ?R" using True AtOpen by simp
    ultimately show ?thesis by (simp add: half_ok_def)
  next
    case False
    with AtOpen half_ok_reader [OF assms(1), of "AtBody m"] half_ok_reader [OF assms(1), of "AtRefuse m"]
    show ?thesis by auto
  qed
next
  case (AtSpawn m k)
  then show ?thesis using assms(1) by (simp add: half_ok_reader_spawn)
next
  case (AtBody m)
  then show ?thesis
    using half_ok_reader [OF assms(1), of "AtClose m"] half_ok_write_local [OF assms(1) AtBody] by simp
next
  case ReaderIdle
  then show ?thesis using assms(1) by simp
next
  case (AtRefuse m)
  then show ?thesis using half_ok_reader [OF half_ok_send_empty [OF assms(1)]] by simp
next
  case (AtCut m)
  then show ?thesis using half_ok_reader [OF half_ok_close_local [OF assms(1)]] by simp
next
  case (AtCutSend m)
  then show ?thesis using half_ok_reader [OF half_ok_send_empty [OF assms(1)]] by simp
next
  case (AtClose m)
  then show ?thesis
    using half_ok_reader [OF half_ok_close_local [OF assms(1)]] half_ok_reader [OF assms(1)] by simp
qed

lemma half_ok_pump_step:
  assumes "half_ok R" and "p < length (pumps R)"
  shows "half_ok (pump_step works bs p (pumps R ! p) R)"
proof -
  obtain sid k st where p: "pumps R ! p = (sid, k, st)" by (cases "pumps R ! p")
  have ok: "table_ok R" "pumps_ok R" using assms(1) by (simp_all add: half_ok_def)
  have mem: "(sid, k, st) \<in> set (pumps R)" using p assms(2) by (metis nth_mem)
  have k: "k < length (socks R)" "pump_data st (data_of sid (sent R)) (sk_in (socks R ! k))"
    using pumps_okD(3) [OF ok(2) mem] by auto
  note step = pumps_ok_pump [OF ok(2,1) assms(2) p]
  have tab: "table_ok R'" if "map sk_id (socks R') = map sk_id (socks R)" "map_of (streams R') \<subseteq>\<^sub>m map_of (streams R)" for R'
    using table_ok_same [OF ok(1) that] .
  show ?thesis
  proof (cases st)
    case PumpLoop
    with k p show ?thesis
      by (auto simp: half_ok_def set_pump_pumps [OF p] starting_def intro!: step tab)
  next
    case PumpReading
    show ?thesis
    proof (cases "\<not> works \<or> bs = []")
      case True
      with PumpReading k p show ?thesis
        by (auto simp: half_ok_def set_pump_pumps [OF p] starting_def intro!: step tab)
    next
      case False
      with PumpReading k p show ?thesis
        by (auto simp: half_ok_def set_pump_pumps [OF p] starting_def intro!: step tab)
    qed
  next
    case (PumpHolding held)
    obtain b R1 where send: "relay_send works sid 0 held R = (b, R1)" by (cases "relay_send works sid 0 held R")
    have R1: "socks R1 = socks R" "streams R1 = streams R" "pumps R1 = pumps R" "starting R1 = starting R"
      "sent R1 = sent R @ (if b then [relay_message sid 0 held (seq R)] else [])"
      using relay_send_fields [of works sid 0 held R] relay_send_sent [of works sid 0 held R]
      by (simp_all add: send starting_def)
    have p1: "pumps R1 ! p = (sid, k, st)" using p R1 by simp
    from PumpHolding k send R1 p pump_data_prefix [OF k(2)] show ?thesis
      by (cases b) (auto simp: half_ok_def set_pump_pumps [OF p1] starting_def intro!: step tab)
  next
    case PumpFinishing
    with k p show ?thesis
      by (auto simp: half_ok_def set_pump_pumps [OF p] starting_def delete_conv' intro!: step tab split: option.splits)
  next
    case PumpLeaving
    let ?R = "snd (relay_send works sid INPUT_CLOSE [] R)"
    have p1: "pumps ?R ! p = (sid, k, st)" using p by simp
    from PumpLeaving k p show ?thesis
      by (auto simp: half_ok_def set_pump_pumps [OF p1] starting_def relay_send_sent intro!: step tab)
  next
    case PumpDone
    with assms(1) p show ?thesis by simp
  qed
qed

section \<open>What arrives\<close>

fun reader_msg :: "ReaderState \<Rightarrow> Message option" where
  "reader_msg ReaderIdle = None"
| "reader_msg (AtOpen m) = Some m"
| "reader_msg (AtRefuse m) = Some m"
| "reader_msg (AtSpawn m k) = Some m"
| "reader_msg (AtBody m) = Some m"
| "reader_msg (AtCut m) = Some m"
| "reader_msg (AtCutSend m) = Some m"
| "reader_msg (AtClose m) = Some m"

text \<open>The bytes of the current message that are still to be written to their socket.\<close>

fun unwritten :: "ReaderState \<Rightarrow> u32 \<Rightarrow> u8 list" where
  "unwritten (AtOpen m) sid = (if msg_id m = sid then msg_body m else [])"
| "unwritten (AtSpawn m k) sid = (if msg_id m = sid then msg_body m else [])"
| "unwritten (AtBody m) sid = (if msg_id m = sid then msg_body m else [])"
| "unwritten _ sid = []"

fun cutting :: "ReaderState \<Rightarrow> u32 \<Rightarrow> bool" where
  "cutting (AtCut m) sid \<longleftrightarrow> msg_id m = sid"
| "cutting _ sid \<longleftrightarrow> False"

definition reading :: "InputRelay \<Rightarrow> Message list \<Rightarrow> bool" where
  "reading R peer \<longleftrightarrow>
     received R \<le> length peer \<and>
     (\<forall>m. reader_msg (reader R) = Some m \<longrightarrow> 0 < received R \<and> m = peer ! (received R - 1))"

definition arrives :: "InputRelay \<Rightarrow> Message list \<Rightarrow> bool" where
  "arrives R peer \<longleftrightarrow>
     (\<forall>k < length (socks R).
        prefix (sk_out (socks R ! k)) (data_of (sk_id (socks R ! k)) (take (received R) peer)) \<and>
        (map_of (streams R) (sk_id (socks R ! k)) = Some k \<and> \<not> cutting (reader R) (sk_id (socks R ! k)) \<longrightarrow>
           sk_out (socks R ! k) @ unwritten (reader R) (sk_id (socks R ! k)) =
             data_of (sk_id (socks R ! k)) (take (received R) peer)))"

lemma arrivesD:
  assumes "arrives R peer" and "k < length (socks R)"
  shows "prefix (sk_out (socks R ! k)) (data_of (sk_id (socks R ! k)) (take (received R) peer))"
    and "map_of (streams R) (sk_id (socks R ! k)) = Some k \<Longrightarrow> \<not> cutting (reader R) (sk_id (socks R ! k)) \<Longrightarrow>
      sk_out (socks R ! k) @ unwritten (reader R) (sk_id (socks R ! k)) =
        data_of (sk_id (socks R ! k)) (take (received R) peer)"
  using assms unfolding arrives_def by blast+

lemma reading_member: "reading R peer \<Longrightarrow> reader_msg (reader R) = Some m \<Longrightarrow> m \<in> set peer"
  unfolding reading_def by (metis diff_less less_le_trans nth_mem zero_less_one)

lemma reading_take:
  assumes "reading R peer" and "reader_msg (reader R) = Some m"
  shows "m \<in> set (take (received R) peer)"
proof -
  have r: "received R - 1 < received R" "received R \<le> length peer" "m = peer ! (received R - 1)"
    using assms by (auto simp: reading_def)
  then have "take (received R) peer ! (received R - 1) = m" by simp
  with r show ?thesis by (metis length_take min_absorb2 nth_mem)
qed

lemma reading_append: "reading R peer \<Longrightarrow> reading R (peer @ ms)"
  unfolding reading_def by (fastforce simp: nth_append)

lemma arrives_append: "reading R peer \<Longrightarrow> arrives R peer \<Longrightarrow> arrives R (peer @ ms)"
  by (simp add: reading_def arrives_def)

text \<open>A step that writes nothing to a socket.\<close>

lemma arrives_quiet:
  assumes "arrives R peer" and "map sk_id (socks R') = map sk_id (socks R)"
    and "\<And>k. k < length (socks R) \<Longrightarrow> sk_out (socks R' ! k) = sk_out (socks R ! k)"
    and "map_of (streams R') \<subseteq>\<^sub>m map_of (streams R)" and "received R' = received R"
    and "\<And>sid. map_of (streams R') sid \<noteq> None \<Longrightarrow> \<not> cutting (reader R') sid \<Longrightarrow>
      \<not> cutting (reader R) sid \<and> unwritten (reader R') sid = unwritten (reader R) sid"
  shows "arrives R' peer"
  unfolding arrives_def
proof (intro allI impI conjI)
  fix k assume k: "k < length (socks R')"
  note ids = ids_same [OF assms(2)]
  have k': "k < length (socks R)" "sk_id (socks R' ! k) = sk_id (socks R ! k)" using k ids by auto
  show "prefix (sk_out (socks R' ! k)) (data_of (sk_id (socks R' ! k)) (take (received R') peer))"
    using arrivesD(1) [OF assms(1) k'(1)] k' assms(3,5) by simp
  assume open': "map_of (streams R') (sk_id (socks R' ! k)) = Some k \<and> \<not> cutting (reader R') (sk_id (socks R' ! k))"
  then have "map_of (streams R) (sk_id (socks R ! k)) = Some k" using assms(4) k'(2) by (metis domI map_le_def)
  with arrivesD(2) [OF assms(1) k'(1)] assms(6) [of "sk_id (socks R ! k)"] open' k' assms(3,5)
  show "sk_out (socks R' ! k) @ unwritten (reader R') (sk_id (socks R' ! k)) =
      data_of (sk_id (socks R' ! k)) (take (received R') peer)" by simp
qed

lemma arrives_receive:
  assumes "arrives R peer" and "reader R = ReaderIdle" and "received R < length peer"
  shows "arrives (R\<lparr>reader := AtOpen (peer ! received R), received := received R + 1\<rparr>) peer"
  using arrivesD [OF assms(1)] assms(2,3) by (simp add: arrives_def data_of_take_Suc prefix_prefix)

lemma arrives_insert:
  assumes "arrives R peer" and "data_of sid (take (received R) peer) = []" and "sid \<notin> sk_id ` set (socks R)"
    and "socks R' = socks R @ [\<lparr>sk_id = sid, sk_in = [], sk_out = [], sk_shut = False\<rparr>]"
    and "map_of (streams R') = (map_of (streams R))(sid \<mapsto> length (socks R))" and "received R' = received R"
    and "unwritten (reader R') = unwritten (reader R)" and "cutting (reader R') = cutting (reader R)"
    and "unwritten (reader R) sid = []"
  shows "arrives R' peer"
  unfolding arrives_def
proof (intro allI impI)
  fix k assume k: "k < length (socks R')"
  show "prefix (sk_out (socks R' ! k)) (data_of (sk_id (socks R' ! k)) (take (received R') peer)) \<and>
        (map_of (streams R') (sk_id (socks R' ! k)) = Some k \<and> \<not> cutting (reader R') (sk_id (socks R' ! k)) \<longrightarrow>
           sk_out (socks R' ! k) @ unwritten (reader R') (sk_id (socks R' ! k)) =
             data_of (sk_id (socks R' ! k)) (take (received R') peer))"
  proof (cases "k < length (socks R)")
    case True
    then have "sk_id (socks R ! k) \<noteq> sid" using assms(3) by (metis image_eqI nth_mem)
    with True arrivesD [OF assms(1) True] show ?thesis unfolding assms(4-8) by (simp add: nth_append)
  next
    case False
    with k assms(2,9) show ?thesis unfolding assms(4,6,7) by (simp add: nth_append)
  qed
qed

lemma arrives_write:
  assumes "arrives R peer" and "table_ok R" and "reader R = AtBody m"
  shows "arrives (write_local works n m R) peer"
proof (cases "map_of (streams R) (msg_id m)")
  case None
  then show ?thesis using assms(3)
    by (intro arrives_quiet [OF assms(1)]) (auto simp: write_local_def Let_def)
next
  case (Some j)
  then have j: "j < length (socks R)" "sk_id (socks R ! j) = msg_id m" using assms(2) by (auto simp: table_ok_def)
  have body: "sk_out (socks R ! j) @ msg_body m = data_of (msg_id m) (take (received R) peer)"
    using arrivesD(2) [OF assms(1) j(1)] Some j assms(3) by simp
  then have pre: "prefix (sk_out (socks R ! j) @ take n (msg_body m)) (data_of (msg_id m) (take (received R) peer))"
    by (metis append_take_drop_id append.assoc prefixI)
  show ?thesis unfolding arrives_def
  proof (intro allI impI)
    fix k assume k: "k < length (socks (write_local works n m R))"
    show "prefix (sk_out (socks (write_local works n m R) ! k))
          (data_of (sk_id (socks (write_local works n m R) ! k)) (take (received (write_local works n m R)) peer)) \<and>
        (map_of (streams (write_local works n m R)) (sk_id (socks (write_local works n m R) ! k)) = Some k \<and>
         \<not> cutting (reader (write_local works n m R)) (sk_id (socks (write_local works n m R) ! k)) \<longrightarrow>
           sk_out (socks (write_local works n m R) ! k) @
             unwritten (reader (write_local works n m R)) (sk_id (socks (write_local works n m R) ! k)) =
             data_of (sk_id (socks (write_local works n m R) ! k)) (take (received (write_local works n m R)) peer))"
    proof (cases "k = j")
      case True
      with Some j body pre show ?thesis by (simp add: write_local_def Let_def)
    next
      case False
      have kl: "k < length (socks R)" using k Some by (simp add: write_local_def Let_def)
      have "sk_id (socks R ! k) \<noteq> msg_id m"
        using table_ok_inj [OF assms(2) kl j(1)] False j(2) by metis
      with Some False arrivesD [OF assms(1) kl] assms(3) show ?thesis by (simp add: write_local_def Let_def)
    qed
  qed
qed

section \<open>What one step changes\<close>

definition reader_ids :: "InputRelay \<Rightarrow> u32 set" where
  "reader_ids R = msg_id ` set_option (reader_msg (reader R))"

definition pump_ids :: "InputRelay \<Rightarrow> u32 set" where
  "pump_ids R = fst ` set (pumps R)"

abbreviation sock_ids :: "InputRelay \<Rightarrow> u32 set" where
  "sock_ids R \<equiv> sk_id ` set (socks R)"

definition opening_id :: "InputRelay \<Rightarrow> u32 set" where
  "opening_id R = {msg_id m |m. reader R = AtOpen m \<and> has_flag m INPUT_OPEN \<and> has_target R}"

text \<open>
  A step of a half other than \<open>attach\<close>: what it sends belongs to a stream that it has a pump for or
  that the current message is about, and it never announces a stream.
\<close>

definition steps_to :: "InputRelay \<Rightarrow> InputRelay \<Rightarrow> bool" where
  "steps_to R R' \<longleftrightarrow>
     (\<exists>ms. sent R' = sent R @ ms \<and>
        (\<forall>m \<in> set ms. \<not> has_flag m INPUT_OPEN \<and> msg_id m \<in> pump_ids R \<union> reader_ids R)) \<and>
     pump_ids R' \<subseteq> pump_ids R \<union> reader_ids R \<and>
     sock_ids R \<subseteq> sock_ids R' \<and> sock_ids R' \<subseteq> sock_ids R \<union> opening_id R \<and>
     has_target R' = has_target R \<and> attaching R' = attaching R \<and> next_id R' = next_id R \<and> attaches R' = attaches R"

lemma close_local_sock_ids [simp]: "sock_ids (close_local sid R) = sock_ids R"
  by (metis close_local_ids list.set_map)

lemma steps_to_close [simp]: "steps_to R (close_local sid R)"
  by (simp add: steps_to_def pump_ids_def)

lemma steps_to_reader:
  "steps_to R R' \<Longrightarrow> steps_to R (R'\<lparr>reader := st\<rparr>)" "steps_to R (R\<lparr>reader := st\<rparr>)"
  by (simp_all add: steps_to_def pump_ids_def)

lemma steps_to_send:
  "sid \<in> pump_ids R \<union> reader_ids R \<Longrightarrow> and fl INPUT_OPEN = 0 \<Longrightarrow> steps_to R (snd (relay_send works sid fl body R))"
  by (auto simp: steps_to_def relay_send_sent pump_ids_def)

lemma steps_to_spawn:
  "sid \<in> reader_ids R \<Longrightarrow> steps_to R (spawn_pump starts sid k R)"
  by (auto simp: spawn_pump_def) (auto simp: steps_to_def pump_ids_def)

lemma steps_to_write: "steps_to R (write_local works n m R)"
  by (auto simp: steps_to_def pump_ids_def write_local_def Let_def split: option.splits)

lemma steps_to_on_message: "steps_to R (on_message works n (reader R) R)"
proof (cases "reader R")
  case (AtOpen m)
  show ?thesis
  proof (cases "has_flag m INPUT_OPEN \<and> has_target R \<and> works")
    case True
    with AtOpen show ?thesis by (auto simp: steps_to_def pump_ids_def opening_id_def)
  next
    case False
    with AtOpen show ?thesis by (auto simp: steps_to_reader)
  qed
next
  case (AtSpawn m k)
  then show ?thesis by (simp add: steps_to_reader steps_to_spawn reader_ids_def)
next
  case (AtBody m)
  then show ?thesis by (simp add: steps_to_reader steps_to_write)
qed (auto simp: steps_to_reader steps_to_send reader_ids_def, simp add: steps_to_def pump_ids_def)

lemma set_pump_ids [simp]: "p < length (pumps R) \<Longrightarrow> pump_ids (set_pump p st R) = pump_ids R"
proof -
  assume p: "p < length (pumps R)"
  obtain sid k s0 where e: "pumps R ! p = (sid, k, s0)" by (cases "pumps R ! p")
  have "map fst ((pumps R)[p := (sid, k, st)]) = map fst (pumps R)"
    using p e by (simp add: map_update list_update_same_conv)
  then show ?thesis by (simp add: pump_ids_def set_pump_pumps [OF e]) (metis list.set_map)
qed

lemma steps_to_set_pump: "p < length (pumps R) \<Longrightarrow> steps_to R R' \<Longrightarrow> pumps R' = pumps R \<Longrightarrow> steps_to R (set_pump p st R')"
  by (simp add: steps_to_def)

lemma steps_to_refl [simp]: "steps_to R R"
  by (simp add: steps_to_def)

lemma pump_holding:
  "pump_step works bs p (sid, k, PumpHolding held) R =
     set_pump p (if fst (relay_send works sid 0 held R) then PumpLoop else PumpFinishing) (snd (relay_send works sid 0 held R))"
  by (simp split: prod.splits bool.splits)

lemma steps_to_pump_step:
  assumes "p < length (pumps R)"
  shows "steps_to R (pump_step works bs p (pumps R ! p) R)"
proof -
  obtain sid k st where p: "pumps R ! p = (sid, k, st)" by (cases "pumps R ! p")
  have sid: "sid \<in> pump_ids R" using p assms unfolding pump_ids_def by (metis fst_conv image_eqI nth_mem)
  show ?thesis
  proof (cases st)
    case PumpReading
    with p set_pump_ids [OF assms, unfolded pump_ids_def] show ?thesis
      by (simp add: steps_to_def pump_ids_def)
  next
    case (PumpHolding held)
    then show ?thesis using p assms sid by (simp add: pump_holding steps_to_set_pump steps_to_send del: pump_step.simps)
  next
    case PumpFinishing
    with p assms set_pump_ids [OF assms, unfolded pump_ids_def] show ?thesis
      by (auto simp: steps_to_set_pump split: option.splits) (simp add: steps_to_def pump_ids_def)
  next
    case PumpLeaving
    then show ?thesis using p assms sid by (simp add: steps_to_set_pump steps_to_send)
  qed (use p assms in \<open>simp_all add: steps_to_set_pump\<close>)
qed

lemma steps_to_half_step: "half_step peer R R' \<Longrightarrow> steps_to R R'"
  by (induction rule: half_step.induct)
    (auto simp: steps_to_on_message steps_to_pump_step, simp_all add: steps_to_def pump_ids_def)

section \<open>Reading the peer's log\<close>

lemma set_pump_reader: "p < length (pumps R) \<Longrightarrow>
    reader (pump_step works bs p (pumps R ! p) R) = reader R \<and> received (pump_step works bs p (pumps R ! p) R) = received R"
  using relay_send_fields(4,5) [of works "fst (pumps R ! p)" 0]
  by (cases "pumps R ! p"; cases "snd (snd (pumps R ! p))") (auto split: option.splits prod.splits bool.splits dest!: arg_cong [of _ _ snd])

lemma reading_half_step:
  assumes "half_step peer R R'" and "reading R peer"
  shows "reading R' peer"
  using assms
proof (induction rule: half_step.induct)
  case (handle R works n)
  have "received (on_message works n (reader R) R) = received R"
    by (cases "reader R") (auto simp: spawn_pump_def write_local_def Let_def split: option.splits)
  moreover have "reader_msg (reader (on_message works n (reader R) R)) \<in> {None, reader_msg (reader R)}"
    by (cases "reader R") (auto simp: write_local_def Let_def split: option.splits)
  ultimately show ?case using handle by (auto simp: reading_def)
qed (auto simp: reading_def set_pump_reader)

text \<open>
  What the peer's log must satisfy when a message is handled: an announced stream is new, and
  nothing was sent for it before.
\<close>

definition open_clean :: "InputRelay \<Rightarrow> Message list \<Rightarrow> bool" where
  "open_clean R peer \<longleftrightarrow> open_fresh R \<and>
     (\<forall>m. reader R = AtOpen m \<longrightarrow> has_flag m INPUT_OPEN \<longrightarrow>
        msg_body m = [] \<and> data_of (msg_id m) (take (received R) peer) = [])"

lemma arrives_reader:
  assumes "arrives R peer" and "\<And>sid. cutting (reader R) sid \<Longrightarrow> cutting st sid"
    and "\<And>sid. unwritten st sid = unwritten (reader R) sid"
  shows "arrives (R\<lparr>reader := st\<rparr>) peer"
  using assms by (intro arrives_quiet [OF assms(1)]) auto

lemma arrives_close_local:
  assumes "arrives R peer" and "\<And>s. s \<noteq> sid \<Longrightarrow> \<not> cutting st s \<Longrightarrow>
      \<not> cutting (reader R) s \<and> unwritten st s = unwritten (reader R) s"
  shows "arrives ((close_local sid R)\<lparr>reader := st\<rparr>) peer"
  using assms(2) by (intro arrives_quiet [OF assms(1)]) (auto split: if_splits)

lemma arrives_on_message:
  assumes "arrives R peer" and "table_ok R" and "open_clean R peer"
  shows "arrives (on_message works n (reader R) R) peer"
proof (cases "reader R")
  case (AtOpen m)
  have body: "msg_body m = []" "data_of (msg_id m) (take (received R) peer) = []" if "has_flag m INPUT_OPEN"
    using assms(3) AtOpen that by (auto simp: open_clean_def)
  show ?thesis
  proof (cases "has_flag m INPUT_OPEN \<and> has_target R \<and> works")
    case True
    then have "msg_id m \<notin> sock_ids R" using assms(3) AtOpen by (simp add: open_clean_def open_fresh_def)
    with True body AtOpen show ?thesis
      by (intro arrives_insert [OF assms(1), of "msg_id m"]) auto
  next
    case False
    then show ?thesis
      using AtOpen body by (cases "has_flag m INPUT_OPEN") (auto intro!: arrives_reader [OF assms(1)])
  qed
next
  case (AtSpawn m k)
  then show ?thesis
    by (cases "stop R \<or> \<not> works")
      (auto simp: spawn_pump_def intro!: arrives_close_local [OF assms(1)] arrives_quiet [OF assms(1)])
next
  case (AtBody m)
  then show ?thesis
    using arrives_write [OF assms(1,2) AtBody] by (auto intro!: arrives_reader [OF assms(1)])
next
  case (AtCut m)
  then show ?thesis by (auto intro!: arrives_close_local [OF assms(1)])
next
  case (AtClose m)
  then show ?thesis
    by (auto intro!: arrives_close_local [OF assms(1)] arrives_reader [OF assms(1)])
qed (auto intro!: arrives_quiet [OF assms(1)] simp: assms(1))

lemma pump_step_ids: "map sk_id (socks (pump_step works bs p pu R)) = map sk_id (socks R)"
proof (cases pu)
  case (fields sid k st)
  then show ?thesis
    by (cases st) (auto simp: pump_holding simp del: pump_step.simps(3) split: option.splits)
qed

lemma arrives_pump_step:
  assumes "arrives R peer" and "p < length (pumps R)"
  shows "arrives (pump_step works bs p (pumps R ! p) R) peer"
proof -
  obtain sid k st where p: "pumps R ! p = (sid, k, st)" by (cases "pumps R ! p")
  let ?R = "pump_step works bs p (sid, k, st) R"
  have "\<And>j. sk_out (socks ?R ! j) = sk_out (socks R ! j)" "map_of (streams ?R) \<subseteq>\<^sub>m map_of (streams R)"
    using relay_send_fields(1,2) [of works sid 0 "case st of PumpHolding held \<Rightarrow> held" R]
    by (cases st; auto simp: delete_conv' split: option.splits prod.splits bool.splits)+
  moreover note pump_step_ids [of works bs p "(sid, k, st)" R]
  ultimately show ?thesis using set_pump_reader [OF assms(2), of works bs] p
    by (intro arrives_quiet [OF assms(1)]) auto
qed

lemma arrives_half_step:
  assumes "half_step peer R R'" and "arrives R peer" and "table_ok R" and "open_clean R peer"
  shows "arrives R' peer"
  using assms
proof (induction rule: half_step.induct)
  case (shut_one R sid)
  then show ?case using arrives_close_local [of R peer sid "reader R"] by (simp add: arrives_def)
next
  case (stopping R)
  then show ?case by (simp add: arrives_def)
next
  case (receive R)
  then show ?case using arrives_receive [of R peer] by simp
qed (simp_all add: arrives_on_message arrives_pump_step del: on_message.simps)

lemma half_ok_half_step:
  assumes "half_step peer R R'" and "half_ok R" and "open_fresh R"
  shows "half_ok R'"
  using assms
proof (induction rule: half_step.induct)
  case (receive R)
  then show ?case by (intro half_ok_quiet [OF receive(3)]) (auto simp: starting_def)
next
  case (stopping R)
  then show ?case by (intro half_ok_quiet [OF stopping(1)]) (auto simp: starting_def)
qed (simp_all add: half_ok_on_message half_ok_pump_step half_ok_close_local)

section \<open>The bridge\<close>

definition opens :: "Message list \<Rightarrow> u32 set" where
  "opens ms = msg_id ` {m \<in> set ms. has_flag m INPUT_OPEN}"

lemma opens_simps [simp]:
  "opens [] = {}"
  "opens (ms @ ns) = opens ms \<union> opens ns"
  "opens (m # ms) = (if has_flag m INPUT_OPEN then {msg_id m} else {}) \<union> opens ms"
  by (auto simp: opens_def)

text \<open>Every stream in the log is announced first, once, and by an empty message.\<close>

definition announced :: "Message list \<Rightarrow> Message \<Rightarrow> bool" where
  "announced ms m \<longleftrightarrow>
     (if has_flag m INPUT_OPEN then msg_body m = [] \<and> msg_id m \<notin> msg_id ` set ms else msg_id m \<in> opens ms)"

definition log_ok :: "Message list \<Rightarrow> bool" where
  "log_ok ms \<longleftrightarrow> (\<forall>i < length ms. announced (take i ms) (ms ! i))"

lemma log_ok_Nil [simp]: "log_ok []"
  by (simp add: log_ok_def)

lemma log_ok_snoc [simp]: "log_ok (ms @ [m]) \<longleftrightarrow> log_ok ms \<and> announced ms m"
  by (auto simp: log_ok_def nth_append less_Suc_eq)

lemma opens_subset: "opens ms \<subseteq> msg_id ` set ms"
  by (auto simp: opens_def)

lemma log_ids: "log_ok ms \<Longrightarrow> msg_id ` set ms = opens ms"
  by (induction ms rule: rev_induct) (auto simp: announced_def)

lemma log_ok_append:
  assumes "log_ok ms" and "\<forall>m \<in> set ns. \<not> has_flag m INPUT_OPEN \<and> msg_id m \<in> opens ms"
  shows "log_ok (ms @ ns) \<and> opens (ms @ ns) = opens ms"
  using assms(2)
proof (induction ns rule: rev_induct)
  case (snoc n ns)
  then have "log_ok ((ms @ ns) @ [n])" using assms(1) unfolding log_ok_snoc by (auto simp: announced_def)
  with snoc show ?case by auto
qed (simp add: assms(1))

lemma no_data: "sid \<notin> msg_id ` set ms \<Longrightarrow> data_of sid ms = []"
  by (auto simp: data_of_def)

text \<open>The messages whose announcement the reader has dealt with.\<close>

definition handled :: "InputRelay \<Rightarrow> nat" where
  "handled R = (case reader R of AtOpen m \<Rightarrow> received R - 1 | _ \<Rightarrow> received R)"

definition sides_ok :: "InputRelay \<Rightarrow> InputRelay \<Rightarrow> bool" where
  "sides_ok I E \<longleftrightarrow>
     half_ok I \<and> half_ok E \<and> reading I (sent E) \<and> reading E (sent I) \<and> arrives I (sent E) \<and> arrives E (sent I)"

definition ids_ok :: "InputRelay \<Rightarrow> InputRelay \<Rightarrow> bool" where
  "ids_ok I E \<longleftrightarrow>
     \<not> has_target I \<and> has_target E \<and> attaching E = AttachIdle \<and>
     next_id I = of_nat (attaches I + 1) \<and> sock_ids I \<subseteq> of_nat ` {1..attaches I} \<and>
     sock_ids E \<subseteq> opens (take (handled E) (sent I))"

definition logs_ok :: "InputRelay \<Rightarrow> InputRelay \<Rightarrow> bool" where
  "logs_ok I E \<longleftrightarrow>
     log_ok (sent I) \<and> opens (sent I) \<subseteq> sock_ids I \<and> pump_ids I \<subseteq> opens (sent I) \<and>
     (\<forall>m \<in> set (sent E). \<not> has_flag m INPUT_OPEN \<and> msg_id m \<in> opens (sent I)) \<and>
     (\<forall>sid k. attaching I = AttachInserted sid k \<longrightarrow> sid \<notin> opens (sent I)) \<and>
     (\<forall>sid k. attaching I = AttachAnnounced sid k \<longrightarrow> sid \<in> opens (sent I))"

definition bridge_inv :: "Bridge \<Rightarrow> bool" where
  "bridge_inv b \<longleftrightarrow> sides_ok (ingress b) (egress b) \<and> ids_ok (ingress b) (egress b) \<and> logs_ok (ingress b) (egress b)"

lemmas bridge_inv_defs = bridge_inv_def sides_ok_def ids_ok_def logs_ok_def

lemma bridge_inv_new: "bridge_inv Bridge_new"
  by (simp add: bridge_inv_defs Bridge_new_def InputRelay_new_def half_ok_def table_ok_def pumps_ok_def
      reading_def arrives_def starting_def pump_socks_def pump_ids_def)

lemma half_ok_pump_ids: "half_ok R \<Longrightarrow> pump_ids R \<subseteq> sock_ids R"
  using pumps_okD(3) [of R] by (fastforce simp: half_ok_def pump_ids_def image_iff)

text \<open>The peer's log is as the reader needs it, on either side.\<close>

lemma open_clean_ingress: "reading I (sent E) \<Longrightarrow> logs_ok I E \<Longrightarrow> open_clean I (sent E)"
  using reading_member [of I "sent E"] by (auto simp: open_clean_def open_fresh_def logs_ok_def)

lemma open_clean_egress:
  assumes "reading E (sent I)" and "logs_ok I E" and "sock_ids E \<subseteq> opens (take (handled E) (sent I))"
  shows "open_clean E (sent I)"
  unfolding open_clean_def open_fresh_def
proof (intro conjI allI impI)
  fix m assume at: "reader E = AtOpen m" and flag: "has_flag m INPUT_OPEN"
  let ?n = "received E - 1"
  have n: "0 < received E" "?n < length (sent I)" "m = sent I ! ?n" using assms(1) at by (auto simp: reading_def)
  then have "announced (take ?n (sent I)) m" using assms(2) by (simp add: logs_ok_def log_ok_def)
  then have m: "msg_body m = []" "msg_id m \<notin> msg_id ` set (take ?n (sent I))"
    using flag by (simp_all add: announced_def)
  show "msg_id m \<notin> sock_ids E" using assms(3) at m(2) opens_subset [of "take ?n (sent I)"] by (auto simp: handled_def)
  show "msg_body m = []" by (rule m)
  have "data_of (msg_id m) (take (Suc ?n) (sent I)) = []"
    unfolding data_of_take_Suc [OF n(2)] using n(3) m(1) no_data [OF m(2)] by simp
  with n show "data_of (msg_id m) (take (received E) (sent I)) = []" by simp
qed

lemma handled_half_step:
  assumes "half_step peer R R'"
  shows "handled R \<le> handled R'" and "sock_ids R' = sock_ids R \<or> handled R' = received R"
proof -
  have "handled R \<le> handled R' \<and> (sock_ids R' = sock_ids R \<or> handled R' = received R)"
    using assms
  proof (induction rule: half_step.induct)
    case (handle R works n)
    have "received (on_message works n (reader R) R) = received R" "\<forall>m. reader (on_message works n (reader R) R) \<noteq> AtOpen m"
      using handle by (cases "reader R"; auto simp: spawn_pump_def write_local_def Let_def split: option.splits)+
    then have "handled (on_message works n (reader R) R) = received R" by (simp add: handled_def split: ReaderState.splits)
    then show ?case by (simp add: handled_def split: ReaderState.splits)
  next
    case (pump p R works bs)
    have "sock_ids (pump_step works bs p (pumps R ! p) R) = sock_ids R" by (metis pump_step_ids list.set_map)
    with set_pump_reader [OF pump, of works bs] show ?case by (simp add: handled_def split: ReaderState.splits)
  qed (auto simp: handled_def split: ReaderState.splits)
  then show "handled R \<le> handled R'" and "sock_ids R' = sock_ids R \<or> handled R' = received R" by auto
qed

lemma handled_received: "handled R \<le> received R"
  by (simp add: handled_def split: ReaderState.splits)

lemma opens_take_mono: "i \<le> j \<Longrightarrow> opens (take i ms) \<subseteq> opens (take j ms)"
  using set_take_subset_set_take [of i j ms] by (auto simp: opens_def)

lemma opens_take: "opens (take i ms) \<subseteq> opens ms"
  using set_take_subset [of i ms] by (auto simp: opens_def)

lemma reader_ids_ingress: "reading I (sent E) \<Longrightarrow> logs_ok I E \<Longrightarrow> reader_ids I \<subseteq> opens (sent I)"
  using reading_member [of I "sent E"] by (auto simp: reader_ids_def logs_ok_def)

lemma reader_ids_egress:
  assumes "reading E (sent I)" and "logs_ok I E"
  shows "reader_ids E \<subseteq> opens (sent I)"
proof -
  have "log_ok (sent I)" using assms(2) by (simp add: logs_ok_def)
  from log_ids [OF this] reading_member [OF assms(1)] show ?thesis by (auto simp: reader_ids_def)
qed

text \<open>What a longer ingress log leaves true of the egress half.\<close>

lemma egress_frame:
  assumes "bridge_inv b" and "sent I' = sent (ingress b) @ ms"
  shows "half_ok (egress b)" and "reading (egress b) (sent I')" and "arrives (egress b) (sent I')"
    and "sock_ids (egress b) \<subseteq> opens (take (handled (egress b)) (sent I'))"
    and "has_target (egress b)" and "attaching (egress b) = AttachIdle"
proof -
  have r: "reading (egress b) (sent (ingress b))" using assms(1) by (simp add: bridge_inv_defs)
  then have "handled (egress b) \<le> length (sent (ingress b))"
    using handled_received [of "egress b"] by (simp add: reading_def)
  then have "take (handled (egress b)) (sent I') = take (handled (egress b)) (sent (ingress b))" by (simp add: assms(2))
  then show "sock_ids (egress b) \<subseteq> opens (take (handled (egress b)) (sent I'))"
    using assms(1) by (simp add: bridge_inv_defs)
  show "half_ok (egress b)" "has_target (egress b)" "attaching (egress b) = AttachIdle"
    "reading (egress b) (sent I')" "arrives (egress b) (sent I')"
    using assms r reading_append arrives_append by (simp_all add: bridge_inv_defs)
qed

lemma bridge_inv_at_ingress:
  assumes inv: "bridge_inv b" and step: "half_step (sent (egress b)) (ingress b) I'"
  shows "bridge_inv (b\<lparr>ingress := I'\<rparr>)"
proof -
  let ?I = "ingress b" and ?E = "egress b"
  have old: "half_ok ?I" "reading ?I (sent ?E)" "arrives ?I (sent ?E)" "logs_ok ?I ?E" "ids_ok ?I ?E"
    using inv by (simp_all add: bridge_inv_def sides_ok_def)
  have clean: "open_clean ?I (sent ?E)" using old open_clean_ingress by blast
  obtain ms where ms: "sent I' = sent ?I @ ms"
      "\<forall>m \<in> set ms. \<not> has_flag m INPUT_OPEN \<and> msg_id m \<in> pump_ids ?I \<union> reader_ids ?I"
    and st: "pump_ids I' \<subseteq> pump_ids ?I \<union> reader_ids ?I" "sock_ids ?I \<subseteq> sock_ids I'" "sock_ids I' \<subseteq> sock_ids ?I"
      "has_target I' = has_target ?I" "attaching I' = attaching ?I" "next_id I' = next_id ?I" "attaches I' = attaches ?I"
    using steps_to_half_step [OF step] old(5) by (auto simp: steps_to_def opening_id_def ids_ok_def)
  have ids: "pump_ids ?I \<union> reader_ids ?I \<subseteq> opens (sent ?I)"
    using reader_ids_ingress [OF old(2,4)] old(4) by (auto simp: logs_ok_def)
  then have log: "log_ok (sent I') \<and> opens (sent I') = opens (sent ?I)"
    unfolding ms(1) using ms(2) old(4) by (intro log_ok_append) (auto simp: logs_ok_def)
  note E = egress_frame [OF inv ms(1)]
  have "sides_ok I' ?E"
    using half_ok_half_step [OF step old(1)] reading_half_step [OF step old(2)]
      arrives_half_step [OF step old(3) _ clean] clean old(1) E by (simp add: sides_ok_def open_clean_def half_ok_def)
  moreover have "ids_ok I' ?E" using old(5) st E by (auto simp: ids_ok_def)
  moreover have "logs_ok I' ?E" using old(4) st ids log by (auto simp: logs_ok_def)
  ultimately show ?thesis by (simp add: bridge_inv_def)
qed

lemma bridge_inv_at_egress:
  assumes inv: "bridge_inv b" and step: "half_step (sent (ingress b)) (egress b) E'"
  shows "bridge_inv (b\<lparr>egress := E'\<rparr>)"
proof -
  let ?I = "ingress b" and ?E = "egress b"
  have old: "half_ok ?E" "reading ?E (sent ?I)" "arrives ?E (sent ?I)" "logs_ok ?I ?E" "ids_ok ?I ?E"
    "reading ?I (sent ?E)" "arrives ?I (sent ?E)" "half_ok ?I"
    using inv by (simp_all add: bridge_inv_def sides_ok_def)
  have socks: "sock_ids ?E \<subseteq> opens (take (handled ?E) (sent ?I))" using old(5) by (simp add: ids_ok_def)
  have clean: "open_clean ?E (sent ?I)" using old socks open_clean_egress by blast
  obtain ms where ms: "sent E' = sent ?E @ ms"
      "\<forall>m \<in> set ms. \<not> has_flag m INPUT_OPEN \<and> msg_id m \<in> pump_ids ?E \<union> reader_ids ?E"
    and st: "sock_ids E' \<subseteq> sock_ids ?E \<union> opening_id ?E" "has_target E' = has_target ?E" "attaching E' = attaching ?E"
    using steps_to_half_step [OF step] by (auto simp: steps_to_def)
  have ids: "pump_ids ?E \<union> reader_ids ?E \<subseteq> opens (sent ?I)"
    using reader_ids_egress [OF old(2,4)] half_ok_pump_ids [OF old(1)] socks opens_take by blast
  have opened: "opening_id ?E \<subseteq> opens (take (received ?E) (sent ?I))"
    using reading_take [OF old(2)] by (auto simp: opening_id_def opens_def)
  have "sock_ids E' \<subseteq> opens (take (handled E') (sent ?I))"
    using handled_half_step(2) [OF step]
  proof
    assume "sock_ids E' = sock_ids ?E"
    then show ?thesis using opens_take_mono [OF handled_half_step(1) [OF step], of "sent ?I"] socks by simp
  next
    assume h: "handled E' = received ?E"
    have "sock_ids ?E \<subseteq> opens (take (received ?E) (sent ?I))"
      using socks opens_take_mono [OF handled_received [of ?E], of "sent ?I"] by (rule subset_trans)
    from subset_trans [OF st(1) Un_least [OF this opened]] show ?thesis unfolding h .
  qed
  then have "ids_ok ?I E'" using old(5) st by (simp add: ids_ok_def)
  moreover have "sides_ok ?I E'"
    using half_ok_half_step [OF step old(1)] reading_half_step [OF step old(2)]
      arrives_half_step [OF step old(3) _ clean] clean old reading_append [OF old(6)] arrives_append [OF old(6,7)]
    by (simp add: sides_ok_def open_clean_def half_ok_def ms(1))
  moreover have "logs_ok ?I E'" using old(4) ms ids by (auto simp: logs_ok_def)
  ultimately show ?thesis by (simp add: bridge_inv_def)
qed

text \<open>The ids of \<open>2 ^ 32\<close> connections are distinct.\<close>

lemma next_id_fresh:
  assumes "ids_ok I E" and "attaches I < 2 ^ 32"
  shows "next_id I \<notin> sock_ids I"
proof
  assume "next_id I \<in> sock_ids I"
  then have "(of_nat (attaches I + 1) :: u32) \<in> of_nat ` {1..attaches I}"
    using assms(1) unfolding ids_ok_def by (metis subsetD)
  then obtain n where n: "1 \<le> n" "n \<le> attaches I" "(of_nat (attaches I + 1) :: u32) = of_nat n"
    by (metis atLeastAtMost_iff imageE)
  then have "unat (of_nat (attaches I + 1) :: u32) = unat (of_nat n :: u32)" by simp
  then have "(attaches I + 1) mod 2 ^ 32 = n mod 2 ^ 32" unfolding unat_of_nat by simp
  with n(1,2) assms(2) show False by (cases "attaches I + 1 = 2 ^ 32") (auto simp: mod_less)
qed

lemma half_ok_attach:
  assumes "half_ok R" and "attaching R = AttachIdle" and "next_id R \<notin> sock_ids R"
  shows "half_ok (attach_insert works R)"
proof (cases works)
  case True
  let ?R = "attach_insert works R"
  have R: "socks ?R = socks R @ [\<lparr>sk_id = next_id R, sk_in = [], sk_out = [], sk_shut = False\<rparr>]"
    "pumps ?R = pumps R" "sent ?R = sent R" "starting ?R = [] @ (next_id R, length (socks R)) # reader_sock (reader R)"
    "map_of (streams ?R) = (map_of (streams R))(next_id R \<mapsto> length (socks R))"
    using True by (simp_all add: attach_insert_def Let_def starting_def)
  have "table_ok (relay_insert (next_id R) R)" using assms by (simp add: half_ok_def table_ok_insert)
  then have "table_ok ?R" unfolding table_ok_def R by simp
  moreover have "pumps_ok ?R"
    by (rule pumps_ok_insert [OF _ assms(3) R(2,3,1) _ R(4)])
      (use assms in \<open>simp_all add: half_ok_def starting_def\<close>)
  ultimately show ?thesis by (simp add: half_ok_def)
next
  case False
  with assms show ?thesis by (auto simp: attach_insert_def Let_def starting_def intro!: half_ok_quiet [OF assms(1)])
qed

lemma attach_insert_fields:
  "sent (attach_insert works R) = sent R" "reader (attach_insert works R) = reader R"
  "received (attach_insert works R) = received R" "pumps (attach_insert works R) = pumps R"
  "has_target (attach_insert works R) = has_target R"
  "next_id (attach_insert works R) = next_id R + 1" "attaches (attach_insert works R) = attaches R + 1"
  "attaching (attach_insert works R) = (if works then AttachInserted (next_id R) (length (socks R)) else attaching R)"
  "sock_ids (attach_insert works R) = (if works then insert (next_id R) (sock_ids R) else sock_ids R)"
  by (auto simp: attach_insert_def Let_def)

lemma arrives_attach:
  assumes "arrives R peer" and "next_id R \<notin> sock_ids R" and "next_id R \<notin> msg_id ` set peer" and "reading R peer"
  shows "arrives (attach_insert works R) peer"
proof (cases works)
  case True
  have "data_of (next_id R) (take (received R) peer) = []"
    using assms(3) set_take_subset [of "received R" peer] by (intro no_data) blast
  moreover have "unwritten (reader R) (next_id R) = []"
    using assms(3) reading_member [OF assms(4)] by (cases "reader R") (auto simp: image_iff)
  ultimately show ?thesis
    by (intro arrives_insert [OF assms(1) _ assms(2)]) (simp_all add: True attach_insert_def Let_def)
next
  case False
  with assms(1) show ?thesis by (simp add: attach_insert_def Let_def arrives_def)
qed

lemma bridge_inv_accept:
  assumes inv: "bridge_inv b" and idle: "attaching (ingress b) = AttachIdle" and few: "attaches (ingress b) < 2 ^ 32"
  shows "bridge_inv (b\<lparr>ingress := attach_insert works (ingress b)\<rparr>)"
proof -
  let ?I = "ingress b" and ?E = "egress b" and ?J = "attach_insert works (ingress b)"
  have old: "half_ok ?I" "reading ?I (sent ?E)" "arrives ?I (sent ?E)" "logs_ok ?I ?E" "ids_ok ?I ?E"
    using inv by (simp_all add: bridge_inv_def sides_ok_def)
  have new: "next_id ?I \<notin> sock_ids ?I" by (rule next_id_fresh [OF old(5) few])
  then have "next_id ?I \<notin> opens (sent ?I)" "next_id ?I \<notin> msg_id ` set (sent ?E)"
    using old(4) by (auto simp: logs_ok_def)
  note E = egress_frame [OF inv, of ?J "[]", unfolded append_Nil2 attach_insert_fields(1), OF refl]
  have "sides_ok ?J ?E"
    using half_ok_attach [OF old(1) idle new] arrives_attach [OF old(3) new _ old(2)] old(2) E
      \<open>next_id ?I \<notin> msg_id ` set (sent ?E)\<close>
    by (simp add: sides_ok_def reading_def attach_insert_fields)
  moreover have "ids_ok ?J ?E"
  proof -
    have "next_id ?I \<in> of_nat ` {1..attaches ?J}" using old(5)
      by (auto simp: ids_ok_def attach_insert_fields intro!: image_eqI [of _ _ "attaches ?I + 1"])
    moreover have "sock_ids ?I \<subseteq> of_nat ` {1..attaches ?J}"
      using old(5) unfolding ids_ok_def attach_insert_fields by (auto intro: order_trans [OF _ image_mono])
    ultimately show ?thesis using old(5) E by (simp add: ids_ok_def attach_insert_fields)
  qed
  moreover have "logs_ok ?J ?E"
    using old(4) idle \<open>next_id ?I \<notin> opens (sent ?I)\<close>
    by (auto simp: logs_ok_def attach_insert_fields pump_ids_def split: if_splits)
  ultimately show ?thesis by (simp add: bridge_inv_def)
qed

text \<open>A step of \<open>attach\<close> after the registration: the log may have got the announcement.\<close>

lemma bridge_inv_attach_rest:
  assumes inv: "bridge_inv b" and half: "half_ok I'" and "map sk_id (socks I') = map sk_id (socks (ingress b))"
    and "\<And>k. k < length (socks (ingress b)) \<Longrightarrow> sk_out (socks I' ! k) = sk_out (socks (ingress b) ! k)"
    and "map_of (streams I') \<subseteq>\<^sub>m map_of (streams (ingress b))"
    and "reader I' = reader (ingress b)" and "received I' = received (ingress b)"
    and "has_target I' = has_target (ingress b)" and "next_id I' = next_id (ingress b)" and "attaches I' = attaches (ingress b)"
    and "sent I' = sent (ingress b) @ ms" and logs: "logs_ok I' (egress b)"
  shows "bridge_inv (b\<lparr>ingress := I'\<rparr>)"
proof -
  let ?I = "ingress b" and ?E = "egress b"
  have old: "reading ?I (sent ?E)" "arrives ?I (sent ?E)" "ids_ok ?I ?E"
    using inv by (simp_all add: bridge_inv_def sides_ok_def)
  note E = egress_frame [OF inv assms(11)]
  have "arrives I' (sent ?E)"
    using assms(3-7) by (intro arrives_quiet [OF old(2)]) auto
  then have "sides_ok I' ?E" using half old(1) assms(6,7) E by (simp add: sides_ok_def reading_def)
  moreover have "ids_ok I' ?E" using old(3) assms(8-10) ids_same(3) [OF assms(3)] E by (simp add: ids_ok_def)
  ultimately show ?thesis using logs by (simp add: bridge_inv_def)
qed

lemma half_ok_attaching:
  "half_ok R \<Longrightarrow> attach_sock st = attach_sock (attaching R) \<Longrightarrow> half_ok (R\<lparr>attaching := st\<rparr>)"
  by (rule half_ok_quiet) (auto simp: starting_def)

lemma half_ok_attach_end:
  "half_ok R \<Longrightarrow> attaching R' = AttachIdle \<Longrightarrow> R' = (close_local sid R)\<lparr>attaching := AttachIdle\<rparr> \<Longrightarrow> half_ok R'"
  by (rule half_ok_same [of R _ "[]" "attach_sock (attaching R)" "reader_sock (reader R)"]) (auto simp: starting_def)

lemma attach_announce_eq:
  "attach_announce works sid k R =
     (let r = relay_send works sid INPUT_OPEN [] R in
      if fst r then (snd r)\<lparr>attaching := AttachAnnounced sid k\<rparr> else (close_local sid (snd r))\<lparr>attaching := AttachIdle\<rparr>)"
  by (simp add: attach_announce_def split: prod.splits bool.splits)

lemma bridge_inv_announce:
  assumes inv: "bridge_inv b" and ins: "attaching (ingress b) = AttachInserted sid k"
  shows "bridge_inv (b\<lparr>ingress := attach_announce works sid k (ingress b)\<rparr>)"
proof -
  let ?I = "ingress b" and ?E = "egress b"
  let ?S = "snd (relay_send works sid INPUT_OPEN [] ?I)"
  have old: "half_ok ?I" "logs_ok ?I ?E" using inv by (simp_all add: bridge_inv_def sides_ok_def)
  have sid: "sid \<in> sock_ids ?I"
    using pumps_okD(2) [of ?I sid k] old(1) ins unfolding half_ok_def starting_def
    by (metis append_Cons attach_sock.simps(2) image_eqI list.set_intros(1) nth_mem)
  have S: "half_ok ?S" by (rule half_ok_send_empty [OF old(1)])
  show ?thesis
  proof (cases "fst (relay_send works sid INPUT_OPEN [] ?I)")
    case True
    then have def_: "attach_announce works sid k ?I = ?S\<lparr>attaching := AttachAnnounced sid k\<rparr>"
      by (simp add: attach_announce_eq)
    have snt: "sent ?S = sent ?I @ [relay_message sid INPUT_OPEN [] (seq ?I)]" using True by (simp add: relay_send_sent)
    have log: "log_ok (sent ?I)" "sid \<notin> opens (sent ?I)" using old(2) ins by (auto simp: logs_ok_def)
    then have "log_ok (sent ?S)" by (simp add: snt announced_def log_ids)
    then have "logs_ok (?S\<lparr>attaching := AttachAnnounced sid k\<rparr>) ?E"
      using old(2) sid by (auto simp: logs_ok_def snt pump_ids_def)
    moreover have "half_ok (?S\<lparr>attaching := AttachAnnounced sid k\<rparr>)" by (rule half_ok_attaching [OF S]) (simp add: ins)
    ultimately show ?thesis unfolding def_
      by (intro bridge_inv_attach_rest [OF inv, where ms = "[relay_message sid INPUT_OPEN [] (seq ?I)]"])
        (simp_all add: snt)
  next
    case False
    then have def_: "attach_announce works sid k ?I = (close_local sid ?S)\<lparr>attaching := AttachIdle\<rparr>"
      by (simp add: attach_announce_eq)
    have snt: "sent ?S = sent ?I" using False by (simp add: relay_send_sent)
    have "logs_ok ((close_local sid ?S)\<lparr>attaching := AttachIdle\<rparr>) ?E"
      using old(2) by (simp add: logs_ok_def snt pump_ids_def)
    moreover have "half_ok ((close_local sid ?S)\<lparr>attaching := AttachIdle\<rparr>)"
      by (rule half_ok_attach_end [OF S _ refl]) simp
    ultimately show ?thesis unfolding def_
      by (intro bridge_inv_attach_rest [OF inv, where ms = "[]"]) (simp_all add: snt)
  qed
qed

lemma half_ok_attach_spawn:
  assumes "half_ok R" and "attaching R = AttachAnnounced sid k"
  shows "half_ok (attach_spawn starts sid k R)"
proof (cases "stop R \<or> \<not> starts")
  case True
  then show ?thesis by (intro half_ok_attach_end [OF assms(1)]) (auto simp: attach_spawn_def spawn_pump_def)
next
  case False
  with assms show ?thesis
    by (auto simp: half_ok_def attach_spawn_def spawn_pump_def starting_def table_ok_def
        intro!: pumps_ok_spawn [of R _ sid k "[]" "reader_sock (reader R)"])
qed

lemma bridge_inv_start:
  assumes inv: "bridge_inv b" and ann: "attaching (ingress b) = AttachAnnounced sid k"
  shows "bridge_inv (b\<lparr>ingress := attach_spawn starts sid k (ingress b)\<rparr>)"
proof -
  let ?I = "ingress b" and ?E = "egress b" and ?J = "attach_spawn starts sid k (ingress b)"
  have old: "half_ok ?I" "logs_ok ?I ?E" using inv by (simp_all add: bridge_inv_def sides_ok_def)
  have "sid \<in> opens (sent ?I)" using old(2) ann by (simp add: logs_ok_def)
  then have "logs_ok ?J ?E" using old(2)
    by (auto simp: logs_ok_def attach_spawn_def spawn_pump_def pump_ids_def)
  with half_ok_attach_spawn [OF old(1) ann, of starts] show ?thesis
    by (intro bridge_inv_attach_rest [OF inv, where ms = "[]"]) (auto simp: attach_spawn_def spawn_pump_def)
qed

lemma bridge_inv_step:
  assumes "bridge_step b c" and "bridge_inv b" and "attaches (ingress c) \<le> 2 ^ 32"
  shows "bridge_inv c"
  using assms
proof (induction rule: bridge_step.induct)
  case (accept b works)
  then show ?case by (intro bridge_inv_accept) (simp_all add: attach_insert_fields)
qed (simp_all add: bridge_inv_at_ingress bridge_inv_at_egress bridge_inv_announce bridge_inv_start)

lemma bridge_step_attaches: "bridge_step b c \<Longrightarrow> attaches (ingress b) \<le> attaches (ingress c)"
proof (induction rule: bridge_step.induct)
  case (at_ingress b R)
  then show ?case using steps_to_half_step by (auto simp: steps_to_def)
next
  case (announce b sid k works)
  have "attaches (attach_announce works sid k (ingress b)) = attaches (ingress b)"
    by (simp add: attach_announce_eq Let_def)
  then show ?case by simp
qed (simp_all add: attach_insert_fields attach_spawn_def spawn_pump_def)

lemma bridge_run_inv: "bridge_run b \<Longrightarrow> attaches (ingress b) \<le> 2 ^ 32 \<Longrightarrow> bridge_inv b"
proof (induction rule: bridge_run.induct)
  case (step b c)
  then show ?case using bridge_inv_step [OF step(2)] bridge_step_attaches [OF step(2)] by simp
qed (rule bridge_inv_new)

section \<open>Delivery\<close>

text \<open>
  What the socket \<open>j\<close> of \<open>R\<close> has been given is what came in at the socket \<open>i\<close> of \<open>S\<close>, up to
  where the relay has got.  Everything has arrived when the sender's pump holds nothing, the receiver
  has handled the whole log and the stream is still open there.
\<close>

definition caught_up :: "InputRelay \<Rightarrow> nat \<Rightarrow> InputRelay \<Rightarrow> nat \<Rightarrow> bool" where
  "caught_up S i R j \<longleftrightarrow>
     (\<exists>st \<in> {PumpLoop, PumpReading}. (sk_id (socks S ! i), i, st) \<in> set (pumps S)) \<and>
     map_of (streams R) (sk_id (socks R ! j)) = Some j \<and> reader R = ReaderIdle \<and> received R = length (sent S)"

lemma delivered:
  assumes "half_ok S" and "arrives R (sent S)" and "i < length (socks S)" and "j < length (socks R)"
    and "sk_id (socks S ! i) = sk_id (socks R ! j)"
  shows "prefix (sk_out (socks R ! j)) (sk_in (socks S ! i))"
    and "caught_up S i R j \<Longrightarrow> sk_out (socks R ! j) = sk_in (socks S ! i)"
proof -
  let ?id = "sk_id (socks R ! j)"
  note ok = pumps_okD [of S]
  have S: "pumps_ok S" using assms(1) by (simp add: half_ok_def)
  have "prefix (data_of ?id (sent S)) (sk_in (socks S ! i))"
  proof (cases "i \<in> set (pump_socks S)")
    case True
    then obtain sid st where pu: "(sid, i, st) \<in> set (pumps S)" by (auto simp: pump_socks_def)
    show ?thesis using ok(3) [OF S pu] assms(5) by (auto dest: pump_data_prefix)
  next
    case False
    then show ?thesis using ok(4) [OF S assms(3)] assms(5) by simp
  qed
  then show "prefix (sk_out (socks R ! j)) (sk_in (socks S ! i))"
    using arrivesD(1) [OF assms(2,4)] data_of_prefix [of ?id "received R" "sent S"] by (meson prefix_order.trans)
  assume up: "caught_up S i R j"
  then obtain st where pu: "st \<in> {PumpLoop, PumpReading}" "(?id, i, st) \<in> set (pumps S)"
    using assms(5) unfolding caught_up_def by metis
  then have "data_of ?id (sent S) = sk_in (socks S ! i)" using ok(3) [OF S pu(2)] by auto
  moreover have "sk_out (socks R ! j) = data_of ?id (sent S)"
    using arrivesD(2) [OF assms(2,4)] up by (simp add: caught_up_def)
  ultimately show "sk_out (socks R ! j) = sk_in (socks S ! i)" by simp
qed

text \<open>
  C38: However the threads of both halves interleave and whatever fails, every connection that the
  egress half has opened to the executor belongs to exactly one connection of a controller, and in
  each direction the bytes written to one are a prefix of the bytes read from the other: nothing is
  duplicated, reordered, or carried over from another stream, and nothing is missing once the sender
  holds no bytes and the receiver, with the stream still open, has handled everything sent.  (For the
  first \<open>2 ^ 32\<close> connections, after which the ids repeat.)
\<close>

theorem relay_carries_each_stream:
  assumes "bridge_run b" and "attaches (ingress b) \<le> 2 ^ 32" and "j < length (socks (egress b))"
  shows "\<exists>i. (\<forall>k. k < length (socks (ingress b)) \<and> sk_id (socks (ingress b) ! k) = sk_id (socks (egress b) ! j) \<longleftrightarrow> k = i) \<and>
      prefix (sk_out (socks (egress b) ! j)) (sk_in (socks (ingress b) ! i)) \<and>
      prefix (sk_out (socks (ingress b) ! i)) (sk_in (socks (egress b) ! j)) \<and>
      (caught_up (ingress b) i (egress b) j \<longrightarrow> sk_out (socks (egress b) ! j) = sk_in (socks (ingress b) ! i)) \<and>
      (caught_up (egress b) j (ingress b) i \<longrightarrow> sk_out (socks (ingress b) ! i) = sk_in (socks (egress b) ! j))"
proof -
  let ?I = "ingress b" and ?E = "egress b"
  have inv: "bridge_inv b" by (rule bridge_run_inv [OF assms(1,2)])
  have ok: "half_ok ?I" "half_ok ?E" "arrives ?I (sent ?E)" "arrives ?E (sent ?I)"
    using inv by (simp_all add: bridge_inv_defs)
  have "sock_ids ?E \<subseteq> opens (sent ?I)" "opens (sent ?I) \<subseteq> sock_ids ?I"
    using inv opens_take [of "handled ?E" "sent ?I"] by (auto simp: bridge_inv_def ids_ok_def logs_ok_def)
  then have "sk_id (socks ?E ! j) \<in> sock_ids ?I" using assms(3) by (meson image_eqI nth_mem subsetD)
  then obtain i where i: "i < length (socks ?I)" "sk_id (socks ?I ! i) = sk_id (socks ?E ! j)"
    by (metis image_iff in_set_conv_nth)
  have "k < length (socks ?I) \<and> sk_id (socks ?I ! k) = sk_id (socks ?E ! j) \<longleftrightarrow> k = i" for k
    using i table_ok_inj [of ?I k i] ok(1) by (auto simp: half_ok_def)
  with delivered [OF ok(1,4) i(1) assms(3) i(2)] delivered [OF ok(2,3) assms(3) i(1) i(2) [symmetric]]
  show ?thesis by blast
qed

text \<open>A schedule: steps that can be taken are, the others are skipped.\<close>

datatype Action =
    Accept | Announce | Start | Receive bool | Handle bool | Pump bool nat "u8 list"

fun half_do :: "Action \<Rightarrow> Message list \<Rightarrow> InputRelay \<Rightarrow> InputRelay" where
  "half_do (Receive _) peer R =
     (if reader R = ReaderIdle \<and> received R < length peer
      then R\<lparr>reader := AtOpen (peer ! received R), received := received R + 1\<rparr> else R\<lparr>stop := True\<rparr>)"
| "half_do (Handle _) peer R = (if reader R \<noteq> ReaderIdle then on_message True 0 (reader R) R else R\<lparr>stop := True\<rparr>)"
| "half_do (Pump _ p bs) peer R =
     (if p < length (pumps R) then pump_step True bs p (pumps R ! p) R else R\<lparr>stop := True\<rparr>)"
| "half_do _ peer R = R\<lparr>stop := True\<rparr>"

lemma half_do_step: "half_step peer R (half_do a peer R)"
  using half_step.receive [of R peer] by (cases a) (auto intro: half_step.intros simp del: on_message.simps)

fun bridge_do :: "Action \<Rightarrow> Bridge \<Rightarrow> Bridge" where
  "bridge_do Accept b = (if attaching (ingress b) = AttachIdle then b\<lparr>ingress := attach_insert True (ingress b)\<rparr> else b)"
| "bridge_do Announce b = (case attaching (ingress b) of
     AttachInserted sid k \<Rightarrow> b\<lparr>ingress := attach_announce True sid k (ingress b)\<rparr> | _ \<Rightarrow> b)"
| "bridge_do Start b = (case attaching (ingress b) of
     AttachAnnounced sid k \<Rightarrow> b\<lparr>ingress := attach_spawn True sid k (ingress b)\<rparr> | _ \<Rightarrow> b)"
| "bridge_do (Receive i) b = (if i then b\<lparr>ingress := half_do (Receive i) (sent (egress b)) (ingress b)\<rparr>
     else b\<lparr>egress := half_do (Receive i) (sent (ingress b)) (egress b)\<rparr>)"
| "bridge_do (Handle i) b = (if i then b\<lparr>ingress := half_do (Handle i) (sent (egress b)) (ingress b)\<rparr>
     else b\<lparr>egress := half_do (Handle i) (sent (ingress b)) (egress b)\<rparr>)"
| "bridge_do (Pump i p bs) b = (if i then b\<lparr>ingress := half_do (Pump i p bs) (sent (egress b)) (ingress b)\<rparr>
     else b\<lparr>egress := half_do (Pump i p bs) (sent (ingress b)) (egress b)\<rparr>)"

lemma bridge_do_run: "bridge_run b \<Longrightarrow> bridge_run (bridge_do a b)"
  by (cases a)
    (auto split: AttachState.splits intro: bridge_run.step bridge_step.intros half_do_step simp del: half_do.simps)

lemma schedule_run: "bridge_run (fold bridge_do as Bridge_new)"
proof -
  have "bridge_run b \<Longrightarrow> bridge_run (fold bridge_do as b)" for b
    by (induction as arbitrary: b) (simp_all add: bridge_do_run del: bridge_do.simps)
  then show ?thesis using bridge_run.fresh .
qed

text \<open>Two controllers; the second sends three bytes, and the executor answers with one.\<close>

definition two_controllers :: "Action list" where
  "two_controllers =
     [Accept, Announce, Start, Accept, Announce, Start,
      Pump True 1 [], Pump True 1 [7, 8, 9], Pump True 1 [],
      Receive False, Handle False, Handle False, Handle False, Handle False,
      Receive False, Handle False, Handle False, Handle False, Handle False,
      Receive False, Handle False, Handle False, Handle False,
      Pump False 1 [], Pump False 1 [5], Pump False 1 [],
      Receive True, Handle True, Handle True, Handle True]"

definition busy_bridge :: Bridge where
  "busy_bridge = fold bridge_do two_controllers Bridge_new"

lemmas bridge_eval =
  Bridge_new_def InputRelay_new_def attach_insert_def attach_announce_def attach_spawn_def spawn_pump_def relay_insert_def
  relay_send_def set_pump_def write_local_def Let_def CHUNK_def INPUT_OPEN_def INPUT_CLOSE_def relay_message_def
  msg_id_def has_flag_def

theorem relay_carries_each_stream_witness:
  "bridge_run busy_bridge \<and> attaches (ingress busy_bridge) \<le> 2 ^ 32 \<and> 1 < length (socks (egress busy_bridge)) \<and>
   sk_out (socks (egress busy_bridge) ! 1) = [7, 8, 9] \<and> sk_out (socks (ingress busy_bridge) ! 1) = [5] \<and>
   caught_up (ingress busy_bridge) 1 (egress busy_bridge) 1 \<and>
   (\<exists>i. prefix (sk_out (socks (egress busy_bridge) ! 1)) (sk_in (socks (ingress busy_bridge) ! i)))"
proof -
  have run: "bridge_run busy_bridge" unfolding busy_bridge_def by (rule schedule_run)
  have few: "attaches (ingress busy_bridge) \<le> 2 ^ 32" by (simp add: busy_bridge_def two_controllers_def bridge_eval)
  have j: "1 < length (socks (egress busy_bridge))" by (simp add: busy_bridge_def two_controllers_def bridge_eval)
  have outs: "sk_out (socks (egress busy_bridge) ! 1) = [7, 8, 9]" "sk_out (socks (ingress busy_bridge) ! 1) = [5]"
    "caught_up (ingress busy_bridge) 1 (egress busy_bridge) 1"
    by (simp_all add: busy_bridge_def two_controllers_def bridge_eval caught_up_def)
  from relay_carries_each_stream [OF run few j] run few j outs show ?thesis by blast
qed

end
