(* ===== verification/Bridge_Clock.thy ===== *)
theory Bridge_Clock
  imports F64
begin

text \<open>
  The clock estimator of the bridge (\<open>jackstay-bridge/src/clock.rs\<close>): four-timestamp exchanges,
  the window of samples, the choice of the samples with the shortest round trips, and the
  least-squares fit in \<open>f64\<close>.  \<open>u64\<close> values are words; the \<open>i128\<close> intermediate values never
  leave their range and are integers; \<open>i64\<close> results are integers within the range of the type.
\<close>

section \<open>Conversions\<close>

definition I64_MAX :: int where
  "I64_MAX = 2 ^ 63 - 1"

definition I64_MIN :: int where
  "I64_MIN = - (2 ^ 63)"

definition i64_try_from :: "int \<Rightarrow> int option" where
  "i64_try_from v = (if I64_MIN \<le> v \<and> v \<le> I64_MAX then Some v else None)"

definition u64_try_from :: "int \<Rightarrow> u64 option" where
  "u64_try_from v = (if 0 \<le> v \<and> v < 2 ^ 64 then Some (of_int v) else None)"

definition saturating_sub :: "u64 \<Rightarrow> u64 \<Rightarrow> u64" where
  "saturating_sub a b = (if b \<le> a then a - b else 0)"

text \<open>Division of \<open>i128\<close> values rounds towards zero.\<close>

definition int_quot :: "int \<Rightarrow> int \<Rightarrow> int" where
  "int_quot a b = sgn a * sgn b * (\<bar>a\<bar> div \<bar>b\<bar>)"

text \<open>\<open>as f64\<close> rounds; \<open>as i64\<close> truncates, saturates and maps NaN to zero; \<open>f64::round\<close> rounds half
  away from zero.\<close>

definition f64_of_int :: "int \<Rightarrow> f64" where
  "f64_of_int n = round64 (of_int n)"

fun f64_abs :: "f64 \<Rightarrow> f64" where
  "f64_abs (Finite q) = Finite \<bar>q\<bar>"
| "f64_abs (Infinity s) = Infinity False"
| "f64_abs NaN = NaN"

fun f64_round :: "f64 \<Rightarrow> f64" where
  "f64_round (Finite q) = Finite (of_int (if 0 \<le> q then \<lfloor>q + 1 / 2\<rfloor> else \<lceil>q - 1 / 2\<rceil>))"
| "f64_round x = x"

fun f64_as_i64 :: "f64 \<Rightarrow> int" where
  "f64_as_i64 (Finite q) =
     (let t = (if 0 \<le> q then \<lfloor>q\<rfloor> else \<lceil>q\<rceil>) in if t < I64_MIN then I64_MIN else if I64_MAX < t then I64_MAX else t)"
| "f64_as_i64 (Infinity s) = (if s then I64_MIN else I64_MAX)"
| "f64_as_i64 NaN = 0"

section \<open>Samples\<close>

record Sample =
  sample_t1 :: u64
  sample_t2 :: u64
  sample_t3 :: u64
  sample_t4 :: u64

definition rtt_ns :: "Sample \<Rightarrow> u64" where
  "rtt_ns s =
     saturating_sub (saturating_sub (sample_t4 s) (sample_t1 s)) (saturating_sub (sample_t3 s) (sample_t2 s))"

definition remote_minus_local_ns :: "Sample \<Rightarrow> int" where
  "remote_minus_local_ns s =
     (let forward = uint (sample_t2 s) - uint (sample_t1 s); backward = uint (sample_t3 s) - uint (sample_t4 s)
      in case i64_try_from (int_quot (forward + backward) 2) of Some v \<Rightarrow> v | None \<Rightarrow> I64_MAX)"

definition local_midpoint_ns :: "Sample \<Rightarrow> u64" where
  "local_midpoint_ns s = sample_t1 s + saturating_sub (sample_t4 s) (sample_t1 s) div 2"

section \<open>Estimates\<close>

record Estimate =
  offset_ns :: int
  drift_ppb :: int
  reference_local_ns :: u64
  rtt_min_ns :: u64
  estimate_samples :: nat

definition local_from_remote :: "Estimate \<Rightarrow> u64 \<Rightarrow> u64" where
  "local_from_remote e remote_ns =
     (let base = uint remote_ns - offset_ns e;
          elapsed = base - uint (reference_local_ns e);
          correction = int_quot (elapsed * drift_ppb e) 1000000000
      in case u64_try_from (base - correction) of Some v \<Rightarrow> v | None \<Rightarrow> 0)"

record ClockEstimator =
  window :: nat
  samples :: "Sample list"

definition ClockEstimator_new :: "nat \<Rightarrow> ClockEstimator" where
  "ClockEstimator_new w = \<lparr>window = max w 1, samples = []\<rparr>"

definition ClockEstimator_default :: ClockEstimator where
  "ClockEstimator_default = ClockEstimator_new 64"

definition add_sample :: "Sample \<Rightarrow> ClockEstimator \<Rightarrow> ClockEstimator" where
  "add_sample s c =
     c\<lparr>samples := (if length (samples c) = window c then tl (samples c) else samples c) @ [s]\<rparr>"

text \<open>\<open>Iterator::min\<close> and \<open>min_by_key\<close>: the first of the least elements.\<close>

fun min_by_rtt :: "Sample list \<Rightarrow> Sample option" where
  "min_by_rtt [] = None"
| "min_by_rtt (s # ss) =
     (case min_by_rtt ss of None \<Rightarrow> Some s | Some m \<Rightarrow> Some (if rtt_ns s \<le> rtt_ns m then s else m))"

definition good_samples :: "u64 \<Rightarrow> Sample list \<Rightarrow> Sample list" where
  "good_samples rtt_min ss = filter (\<lambda>s. rtt_ns s \<le> rtt_min + rtt_min div 2 + 100000) ss"

record fit_sums =
  sum_x :: f64
  sum_y :: f64
  sum_xx :: f64
  sum_xy :: f64

definition add_to_sums :: "u64 \<Rightarrow> Sample \<Rightarrow> fit_sums \<Rightarrow> fit_sums" where
  "add_to_sums reference s t =
     (let x = f64_of_int (uint (local_midpoint_ns s) - uint reference); y = f64_of_int (remote_minus_local_ns s)
      in \<lparr>sum_x = f64_add (sum_x t) x, sum_y = f64_add (sum_y t) y,
          sum_xx = f64_add (sum_xx t) (f64_mul x x), sum_xy = f64_add (sum_xy t) (f64_mul x y)\<rparr>)"

definition least_squares :: "u64 \<Rightarrow> Sample list \<Rightarrow> f64 \<times> f64" where
  "least_squares reference good =
     (let n = f64_of_int (int (length good));
          t = fold (add_to_sums reference) good \<lparr>sum_x = Finite 0, sum_y = Finite 0, sum_xx = Finite 0, sum_xy = Finite 0\<rparr>;
          denom = f64_sub (f64_mul n (sum_xx t)) (f64_mul (sum_x t) (sum_x t))
      in if f64_less (f64_abs denom) (round64 (1 / 1000000000)) then (Finite 0, f64_div (sum_y t) n)
         else let slope = f64_div (f64_sub (f64_mul n (sum_xy t)) (f64_mul (sum_x t) (sum_y t))) denom
              in (slope, f64_div (f64_sub (sum_y t) (f64_mul slope (sum_x t))) n))"

definition estimate :: "ClockEstimator \<Rightarrow> Estimate option" where
  "estimate c =
     Option.bind (map_option rtt_ns (min_by_rtt (samples c))) (\<lambda>rtt_min.
     let good = good_samples rtt_min (samples c) in
     Option.bind (min_by_rtt good) (\<lambda>best.
     let reference = local_midpoint_ns best in
     if length good < 3
     then Some \<lparr>offset_ns = remote_minus_local_ns best, drift_ppb = 0, reference_local_ns = reference,
                rtt_min_ns = rtt_min, estimate_samples = length good\<rparr>
     else let (slope, intercept) = least_squares reference good in
          Some \<lparr>offset_ns = f64_as_i64 (f64_round intercept),
                drift_ppb = f64_as_i64 (f64_round (f64_mul slope (round64 1000000000))),
                reference_local_ns = reference, rtt_min_ns = rtt_min, estimate_samples = length good\<rparr>))"

section \<open>The window\<close>

inductive clock_reachable :: "ClockEstimator \<Rightarrow> bool" where
  fresh: "clock_reachable (ClockEstimator_new w)"
| more: "clock_reachable c \<Longrightarrow> clock_reachable (add_sample s c)"

lemma clock_window:
  assumes "clock_reachable c"
  shows "1 \<le> window c" and "length (samples c) \<le> window c"
  using assms
  by (induction rule: clock_reachable.induct) (auto simp: ClockEstimator_new_def add_sample_def)

lemma min_by_rtt_Some:
  "min_by_rtt ss = Some m \<Longrightarrow> m \<in> set ss \<and> (\<forall>s \<in> set ss. rtt_ns m \<le> rtt_ns s)"
proof (induction ss arbitrary: m)
  case (Cons s ss)
  show ?case
  proof (cases "min_by_rtt ss")
    case None
    then have "ss = []" by (cases ss) (auto split: option.splits)
    with Cons.prems show ?thesis by simp
  next
    case (Some k)
    with Cons.IH [OF Some] Cons.prems show ?thesis by (auto split: if_splits)
  qed
qed simp

lemma min_by_rtt_None: "min_by_rtt ss = None \<longleftrightarrow> ss = []"
  by (cases ss) (auto split: option.splits)

section \<open>Accuracy\<close>

lemma u64_try_from_Some: "0 \<le> v \<Longrightarrow> v < 2 ^ 64 \<Longrightarrow> \<exists>w. u64_try_from v = Some w \<and> uint w = v"
  by (simp add: u64_try_from_def uint_word_of_int)

text \<open>
  An exchange with a peer whose clock runs \<open>\<theta>\<close> ahead: the ping takes \<open>d1\<close> and the pong \<open>d2\<close>, in
  nanoseconds, and the peer answers after it received.
\<close>

definition genuine :: "int \<Rightarrow> Sample \<Rightarrow> bool" where
  "genuine \<theta> s \<longleftrightarrow>
     (\<exists>d1 d2. 0 \<le> d1 \<and> 0 \<le> d2 \<and> uint (sample_t2 s) = uint (sample_t1 s) + \<theta> + d1 \<and>
        uint (sample_t3 s) \<ge> uint (sample_t2 s) \<and> uint (sample_t4 s) = uint (sample_t3 s) - \<theta> + d2)"

lemma uint_saturating_sub: "uint (saturating_sub a b) = max 0 (uint a - uint b)"
proof (cases "b \<le> a")
  case True
  then have "uint (a - b) = uint a - uint b" by (simp add: uint_minus_simple_alt)
  with True show ?thesis by (simp add: saturating_sub_def word_le_def)
next
  case False
  then show ?thesis by (simp add: saturating_sub_def word_le_def)
qed

lemma rtt_genuine:
  assumes "genuine \<theta> s"
  obtains d1 d2 where "0 \<le> d1" "0 \<le> d2" "uint (rtt_ns s) = d1 + d2"
    "uint (sample_t2 s) - uint (sample_t1 s) + (uint (sample_t3 s) - uint (sample_t4 s)) = 2 * \<theta> + d1 - d2"
proof -
  from assms obtain d1 d2 where d: "0 \<le> d1" "0 \<le> d2" "uint (sample_t2 s) = uint (sample_t1 s) + \<theta> + d1"
    "uint (sample_t3 s) \<ge> uint (sample_t2 s)" "uint (sample_t4 s) = uint (sample_t3 s) - \<theta> + d2"
    by (auto simp: genuine_def)
  then have "uint (rtt_ns s) = d1 + d2" by (simp add: rtt_ns_def uint_saturating_sub)
  with that d show ?thesis by simp
qed

lemma int_quot_half: "\<bar>2 * int_quot a 2 - a\<bar> \<le> 1 \<and> \<bar>2 * int_quot a 2\<bar> \<le> \<bar>a\<bar>"
  by (auto simp: int_quot_def sgn_if abs_if)

text \<open>The offset of one genuine exchange is off by at most half its round trip, rounded up.\<close>

lemma offset_error:
  assumes "genuine \<theta> s" and "\<bar>\<theta>\<bar> < 2 ^ 61" and "uint (rtt_ns s) < 2 ^ 61"
  shows "2 * \<bar>remote_minus_local_ns s - \<theta>\<bar> \<le> uint (rtt_ns s) + 1"
proof -
  obtain d1 d2 where d: "0 \<le> d1" "0 \<le> d2" "uint (rtt_ns s) = d1 + d2"
    "uint (sample_t2 s) - uint (sample_t1 s) + (uint (sample_t3 s) - uint (sample_t4 s)) = 2 * \<theta> + d1 - d2"
    using rtt_genuine [OF assms(1)] by blast
  let ?q = "int_quot (2 * \<theta> + d1 - d2) 2"
  have q: "\<bar>2 * ?q - (2 * \<theta> + d1 - d2)\<bar> \<le> 1" "\<bar>2 * ?q\<bar> \<le> \<bar>2 * \<theta> + d1 - d2\<bar>"
    using int_quot_half by blast+
  have "\<bar>2 * \<theta> + d1 - d2\<bar> < 2 ^ 63" using assms(2,3) d by simp
  with q(2) have "\<bar>?q\<bar> < 2 ^ 63" by linarith
  then have "i64_try_from ?q = Some ?q" by (simp add: i64_try_from_def I64_MIN_def I64_MAX_def abs_less_iff)
  then have "remote_minus_local_ns s = ?q" using d(4) by (simp add: remote_minus_local_ns_def Let_def)
  moreover have "2 * \<bar>?q - \<theta>\<bar> \<le> d1 + d2 + 1" using q(1) d(1,2) by (auto simp: abs_if split: if_splits)
  ultimately show ?thesis using d(3) by simp
qed

lemma best_in_good:
  assumes "min_by_rtt ss = Some m" and "uint (rtt_ns m) < 2 ^ 61"
  shows "m \<in> set (good_samples (rtt_ns m) ss)"
proof -
  have "uint (rtt_ns m + rtt_ns m div 2 + 100000) = uint (rtt_ns m) + uint (rtt_ns m) div 2 + 100000"
    using assms(2) by (simp add: uint_word_ariths uint_div)
  then have "rtt_ns m \<le> rtt_ns m + rtt_ns m div 2 + 100000"
    using uint_ge_0 [of "rtt_ns m"] by (simp add: word_le_def)
  with min_by_rtt_Some [OF assms(1)] show ?thesis by (simp add: good_samples_def)
qed

text \<open>
  C40: The clock estimate before the fit starts is as good as the best exchange, as long as the clocks
  and paths are within range.  Suppose every sample in the window is a genuine exchange with a peer whose
  clock is \<open>\<theta>\<close> ahead, fewer than three samples are good, and both \<open>\<theta>\<close> and the shortest round trip are
  below \<open>2 ^ 61\<close> nanoseconds (73 years).  Then the estimator reports no drift and an offset within half
  of the shortest round trip (rounded up) of \<open>\<theta>\<close>, however asymmetric the paths were.  A remote timestamp
  whose conversion is in the range of \<open>u64\<close> is converted to the local clock with the same error.  The
  ranges are needed: \<open>far_behind_reported_ahead\<close> is an exchange beyond them whose offset has the wrong sign.
\<close>

theorem clock_offset_within_half_round_trip:
  assumes "estimate c = Some e" and "estimate_samples e < 3"
    and "\<forall>s \<in> set (samples c). genuine \<theta> s" and "\<bar>\<theta>\<bar> < 2 ^ 61" and "uint (rtt_min_ns e) < 2 ^ 61"
    and "0 \<le> uint r - offset_ns e" and "uint r - offset_ns e < 2 ^ 64"
  shows "drift_ppb e = 0 \<and> 2 * \<bar>offset_ns e - \<theta>\<bar> \<le> uint (rtt_min_ns e) + 1
    \<and> (\<forall>s \<in> set (samples c). rtt_min_ns e \<le> rtt_ns s)
    \<and> 2 * \<bar>uint (local_from_remote e r) - (uint r - \<theta>)\<bar> \<le> uint (rtt_min_ns e) + 1"
proof -
  from assms(1) obtain m best where m: "min_by_rtt (samples c) = Some m"
    and best: "min_by_rtt (good_samples (rtt_ns m) (samples c)) = Some best"
    and e: "rtt_min_ns e = rtt_ns m" "estimate_samples e = length (good_samples (rtt_ns m) (samples c))"
      "estimate_samples e < 3 \<Longrightarrow> offset_ns e = remote_minus_local_ns best \<and> drift_ppb e = 0"
    unfolding estimate_def by (auto simp: Let_def split_beta bind_eq_Some_conv split: if_splits)
  have least: "\<forall>s \<in> set (samples c). rtt_ns m \<le> rtt_ns s" using min_by_rtt_Some [OF m] by blast
  have "rtt_ns best \<le> rtt_ns m" using min_by_rtt_Some [OF best] best_in_good [OF m] assms(5) e(1) by simp
  moreover have b: "best \<in> set (samples c)" using min_by_rtt_Some [OF best] by (simp add: good_samples_def)
  ultimately have rtt: "rtt_ns best = rtt_ns m" using least by (simp add: order_antisym)
  have off: "offset_ns e = remote_minus_local_ns best" and drift: "drift_ppb e = 0" using e(3) assms(2) by auto
  have err: "2 * \<bar>offset_ns e - \<theta>\<bar> \<le> uint (rtt_min_ns e) + 1"
    using offset_error [of \<theta> best] b assms(3,4,5) off rtt e(1) by simp
  have "uint (local_from_remote e r) = uint r - offset_ns e"
    using assms(6,7) drift u64_try_from_Some [of "uint r - offset_ns e"]
    by (auto simp: local_from_remote_def Let_def int_quot_def)
  with err drift least e(1) show ?thesis by (simp add: abs_minus_commute)
qed

definition example_sample :: Sample where
  "example_sample = \<lparr>sample_t1 = 1000, sample_t2 = 6300, sample_t3 = 6400, sample_t4 = 1500\<rparr>"

theorem clock_offset_within_half_round_trip_witness:
  "\<exists>e. estimate (add_sample example_sample ClockEstimator_default) = Some e \<and> 2 * \<bar>offset_ns e - 5000\<bar> \<le> 401"
proof -
  let ?c = "add_sample example_sample ClockEstimator_default"
  have ss: "samples ?c = [example_sample]"
    by (simp add: add_sample_def ClockEstimator_default_def ClockEstimator_new_def)
  have rtt: "rtt_ns example_sample = 400" by (simp add: rtt_ns_def saturating_sub_def example_sample_def)
  have off: "remote_minus_local_ns example_sample = 5100"
    by (simp add: remote_minus_local_ns_def example_sample_def int_quot_def i64_try_from_def I64_MIN_def I64_MAX_def)
  obtain e where e: "estimate ?c = Some e" "estimate_samples e < 3" "rtt_min_ns e = 400" "offset_ns e = 5100"
    by (simp add: estimate_def ss rtt off good_samples_def)
  have "genuine 5000 example_sample"
    unfolding genuine_def by (intro exI [of _ 300] exI [of _ 100]) (simp add: example_sample_def)
  then have gen: "\<forall>s \<in> set (samples ?c). genuine 5000 s" by (simp add: ss)
  from clock_offset_within_half_round_trip [OF e(1,2) gen, of 9000] e(1,3,4) show ?thesis by simp
qed

text \<open>
  An offset below the range of \<open>i64\<close> is reported as the largest one: a peer that answers a recent
  ping with timestamps near zero appears far ahead instead of far behind.
\<close>

lemma far_behind_reported_ahead:
  "remote_minus_local_ns \<lparr>sample_t1 = 0xFFFFFFFFFFFFFFFF, sample_t2 = 0, sample_t3 = 0, sample_t4 = 0xFFFFFFFFFFFFFFFF\<rparr> = I64_MAX"
  by (simp add: remote_minus_local_ns_def int_quot_def i64_try_from_def I64_MIN_def I64_MAX_def)

end
