(* ===== verification/Input_Executor.thy ===== *)
theory Input_Executor
  imports Input_Pipeline F64_Rounding
begin

text \<open>
  The executor of a remote input channel (\<open>portholed/src/input_executor.rs\<close>): input events of a
  remote controller, taken one by one from the input target of the \<open>jackstay\<close> crate, are performed
  on one surface through the input pipeline, and the outcome of each is reported back.

  The target is outside the repository.  Its events are modelled with the parts this code reads; the
  payload of a logical key, the identifiers of the work items and the order in which they come are
  arbitrary.  The sockets and threads are left out: a round of the poll loop is a function of the
  items the target hands out.
\<close>

section \<open>Events\<close>

datatype JackAction = ActionDown | ActionUp | ActionRepeat

datatype 'l JackKey = PhysicalKey string | LogicalKey 'l

datatype ScrollUnit = UnitLine | UnitPixel | UnitPage

datatype 'l InputEvent =
    EventKey u64 JackAction "'l JackKey" u32
  | EventText string
  | EventMotion f64 f64
  | EventButton u32 JackAction f64 f64
  | EventScroll f64 f64 ScrollUnit f64 f64 \<comment> \<open>\<open>x\<close>, \<open>y\<close>, \<open>unit\<close> and the position\<close>

datatype 'l Operation = OperationEvent "'l InputEvent" | OperationCleanup

datatype Outcome = Executed | Unsupported | Rejected

fun press_action :: "JackAction \<Rightarrow> PressAction" where
  "press_action ActionDown = PressDown"
| "press_action ActionUp = PressUp"
| "press_action ActionRepeat = PressRepeat"

definition executor_click_button :: "u32 \<Rightarrow> ClickButton" where
  "executor_click_button button =
     (if button = 2 then RightButton else if button = 3 then MiddleButton else LeftButton)"

definition modifier_list :: "u32 \<Rightarrow> Modifier list" where
  "modifier_list modifiers =
     (if and modifiers 1 \<noteq> 0 then [Shift] else []) @
     (if and modifiers 2 \<noteq> 0 then [Ctrl] else []) @
     (if and modifiers 4 \<noteq> 0 then [Alt] else []) @
     (if and modifiers 8 \<noteq> 0 then [Cmd] else [])"

definition scroll_lines :: "f64 \<Rightarrow> f64 \<Rightarrow> ScrollUnit \<Rightarrow> f64 \<times> f64" where
  "scroll_lines x y unit =
     (let scale = (case unit of
        UnitLine \<Rightarrow> Finite 1 | UnitPixel \<Rightarrow> f64_div (Finite 1) (Finite 10) | UnitPage \<Rightarrow> Finite 3)
      in (f64_mul x scale, f64_mul y scale))"

text \<open>A \<open>u32\<close> as a double is exact.\<close>

definition f64_of_u32 :: "u32 \<Rightarrow> f64" where
  "f64_of_u32 n = Finite (of_nat (unat n))"

section \<open>Performing an event\<close>

definition frame_to_window_ratio :: "'w host \<Rightarrow> SurfaceId \<Rightarrow> u32 \<Rightarrow> u32 \<Rightarrow> 'w system \<Rightarrow> (f64 \<times> f64) \<times> 'w system" where
  "frame_to_window_ratio H surface frame_width frame_height s =
     (case window_logical_size H surface s of
        (Inr (w, h), s') \<Rightarrow>
          if f64_less f64_zero w \<and> f64_less f64_zero h \<and> frame_width > 0 \<and> frame_height > 0
          then ((f64_div w (f64_of_u32 frame_width), f64_div h (f64_of_u32 frame_height)), s')
          else ((Finite 1, Finite 1), s')
      | (Inl _, s') \<Rightarrow> ((Finite 1, Finite 1), s'))"

definition map_point :: "f64 \<times> f64 \<Rightarrow> f64 \<Rightarrow> f64 \<Rightarrow> f64 \<times> f64" where
  "map_point ratio x y = (f64_mul x (fst ratio), f64_mul y (snd ratio))"

text \<open>The pipeline call for an event; \<open>None\<close> where the code returns without one.\<close>

fun event_call ::
    "'w host \<Rightarrow> SurfaceId \<Rightarrow> 'l InputEvent \<Rightarrow> f64 \<times> f64 \<Rightarrow> ('w, PortholeError, unit) io option" where
  "event_call H surface (EventKey press action (PhysicalKey code) modifiers) ratio =
     Some (input_key_stroke H surface
       \<lparr>ks_press = press, ks_action = press_action action, ks_key = code, ks_modifiers = modifier_list modifiers\<rparr>)"
| "event_call H surface (EventKey press action (LogicalKey l) modifiers) ratio = None"
| "event_call H surface (EventText t) ratio = Some (input_text H surface t)"
| "event_call H surface (EventMotion x y) ratio =
     Some (let (x, y) = map_point ratio x y in
       input_pointer_move H surface \<lparr>move_x = x, move_y = y\<rparr> Logical)"
| "event_call H surface (EventButton button action x y) ratio =
     Some (let (x, y) = map_point ratio x y in
       input_button H surface
         \<lparr>btn_x = x, btn_y = y, btn_button = executor_click_button button, btn_action = press_action action,
          btn_modifiers = []\<rparr> Logical)"
| "event_call H surface (EventScroll x y unit px py) ratio =
     Some (let (dx, dy) = scroll_lines x y unit; (px, py) = map_point ratio px py in
       input_scroll H surface \<lparr>scroll_x = px, scroll_y = py, scroll_delta_x = dx, scroll_delta_y = dy\<rparr> Logical)"

definition outcome_of :: "(PortholeError, unit) result \<Rightarrow> Outcome" where
  "outcome_of r =
     (case r of
        Inr () \<Rightarrow> Executed
      | Inl e \<Rightarrow> if err_code e = AdapterUnsupported then Unsupported else Rejected)"

definition execute ::
    "'w host \<Rightarrow> SurfaceId \<Rightarrow> 'l InputEvent \<Rightarrow> f64 \<times> f64 \<Rightarrow> 'w system \<Rightarrow> Outcome \<times> 'w system" where
  "execute H surface event ratio s =
     (case event_call H surface event ratio of
        None \<Rightarrow> (Unsupported, s)
      | Some call \<Rightarrow> (case call s of (r, s') \<Rightarrow> (outcome_of r, s')))"

section \<open>The poll loop\<close>

definition perform_work ::
    "'w host \<Rightarrow> SurfaceId \<Rightarrow> f64 \<times> f64 \<Rightarrow> 'l Operation \<Rightarrow> 'w system \<Rightarrow> Outcome \<times> 'w system" where
  "perform_work H surface ratio operation s =
     (case operation of
        OperationEvent event \<Rightarrow> execute H surface event ratio s
      | OperationCleanup \<Rightarrow>
          (Executed, input_end_drive H surface (snd (input_release_held H surface s))))"

text \<open>The items of one round, with what is reported to the target for each.\<close>

fun poll_round ::
    "'w host \<Rightarrow> SurfaceId \<Rightarrow> f64 \<times> f64 \<Rightarrow> ('i \<times> 'l Operation) list \<Rightarrow> 'w system \<Rightarrow> ('i \<times> Outcome) list \<times> 'w system" where
  "poll_round H surface ratio [] s = ([], s)"
| "poll_round H surface ratio ((i, operation) # works) s =
     (let (outcome, s) = perform_work H surface ratio operation s;
          (reported, s) = poll_round H surface ratio works s
      in ((i, outcome) # reported, s))"

text \<open>A controller has connected: focus once for its session.\<close>

definition accept_controller :: "'w host \<Rightarrow> SurfaceId \<Rightarrow> 'w system \<Rightarrow> 'w system" where
  "accept_controller H surface s = snd (input_begin_drive H surface s)"

section \<open>The executor uses the handles as other tasks do\<close>

context pipeline_host
begin

lemma call_ok_event: "event_call H surface event ratio = Some call \<Longrightarrow> call_ok sane call"
  by (cases "(H, surface, event, ratio)" rule: event_call.cases)
    (auto simp: input_calls_ok split: prod.splits)

lemma perform_work_step: "sys_step sane s (snd (perform_work H surface ratio operation s))"
proof (cases operation)
  case (OperationEvent event)
  then show ?thesis
    using call_okD [OF call_ok_event, of surface event ratio]
    by (cases ratio) (auto simp: perform_work_def execute_def split: option.splits prod.splits)
next
  case OperationCleanup
  have "sys_step sane s (snd (input_release_held H surface s))"
    using input_calls_ok(8) by (simp add: call_ok_def)
  from sys_step_trans [OF this end_drive_step] OperationCleanup show ?thesis by (simp add: perform_work_def)
qed

lemma poll_round_step: "sys_step sane s (snd (poll_round H surface ratio works s))"
proof (induction works arbitrary: s)
  case (Cons w works)
  obtain i operation where w: "w = (i, operation)" by (cases w)
  show ?case
    using sys_step_trans [OF perform_work_step Cons.IH [of "snd (perform_work H surface ratio operation s)"]]
    by (simp add: w split_def Let_def)
qed simp

end

section \<open>A closed surface\<close>

text \<open>What the target is told for an item whose surface takes no input.\<close>

fun refused_outcome :: "'l Operation \<Rightarrow> Outcome" where
  "refused_outcome (OperationEvent (EventKey press action (LogicalKey l) modifiers)) = Unsupported"
| "refused_outcome (OperationEvent _) = Rejected"
| "refused_outcome OperationCleanup = Executed"

lemma surface_dead_error_code [simp]: "err_code (surface_dead_error i) = SurfaceDead"
  by (simp add: surface_dead_error_def PortholeError_new_def)

lemma unknown_key_code [simp]: "err_code (unknown_key k) = UnknownKey"
  by (simp add: unknown_key_def PortholeError_new_def)

lemma refused_event:
  assumes "require_alive (sys_handles t) i = Inl (surface_dead_error i)"
  shows "execute H i event ratio t = (refused_outcome (OperationEvent event), t)"
  using assms
  by (cases "(H, i, event, ratio)" rule: event_call.cases)
    (auto simp: execute_def outcome_of_def io_fail_def input_key_stroke_def input_text_def input_pointer_move_def
      input_button_def input_scroll_def io_bind_alive_error PortholeError_new_def split: prod.splits)

lemma refused_work:
  assumes "require_alive (sys_handles t) i = Inl (surface_dead_error i)"
  shows "perform_work H i ratio operation t = (refused_outcome operation, t)"
  using assms refused_event [OF assms] refused_without_call(4,10) [OF assms]
  by (cases operation) (simp_all add: perform_work_def)

lemma refused_round:
  assumes "require_alive (sys_handles t) i = Inl (surface_dead_error i)"
  shows "poll_round H i ratio works t = (map (\<lambda>(k, operation). (k, refused_outcome operation)) works, t)"
  by (induction works) (auto simp: refused_work [OF assms])

text \<open>
  C37: A remote controller cannot reach a surface that has been closed.  After a successful \<open>close\<close>,
  and whatever other tasks track or close meanwhile, a round of the executor performs nothing,
  whatever events the controller sends: the system is left exactly as it was, every event is
  reported as rejected (as unsupported if its key is logical), cleanups are still acknowledged, and
  every item is answered once and in order.
\<close>

theorem closed_surface_executes_nothing:
  assumes "adapter_contract (adapter H) sane" and "sane (world s)" and "handles_wf (sys_handles s)"
    and "input_close H i s = (Inr (), s')"
    and "handle_steps (sys_handles s') (sys_handles t)"
  shows "poll_round H i ratio works t = (map (\<lambda>(k, operation). (k, refused_outcome operation)) works, t)"
  by (rule refused_round, rule pipeline_host.input_close_dead [OF pipeline_host.intro [OF assms(1)] assms(4,2,3,5)])

definition example_works :: "(nat \<times> unit Operation) list" where
  "example_works =
     [(1, OperationEvent (EventText ''rm'')), (2, OperationEvent (EventKey 0 ActionDown (LogicalKey ()) 0)),
      (3, OperationEvent (EventMotion (Finite 1) NaN)), (4, OperationCleanup)]"

theorem closed_surface_executes_nothing_witness:
  "let t = snd (input_close example_host ''a'' example_system)
   in poll_round example_host ''a'' (Finite 1, Finite 1) example_works t
        = ([(1, Rejected), (2, Unsupported), (3, Rejected), (4, Executed)], t)"
proof -
  let ?t = "snd (input_close example_host ''a'' example_system)"
  have "input_close example_host ''a'' example_system = (Inr (), ?t)"
    by (simp add: prod_eq_iff example_close)
  from closed_surface_executes_nothing [OF example_host_contract example_system_sane example_system_wf this handle_steps.none,
      of "(Finite 1, Finite 1)" example_works]
  show ?thesis by (simp add: Let_def example_works_def)
qed

section \<open>Coordinates\<close>

lemma round_half_even_le: "of_int (round_half_even r) \<le> (r + 1 / 2 :: rat)"
proof -
  have "of_int \<lfloor>r\<rfloor> \<le> r + (1 / 2 :: rat)" using of_int_floor_le [of r] by linarith
  then show ?thesis by (auto simp: round_half_even_def Let_def)
qed

text \<open>Rounding a normal number up costs at most half a unit in the last of 53 places.\<close>

lemma rounded_relative:
  assumes "pow2 (- 1022) \<le> q"
  shows "rounded q \<le> q * (1 + pow2 (- 53))"
proof -
  have q: "0 < q" using assms pow2_pos [of "- 1022"] by linarith
  note l = log2_rat_bounds [OF q]
  have "pow2 (- 1022) < pow2 (log2_rat q + 1)" using assms l(2) by linarith
  then have e: "exponent64 q = log2_rat q - 52" using pow2_less_cancel q by (fastforce simp: exponent64_def)
  let ?p = "pow2 (log2_rat q - 52)"
  have "of_int (round_half_even (q / ?p)) \<le> q / ?p + (1 / 2 :: rat)"
    by (rule round_half_even_le)
  then have "of_int (round_half_even (q / ?p)) * ?p \<le> (q / ?p + 1 / 2) * ?p"
    by (rule mult_right_mono) (simp add: less_imp_le)
  then have "rounded q \<le> q + ?p / 2" using q by (simp add: rounded_def e algebra_simps)
  also have "?p / 2 = pow2 (log2_rat q) * pow2 (- 53)"
    using pow2_add [of "log2_rat q" "- 53"] pow2_add [of "log2_rat q - 53" 1] by (simp add: pow2_def [of 1])
  also have "\<dots> \<le> q * pow2 (- 53)" using l(1) by (intro mult_right_mono) (simp_all add: less_imp_le)
  finally show ?thesis by (simp add: algebra_simps)
qed

text \<open>One axis: \<open>w\<close> points of the window over \<open>n\<close> pixels of the frame.\<close>

lemma map_axis:
  assumes "1 \<le> w" and "w \<le> 2 ^ 30" and "0 < n" and "0 \<le> x" and "x \<le> of_nat (unat (n :: u32))"
  shows "\<exists>v. f64_mul (Finite x) (f64_div (Finite w) (f64_of_u32 n)) = Finite v \<and> 0 \<le> v \<and> v \<le> w * (1 + 1 / 2 ^ 51)"
proof -
  define m :: rat where "m = of_nat (unat n)"
  define eps :: rat where "eps = pow2 (- 53)"
  have eps: "eps = 1 / 2 ^ 53" by (simp add: eps_def pow2_def)
  have "1 \<le> unat n" using assms(3) by (simp add: word_gt_0 unat_gt_0 Suc_leI)
  then have m: "1 \<le> m" unfolding m_def by (metis of_nat_1 of_nat_le_iff)
  have small: "pow2 (- 1022) \<le> pow2 (- 32)" "pow2 (- 32) = 1 / 2 ^ 32" "pow2 31 \<le> pow2 1024" "pow2 31 = 2 ^ 31"
    "pow2 (- 1022) \<le> 1" using pow2_mono [of "- 1022" 0] by (auto intro: pow2_mono simp: pow2_def)
  have "unat n < 2 ^ 32" using unsigned_less [of n] by simp
  then have "m < 2 ^ 32" unfolding m_def by (metis of_nat_less_iff of_nat_numeral of_nat_power)
  then have "1 / 2 ^ 32 \<le> w / m" using m assms(1) by (simp add: divide_simps)
  then have "pow2 (- 1022) \<le> w / m" using small(1,2) by linarith
  then have r: "rounded (w / m) \<le> w / m * (1 + eps)" unfolding eps_def by (rule rounded_relative)
  have "w / m \<le> w" using m assms(1) by (simp add: divide_simps mult_left_le)
  have r0: "0 \<le> rounded (w / m)" using m assms(1) by (intro rounded_nonneg) simp
  have "w / m * (1 + eps) \<le> 2 ^ 30 * (1 + eps)"
    using \<open>w / m \<le> w\<close> assms(2) by (intro mult_right_mono) (simp_all add: eps)
  also have "\<dots> < 2 ^ 31" by (simp add: eps)
  finally have "rounded (w / m) < pow2 31" using r small(4) by linarith
  then have fin: "round64 (w / m) = Finite (rounded (w / m))" using r0 small(3) by (simp add: round64_rounded)
  have "x * rounded (w / m) \<le> m * (w / m * (1 + eps))" using assms(4,5) r r0 m unfolding m_def by (intro mult_mono) auto
  also have "\<dots> = w * (1 + eps)" using m by simp
  finally have "rounded (x * rounded (w / m)) \<le> rounded (w * (1 + eps))" by (rule rounded_mono)
  also have "\<dots> \<le> w * (1 + eps) * (1 + eps)"
  proof -
    have "1 * 1 \<le> w * (1 + eps)" using assms(1) by (intro mult_mono) (simp_all add: eps)
    then show ?thesis using rounded_relative [of "w * (1 + eps)"] small(5) by (simp add: eps_def)
  qed
  also have "\<dots> = w * ((1 + eps) * (1 + eps))" by (simp only: mult.assoc)
  also have "\<dots> \<le> w * (1 + 1 / 2 ^ 51)" using assms(1) by (intro mult_left_mono) (simp_all add: eps)
  finally have v: "rounded (x * rounded (w / m)) \<le> w * (1 + 1 / 2 ^ 51)" .
  also have "\<dots> \<le> 2 ^ 30 * (1 + 1 / 2 ^ 51)" using assms(2) by (intro mult_right_mono) simp_all
  also have "\<dots> < 2 ^ 31" by simp
  finally have "rounded (x * rounded (w / m)) < pow2 1024" using small(3,4) by linarith
  moreover have v0: "0 \<le> rounded (x * rounded (w / m))" using assms(4) r0 by (intro rounded_nonneg) simp
  ultimately have "round64 (x * rounded (w / m)) = Finite (rounded (x * rounded (w / m)))" by (simp add: round64_rounded)
  moreover have "f64_div (Finite w) (f64_of_u32 n) = round64 (w / m)" using m by (simp add: f64_of_u32_def m_def)
  ultimately show ?thesis using fin v v0 by simp
qed

text \<open>
  A pixel of the captured frame is mapped onto a point of the window.  For a window between one
  and \<open>2 ^ 30\<close> points wide and high, and whatever the size of the frame and the scale of the display,
  a point of the frame lands at finite, non-negative coordinates that exceed the size of the window
  by at most one part in \<open>2 ^ 51\<close>, all roundings of the two divisions and multiplications included.
\<close>

theorem frame_point_maps_into_window:
  assumes "window_logical_size H surface s = (Inr (Finite w, Finite h), s')"
    and "1 \<le> w" and "w \<le> 2 ^ 30" and "1 \<le> h" and "h \<le> 2 ^ 30" and "0 < fw" and "0 < fh"
    and "0 \<le> x" and "x \<le> of_nat (unat fw)" and "0 \<le> y" and "y \<le> of_nat (unat fh)"
  shows "\<exists>x' y'. map_point (fst (frame_to_window_ratio H surface fw fh s)) (Finite x) (Finite y) = (Finite x', Finite y')
    \<and> 0 \<le> x' \<and> x' \<le> w * (1 + 1 / 2 ^ 51) \<and> 0 \<le> y' \<and> y' \<le> h * (1 + 1 / 2 ^ 51)"
  using map_axis [OF assms(2,3,6,8,9)] map_axis [OF assms(4,5,7,10,11)] assms(1,2,4,6,7)
  by (auto simp: frame_to_window_ratio_def map_point_def f64_zero_def)

lemma example_window_size:
  "window_logical_size example_host ''a'' example_system = (Inr (Finite 800, Finite 600), snd (window_logical_size example_host ''a'' example_system))"
  by (simp add: window_logical_size_def io_bind_def alive_call_def example_host_def example_system_def
      in_memory_def im_snapshot_geometry_def scripted_def Let_def InMemoryAdapter_new_def Script_default_def
      require_alive_def store_get_def example_window_def SurfaceInfo_window_def io_return_def)

theorem frame_point_maps_into_window_witness:
  "\<exists>x' y'. map_point (fst (frame_to_window_ratio example_host ''a'' 1600 1200 example_system)) (Finite 1600) (Finite 7)
       = (Finite x', Finite y')
     \<and> 0 \<le> x' \<and> x' \<le> 800 * (1 + 1 / 2 ^ 51) \<and> 0 \<le> y' \<and> y' \<le> 600 * (1 + 1 / 2 ^ 51)"
  using frame_point_maps_into_window [OF example_window_size, of 1600 1200 1600 7] by simp

end
