(* ===== verification/Arena.thy ===== *)
theory Arena
  imports Errors
begin

text \<open>
  What the capture sessions of the daemon share: the error type of
  \<open>portholed/src/capture_registry.rs\<close>, the interface of the frame arenas they publish to, and the
  contract of a session's runtime that is retired by its own worker.

  An arena belongs to the \<open>jackstay\<close> crate, which is not part of the repository; the methods that
  the sessions call are functions on a state of any type.  Its errors are kept as the text they
  display.  The numbers of the crate's enumerations are parameters as well.  The crate is taken not
  to panic, so that no lock is ever poisoned.
\<close>

section \<open>Errors\<close>

text \<open>\<open>CapturePanic\<close> stands for a failed \<open>expect\<close> with its text.\<close>

datatype CaptureRegistryError =
    FdSocketDisabled
  | UnknownSession string
  | NotReady string string
  | CaptureFailed string message
  | CaptureClosed string message
  | CapturePoisoned
  | CaptureError message
  | CapturePorthole PortholeError
  | CaptureIo message
  | CapturePanic string

text \<open>A string that is displayed as it is.\<close>

definition text_message :: "string \<Rightarrow> message" where
  "text_message s = Msg ''{0}'' [FStr s]"

fun CaptureRegistryError_display :: "CaptureRegistryError \<Rightarrow> message" where
  "CaptureRegistryError_display FdSocketDisabled = Msg ''capture fd socket is disabled'' []"
| "CaptureRegistryError_display (UnknownSession i) = Msg ''unknown capture session {0}'' [FStr i]"
| "CaptureRegistryError_display (NotReady i status) =
     Msg ''capture session {session_id} is not ready ({status})'' [FStr i, FStr status]"
| "CaptureRegistryError_display (CaptureFailed i m) =
     Msg ''capture session {session_id} failed: {message}'' [FStr i, FMsg m]"
| "CaptureRegistryError_display (CaptureClosed i m) =
     Msg ''capture session {session_id} is closed: {message}'' [FStr i, FMsg m]"
| "CaptureRegistryError_display CapturePoisoned = Msg ''capture registry lock poisoned'' []"
| "CaptureRegistryError_display (CaptureError m) = m"
| "CaptureRegistryError_display (CapturePorthole e) = PortholeError_display e"
| "CaptureRegistryError_display (CaptureIo m) = Msg ''io error: {0}'' [FMsg m]"
| "CaptureRegistryError_display (CapturePanic s) = text_message s"

section \<open>Arenas\<close>

datatype PixelFormat = PixelUnknown | Bgra8Unorm | Rgba8Unorm

datatype ColorSpace = ColorUnknown | Srgb

datatype DamageKind = DamageUnknown | FullFrame | NoDamage

record model_codes =
  pixel_u32 :: "PixelFormat \<Rightarrow> u32"
  color_u32 :: "ColorSpace \<Rightarrow> u32"
  damage_u32 :: "DamageKind \<Rightarrow> u32"
  cpu_copy_complete :: u32
  cpu_shm :: u32

record ArenaConfig =
  resource_capacity :: u32
  retained_history :: nat
  producer_reserve :: nat
  payload_capacity :: nat
  arena_memory_budget :: u64
  max_incarnations :: u32
  drain_timeout :: nat \<comment> \<open>in milliseconds\<close>

datatype ReconfigurationStatus = ReconfigurationReady | PausedCapacity u64 u64

datatype PublishOutcome = FramePublished | FrameDropped

text \<open>
  The methods of a producer, over the configuration it is created with, what it is reconfigured
  for, and the frames it takes.  \<open>arena_cleanup_failures\<close> gives each incarnation as displayed and
  the reason.
\<close>

record ('c, 'r, 'f, 'p) arena =
  arena_new :: "'c \<Rightarrow> (string, 'p) result"
  arena_stop :: "'p \<Rightarrow> 'p"
  arena_reconfigure :: "'r \<Rightarrow> 'p \<Rightarrow> (string, ReconfigurationStatus) result \<times> 'p"
  arena_advance :: "'p \<Rightarrow> (string, ReconfigurationStatus) result \<times> 'p"
  arena_publish :: "'f \<Rightarrow> 'p \<Rightarrow> (string, PublishOutcome) result \<times> 'p"
  arena_poll_cleanup :: "'p \<Rightarrow> (string, unit) result \<times> 'p"
  arena_cleanup_failures :: "'p \<Rightarrow> (string \<times> string) list"
  arena_poll_shutdown :: "'p \<Rightarrow> (string, bool) result \<times> 'p"

definition CAPTURE_MEMORY_BUDGET :: u64 where
  "CAPTURE_MEMORY_BUDGET = 512 * 1024 * 1024"

definition CAPTURE_RESOURCE_CAPACITY :: u32 where
  "CAPTURE_RESOURCE_CAPACITY = 8"

definition DRAIN_TIMEOUT :: nat where
  "DRAIN_TIMEOUT = 5000"

fun join_strings :: "string \<Rightarrow> string list \<Rightarrow> string" where
  "join_strings sep [] = []"
| "join_strings sep [x] = x"
| "join_strings sep (x # y # ys) = x @ sep @ join_strings sep (y # ys)"

text \<open>Polling an arena for cleanup: the error to show, if any, and the arena afterwards.\<close>

definition cleanup_report :: "('c, 'r, 'f, 'p) arena \<Rightarrow> 'p \<Rightarrow> message option \<times> 'p" where
  "cleanup_report J p =
     (case arena_poll_cleanup J p of
        (Inl e, p) \<Rightarrow> (Some (text_message e), p)
      | (Inr _, p) \<Rightarrow>
          let failures = arena_cleanup_failures J p in
          ((if failures = [] then None
            else Some (text_message (join_strings ''; '' (map (\<lambda>(i, reason). i @ '': '' @ reason) failures)))), p))"

definition saturating_succ :: "u64 \<Rightarrow> u64" where
  "saturating_succ n = (if n = - 1 then n else n + 1)"

section \<open>Runtimes that retire\<close>

text \<open>
  A runtime is worked on by its owner, by connections and by its worker.  Once it is terminal its
  output does not change any more, and once drained it stays drained; \<open>sane\<close> is an invariant.
\<close>

locale retiring_runtime =
  fixes step :: "'s \<Rightarrow> 's \<Rightarrow> bool" and sane :: "'s \<Rightarrow> bool"
    and terminal :: "'s \<Rightarrow> bool" and drained :: "'s \<Rightarrow> bool" and emitted :: "'s \<Rightarrow> 'o"
  assumes sane_step: "sane s \<Longrightarrow> step s t \<Longrightarrow> sane t"
    and terminal_step: "terminal s \<Longrightarrow> step s t \<Longrightarrow> terminal t \<and> emitted t = emitted s"
    and drained_step: "sane s \<Longrightarrow> drained s \<Longrightarrow> step s t \<Longrightarrow> drained t"
begin

lemma sane_run: "step\<^sup>*\<^sup>* s t \<Longrightarrow> sane s \<Longrightarrow> sane t"
  by (induction rule: rtranclp_induct) (auto intro: sane_step)

lemma terminal_run: "step\<^sup>*\<^sup>* s t \<Longrightarrow> terminal s \<Longrightarrow> terminal t \<and> emitted t = emitted s"
proof (induction rule: rtranclp_induct)
  case (step t u)
  then show ?case using terminal_step [of t u] by simp
qed simp

lemma drained_run: "step\<^sup>*\<^sup>* s t \<Longrightarrow> sane s \<Longrightarrow> drained s \<Longrightarrow> drained t"
proof (induction rule: rtranclp_induct)
  case (step t u)
  then show ?case using sane_run [OF step.hyps(1)] drained_step by simp
qed simp

end

end
