(* ===== verification/Cpu_Session.thy ===== *)
theory Cpu_Session
  imports Arena
begin

text \<open>
  A CPU capture session (\<open>portholed/src/capture_registry/cpu_session.rs\<close>): frames arrive with their
  bytes, are checked against their descriptor and handed to an arena; viewers open connections to
  the arena; a worker polls it until, after the session has ended, everything has been released.

  Every operation is one step under the lock of the runtime.  \<open>claims\<close> counts the owners of the
  arena besides the runtime (\<open>Arc::strong_count\<close>); of a connection's stream the model keeps whether
  it has been shut down.  Instants are milliseconds.
\<close>

section \<open>Frames\<close>

text \<open>The fields of a \<open>FrameDescriptor\<close> that this code sets or reads; the others have their default.\<close>

record FrameDescriptor =
  fd_sequence :: u64
  fd_timestamp_ns :: u64
  fd_width :: u32
  fd_height :: u32
  fd_stride :: u32
  fd_pixel_format :: u32
  fd_color_space :: u32
  fd_sync_kind :: u32
  fd_damage_kind :: u32
  fd_damage_base_sequence :: u64
  fd_dropped_before_publish :: u32
  fd_producer_drop_count :: u64
  fd_payload_kind :: u32

record Format =
  fmt_width :: u32
  fmt_height :: u32
  fmt_stride :: u32
  fmt_pixel_format :: u32
  fmt_color_space :: u32
  fmt_bytes :: nat

definition failure :: "string \<Rightarrow> CaptureRegistryError" where
  "failure e = CaptureError (text_message e)"

text \<open>\<open>usize\<close> has 64 bits.\<close>

definition Format_from_frame :: "FrameDescriptor \<Rightarrow> u8 list \<Rightarrow> (CaptureRegistryError, Format) result" where
  "Format_from_frame frame bytes =
     (if 2 ^ 32 \<le> unat (fd_width frame) * 4 then Inl (failure ''CPU width overflow'')
      else let min_stride = fd_width frame * 4; expected = unat (fd_stride frame) * unat (fd_height frame) in
        if 2 ^ 64 \<le> expected then Inl (failure ''CPU frame size overflow'')
        else if fd_width frame = 0 \<or> fd_height frame = 0 \<or> fd_stride frame < min_stride \<or> expected \<noteq> length bytes
        then Inl (failure ''CPU frame dimensions, stride and payload disagree'')
        else Inr \<lparr>fmt_width = fd_width frame, fmt_height = fd_height frame, fmt_stride = fd_stride frame,
                  fmt_pixel_format = fd_pixel_format frame, fmt_color_space = fd_color_space frame,
                  fmt_bytes = length bytes\<rparr>)"

section \<open>The runtime\<close>

record 'p Runtime =
  memory_budget :: u64
  producer :: "'p option"
  installed :: "Format option"
  pending :: "Format option"
  pause :: "(u64 \<times> u64) option"
  rt_error :: "message option"
  cleanup_error :: "message option"
  closing :: "nat option"
  rt_drained :: bool
  published :: u64
  dropped :: u64
  next_connection :: u64
  connections :: "(u64 \<times> bool) list"
  claims :: nat

record Snapshot =
  snap_status :: string
  snap_message :: message
  snap_width :: u32
  snap_height :: u32
  snap_stride :: u32
  snap_pixel_format :: PixelFormat

type_synonym 'p cpu_arena = "(ArenaConfig, nat, FrameDescriptor \<times> u8 list, 'p) arena"

definition MAX_CONNECTIONS :: nat where
  "MAX_CONNECTIONS = 4"

definition Runtime_default :: "u64 \<Rightarrow> 'p Runtime" where
  "Runtime_default budget =
     \<lparr>memory_budget = budget, producer = None, installed = None, pending = None, pause = None, rt_error = None,
      cleanup_error = None, closing = None, rt_drained = False, published = 0, dropped = 0, next_connection = 0,
      connections = [], claims = 0\<rparr>"

definition cpu_arena_config :: "u64 \<Rightarrow> nat \<Rightarrow> ArenaConfig" where
  "cpu_arena_config budget bytes =
     \<lparr>resource_capacity = CAPTURE_RESOURCE_CAPACITY, retained_history = 2, producer_reserve = 1,
      payload_capacity = bytes, arena_memory_budget = budget, max_incarnations = of_nat MAX_CONNECTIONS,
      drain_timeout = DRAIN_TIMEOUT\<rparr>"

definition stop_producer :: "'p cpu_arena \<Rightarrow> 'p Runtime \<Rightarrow> 'p Runtime" where
  "stop_producer J R = R\<lparr>producer := map_option (arena_stop J) (producer R)\<rparr>"

definition Runtime_stop :: "'p cpu_arena \<Rightarrow> nat \<Rightarrow> 'p Runtime \<Rightarrow> 'p Runtime" where
  "Runtime_stop J now R =
     (let R = R\<lparr>closing := (case closing R of None \<Rightarrow> Some now | Some t \<Rightarrow> Some t)\<rparr>;
          R = stop_producer J R
      in R\<lparr>connections := map (\<lambda>(i, shut). (i, True)) (connections R)\<rparr>)"

text \<open>Advancing a paused reconfiguration, and the shutdown of an ending session.\<close>

definition advance_pending :: "'p cpu_arena \<Rightarrow> 'p \<Rightarrow> 'p Runtime \<Rightarrow> 'p Runtime" where
  "advance_pending J p R =
     (if closing R = None \<and> rt_error R = None \<and> pending R \<noteq> None then
        (case arena_advance J p of
           (Inr ReconfigurationReady, p) \<Rightarrow>
             R\<lparr>producer := Some p, installed := pending R, pending := None, pause := None\<rparr>
         | (Inr (PausedCapacity requested available), p) \<Rightarrow>
             R\<lparr>producer := Some p, pause := Some (requested, available)\<rparr>
         | (Inl e, p) \<Rightarrow>
             R\<lparr>producer := Some (arena_stop J p), rt_error := Some (text_message e)\<rparr>)
      else R\<lparr>producer := Some p\<rparr>)"

definition drain :: "'p cpu_arena \<Rightarrow> nat \<Rightarrow> nat \<Rightarrow> 'p \<Rightarrow> 'p Runtime \<Rightarrow> 'p Runtime" where
  "drain J now started p R =
     (let (ready, p, R) =
        (case arena_poll_shutdown J p of
           (Inr ready, p) \<Rightarrow> (ready, p, R)
         | (Inl e, p) \<Rightarrow> (False, p, R\<lparr>cleanup_error := Some (text_message e)\<rparr>));
          R = R\<lparr>producer := Some p\<rparr>
      in if ready \<and> claims R = 0 \<and> connections R = []
         then R\<lparr>producer := None, rt_drained := True, cleanup_error := None\<rparr>
         else if DRAIN_TIMEOUT \<le> now - started \<and> cleanup_error R = None
         then R\<lparr>cleanup_error := Some (Msg ''CPU shutdown needs recovery: mappings or setup owners have not retired'' [])\<rparr>
         else R)"

definition Runtime_maintain :: "'p cpu_arena \<Rightarrow> nat \<Rightarrow> 'p Runtime \<Rightarrow> 'p Runtime" where
  "Runtime_maintain J now R =
     (case producer R of
        None \<Rightarrow> R\<lparr>rt_drained := (closing R \<noteq> None)\<rparr>
      | Some p \<Rightarrow>
          let (report, p) = cleanup_report J p;
              R = advance_pending J p (R\<lparr>cleanup_error := report\<rparr>)
          in (case (closing R, producer R) of
                (Some started, Some p) \<Rightarrow> drain J now started p R
              | _ \<Rightarrow> R))"

text \<open>The parts of \<open>publish\<close>: the arena of the first frame, a change of format, the frame itself.\<close>

definition ensure_producer :: "'p cpu_arena \<Rightarrow> Format \<Rightarrow> u8 list \<Rightarrow> 'p Runtime \<Rightarrow> (CaptureRegistryError, 'p Runtime) result" where
  "ensure_producer J format bytes R =
     (case producer R of
        Some _ \<Rightarrow> Inr R
      | None \<Rightarrow>
          rbind (map_err failure (arena_new J (cpu_arena_config (memory_budget R) (length bytes)))) (\<lambda>p.
          Inr (R\<lparr>producer := Some p, installed := Some format\<rparr>)))"

definition change_format ::
    "'p cpu_arena \<Rightarrow> Format \<Rightarrow> 'p \<Rightarrow> 'p Runtime \<Rightarrow> (CaptureRegistryError, 'p) result \<times> 'p Runtime" where
  "change_format J format p R =
     (if pending R = None \<and> installed R \<noteq> Some format then
        (case arena_reconfigure J (fmt_bytes format) p of
           (Inl e, p) \<Rightarrow> (Inl (failure e), R\<lparr>producer := Some p\<rparr>)
         | (Inr ReconfigurationReady, p) \<Rightarrow> (Inr p, R\<lparr>producer := Some p, installed := Some format, pause := None\<rparr>)
         | (Inr (PausedCapacity requested available), p) \<Rightarrow>
             (Inr p, R\<lparr>producer := Some p, pending := Some format, pause := Some (requested, available)\<rparr>))
      else (Inr p, R))"

definition hand_over ::
    "'p cpu_arena \<Rightarrow> FrameDescriptor \<Rightarrow> u8 list \<Rightarrow> 'p \<Rightarrow> 'p Runtime \<Rightarrow>
     (CaptureRegistryError, PublishOutcome) result \<times> 'p Runtime" where
  "hand_over J descriptor bytes p R =
     (case arena_publish J (descriptor, bytes) p of
        (Inl e, p) \<Rightarrow> (Inl (failure e), R\<lparr>producer := Some p\<rparr>)
      | (Inr FramePublished, p) \<Rightarrow>
          (Inr FramePublished, R\<lparr>producer := Some p, published := saturating_succ (published R)\<rparr>)
      | (Inr FrameDropped, p) \<Rightarrow>
          (Inr FrameDropped, R\<lparr>producer := Some p, dropped := saturating_succ (dropped R)\<rparr>))"

definition Runtime_publish ::
    "'p cpu_arena \<Rightarrow> nat \<Rightarrow> FrameDescriptor \<Rightarrow> u8 list \<Rightarrow> 'p Runtime \<Rightarrow>
     (CaptureRegistryError, PublishOutcome) result \<times> 'p Runtime" where
  "Runtime_publish J now descriptor bytes R =
     (if closing R \<noteq> None \<or> rt_error R \<noteq> None then (Inl (failure ''CPU capture publication is closed''), R)
      else case Format_from_frame descriptor bytes of Inl e \<Rightarrow> (Inl e, R) | Inr format \<Rightarrow>
      case ensure_producer J format bytes R of Inl e \<Rightarrow> (Inl e, R) | Inr R \<Rightarrow>
      let R = Runtime_maintain J now R in
      case rt_error R of Some e \<Rightarrow> (Inl (CaptureError e), R) | None \<Rightarrow>
      case producer R of None \<Rightarrow> (Inl (CapturePanic ''CPU producer initialized''), R) | Some p \<Rightarrow>
      case change_format J format p R of
        (Inl e, R) \<Rightarrow> (Inl e, R)
      | (Inr p, R) \<Rightarrow> hand_over J descriptor bytes p R)"

definition snapshot_state :: "'p Runtime \<Rightarrow> string \<times> message" where
  "snapshot_state R =
     (case (rt_drained R, rt_error R) of
        (True, Some e) \<Rightarrow> (''failed'', Msg ''{}; CPU resources retired'' [FMsg e])
      | (True, None) \<Rightarrow> (''closed'', Msg ''CPU resources retired'' [])
      | (False, _) \<Rightarrow>
      (case cleanup_error R of Some e \<Rightarrow> (''recovery_required'', e) | None \<Rightarrow>
      (case rt_error R of Some e \<Rightarrow> (''failed'', e) | None \<Rightarrow>
      if closing R \<noteq> None then (''draining'', Msg ''waiting for CPU mappings and claims'' []) else
      (case pause R of
         Some (requested, available) \<Rightarrow>
           (''paused'', Msg ''replacement needs {requested} bytes; {available} available''
              [FNat (unat requested), FNat (unat available)])
       | None \<Rightarrow> if installed R \<noteq> None then (''ready'', Msg [] []) else (''starting'', Msg [] [])))))"

definition installed_pixel_format :: "model_codes \<Rightarrow> Format option \<Rightarrow> PixelFormat" where
  "installed_pixel_format K format =
     (case format of None \<Rightarrow> PixelUnknown | Some f \<Rightarrow>
        if fmt_pixel_format f = pixel_u32 K Bgra8Unorm then Bgra8Unorm
        else if fmt_pixel_format f = pixel_u32 K Rgba8Unorm then Rgba8Unorm else PixelUnknown)"

definition Runtime_snapshot :: "model_codes \<Rightarrow> 'p Runtime \<Rightarrow> Snapshot" where
  "Runtime_snapshot K R =
     \<lparr>snap_status = fst (snapshot_state R),
      snap_message = Msg ''{detail}; CPU budget={} bytes, published={}, dropped={}''
        [FMsg (snd (snapshot_state R)), FNat (unat (memory_budget R)), FNat (unat (published R)), FNat (unat (dropped R))],
      snap_width = (case installed R of None \<Rightarrow> 0 | Some f \<Rightarrow> fmt_width f),
      snap_height = (case installed R of None \<Rightarrow> 0 | Some f \<Rightarrow> fmt_height f),
      snap_stride = (case installed R of None \<Rightarrow> 0 | Some f \<Rightarrow> fmt_stride f),
      snap_pixel_format = installed_pixel_format K (installed R)\<rparr>"

section \<open>The session\<close>

text \<open>A failed publication is recorded and stops the arena.\<close>

definition CpuSession_publish ::
    "'p cpu_arena \<Rightarrow> nat \<Rightarrow> FrameDescriptor \<Rightarrow> u8 list \<Rightarrow> 'p Runtime \<Rightarrow>
     (CaptureRegistryError, PublishOutcome) result \<times> 'p Runtime" where
  "CpuSession_publish J now descriptor bytes R =
     (case Runtime_publish J now descriptor bytes R of
        (Inl e, R) \<Rightarrow> (Inl e, stop_producer J (R\<lparr>rt_error := Some (CaptureRegistryError_display e)\<rparr>))
      | (Inr outcome, R) \<Rightarrow> (Inr outcome, R))"

definition CpuSession_fail :: "'p cpu_arena \<Rightarrow> nat \<Rightarrow> message \<Rightarrow> 'p Runtime \<Rightarrow> 'p Runtime" where
  "CpuSession_fail J now m R =
     Runtime_stop J now (R\<lparr>rt_error := (case rt_error R of None \<Rightarrow> Some m | Some e \<Rightarrow> Some e)\<rparr>)"

definition open_connection ::
    "(string, unit) result \<Rightarrow> 'p Runtime \<Rightarrow> (CaptureRegistryError, u64) result \<times> 'p Runtime" where
  "open_connection cloned R =
     (if closing R \<noteq> None \<or> rt_error R \<noteq> None then (Inl (failure ''CPU capture is closed''), R)
      else if MAX_CONNECTIONS \<le> length (connections R)
      then (Inl (failure ''CPU setup connection limit reached''), R)
      else if producer R = None then (Inl (failure ''CPU capture has no first frame''), R)
      else case cloned of Inl e \<Rightarrow> (Inl (failure e), R) | Inr _ \<Rightarrow>
        if next_connection R = - 1 then (Inl (failure ''CPU setup connection identities exhausted''), R)
        else let i = next_connection R + 1 in
          (Inr i, R\<lparr>next_connection := i, connections := connections R @ [(i, False)], claims := claims R + 1\<rparr>))"

definition drop_connection :: "u64 \<Rightarrow> 'p Runtime \<Rightarrow> 'p Runtime" where
  "drop_connection i R = R\<lparr>connections := filter (\<lambda>c. fst c \<noteq> i) (connections R)\<rparr>"

text \<open>A round of the retirement worker; it ends once the runtime is drained.\<close>

definition retirement_tick :: "'p cpu_arena \<Rightarrow> nat \<Rightarrow> 'p Runtime \<Rightarrow> bool \<times> 'p Runtime" where
  "retirement_tick J now R = (let R = Runtime_maintain J now R in (rt_drained R, R))"

section \<open>Steps\<close>

text \<open>
  What may happen to a runtime: the operations of the session, the worker's rounds, a viewer's
  connection working on the arena, and the end of a connection or of a claim on the arena.
\<close>

inductive cpu_step :: "'p cpu_arena \<Rightarrow> 'p Runtime \<Rightarrow> 'p Runtime \<Rightarrow> bool" for J where
  publish: "cpu_step J R (snd (CpuSession_publish J now descriptor bytes R))"
| stop: "cpu_step J R (Runtime_stop J now R)"
| fail: "cpu_step J R (CpuSession_fail J now m R)"
| open_connection: "cpu_step J R (snd (open_connection cloned R))"
| tick: "cpu_step J R (snd (retirement_tick J now R))"
| drop_connection: "cpu_step J R (drop_connection i R)"
| release_claim: "0 < claims R \<Longrightarrow> cpu_step J R (R\<lparr>claims := claims R - 1\<rparr>)"
| serve: "0 < claims R \<Longrightarrow> producer R = Some p \<Longrightarrow> cpu_step J R (R\<lparr>producer := Some p'\<rparr>)"

text \<open>Connections: at most \<open>MAX_CONNECTIONS\<close>, with different numbers, and shut down once the session closes.\<close>

definition connections_ok :: "u64 \<Rightarrow> bool \<Rightarrow> (u64 \<times> bool) list \<Rightarrow> bool" where
  "connections_ok n ended cs \<longleftrightarrow>
     length cs \<le> MAX_CONNECTIONS \<and> distinct (map fst cs) \<and> (\<forall>c \<in> set cs. fst c \<le> n) \<and>
     (ended \<longrightarrow> (\<forall>c \<in> set cs. snd c))"

definition cpu_ok :: "'p Runtime \<Rightarrow> bool" where
  "cpu_ok R \<longleftrightarrow>
     connections_ok (next_connection R) (closing R \<noteq> None) (connections R) \<and>
     (producer R = None \<longrightarrow> connections R = [] \<and> claims R = 0) \<and>
     (producer R \<noteq> None \<longrightarrow> installed R \<noteq> None) \<and>
     (pending R = None \<longleftrightarrow> pause R = None) \<and> (pending R \<noteq> None \<longrightarrow> installed R \<noteq> None) \<and>
     (rt_drained R \<longrightarrow> closing R \<noteq> None \<and> producer R = None)"

definition cpu_terminal :: "'p Runtime \<Rightarrow> bool" where
  "cpu_terminal R \<longleftrightarrow> closing R \<noteq> None \<or> rt_error R \<noteq> None"

definition cpu_emitted :: "'p Runtime \<Rightarrow> u64 \<times> u64 \<times> Format option" where
  "cpu_emitted R = (published R, dropped R, installed R)"

text \<open>What one round of maintenance leaves as it is, and what it may change.\<close>

lemma drain_simps [simp]:
  "closing (drain J now t p R) = closing R" "rt_error (drain J now t p R) = rt_error R"
  "installed (drain J now t p R) = installed R" "pending (drain J now t p R) = pending R"
  "pause (drain J now t p R) = pause R" "published (drain J now t p R) = published R"
  "dropped (drain J now t p R) = dropped R" "connections (drain J now t p R) = connections R"
  "next_connection (drain J now t p R) = next_connection R" "claims (drain J now t p R) = claims R"
  "memory_budget (drain J now t p R) = memory_budget R"
  by (auto simp: drain_def Let_def split: prod.splits sum.splits)

lemma advance_pending_simps [simp]:
  "closing (advance_pending J p R) = closing R" "published (advance_pending J p R) = published R"
  "dropped (advance_pending J p R) = dropped R" "connections (advance_pending J p R) = connections R"
  "next_connection (advance_pending J p R) = next_connection R" "claims (advance_pending J p R) = claims R"
  "rt_drained (advance_pending J p R) = rt_drained R" "memory_budget (advance_pending J p R) = memory_budget R"
  "producer (advance_pending J p R) \<noteq> None"
  by (auto simp: advance_pending_def split: prod.splits sum.splits ReconfigurationStatus.splits)

lemma advance_pending_ok:
  "pending R = None \<longleftrightarrow> pause R = None \<Longrightarrow> pending R \<noteq> None \<longrightarrow> installed R \<noteq> None \<Longrightarrow>
   (pending (advance_pending J p R) = None \<longleftrightarrow> pause (advance_pending J p R) = None) \<and>
   (pending (advance_pending J p R) \<noteq> None \<longrightarrow> installed (advance_pending J p R) \<noteq> None) \<and>
   (installed R \<noteq> None \<longrightarrow> installed (advance_pending J p R) \<noteq> None)"
  by (auto simp: advance_pending_def split: prod.splits sum.splits ReconfigurationStatus.splits)

lemma advance_pending_terminal:
  "closing R \<noteq> None \<or> rt_error R \<noteq> None \<Longrightarrow> advance_pending J p R = R\<lparr>producer := Some p\<rparr>"
  by (auto simp: advance_pending_def)

lemma drain_drained:
  "rt_drained (drain J now t p R) \<longrightarrow> rt_drained R \<or> producer (drain J now t p R) = None"
  by (auto simp: drain_def Let_def split: prod.splits sum.splits)

lemma drain_producer: "producer (drain J now t p R) = None \<Longrightarrow> connections R = [] \<and> claims R = 0"
  by (auto simp: drain_def Let_def split: prod.splits sum.splits if_splits)

lemma maintain_cases:
  obtains (idle) "producer R = None" "Runtime_maintain J now R = R\<lparr>rt_drained := (closing R \<noteq> None)\<rparr>"
  | (live) p report where "producer R \<noteq> None" "closing R = None"
      "Runtime_maintain J now R = advance_pending J p (R\<lparr>cleanup_error := report\<rparr>)"
  | (ending) p started report where "producer R \<noteq> None" "closing R = Some started"
      "Runtime_maintain J now R = drain J now started p (R\<lparr>cleanup_error := report, producer := Some p\<rparr>)"
proof (cases "producer R")
  case None
  then show ?thesis by (intro idle) (simp_all add: Runtime_maintain_def)
next
  case (Some p0)
  obtain report p where rp: "cleanup_report J p0 = (report, p)" by (cases "cleanup_report J p0")
  show ?thesis
  proof (cases "closing R")
    case None
    with Some rp show ?thesis by (intro live) (simp_all add: Runtime_maintain_def)
  next
    case (Some started)
    with \<open>producer R = Some p0\<close> rp show ?thesis
      by (intro ending) (simp_all add: Runtime_maintain_def advance_pending_def)
  qed
qed

lemma maintain_simps [simp]:
  "closing (Runtime_maintain J now R) = closing R" "published (Runtime_maintain J now R) = published R"
  "dropped (Runtime_maintain J now R) = dropped R" "connections (Runtime_maintain J now R) = connections R"
  "next_connection (Runtime_maintain J now R) = next_connection R" "claims (Runtime_maintain J now R) = claims R"
  "memory_budget (Runtime_maintain J now R) = memory_budget R"
  by (rule maintain_cases [of R J now]; simp)+

lemma maintain_ok:
  assumes "cpu_ok R"
  shows "cpu_ok (Runtime_maintain J now R)"
proof (cases rule: maintain_cases [of R J now])
  case idle
  with assms show ?thesis by (auto simp: cpu_ok_def)
next
  case (live p report)
  with assms advance_pending_ok [of "R\<lparr>cleanup_error := report\<rparr>" J p] show ?thesis
    by (simp add: cpu_ok_def)
next
  case (ending p started report)
  with assms drain_drained [of J now started p "R\<lparr>cleanup_error := report, producer := Some p\<rparr>"]
    drain_producer [of J now started p "R\<lparr>cleanup_error := report, producer := Some p\<rparr>"] show ?thesis
    by (auto simp: cpu_ok_def)
qed

lemma maintain_live: "closing R = None \<Longrightarrow> producer R \<noteq> None \<Longrightarrow> producer (Runtime_maintain J now R) \<noteq> None"
  by (cases rule: maintain_cases [of R J now]) simp_all

lemma maintain_terminal:
  assumes "cpu_terminal R"
  shows "cpu_terminal (Runtime_maintain J now R) \<and> cpu_emitted (Runtime_maintain J now R) = cpu_emitted R"
  using assms
  by (cases rule: maintain_cases [of R J now])
    (auto simp: cpu_terminal_def cpu_emitted_def advance_pending_terminal)

text \<open>Handing over a frame.\<close>

lemma publish_ok:
  assumes "cpu_ok R" and "Runtime_publish J now d bytes R = (r, R')"
  shows "cpu_ok R' \<and> r \<noteq> Inl (CapturePanic s)"
proof (cases "closing R \<noteq> None \<or> rt_error R \<noteq> None")
  case True
  then have "Runtime_publish J now d bytes R = (Inl (failure ''CPU capture publication is closed''), R)"
    by (simp add: Runtime_publish_def)
  with assms show ?thesis by (auto simp: failure_def)
next
  case live: False
  show ?thesis
  proof (cases "\<exists>f R1. Format_from_frame d bytes = Inr f \<and> ensure_producer J f bytes R = Inr R1")
    case False
    then have "R' = R" and "\<exists>m. r = Inl (CaptureError m)"
      using assms(2) live
      by (auto simp: Runtime_publish_def Format_from_frame_def ensure_producer_def failure_def result_simps Let_def
          split: sum.splits option.splits if_splits)
    with assms(1) show ?thesis by auto
  next
    case True
    then obtain f R1 where f: "Format_from_frame d bytes = Inr f" and R1: "ensure_producer J f bytes R = Inr R1" by blast
    let ?R2 = "Runtime_maintain J now R1"
    have "cpu_ok R1" "closing R1 = None" "producer R1 \<noteq> None"
      using R1 assms(1) live by (auto simp: ensure_producer_def cpu_ok_def result_simps split: option.splits)
    then have ok2: "cpu_ok ?R2" "closing ?R2 = None" "producer ?R2 \<noteq> None"
      by (simp_all add: maintain_ok maintain_live)
    obtain p where p: "producer ?R2 = Some p" using ok2(3) by blast
    show ?thesis
    proof (cases "rt_error ?R2")
      case (Some e)
      with assms(2) live f R1 ok2 show ?thesis by (auto simp: Runtime_publish_def Let_def)
    next
      case None
      obtain q R3 where q: "change_format J f p ?R2 = (q, R3)" by fastforce
      have ok3: "cpu_ok R3" "producer R3 \<noteq> None" "\<And>e. q = Inl e \<Longrightarrow> \<exists>m. e = CaptureError m"
        using q ok2 p
        by (auto simp: change_format_def cpu_ok_def failure_def
            split: if_splits prod.splits sum.splits ReconfigurationStatus.splits)
      show ?thesis
      proof (cases q)
        case (Inl e)
        with assms(2) live f R1 p None q ok3 show ?thesis by (auto simp: Runtime_publish_def Let_def)
      next
        case (Inr p')
        with assms(2) live f R1 p None q have "hand_over J d bytes p' R3 = (r, R')"
          by (simp add: Runtime_publish_def Let_def)
        with ok3(1,2) show ?thesis
          by (auto simp: hand_over_def cpu_ok_def failure_def split: prod.splits sum.splits PublishOutcome.splits)
      qed
    qed
  qed
qed

lemma stop_producer_simps [simp]:
  "cpu_terminal (stop_producer J R) = cpu_terminal R" "cpu_emitted (stop_producer J R) = cpu_emitted R"
  "rt_drained (stop_producer J R) = rt_drained R" "closing (stop_producer J R) = closing R"
  "cpu_ok (stop_producer J R) = cpu_ok R"
  by (simp_all add: stop_producer_def cpu_terminal_def cpu_emitted_def cpu_ok_def)

lemma Runtime_stop_simps [simp]:
  "cpu_emitted (Runtime_stop J now R) = cpu_emitted R" "cpu_terminal (Runtime_stop J now R)"
  "rt_drained (Runtime_stop J now R) = rt_drained R" "closing (Runtime_stop J now R) \<noteq> None"
  "claims (Runtime_stop J now R) = claims R"
  "map fst (connections (Runtime_stop J now R)) = map fst (connections R)"
  by (auto simp: Runtime_stop_def Let_def stop_producer_def cpu_terminal_def cpu_emitted_def split: option.splits)

lemma connections_ok_shut: "connections_ok n ended cs \<Longrightarrow> connections_ok n True (map (\<lambda>(i, shut). (i, True)) cs)"
  by (auto simp: connections_ok_def distinct_map inj_on_def split_def)

lemma connections_ok_drop: "connections_ok n ended cs \<Longrightarrow> connections_ok n ended (filter P cs)"
  by (auto simp: connections_ok_def distinct_map_filter intro: le_trans [OF length_filter_le])

lemma connections_ok_add:
  assumes "connections_ok n False cs" and "length cs < MAX_CONNECTIONS" and "n \<noteq> - 1"
  shows "connections_ok (n + 1) False (cs @ [(n + 1, False)])"
proof -
  have "1 + n \<noteq> 0" using assms(3) by (simp add: add_eq_0_iff)
  then have "unat (n + 1) = Suc (unat n)" using unatSuc [of n] by (simp add: add.commute)
  then have n: "n < n + 1" by (simp add: word_less_nat_alt)
  with assms have "c < n + 1" if "(c, b) \<in> set cs" for c b
    using that by (fastforce simp: connections_ok_def intro: le_less_trans)
  with assms show ?thesis by (fastforce simp: connections_ok_def intro: less_imp_le)
qed

lemma connections_ok_Nil [simp]: "connections_ok n ended []"
  by (simp add: connections_ok_def)

lemma stop_ok: "cpu_ok R \<Longrightarrow> cpu_ok (Runtime_stop J now R)"
  by (auto simp: cpu_ok_def Runtime_stop_def Let_def stop_producer_def connections_ok_shut split: option.splits)

lemma publish_terminal:
  assumes "cpu_terminal R"
  shows "CpuSession_publish J now d bytes R =
    (Inl (failure ''CPU capture publication is closed''),
     stop_producer J (R\<lparr>rt_error := Some (text_message ''CPU capture publication is closed'')\<rparr>))"
  using assms by (simp add: CpuSession_publish_def Runtime_publish_def cpu_terminal_def failure_def)

lemma error_update_ok [simp]: "cpu_ok (R\<lparr>rt_error := m\<rparr>) = cpu_ok R"
  by (simp add: cpu_ok_def)

lemma CpuSession_publish_ok:
  assumes "cpu_ok R" and "CpuSession_publish J now d bytes R = (r, R')"
  shows "cpu_ok R' \<and> r \<noteq> Inl (CapturePanic s)"
  using assms publish_ok [OF assms(1)]
  by (fastforce simp: CpuSession_publish_def split: prod.splits sum.splits)

lemma open_connection_ok: "cpu_ok R \<Longrightarrow> cpu_ok (snd (open_connection cloned R))"
  using connections_ok_add [of "next_connection R" "connections R"]
  by (auto simp: open_connection_def cpu_ok_def Let_def split: sum.splits)

lemma cpu_step_ok:
  assumes "cpu_ok R" and "cpu_step J R R'"
  shows "cpu_ok R'"
  using assms(2)
proof cases
  case (publish now d bytes)
  obtain r R2 where "CpuSession_publish J now d bytes R = (r, R2)" by fastforce
  with publish CpuSession_publish_ok [OF assms(1)] show ?thesis by simp
qed (use assms(1) in \<open>simp_all add: CpuSession_fail_def stop_ok open_connection_ok retirement_tick_def Let_def maintain_ok,
    auto simp: drop_connection_def cpu_ok_def connections_ok_drop\<close>)

lemma drained_step:
  assumes "cpu_ok R" and "rt_drained R" and "cpu_step J R R'"
  shows "rt_drained R'"
  using assms(3)
proof cases
  case (publish now d bytes)
  with assms(1,2) show ?thesis by (auto simp: publish_terminal cpu_terminal_def cpu_ok_def)
next
  case (tick now)
  with assms(1,2) show ?thesis by (auto simp: retirement_tick_def Let_def Runtime_maintain_def cpu_ok_def)
next
  case (open_connection cloned)
  with assms(1,2) show ?thesis by (auto simp: open_connection_def cpu_ok_def)
qed (use assms(1,2) in \<open>auto simp: CpuSession_fail_def drop_connection_def\<close>)

lemma terminal_step:
  assumes "cpu_terminal R" and "cpu_step J R R'"
  shows "cpu_terminal R' \<and> cpu_emitted R' = cpu_emitted R"
  using assms(2)
proof cases
  case (publish now d bytes)
  with assms(1) show ?thesis
    by (simp add: publish_terminal) (simp add: stop_producer_def cpu_terminal_def cpu_emitted_def)
next
  case (tick now)
  with maintain_terminal [OF assms(1)] show ?thesis by (simp add: retirement_tick_def Let_def)
next
  case (open_connection cloned)
  with assms(1) show ?thesis by (auto simp: open_connection_def cpu_terminal_def)
next
  case (fail now m)
  then show ?thesis by (simp add: CpuSession_fail_def, simp add: cpu_emitted_def)
next
  case (stop now)
  then show ?thesis by simp
qed (use assms(1) in \<open>auto simp: cpu_terminal_def cpu_emitted_def drop_connection_def\<close>)

interpretation cpu: retiring_runtime "cpu_step J" cpu_ok cpu_terminal rt_drained cpu_emitted for J
  by unfold_locales (erule (1) cpu_step_ok, erule (1) terminal_step, erule (2) drained_step)

lemma default_ok: "cpu_ok (Runtime_default budget)"
  by (simp add: cpu_ok_def connections_ok_def Runtime_default_def)

section \<open>What a session promises\<close>

text \<open>
  Whatever frames, viewers and errors a CPU capture session sees, from its creation on: it serves
  at most four connections, under different numbers; a replacement format is waiting exactly if the
  pool is paused; it is drained only after it has been stopped, and then holds neither the arena nor
  a connection nor a claim; connections of a stopped session have been shut down; and publishing
  never finds its arena missing (the \<open>expect\<close> of the code does not fail).
\<close>

theorem capture_runtime_consistent:
  assumes "(cpu_step J)\<^sup>*\<^sup>* (Runtime_default budget) R"
  shows "length (connections R) \<le> 4 \<and> distinct (map fst (connections R)) \<and>
    (pending R \<noteq> None \<longleftrightarrow> pause R \<noteq> None) \<and>
    (rt_drained R \<longrightarrow> closing R \<noteq> None \<and> producer R = None \<and> connections R = [] \<and> claims R = 0) \<and>
    (closing R \<noteq> None \<longrightarrow> (\<forall>(i, shut) \<in> set (connections R). shut)) \<and>
    fst (CpuSession_publish J now descriptor bytes R) \<noteq> Inl (CapturePanic s)"
proof -
  have ok: "cpu_ok R" by (rule cpu.sane_run [OF assms default_ok])
  have "fst (CpuSession_publish J now descriptor bytes R) \<noteq> Inl (CapturePanic s)"
    using CpuSession_publish_ok [OF ok] by (metis prod.collapse)
  with ok show ?thesis by (auto simp: cpu_ok_def connections_ok_def MAX_CONNECTIONS_def)
qed

text \<open>
  A capture session that has been stopped or has failed is over.  However viewers, the worker and
  late frames interleave afterwards, no further frame is counted as published or dropped, the format
  that was shown stays, every publication is refused, and no viewer is let in any more.
\<close>

theorem ended_capture_emits_nothing:
  assumes "closing R \<noteq> None \<or> rt_error R \<noteq> None" and "(cpu_step J)\<^sup>*\<^sup>* R S"
  shows "published S = published R \<and> dropped S = dropped R \<and> installed S = installed R \<and>
    fst (CpuSession_publish J now descriptor bytes S) = Inl (failure ''CPU capture publication is closed'') \<and>
    open_connection cloned S = (Inl (failure ''CPU capture is closed''), S)"
proof -
  from cpu.terminal_run [OF assms(2)] assms(1) have "cpu_terminal S" and "cpu_emitted S = cpu_emitted R"
    by (auto simp: cpu_terminal_def)
  then show ?thesis
    by (simp add: publish_terminal) (simp add: cpu_emitted_def cpu_terminal_def open_connection_def)
qed

lemma drain_ready:
  assumes "fst (arena_poll_shutdown J p) = Inr True" and "claims R = 0" and "connections R = []"
  shows "rt_drained (drain J now started p R)"
  using assms by (cases "arena_poll_shutdown J p") (simp add: drain_def)

text \<open>
  C32: The retirement worker of a stopped session ends.  As soon as every viewer has let go of the arena
  and closed its connection, and the arena says it can shut down, the worker's next round drains the
  session, which ends the worker; the session then stays drained whatever is still called on it.
\<close>

theorem stopped_capture_drains:
  assumes "(cpu_step J)\<^sup>*\<^sup>* (Runtime_default budget) R" and "closing R \<noteq> None" and "(cpu_step J)\<^sup>*\<^sup>* R S"
    and "connections S = []" and "claims S = 0"
    and "\<And>p. producer S = Some p \<Longrightarrow> fst (arena_poll_shutdown J (snd (cleanup_report J p))) = Inr True"
  shows "fst (retirement_tick J now S) \<and>
    ((cpu_step J)\<^sup>*\<^sup>* (snd (retirement_tick J now S)) T \<longrightarrow> rt_drained T)"
proof -
  have run: "(cpu_step J)\<^sup>*\<^sup>* (Runtime_default budget) S" using assms(1,3) by (rule rtranclp_trans)
  have "closing S \<noteq> None" using assms(3)
  proof (induction rule: rtranclp_induct)
    case (step S T)
    from step.hyps(2) step.IH show ?case
    proof cases
      case (publish now d bytes)
      with step.IH show ?thesis by (simp add: publish_terminal cpu_terminal_def)
    next
      case (open_connection cloned)
      with step.IH show ?thesis by (simp add: open_connection_def)
    qed (simp_all add: CpuSession_fail_def retirement_tick_def Let_def drop_connection_def)
  qed (use assms(2) in simp)
  then obtain started where started: "closing S = Some started" by blast
  have "rt_drained (Runtime_maintain J now S)"
  proof (cases "producer S")
    case None
    with started show ?thesis by (simp add: Runtime_maintain_def)
  next
    case (Some p)
    obtain report q where "cleanup_report J p = (report, q)" by fastforce
    with Some started assms(4-6) drain_ready [of J q "S\<lparr>cleanup_error := report, producer := Some q\<rparr>" now started]
    show ?thesis by (simp add: Runtime_maintain_def advance_pending_def)
  qed
  then have tick: "fst (retirement_tick J now S)" "rt_drained (snd (retirement_tick J now S))"
    by (simp_all add: retirement_tick_def Let_def)
  have "cpu_ok (snd (retirement_tick J now S))"
    by (rule cpu_step_ok [OF cpu.sane_run [OF run default_ok] cpu_step.tick])
  with tick show ?thesis using cpu.drained_run by blast
qed

lemma Format_from_frame_Inr:
  assumes "Format_from_frame d bytes = Inr f"
  shows "4 * unat (fd_width d) \<le> unat (fd_stride d)" and "unat (fd_stride d) * unat (fd_height d) = length bytes"
    and "0 < unat (fd_width d)" and "0 < unat (fd_height d)"
proof -
  have small: "unat (fd_width d) * 4 < 2 ^ 32" and stride: "\<not> fd_stride d < fd_width d * 4"
    and len: "unat (fd_stride d) * unat (fd_height d) = length bytes" and pos: "fd_width d \<noteq> 0" "fd_height d \<noteq> 0"
    using assms by (auto simp: Format_from_frame_def Let_def split: if_splits)
  have "unat (fd_width d * 4) = unat (fd_width d) * 4"
    using small by (simp add: unat_word_ariths)
  with stride show "4 * unat (fd_width d) \<le> unat (fd_stride d)" by (simp add: word_less_nat_alt)
  show "unat (fd_stride d) * unat (fd_height d) = length bytes" by (rule len)
  show "0 < unat (fd_width d)" "0 < unat (fd_height d)" using pos by (simp_all add: unat_gt_0)
qed

lemma published_format:
  assumes "CpuSession_publish J now d bytes R = (Inr outcome, R')"
  shows "\<exists>f. Format_from_frame d bytes = Inr f"
  using assms
  by (auto simp: CpuSession_publish_def Runtime_publish_def split: prod.splits sum.splits if_splits)

text \<open>
  Only frames whose descriptor fits their bytes reach the arena.  If a frame is accepted, then its
  bytes are exactly its rows, and the four bytes of every pixel lie in its row and in the payload: no
  product or sum of the 32-bit fields wraps around on the way.
\<close>

theorem accepted_frame_in_bounds:
  assumes "CpuSession_publish J now descriptor bytes R = (Inr outcome, R')"
    and "x < unat (fd_width descriptor)" and "y < unat (fd_height descriptor)"
  shows "4 * x + 4 \<le> unat (fd_stride descriptor) \<and>
    unat (fd_stride descriptor) * y + 4 * x + 4 \<le> length bytes \<and>
    length bytes = unat (fd_stride descriptor) * unat (fd_height descriptor)"
proof -
  obtain f where f: "Format_from_frame descriptor bytes = Inr f" using published_format [OF assms(1)] by blast
  note b = Format_from_frame_Inr [OF f]
  have row: "4 * x + 4 \<le> unat (fd_stride descriptor)" using b(1) assms(2) by linarith
  have "unat (fd_stride descriptor) * (y + 1) \<le> unat (fd_stride descriptor) * unat (fd_height descriptor)"
    using assms(3) by (intro mult_le_mono2) simp
  with row b(2) show ?thesis by simp
qed

section \<open>An example\<close>

text \<open>An arena that takes every frame and counts it.\<close>

definition example_arena :: "nat cpu_arena" where
  "example_arena =
     \<lparr>arena_new = (\<lambda>c. Inr 0), arena_stop = (\<lambda>p. p), arena_reconfigure = (\<lambda>n p. (Inr ReconfigurationReady, p)),
      arena_advance = (\<lambda>p. (Inr ReconfigurationReady, p)), arena_publish = (\<lambda>f p. (Inr FramePublished, Suc p)),
      arena_poll_cleanup = (\<lambda>p. (Inr (), p)), arena_cleanup_failures = (\<lambda>p. []),
      arena_poll_shutdown = (\<lambda>p. (Inr True, p))\<rparr>"

definition example_frame :: FrameDescriptor where
  "example_frame =
     \<lparr>fd_sequence = 1, fd_timestamp_ns = 0, fd_width = 2, fd_height = 1, fd_stride = 8, fd_pixel_format = 1,
      fd_color_space = 0, fd_sync_kind = 1, fd_damage_kind = 1, fd_damage_base_sequence = 1,
      fd_dropped_before_publish = 0, fd_producer_drop_count = 0, fd_payload_kind = 1\<rparr>"

definition example_bytes :: "u8 list" where
  "example_bytes = [0, 64, 128, 255, 255, 64, 128, 255]"

definition example_live :: "nat Runtime" where
  "example_live = snd (CpuSession_publish example_arena 10 example_frame example_bytes (Runtime_default 4096))"

definition example_stopped :: "nat Runtime" where
  "example_stopped = Runtime_stop example_arena 20 example_live"

lemmas cpu_eval = example_arena_def example_frame_def example_bytes_def Runtime_default_def
  CpuSession_publish_def Runtime_publish_def Format_from_frame_def ensure_producer_def Runtime_maintain_def
  cleanup_report_def advance_pending_def change_format_def hand_over_def saturating_succ_def

lemma example_publish:
  "CpuSession_publish example_arena 10 example_frame example_bytes (Runtime_default 4096) = (Inr FramePublished, example_live)"
  "producer example_live = Some 1" "published example_live = 1" "connections example_live = []" "claims example_live = 0"
  unfolding example_live_def by (simp_all add: cpu_eval)

lemma example_runs:
  "(cpu_step example_arena)\<^sup>*\<^sup>* (Runtime_default 4096) example_live"
  "(cpu_step example_arena)\<^sup>*\<^sup>* example_live example_stopped"
  using cpu_step.publish [of example_arena "Runtime_default 4096" 10 example_frame example_bytes]
    cpu_step.stop [of example_arena example_live 20]
  by (auto simp: example_live_def example_stopped_def)

lemma example_stopped_simps:
  "closing example_stopped \<noteq> None" "connections example_stopped = []" "claims example_stopped = 0"
  "producer example_stopped = Some 1" "published example_stopped = 1"
  using example_publish
  by (auto simp: example_stopped_def Runtime_stop_def stop_producer_def example_arena_def Let_def split: option.splits)

theorem capture_runtime_consistent_witness:
  "length (connections example_live) \<le> 4 \<and> published example_live = 1"
  using capture_runtime_consistent [OF example_runs(1)] example_publish by simp

theorem ended_capture_emits_nothing_witness:
  "open_connection (Inr ()) example_stopped = (Inl (failure ''CPU capture is closed''), example_stopped) \<and>
   open_connection (Inr ()) example_live \<noteq> (Inl (failure ''CPU capture is closed''), example_live)"
proof -
  have "open_connection (Inr ()) example_stopped = (Inl (failure ''CPU capture is closed''), example_stopped)"
    using ended_capture_emits_nothing [of example_stopped example_arena example_stopped] example_stopped_simps(1) by simp
  moreover have "closing example_live = None \<and> rt_error example_live = None" unfolding example_live_def by (simp add: cpu_eval)
  ultimately show ?thesis using example_publish
    by (simp add: open_connection_def MAX_CONNECTIONS_def Let_def failure_def text_message_def split: if_splits)
qed

theorem stopped_capture_drains_witness:
  "fst (retirement_tick example_arena 30 example_stopped)"
proof -
  have "fst (arena_poll_shutdown example_arena (snd (cleanup_report example_arena p))) = Inr True" for p
    by (simp add: example_arena_def cleanup_report_def)
  with stopped_capture_drains [OF rtranclp_trans [OF example_runs] example_stopped_simps(1) rtranclp.rtrancl_refl
      example_stopped_simps(2,3)] show ?thesis by blast
qed

theorem accepted_frame_in_bounds_witness:
  "unat (fd_stride example_frame) * 0 + 4 * 1 + 4 \<le> length example_bytes"
  using accepted_frame_in_bounds [OF example_publish(1), of 1 0] by (simp add: example_frame_def)

end
