(* ===== verification/Native_Session.thy ===== *)
theory Native_Session
  imports Arena
begin

text \<open>
  The runtime of a native capture session on macOS (\<open>portholed/src/capture_registry/native_session.rs\<close>,
  the part below the registry): captured surfaces are handed to an arena of the platform, which the
  attach server shares with viewers; a worker polls it until, after the session has been closed,
  nothing uses it any more.

  A hold (\<open>NativeSessionHold\<close>) and the capture stream share the publisher; its two locks are never
  held across a call to the system, and each operation below is one step under the runtime's lock.
  \<open>nr_claims\<close> counts the owners of the arena besides the runtime.  The text of errors is kept.
\<close>

section \<open>The runtime\<close>

record NativeStreamParams =
  np_width :: u32
  np_height :: u32
  np_pixel_format :: PixelFormat
  np_color_space :: ColorSpace
  np_modifier :: u64

record 's NativeCapturedFrame =
  nf_width :: u32
  nf_height :: u32
  nf_surface :: 's

record 'p NativeRuntime =
  nr_producer :: "'p option"
  nr_params :: "NativeStreamParams option"
  nr_pending :: "NativeStreamParams option"
  nr_pause :: "(u64 \<times> u64) option"
  nr_error :: "message option"
  nr_cleanup_error :: "message option"
  nr_closing :: "nat option"
  nr_drained :: bool
  nr_published :: u64
  nr_dropped :: u64
  nr_claims :: nat

text \<open>The publisher: the runtime, and what has been sent to the waiting \<open>create\<close>, if anything yet.\<close>

record 'p NativePublisher =
  pub_state :: "'p NativeRuntime"
  pub_ready :: "(message, u32 \<times> u32) result option"

record NativeSnapshot =
  ns_status :: string
  ns_message :: "message option"
  ns_width :: u32
  ns_height :: u32

type_synonym ('s, 'p) native_arena =
  "(NativeStreamParams \<times> ArenaConfig, NativeStreamParams, 's \<times> u64, 'p) arena"

definition native_arena_config :: ArenaConfig where
  "native_arena_config =
     \<lparr>resource_capacity = CAPTURE_RESOURCE_CAPACITY, retained_history = 2, producer_reserve = 1,
      payload_capacity = 0, arena_memory_budget = CAPTURE_MEMORY_BUDGET, max_incarnations = 4,
      drain_timeout = DRAIN_TIMEOUT\<rparr>"

definition NativeRuntime_default :: "'p NativeRuntime" where
  "NativeRuntime_default =
     \<lparr>nr_producer = None, nr_params = None, nr_pending = None, nr_pause = None, nr_error = None,
      nr_cleanup_error = None, nr_closing = None, nr_drained = False, nr_published = 0, nr_dropped = 0, nr_claims = 0\<rparr>"

definition NativePublisher_new :: "'p NativePublisher" where
  "NativePublisher_new = \<lparr>pub_state = NativeRuntime_default, pub_ready = None\<rparr>"

definition native_snapshot_state :: "'p NativeRuntime \<Rightarrow> string \<times> message option" where
  "native_snapshot_state R =
     (if nr_drained R then (''closed'', Some (Msg ''native resources retired'' []))
      else case nr_cleanup_error R of Some e \<Rightarrow> (''recovery_required'', Some e) | None \<Rightarrow>
      if nr_closing R \<noteq> None
      then (''draining'', Some (Msg ''waiting for native mappings and GPU use to retire'' []))
      else case nr_error R of Some e \<Rightarrow> (''failed'', Some e) | None \<Rightarrow>
      (case nr_pause R of
         Some (requested, available) \<Rightarrow>
           (''paused'', Some (Msg ''native replacement needs {requested} bytes; {available} available''
              [FNat (unat requested), FNat (unat available)]))
       | None \<Rightarrow> if nr_params R \<noteq> None then (''ready'', None) else (''starting'', None)))"

definition NativeRuntime_snapshot :: "'p NativeRuntime \<Rightarrow> NativeSnapshot" where
  "NativeRuntime_snapshot R =
     (let counters = Msg ''native budget={CAPTURE_MEMORY_BUDGET} bytes, published={}, dropped={}''
            [FNat (unat CAPTURE_MEMORY_BUDGET), FNat (unat (nr_published R)), FNat (unat (nr_dropped R))]
      in \<lparr>ns_status = fst (native_snapshot_state R),
          ns_message = Some (case snd (native_snapshot_state R) of
             None \<Rightarrow> counters | Some detail \<Rightarrow> Msg ''{detail}; {counters}'' [FMsg detail, FMsg counters]),
          ns_width = (case nr_params R of None \<Rightarrow> 0 | Some p \<Rightarrow> np_width p),
          ns_height = (case nr_params R of None \<Rightarrow> 0 | Some p \<Rightarrow> np_height p)\<rparr>)"

definition native_advance :: "('s, 'p) native_arena \<Rightarrow> 'p \<Rightarrow> 'p NativeRuntime \<Rightarrow> 'p NativeRuntime" where
  "native_advance J p R =
     (if nr_closing R = None \<and> nr_error R = None \<and> nr_pending R \<noteq> None then
        (case arena_advance J p of
           (Inr ReconfigurationReady, p) \<Rightarrow>
             R\<lparr>nr_producer := Some p, nr_params := nr_pending R, nr_pending := None, nr_pause := None\<rparr>
         | (Inr (PausedCapacity requested available), p) \<Rightarrow>
             R\<lparr>nr_producer := Some p, nr_pause := Some (requested, available)\<rparr>
         | (Inl e, p) \<Rightarrow>
             R\<lparr>nr_producer := Some (arena_stop J p), nr_error := Some (text_message e)\<rparr>)
      else R\<lparr>nr_producer := Some p\<rparr>)"

definition native_drain :: "('s, 'p) native_arena \<Rightarrow> nat \<Rightarrow> nat \<Rightarrow> 'p \<Rightarrow> 'p NativeRuntime \<Rightarrow> 'p NativeRuntime" where
  "native_drain J now started p R =
     (let (ready, p, R) =
        (case arena_poll_shutdown J p of
           (Inr ready, p) \<Rightarrow> (ready, p, R)
         | (Inl e, p) \<Rightarrow> (False, p, R\<lparr>nr_cleanup_error := Some (text_message e)\<rparr>));
          R = R\<lparr>nr_producer := Some p\<rparr>
      in if ready \<and> nr_claims R = 0
         then R\<lparr>nr_producer := None, nr_drained := True, nr_cleanup_error := None\<rparr>
         else if DRAIN_TIMEOUT \<le> now - started \<and> nr_cleanup_error R = None
         then R\<lparr>nr_cleanup_error := Some (Msg
           ''native shutdown needs recovery: mappings, setup owners or GPU writes have not retired'' [])\<rparr>
         else R)"

definition NativeRuntime_maintain :: "('s, 'p) native_arena \<Rightarrow> nat \<Rightarrow> 'p NativeRuntime \<Rightarrow> 'p NativeRuntime" where
  "NativeRuntime_maintain J now R =
     (case nr_producer R of
        None \<Rightarrow> R\<lparr>nr_drained := (nr_closing R \<noteq> None)\<rparr>
      | Some p \<Rightarrow>
          let (report, p) = cleanup_report J p;
              R = native_advance J p (R\<lparr>nr_cleanup_error := report\<rparr>)
          in (case (nr_closing R, nr_producer R) of
                (Some started, Some p) \<Rightarrow> native_drain J now started p R
              | _ \<Rightarrow> R))"

section \<open>The publisher\<close>

text \<open>
  Only the first result is sent.  A sent success carries a claim on the arena; \<open>create\<close> passes it to
  the attach server or drops it.
\<close>

definition finish_start :: "(message, u32 \<times> u32) result \<Rightarrow> 'p NativePublisher \<Rightarrow> 'p NativePublisher" where
  "finish_start r P =
     (if pub_ready P = None
      then P\<lparr>pub_ready := Some r, pub_state := (case r of
          Inl e \<Rightarrow> pub_state P | Inr _ \<Rightarrow> (pub_state P)\<lparr>nr_claims := nr_claims (pub_state P) + 1\<rparr>)\<rparr>
      else P)"

definition frame_params :: "'s NativeCapturedFrame \<Rightarrow> NativeStreamParams" where
  "frame_params frame =
     \<lparr>np_width = nf_width frame, np_height = nf_height frame, np_pixel_format = Bgra8Unorm, np_color_space = Srgb,
      np_modifier = 0\<rparr>"

text \<open>The arena for the first frame, a change of size, and the frame itself.\<close>

definition native_ensure ::
    "('s, 'p) native_arena \<Rightarrow> NativeStreamParams \<Rightarrow> 'p NativeRuntime \<Rightarrow> (message, 'p NativeRuntime) result" where
  "native_ensure J params R =
     (case nr_producer R of
        Some _ \<Rightarrow> Inr R
      | None \<Rightarrow> rbind (map_err text_message (arena_new J (params, native_arena_config))) (\<lambda>p.
          Inr (R\<lparr>nr_producer := Some p, nr_params := Some params\<rparr>)))"

definition native_resize ::
    "('s, 'p) native_arena \<Rightarrow> NativeStreamParams \<Rightarrow> 'p \<Rightarrow> 'p NativeRuntime \<Rightarrow> 'p option \<times> 'p NativeRuntime" where
  "native_resize J params p R =
     (if nr_pending R = None \<and> nr_params R \<noteq> Some params then
        (case arena_reconfigure J params p of
           (Inr ReconfigurationReady, p) \<Rightarrow>
             (Some p, R\<lparr>nr_producer := Some p, nr_params := Some params, nr_pause := None\<rparr>)
         | (Inr (PausedCapacity requested available), p) \<Rightarrow>
             (Some p, R\<lparr>nr_producer := Some p, nr_pending := Some params, nr_pause := Some (requested, available)\<rparr>)
         | (Inl e, p) \<Rightarrow>
             (None, R\<lparr>nr_producer := Some (arena_stop J p), nr_error := Some (text_message e)\<rparr>))
      else (Some p, R))"

definition native_hand_over ::
    "('s, 'p) native_arena \<Rightarrow> 's NativeCapturedFrame \<Rightarrow> 'p \<Rightarrow> 'p NativePublisher \<Rightarrow> 'p NativePublisher" where
  "native_hand_over J frame p P =
     (let R = pub_state P in
      case arena_publish J (nf_surface frame, 0) p of
        (Inr FramePublished, p) \<Rightarrow>
          finish_start (Inr (nf_width frame, nf_height frame))
            (P\<lparr>pub_state := R\<lparr>nr_producer := Some p, nr_published := saturating_succ (nr_published R)\<rparr>\<rparr>)
      | (Inr FrameDropped, p) \<Rightarrow>
          P\<lparr>pub_state := R\<lparr>nr_producer := Some p, nr_dropped := saturating_succ (nr_dropped R)\<rparr>\<rparr>
      | (Inl e, p) \<Rightarrow>
          finish_start (Inl (text_message e))
            (P\<lparr>pub_state := R\<lparr>nr_producer := Some (arena_stop J p), nr_error := Some (text_message e)\<rparr>\<rparr>))"

text \<open>\<open>None\<close> is the panic of an arena that is missing where the code expects it.\<close>

definition publish_native_frame ::
    "('s, 'p) native_arena \<Rightarrow> nat \<Rightarrow> 's NativeCapturedFrame \<Rightarrow> 'p NativePublisher \<Rightarrow> 'p NativePublisher option" where
  "publish_native_frame J now frame P =
     (let R = pub_state P; params = frame_params frame in
      if nr_closing R \<noteq> None \<or> nr_error R \<noteq> None then Some P
      else case native_ensure J params R of
        Inl e \<Rightarrow> Some (finish_start (Inl e) (P\<lparr>pub_state := R\<lparr>nr_error := Some e\<rparr>\<rparr>))
      | Inr R \<Rightarrow>
          let R = NativeRuntime_maintain J now R in
          if nr_error R \<noteq> None then Some (P\<lparr>pub_state := R\<rparr>)
          else case nr_producer R of None \<Rightarrow> None | Some p \<Rightarrow>
          (case native_resize J params p R of
             (None, R) \<Rightarrow> Some (P\<lparr>pub_state := R\<rparr>)
           | (Some p, R) \<Rightarrow> Some (native_hand_over J frame p (P\<lparr>pub_state := R\<rparr>))))"

definition capture_error :: "('s, 'p) native_arena \<Rightarrow> string \<Rightarrow> 'p NativePublisher \<Rightarrow> 'p NativePublisher" where
  "capture_error J m P =
     (let R = pub_state P in
      finish_start (Inl (text_message m))
        (P\<lparr>pub_state := R\<lparr>nr_error := Some (text_message m), nr_producer := map_option (arena_stop J) (nr_producer R)\<rparr>\<rparr>))"

definition close_publisher :: "('s, 'p) native_arena \<Rightarrow> nat \<Rightarrow> 'p NativePublisher \<Rightarrow> 'p NativePublisher" where
  "close_publisher J now P =
     (let R = pub_state P in
      if nr_closing R = None
      then P\<lparr>pub_state := R\<lparr>nr_closing := Some now, nr_producer := map_option (arena_stop J) (nr_producer R)\<rparr>\<rparr>
      else P)"

definition native_tick :: "('s, 'p) native_arena \<Rightarrow> nat \<Rightarrow> 'p NativePublisher \<Rightarrow> bool \<times> 'p NativePublisher" where
  "native_tick J now P =
     (let R = NativeRuntime_maintain J now (pub_state P) in (nr_drained R, P\<lparr>pub_state := R\<rparr>))"

section \<open>Steps\<close>

inductive native_step :: "('s, 'p) native_arena \<Rightarrow> 'p NativePublisher \<Rightarrow> 'p NativePublisher \<Rightarrow> bool" for J where
  frame: "publish_native_frame J now f P = Some P' \<Longrightarrow> native_step J P P'"
| error: "native_step J P (capture_error J m P)"
| close: "native_step J P (close_publisher J now P)"
| tick: "native_step J P (snd (native_tick J now P))"
| release_claim: "0 < nr_claims (pub_state P) \<Longrightarrow>
    native_step J P (P\<lparr>pub_state := (pub_state P)\<lparr>nr_claims := nr_claims (pub_state P) - 1\<rparr>\<rparr>)"
| serve: "0 < nr_claims (pub_state P) \<Longrightarrow> nr_producer (pub_state P) = Some p \<Longrightarrow>
    native_step J P (P\<lparr>pub_state := (pub_state P)\<lparr>nr_producer := Some p'\<rparr>\<rparr>)"

definition native_runtime_ok :: "'p NativeRuntime \<Rightarrow> bool" where
  "native_runtime_ok R \<longleftrightarrow>
     (nr_producer R = None \<longrightarrow> nr_claims R = 0) \<and>
     (nr_producer R \<noteq> None \<longrightarrow> nr_params R \<noteq> None) \<and>
     (nr_pending R = None \<longleftrightarrow> nr_pause R = None) \<and> (nr_pending R \<noteq> None \<longrightarrow> nr_params R \<noteq> None) \<and>
     (nr_drained R \<longrightarrow> nr_closing R \<noteq> None \<and> nr_producer R = None)"

definition native_terminal :: "'p NativePublisher \<Rightarrow> bool" where
  "native_terminal P \<longleftrightarrow> nr_closing (pub_state P) \<noteq> None \<or> nr_error (pub_state P) \<noteq> None"

definition native_emitted :: "'p NativePublisher \<Rightarrow> u64 \<times> u64 \<times> NativeStreamParams option" where
  "native_emitted P = (nr_published (pub_state P), nr_dropped (pub_state P), nr_params (pub_state P))"

lemma native_drain_simps [simp]:
  "nr_closing (native_drain J now t p R) = nr_closing R" "nr_error (native_drain J now t p R) = nr_error R"
  "nr_params (native_drain J now t p R) = nr_params R" "nr_pending (native_drain J now t p R) = nr_pending R"
  "nr_pause (native_drain J now t p R) = nr_pause R" "nr_published (native_drain J now t p R) = nr_published R"
  "nr_dropped (native_drain J now t p R) = nr_dropped R" "nr_claims (native_drain J now t p R) = nr_claims R"
  by (auto simp: native_drain_def Let_def split: prod.splits sum.splits)

lemma native_drain_drained:
  "nr_drained (native_drain J now t p R) \<longrightarrow> nr_drained R \<or> nr_producer (native_drain J now t p R) = None"
  "nr_producer (native_drain J now t p R) = None \<longrightarrow> nr_claims R = 0"
  by (auto simp: native_drain_def Let_def split: prod.splits sum.splits if_splits)

lemma native_advance_simps [simp]:
  "nr_closing (native_advance J p R) = nr_closing R" "nr_published (native_advance J p R) = nr_published R"
  "nr_dropped (native_advance J p R) = nr_dropped R" "nr_claims (native_advance J p R) = nr_claims R"
  "nr_drained (native_advance J p R) = nr_drained R" "nr_producer (native_advance J p R) \<noteq> None"
  by (auto simp: native_advance_def split: prod.splits sum.splits ReconfigurationStatus.splits)

lemma native_advance_ok:
  "nr_pending R = None \<longleftrightarrow> nr_pause R = None \<Longrightarrow> nr_pending R \<noteq> None \<longrightarrow> nr_params R \<noteq> None \<Longrightarrow>
   (nr_pending (native_advance J p R) = None \<longleftrightarrow> nr_pause (native_advance J p R) = None) \<and>
   (nr_pending (native_advance J p R) \<noteq> None \<longrightarrow> nr_params (native_advance J p R) \<noteq> None) \<and>
   (nr_params R \<noteq> None \<longrightarrow> nr_params (native_advance J p R) \<noteq> None)"
  by (auto simp: native_advance_def split: prod.splits sum.splits ReconfigurationStatus.splits)

lemma native_advance_terminal:
  "nr_closing R \<noteq> None \<or> nr_error R \<noteq> None \<Longrightarrow> native_advance J p R = R\<lparr>nr_producer := Some p\<rparr>"
  by (auto simp: native_advance_def)

lemma native_maintain_cases:
  obtains (idle) "nr_producer R = None" "NativeRuntime_maintain J now R = R\<lparr>nr_drained := (nr_closing R \<noteq> None)\<rparr>"
  | (live) p report where "nr_producer R \<noteq> None" "nr_closing R = None"
      "NativeRuntime_maintain J now R = native_advance J p (R\<lparr>nr_cleanup_error := report\<rparr>)"
  | (ending) p started report where "nr_producer R \<noteq> None" "nr_closing R = Some started"
      "NativeRuntime_maintain J now R =
         native_drain J now started p (R\<lparr>nr_cleanup_error := report, nr_producer := Some p\<rparr>)"
proof (cases "nr_producer R")
  case None
  then show ?thesis by (intro idle) (simp_all add: NativeRuntime_maintain_def)
next
  case (Some p0)
  obtain report p where rp: "cleanup_report J p0 = (report, p)" by (cases "cleanup_report J p0")
  show ?thesis
  proof (cases "nr_closing R")
    case None
    with Some rp show ?thesis by (intro live) (simp_all add: NativeRuntime_maintain_def)
  next
    case (Some started)
    with \<open>nr_producer R = Some p0\<close> rp show ?thesis
      by (intro ending) (simp_all add: NativeRuntime_maintain_def native_advance_def)
  qed
qed

lemma native_maintain_simps [simp]:
  "nr_closing (NativeRuntime_maintain J now R) = nr_closing R"
  "nr_published (NativeRuntime_maintain J now R) = nr_published R"
  "nr_dropped (NativeRuntime_maintain J now R) = nr_dropped R"
  "nr_claims (NativeRuntime_maintain J now R) = nr_claims R"
  by (rule native_maintain_cases [of R J now]; simp)+

lemma native_maintain_ok:
  assumes "native_runtime_ok R"
  shows "native_runtime_ok (NativeRuntime_maintain J now R)"
proof (cases rule: native_maintain_cases [of R J now])
  case idle
  with assms show ?thesis by (auto simp: native_runtime_ok_def)
next
  case (live p report)
  with assms native_advance_ok [of "R\<lparr>nr_cleanup_error := report\<rparr>" J p] show ?thesis
    by (simp add: native_runtime_ok_def)
next
  case (ending p started report)
  with assms native_drain_drained [of J now started p "R\<lparr>nr_cleanup_error := report, nr_producer := Some p\<rparr>"]
  show ?thesis by (auto simp: native_runtime_ok_def)
qed

lemma native_maintain_live:
  "nr_closing R = None \<Longrightarrow> nr_producer R \<noteq> None \<Longrightarrow> nr_producer (NativeRuntime_maintain J now R) \<noteq> None"
  by (cases rule: native_maintain_cases [of R J now]) simp_all

lemma native_maintain_terminal:
  assumes "nr_closing R \<noteq> None \<or> nr_error R \<noteq> None"
  shows "(nr_closing (NativeRuntime_maintain J now R) \<noteq> None \<or> nr_error (NativeRuntime_maintain J now R) \<noteq> None) \<and>
    nr_params (NativeRuntime_maintain J now R) = nr_params R"
  using assms by (cases rule: native_maintain_cases [of R J now]) (auto simp: native_advance_terminal)

lemma finish_start_simps [simp]:
  "native_runtime_ok (pub_state (finish_start r P)) \<longleftrightarrow>
     native_runtime_ok (pub_state P) \<and>
     (pub_ready P = None \<and> nr_producer (pub_state P) = None \<longrightarrow> (\<exists>e. r = Inl e))"
  "native_terminal (finish_start r P) = native_terminal P" "native_emitted (finish_start r P) = native_emitted P"
  "nr_drained (pub_state (finish_start r P)) = nr_drained (pub_state P)"
  by (auto simp: finish_start_def native_runtime_ok_def native_terminal_def native_emitted_def split: sum.splits)

lemma native_closed_frame:
  "native_terminal P \<Longrightarrow> publish_native_frame J now frame P = Some P"
  by (simp add: publish_native_frame_def native_terminal_def)

lemma native_resize_ok:
  assumes "native_resize J params p R = (q, R')" and "native_runtime_ok R" and "nr_producer R = Some p"
  shows "native_runtime_ok R' \<and> nr_producer R' \<noteq> None"
  using assms(1) [symmetric] assms(2,3)
  by (simp add: native_resize_def native_runtime_ok_def
      split: if_splits prod.splits sum.splits ReconfigurationStatus.splits)

text \<open>A frame keeps the runtime consistent and finds its arena.\<close>

lemma native_frame_ok:
  assumes "native_runtime_ok (pub_state P)"
  shows "\<exists>P'. publish_native_frame J now frame P = Some P' \<and> native_runtime_ok (pub_state P')"
proof (cases "native_terminal P")
  case True
  with assms show ?thesis by (simp add: native_closed_frame)
next
  case False
  let ?params = "frame_params frame"
  show ?thesis
  proof (cases "native_ensure J ?params (pub_state P)")
    case (Inl e)
    with False assms show ?thesis
      by (simp add: publish_native_frame_def native_terminal_def) (auto simp: native_runtime_ok_def)
  next
    case (Inr R1)
    let ?R2 = "NativeRuntime_maintain J now R1"
    have "native_runtime_ok R1" "nr_closing R1 = None" "nr_producer R1 \<noteq> None"
      using Inr assms False
      by (auto simp: native_ensure_def native_runtime_ok_def native_terminal_def result_simps split: option.splits)
    then have ok: "native_runtime_ok ?R2" "nr_closing ?R2 = None" "nr_producer ?R2 \<noteq> None"
      by (simp_all add: native_maintain_ok native_maintain_live)
    then obtain p where p: "nr_producer ?R2 = Some p" by blast
    obtain q R3 where q: "native_resize J ?params p ?R2 = (q, R3)" by fastforce
    have "native_runtime_ok R3 \<and> nr_producer R3 \<noteq> None"
      by (rule native_resize_ok [OF q ok(1) p])
    then have "native_runtime_ok (pub_state (native_hand_over J frame p' (P\<lparr>pub_state := R3\<rparr>)))" for p'
      by (simp add: native_hand_over_def Let_def split: prod.splits sum.splits PublishOutcome.splits)
        (auto simp: native_runtime_ok_def)
    with False Inr ok p q \<open>native_runtime_ok R3 \<and> _\<close> show ?thesis
      by (auto simp: publish_native_frame_def native_terminal_def Let_def split: option.splits)
  qed
qed

lemma native_step_ok:
  assumes "native_runtime_ok (pub_state P)" and "native_step J P P'"
  shows "native_runtime_ok (pub_state P')"
  using assms(2)
proof cases
  case (frame now f)
  with native_frame_ok [OF assms(1), of J now f] show ?thesis by auto
next
  case (tick now)
  with native_maintain_ok [OF assms(1)] show ?thesis by (simp add: native_tick_def Let_def)
qed (use assms(1) in \<open>auto simp: capture_error_def close_publisher_def Let_def, auto simp: native_runtime_ok_def\<close>)

lemma native_terminal_step:
  assumes "native_terminal P" and "native_step J P P'"
  shows "native_terminal P' \<and> native_emitted P' = native_emitted P"
  using assms(2)
proof cases
  case (frame now f)
  with assms(1) show ?thesis by (simp add: native_closed_frame)
next
  case (tick now)
  with assms(1) native_maintain_terminal [of "pub_state P" J now] show ?thesis
    by (auto simp: native_tick_def Let_def native_terminal_def native_emitted_def)
qed (use assms(1) in \<open>auto simp: capture_error_def close_publisher_def Let_def,
    auto simp: native_terminal_def native_emitted_def\<close>)

lemma native_drained_step:
  assumes "native_runtime_ok (pub_state P)" and "nr_drained (pub_state P)" and "native_step J P P'"
  shows "nr_drained (pub_state P')"
  using assms(3)
proof cases
  case (frame now f)
  with assms(1,2) show ?thesis
    using native_closed_frame [of P J now f] by (auto simp: native_terminal_def native_runtime_ok_def)
next
  case (tick now)
  with assms(1,2) show ?thesis
    by (auto simp: native_tick_def Let_def NativeRuntime_maintain_def native_runtime_ok_def)
qed (use assms(1,2) in \<open>auto simp: capture_error_def close_publisher_def Let_def\<close>)

interpretation native: retiring_runtime "native_step J" "\<lambda>P. native_runtime_ok (pub_state P)" native_terminal
  "\<lambda>P. nr_drained (pub_state P)" native_emitted for J
  by unfold_locales (erule (1) native_step_ok, erule (1) native_terminal_step, erule (2) native_drained_step)

lemma native_default_ok: "native_runtime_ok (pub_state NativePublisher_new)"
  by (simp add: native_runtime_ok_def NativePublisher_new_def NativeRuntime_default_def)

text \<open>
  A native capture session that has been closed or has failed publishes nothing more: whatever
  frames the capture stream still delivers and however the worker, viewers and errors interleave, its
  counters and its size stay as they are, frames are ignored, and once it is drained (then it holds
  no arena and nobody else claims it) it stays drained.
\<close>

theorem ended_native_capture_emits_nothing:
  assumes "(native_step J)\<^sup>*\<^sup>* NativePublisher_new P"
    and "nr_closing (pub_state P) \<noteq> None \<or> nr_error (pub_state P) \<noteq> None" and "(native_step J)\<^sup>*\<^sup>* P Q"
  shows "native_emitted Q = native_emitted P \<and> publish_native_frame J now frame Q = Some Q \<and>
    (nr_drained (pub_state P) \<longrightarrow>
       nr_drained (pub_state Q) \<and> nr_producer (pub_state Q) = None \<and> nr_claims (pub_state Q) = 0)"
proof -
  have terminal: "native_terminal Q" "native_emitted Q = native_emitted P"
    using native.terminal_run [OF assms(3)] assms(2) by (simp_all add: native_terminal_def)
  have ok: "native_runtime_ok (pub_state P)" by (rule native.sane_run [OF assms(1) native_default_ok])
  have "native_runtime_ok (pub_state Q)" by (rule native.sane_run [OF assms(3) ok])
  then have "nr_drained (pub_state Q) \<longrightarrow> nr_producer (pub_state Q) = None \<and> nr_claims (pub_state Q) = 0"
    by (simp add: native_runtime_ok_def)
  with terminal native.drained_run [OF assms(3) ok] show ?thesis by (simp add: native_closed_frame)
qed

definition example_native_arena :: "(nat, nat) native_arena" where
  "example_native_arena =
     \<lparr>arena_new = (\<lambda>c. Inr 0), arena_stop = (\<lambda>p. p), arena_reconfigure = (\<lambda>n p. (Inr ReconfigurationReady, p)),
      arena_advance = (\<lambda>p. (Inr ReconfigurationReady, p)), arena_publish = (\<lambda>f p. (Inr FramePublished, Suc p)),
      arena_poll_cleanup = (\<lambda>p. (Inr (), p)), arena_cleanup_failures = (\<lambda>p. []),
      arena_poll_shutdown = (\<lambda>p. (Inr True, p))\<rparr>"

definition example_native_live :: "nat NativePublisher" where
  "example_native_live =
     (case publish_native_frame example_native_arena 10 \<lparr>nf_width = 16, nf_height = 9, nf_surface = 0\<rparr> NativePublisher_new
      of None \<Rightarrow> NativePublisher_new | Some P \<Rightarrow> P)"

lemma example_native_frame:
  "publish_native_frame example_native_arena 10 \<lparr>nf_width = 16, nf_height = 9, nf_surface = 0\<rparr> NativePublisher_new
     = Some example_native_live"
  "native_emitted example_native_live =
     (1, 0, Some \<lparr>np_width = 16, np_height = 9, np_pixel_format = Bgra8Unorm, np_color_space = Srgb, np_modifier = 0\<rparr>)"
  unfolding example_native_live_def
  by (simp_all add: example_native_arena_def NativePublisher_new_def NativeRuntime_default_def publish_native_frame_def
      frame_params_def native_ensure_def NativeRuntime_maintain_def cleanup_report_def native_advance_def
      native_resize_def native_hand_over_def finish_start_def saturating_succ_def native_emitted_def)

theorem ended_native_capture_emits_nothing_witness:
  "let P = close_publisher example_native_arena 20 example_native_live
   in native_emitted P = native_emitted example_native_live \<and>
      publish_native_frame example_native_arena 30 \<lparr>nf_width = 32, nf_height = 9, nf_surface = 1\<rparr> P = Some P"
proof -
  let ?P = "close_publisher example_native_arena 20 example_native_live"
  have run: "(native_step example_native_arena)\<^sup>*\<^sup>* NativePublisher_new ?P"
    using native_step.frame [OF example_native_frame(1)] native_step.close
    by (meson rtranclp.rtrancl_into_rtrancl rtranclp.rtrancl_refl)
  have "nr_closing (pub_state ?P) \<noteq> None" by (simp add: close_publisher_def Let_def)
  moreover have "native_emitted ?P = native_emitted example_native_live"
    by (simp add: close_publisher_def Let_def native_emitted_def)
  ultimately show ?thesis
    using ended_native_capture_emits_nothing [OF run _ rtranclp.rtrancl_refl] by (simp add: Let_def)
qed

end
