(* ===== verification/Export_Registry.thy ===== *)
theory Export_Registry
  imports Daemon_State "HOL-Library.AList"
begin

text \<open>
  The daemon's table of exports and republications (\<open>portholed/src/export_registry.rs\<close>): which agent
  owns each end of a cross-host bridge, who may inspect and end it, and the lifetime of what an entry
  holds: a runtime directory, the executor of its input channel and the bridge half.

  What the host answers in a call (identifiers, directories, sockets, processes and their status)
  are arguments of the call, collected in \<open>answers\<close>.  A value that the code drops on an early return
  or with its record is released in the model.  The state says what is there on the host: directories,
  executors and halves that were started and not stopped.  Neither the removal of a directory nor the stop
  of a launchd job need succeed, and the code ignores both failures, so what was released may remain.  The
  directory that a launchd job has its files in is never removed.  What a start leaves behind that itself
  fails is not modelled.  An operation is one step: what it holds before it inserts its entry has a fresh
  name, so operations that overlap do not meet.  A report of a half is a JSON value without fractions.  No operation panics while
  it holds the table's lock, so the lock is never poisoned.
\<close>

section \<open>Data\<close>

datatype Phase = PhaseStarting | PhaseListening | PhaseRunning | PhaseEnded

record 'd HalfStatus =
  half_phase :: "Phase option"
  half_decision :: "'d option"
  half_publication :: "(string \<times> string option) option"
  half_report :: "json option"
  half_failure :: "string option"
  half_exit_code :: "int option"

datatype BridgeExecution = InProcess | Worker

record Identities =
  id_source :: string
  id_publication :: string

record NativeCaptureInfo =
  native_transport_kind :: u32
  native_endpoint :: string
  native_attach_token :: string

text \<open>Errors of the operating system and of the bridge are kept as the text they display.\<close>

datatype ExportError =
    UnknownExport string
  | UnknownRepublication string
  | NotOwner
  | BridgeMissing
  | ExportIo string
  | TokenError string
  | SpawnError string
  | Poisoned
  | RepublishFailed string
  | ExportUnsupported
  | InputUnavailable

record 'c EgressSpec =
  source_service :: string
  source_token :: "string option"
  egress_media_socket :: string
  egress_control_socket :: string
  egress_link_token :: string
  egress_chroma :: 'c
  egress_bitrate_bps :: "u32 option"
  egress_input_socket :: "string option"

record 'c IngressSpec =
  ingress_media_socket :: string
  ingress_control_socket :: string
  ingress_service :: string
  ingress_viewer_token :: "string option"
  ingress_link_token :: string
  ingress_chroma :: 'c
  ingress_cpu_socket :: "string option"
  ingress_input_socket :: "string option"

record InputExecutor =
  executor_path :: string
  executor_surface :: string
  executor_frame :: "u32 \<times> u32"

record 'h ExportRecord =
  exp_publication_id :: string
  exp_owner :: AgentId
  exp_identities :: Identities
  exp_link_token :: string
  exp_media_socket :: string
  exp_control_socket :: string
  exp_handle :: 'h
  exp_executor :: "InputExecutor option"
  exp_directory :: string

text \<open>The half of a republication is a launchd job or a thread of the daemon.\<close>

datatype 'h RepublishHandle = WorkerJob (half_of: 'h) | InProcessTask (half_of: 'h)

record 'h RepublishRecord =
  rep_owner :: AgentId
  rep_identities :: Identities
  rep_native :: NativeCaptureInfo
  rep_cpu_socket :: "string option"
  rep_input_socket :: "string option"
  rep_job :: "'h RepublishHandle"
  rep_directory :: "string option"

text \<open>
  The table with its configuration, and what it holds: directories and input sockets by their path,
  halves by their handle.
\<close>

record 'h ExportRegistry =
  runtime_directory :: "string option"
  has_input_pipeline :: bool
  on_macos :: bool
  exports :: "(string \<times> 'h ExportRecord) list"
  republications :: "(string \<times> 'h RepublishRecord) list"
  held_directories :: "string list"
  held_executors :: "string list"
  held_halves :: "'h list"
  job_directories :: "string list"

text \<open>
  What \<open>launchctl bootout\<close> comes to: the job is gone, it was refused and the job is still registered, or
  the command could not be run.
\<close>

datatype Bootout = BootedOut | StillRegistered | NotRun

text \<open>What the host answers in one call; a job may be booted out twice.\<close>

record ('h, 'd) answers =
  ans_uuid :: string \<comment> \<open>32 hexadecimal digits\<close>
  ans_viewer_uuid :: string
  ans_directory :: "(string, unit) result"
  ans_runtime :: "(string, unit) result"
  ans_executor :: "(string, unit) result"
  ans_token :: "(string, string) result"
  ans_bridge_found :: bool
  ans_start :: "(string, 'h) result"
  ans_job_directory :: "(string, unit) result"
  ans_bootout :: "Bootout \<times> Bootout"
  ans_removed :: bool \<comment> \<open>the directory that is dropped could be removed\<close>
  ans_status :: "'d HalfStatus"
  ans_stderr_line :: "string option"

record 'd ExportResponse =
  er_export_id :: string
  er_publication_id :: string
  er_identities :: Identities
  er_status :: string
  er_status_message :: "string option"
  er_decision :: "'d option"
  er_media_socket :: string
  er_control_socket :: string
  er_link_token :: string
  er_report :: "json option"

record PublicationResponse =
  pub_publication_id :: string
  pub_kind :: string
  pub_identities :: Identities
  pub_status :: string
  pub_status_message :: "string option"
  pub_width :: u32
  pub_height :: u32
  pub_native :: "NativeCaptureInfo option"
  pub_cpu_socket :: "string option"
  pub_input_socket :: "string option"

record 'c RepublishRequest =
  req_execution :: BridgeExecution
  req_media_socket :: string
  req_control_socket :: string
  req_link_token :: string
  req_identities :: Identities
  req_chroma :: 'c
  req_cpu :: bool
  req_input :: bool

section \<open>Errors and status\<close>

fun ExportError_display :: "ExportError \<Rightarrow> string" where
  "ExportError_display (UnknownExport i) = ''unknown export '' @ i"
| "ExportError_display (UnknownRepublication i) = ''unknown republication '' @ i"
| "ExportError_display NotOwner = ''only the owner may inspect or end this export''"
| "ExportError_display BridgeMissing =
     ''jackstay-bridge executable not found; set JACKSTAY_BRIDGE_BIN or install it beside portholed''"
| "ExportError_display (ExportIo e) = ''export runtime directory: '' @ e"
| "ExportError_display (TokenError e) = ''minting the link token: '' @ e"
| "ExportError_display (SpawnError e) = ''spawning the bridge half: '' @ e"
| "ExportError_display Poisoned = ''registry poisoned''"
| "ExportError_display (RepublishFailed e) = ''republication did not come up: '' @ e"
| "ExportError_display ExportUnsupported = ''native bridges currently require macOS''"
| "ExportError_display InputUnavailable = ''this daemon has no input pipeline for a remote input channel''"

definition phase_name :: "'d HalfStatus \<Rightarrow> string" where
  "phase_name status =
     (case half_phase status of
        None \<Rightarrow> ''starting''
      | Some PhaseStarting \<Rightarrow> ''starting''
      | Some PhaseListening \<Rightarrow> ''listening''
      | Some PhaseRunning \<Rightarrow> ''running''
      | Some PhaseEnded \<Rightarrow> ''ended'')"

definition status_message :: "'d HalfStatus \<Rightarrow> string option" where
  "status_message status =
     (case (half_failure status, half_exit_code status) of
        (Some f, _) \<Rightarrow> Some f
      | (None, Some code) \<Rightarrow> if code \<noteq> 0 then Some (''bridge half exited with status '' @ show_int code) else None
      | (None, None) \<Rightarrow> None)"

definition json_get :: "string \<Rightarrow> json \<Rightarrow> json option" where
  "json_get key v = (case v of JObj kvs \<Rightarrow> map_of kvs key | _ \<Rightarrow> None)"

definition json_as_u64 :: "json \<Rightarrow> u64 option" where
  "json_as_u64 v = (case v of JNum n \<Rightarrow> if 0 \<le> n \<and> n < 2 ^ 64 then Some (word_of_int n) else None | _ \<Rightarrow> None)"

definition export_response :: "string \<Rightarrow> 'h ExportRecord \<Rightarrow> 'd HalfStatus \<Rightarrow> 'd ExportResponse" where
  "export_response export_id r status =
     \<lparr>er_export_id = export_id, er_publication_id = exp_publication_id r, er_identities = exp_identities r,
      er_status = phase_name status, er_status_message = status_message status,
      er_decision = half_decision status, er_media_socket = exp_media_socket r,
      er_control_socket = exp_control_socket r, er_link_token = exp_link_token r, er_report = half_report status\<rparr>"

definition report_size :: "'d HalfStatus \<Rightarrow> u32 \<times> u32" where
  "report_size status =
     (case half_report status of
        None \<Rightarrow> (0, 0)
      | Some r \<Rightarrow>
          (case (Option.bind (json_get ''width'' r) json_as_u64, Option.bind (json_get ''height'' r) json_as_u64) of
             (Some w, Some h) \<Rightarrow> (ucast w, ucast h)
           | _ \<Rightarrow> (0, 0)))"

definition republish_publication ::
    "('d \<Rightarrow> string) \<Rightarrow> string \<Rightarrow> 'h RepublishRecord \<Rightarrow> 'd HalfStatus \<Rightarrow> PublicationResponse" where
  "republish_publication show_decision publication_id r status =
     \<lparr>pub_publication_id = publication_id, pub_kind = ''republished'', pub_identities = rep_identities r,
      pub_status = (case half_phase status of
          Some PhaseRunning \<Rightarrow> ''ready'' | Some PhaseEnded \<Rightarrow> ''closed'' | _ \<Rightarrow> ''starting''),
      pub_status_message = (case status_message status of
          Some m \<Rightarrow> Some m | None \<Rightarrow> map_option show_decision (half_decision status)),
      pub_width = fst (report_size status), pub_height = snd (report_size status),
      pub_native = Some (rep_native r), pub_cpu_socket = rep_cpu_socket r, pub_input_socket = rep_input_socket r\<rparr>"

section \<open>What the table holds\<close>

text \<open>\<open>Path::join\<close> with a relative second part.\<close>

definition path_join :: "string \<Rightarrow> string \<Rightarrow> string" where
  "path_join d c = (if d = [] \<or> last d = CHR ''/'' then d @ c else d @ ''/'' @ c)"

definition hold_directory :: "string \<Rightarrow> 'h ExportRegistry \<Rightarrow> 'h ExportRegistry" where
  "hold_directory dir R = R\<lparr>held_directories := List.insert dir (held_directories R)\<rparr>"

text \<open>The error of \<open>remove_dir_all\<close> is ignored.\<close>

definition release_directory :: "('h, 'd) answers \<Rightarrow> string \<Rightarrow> 'h ExportRegistry \<Rightarrow> 'h ExportRegistry" where
  "release_directory ans dir R = (if ans_removed ans then R\<lparr>held_directories := removeAll dir (held_directories R)\<rparr> else R)"

definition hold_executor :: "InputExecutor option \<Rightarrow> 'h ExportRegistry \<Rightarrow> 'h ExportRegistry" where
  "hold_executor executor R =
     (case executor of None \<Rightarrow> R | Some e \<Rightarrow> R\<lparr>held_executors := List.insert (executor_path e) (held_executors R)\<rparr>)"

definition release_executor :: "InputExecutor option \<Rightarrow> 'h ExportRegistry \<Rightarrow> 'h ExportRegistry" where
  "release_executor executor R =
     (case executor of None \<Rightarrow> R | Some e \<Rightarrow> R\<lparr>held_executors := removeAll (executor_path e) (held_executors R)\<rparr>)"

definition hold_half :: "'h \<Rightarrow> 'h ExportRegistry \<Rightarrow> 'h ExportRegistry" where
  "hold_half h R = R\<lparr>held_halves := List.insert h (held_halves R)\<rparr>"

definition release_half :: "'h \<Rightarrow> 'h ExportRegistry \<Rightarrow> 'h ExportRegistry" where
  "release_half h R = R\<lparr>held_halves := removeAll h (held_halves R)\<rparr>"

definition release_option :: "('h, 'd) answers \<Rightarrow> string option \<Rightarrow> 'h ExportRegistry \<Rightarrow> 'h ExportRegistry" where
  "release_option ans dir R = (case dir of None \<Rightarrow> R | Some d \<Rightarrow> release_directory ans d R)"

text \<open>
  \<open>LaunchdJob::stop\<close> followed by the drop of the job, which stops it again unless a \<open>bootout\<close> has run.
  Whether the job is gone; both ignore a failure.
\<close>

definition LaunchdJob_gone :: "Bootout \<times> Bootout \<Rightarrow> bool" where
  "LaunchdJob_gone b = (case fst b of BootedOut \<Rightarrow> True | StillRegistered \<Rightarrow> False | NotRun \<Rightarrow> snd b = BootedOut)"

fun release_job :: "('h, 'd) answers \<Rightarrow> 'h RepublishHandle \<Rightarrow> 'h ExportRegistry \<Rightarrow> 'h ExportRegistry" where
  "release_job ans (WorkerJob h) R = (if LaunchdJob_gone (ans_bootout ans) then release_half h R else R)"
| "release_job ans (InProcessTask h) R = release_half h R"

lemma on_macos_hold [simp]:
  "on_macos (hold_directory dir R) = on_macos R" "on_macos (hold_executor e R) = on_macos R"
  by (simp_all add: hold_directory_def hold_executor_def split: option.splits)

text \<open>Dropping a record: its fields in the order of their declaration.\<close>

definition drop_export :: "('h, 'd) answers \<Rightarrow> 'h ExportRecord \<Rightarrow> 'h ExportRegistry \<Rightarrow> 'h ExportRegistry" where
  "drop_export ans r R =
     release_directory ans (exp_directory r) (release_executor (exp_executor r) (release_half (exp_handle r) R))"

definition drop_republication :: "('h, 'd) answers \<Rightarrow> 'h RepublishRecord \<Rightarrow> 'h ExportRegistry \<Rightarrow> 'h ExportRegistry" where
  "drop_republication ans r R = release_option ans (rep_directory r) (release_job ans (rep_job r) R)"

section \<open>Operations\<close>

definition ExportRegistry_new :: "string option \<Rightarrow> bool \<Rightarrow> bool \<Rightarrow> 'h ExportRegistry" where
  "ExportRegistry_new dir input macos =
     \<lparr>runtime_directory = dir, has_input_pipeline = input, on_macos = macos, exports = [], republications = [],
      held_directories = [], held_executors = [], held_halves = [], job_directories = []\<rparr>"

definition runtime_dir :: "'h ExportRegistry \<Rightarrow> (ExportError, string) result" where
  "runtime_dir R = ok_or (runtime_directory R) (ExportIo ''exports are disabled: no runtime directory'')"

definition start_executor ::
    "('h, 'd) answers \<Rightarrow> bool \<Rightarrow> string \<Rightarrow> string \<Rightarrow> u32 \<times> u32 \<Rightarrow> 'h ExportRegistry \<Rightarrow>
     (ExportError, InputExecutor option) result" where
  "start_executor ans input dir surface frame R =
     (if \<not> input then Inr None
      else if \<not> has_input_pipeline R then Inl InputUnavailable
      else rbind (map_err (\<lambda>e. SpawnError (''no runtime for the input executor: '' @ e)) (ans_runtime ans)) (\<lambda>_.
           rbind (map_err SpawnError (ans_executor ans)) (\<lambda>_.
           Inr (Some \<lparr>executor_path = path_join dir ''i'', executor_surface = surface, executor_frame = frame\<rparr>))))"

definition ExportHandle_start :: "('h, 'd) answers \<Rightarrow> bool \<Rightarrow> BridgeExecution \<Rightarrow> (ExportError, 'h) result" where
  "ExportHandle_start ans macos execution =
     (case execution of
        Worker \<Rightarrow> if ans_bridge_found ans then map_err SpawnError (ans_start ans) else Inl BridgeMissing
      | InProcess \<Rightarrow> if macos then map_err SpawnError (ans_start ans) else Inl ExportUnsupported)"

definition egress_spec ::
    "string \<Rightarrow> string \<Rightarrow> NativeCaptureInfo \<Rightarrow> 'c \<Rightarrow> u32 option \<Rightarrow> InputExecutor option \<Rightarrow> 'c EgressSpec" where
  "egress_spec dir token native chroma bitrate executor =
     \<lparr>source_service = native_endpoint native, source_token = Some (native_attach_token native),
      egress_media_socket = path_join dir ''m'', egress_control_socket = path_join dir ''c'',
      egress_link_token = token, egress_chroma = chroma, egress_bitrate_bps = bitrate,
      egress_input_socket = map_option executor_path executor\<rparr>"

definition export_directory :: "string \<Rightarrow> string \<Rightarrow> string" where
  "export_directory rd export_id = path_join (path_join rd ''x'') (take 12 (drop 4 export_id))"

text \<open>An entry that is overwritten is dropped.\<close>

definition insert_export :: "('h, 'd) answers \<Rightarrow> string \<Rightarrow> 'h ExportRecord \<Rightarrow> 'h ExportRegistry \<Rightarrow> 'h ExportRegistry" where
  "insert_export ans i r R =
     (let R' = R\<lparr>exports := AList.update i r (exports R)\<rparr> in
      case map_of (exports R) i of None \<Rightarrow> R' | Some old \<Rightarrow> drop_export ans old R')"

definition export_name :: "('h, 'd) answers \<Rightarrow> string" where
  "export_name ans = ''exp_'' @ ans_uuid ans"

definition create_export ::
    "('h, 'd) answers \<Rightarrow> string \<Rightarrow> AgentId \<Rightarrow> Identities \<Rightarrow> NativeCaptureInfo \<Rightarrow> 'c \<Rightarrow> u32 option \<Rightarrow> bool \<Rightarrow>
     u32 \<times> u32 \<Rightarrow> BridgeExecution \<Rightarrow> 'h ExportRegistry \<Rightarrow> (ExportError, 'd ExportResponse) result \<times> 'h ExportRegistry" where
  "create_export ans publication_id owner ids native chroma bitrate input frame execution R =
     (case runtime_dir R of Inl e \<Rightarrow> (Inl e, R) | Inr rd \<Rightarrow>
      if \<not> on_macos R then (Inl ExportUnsupported, R)
      else
        let export_id = export_name ans; dir = export_directory rd export_id in
        case ans_directory ans of Inl e \<Rightarrow> (Inl (ExportIo e), R) | Inr _ \<Rightarrow>
        let R = hold_directory dir R in
        case start_executor ans input dir (id_source ids) frame R of
          Inl e \<Rightarrow> (Inl e, release_directory ans dir R)
        | Inr executor \<Rightarrow>
        let R = hold_executor executor R in
        case ans_token ans of
          Inl e \<Rightarrow> (Inl (TokenError e), release_directory ans dir (release_executor executor R))
        | Inr token \<Rightarrow>
        let spec = egress_spec dir token native chroma bitrate executor in
        case ExportHandle_start ans (on_macos R) execution of
          Inl e \<Rightarrow> (Inl e, release_directory ans dir (release_executor executor R))
        | Inr handle \<Rightarrow>
        let R = hold_half handle R;
            r = \<lparr>exp_publication_id = publication_id, exp_owner = owner, exp_identities = ids,
                 exp_link_token = egress_link_token spec, exp_media_socket = egress_media_socket spec,
                 exp_control_socket = egress_control_socket spec, exp_handle = handle, exp_executor = executor,
                 exp_directory = dir\<rparr>
        in (Inr (export_response export_id r (ans_status ans)), insert_export ans export_id r R))"

text \<open>The entry that an agent may address: under its publication, by its owner.\<close>

definition addressed_export :: "string \<Rightarrow> string \<Rightarrow> AgentId \<Rightarrow> 'h ExportRegistry \<Rightarrow> (ExportError, 'h ExportRecord) result" where
  "addressed_export publication_id export_id agent R =
     (case map_of (exports R) export_id of
        None \<Rightarrow> Inl (UnknownExport export_id)
      | Some r \<Rightarrow>
          if exp_publication_id r \<noteq> publication_id then Inl (UnknownExport export_id)
          else if exp_owner r \<noteq> agent then Inl NotOwner else Inr r)"

definition export_status ::
    "('h, 'd) answers \<Rightarrow> string \<Rightarrow> string \<Rightarrow> AgentId \<Rightarrow> 'h ExportRegistry \<Rightarrow> (ExportError, 'd ExportResponse) result" where
  "export_status ans publication_id export_id agent R =
     rmap (\<lambda>r. export_response export_id r (ans_status ans)) (addressed_export publication_id export_id agent R)"

definition close_export ::
    "('h, 'd) answers \<Rightarrow> string \<Rightarrow> string \<Rightarrow> AgentId \<Rightarrow> 'h ExportRegistry \<Rightarrow>
     (ExportError, 'd ExportResponse) result \<times> 'h ExportRegistry" where
  "close_export ans publication_id export_id agent R =
     (case addressed_export publication_id export_id agent R of
        Inl e \<Rightarrow> (Inl e, R)
      | Inr r \<Rightarrow> (Inr (export_response export_id r (ans_status ans)),
                  drop_export ans r (R\<lparr>exports := AList.delete export_id (exports R)\<rparr>)))"

definition exports_for :: "string \<Rightarrow> 'h ExportRegistry \<Rightarrow> string list" where
  "exports_for publication_id R = map fst (filter (\<lambda>(i, r). exp_publication_id r = publication_id) (exports R))"

section \<open>Republications\<close>

definition MACOS_NATIVE_ATTACH_MACH_SERVICE :: string where
  "MACOS_NATIVE_ATTACH_MACH_SERVICE = ''work.flotilla.porthole.attach''"

text \<open>\<open>LaunchdJob::bootstrap\<close> creates the directory of the job first; nothing removes it.\<close>

definition RepublishHandle_start ::
    "('h, 'd) answers \<Rightarrow> BridgeExecution \<Rightarrow> string \<Rightarrow> 'h ExportRegistry \<Rightarrow>
     (ExportError, 'h RepublishHandle) result \<times> 'h ExportRegistry" where
  "RepublishHandle_start ans execution dir R =
     (case execution of
        Worker \<Rightarrow>
          if \<not> ans_bridge_found ans then (Inl BridgeMissing, R)
          else (case ans_job_directory ans of
                  Inl e \<Rightarrow> (Inl (RepublishFailed e), R)
                | Inr _ \<Rightarrow> (rmap WorkerJob (map_err RepublishFailed (ans_start ans)),
                            R\<lparr>job_directories := List.insert dir (job_directories R)\<rparr>))
      | InProcess \<Rightarrow> (rmap InProcessTask (map_err SpawnError (ans_start ans)), R))"

definition job_directory :: "string \<Rightarrow> string \<Rightarrow> string" where
  "job_directory rd publication_id = path_join (path_join rd ''republications'') publication_id"

definition republish_service :: "BridgeExecution \<Rightarrow> string \<Rightarrow> string" where
  "republish_service execution publication_id =
     (case execution of
        InProcess \<Rightarrow> MACOS_NATIVE_ATTACH_MACH_SERVICE
      | Worker \<Rightarrow> ''work.flotilla.porthole.republish.'' @ take 16 (drop 4 publication_id))"

definition sockets_dir :: "string \<Rightarrow> bool \<Rightarrow> string \<Rightarrow> string option" where
  "sockets_dir rd wanted publication_id =
     (if wanted then Some (path_join (path_join rd ''r'') (take 12 (drop 4 publication_id))) else None)"

definition hold_option :: "string option \<Rightarrow> 'h ExportRegistry \<Rightarrow> 'h ExportRegistry" where
  "hold_option dir R = (case dir of None \<Rightarrow> R | Some d \<Rightarrow> hold_directory d R)"

definition republish_failure :: "('h, 'd) answers \<Rightarrow> string" where
  "republish_failure ans =
     (case half_failure (ans_status ans) of
        Some f \<Rightarrow> f
      | None \<Rightarrow> (case ans_stderr_line ans of Some line \<Rightarrow> line | None \<Rightarrow> ''no publication within 20 s''))"

definition insert_republication :: "('h, 'd) answers \<Rightarrow> string \<Rightarrow> 'h RepublishRecord \<Rightarrow> 'h ExportRegistry \<Rightarrow> 'h ExportRegistry" where
  "insert_republication ans i r R =
     (let R' = R\<lparr>republications := AList.update i r (republications R)\<rparr> in
      case map_of (republications R) i of None \<Rightarrow> R' | Some old \<Rightarrow> drop_republication ans old R')"

definition ingress_spec :: "string \<Rightarrow> ('h, 'd) answers \<Rightarrow> string option \<Rightarrow> 'c RepublishRequest \<Rightarrow> 'c IngressSpec" where
  "ingress_spec publication_id ans dir request =
     \<lparr>ingress_media_socket = req_media_socket request, ingress_control_socket = req_control_socket request,
      ingress_service = republish_service (req_execution request) publication_id,
      ingress_viewer_token = Some (''ptas_'' @ ans_viewer_uuid ans), ingress_link_token = req_link_token request,
      ingress_chroma = req_chroma request,
      ingress_cpu_socket = (if req_cpu request then map_option (\<lambda>d. path_join d ''s'') dir else None),
      ingress_input_socket = (if req_input request then map_option (\<lambda>d. path_join d ''i'') dir else None)\<rparr>"

definition republication_name :: "('h, 'd) answers \<Rightarrow> string" where
  "republication_name ans = ''rep_'' @ ans_uuid ans"

definition republish ::
    "('d \<Rightarrow> string) \<Rightarrow> ('h, 'd) answers \<Rightarrow> AgentId \<Rightarrow> 'c RepublishRequest \<Rightarrow> 'h ExportRegistry \<Rightarrow>
     (ExportError, PublicationResponse \<times> 'd option) result \<times> 'h ExportRegistry" where
  "republish show_decision ans owner request R =
     (if \<not> on_macos R then (Inl ExportUnsupported, R)
      else case runtime_dir R of Inl e \<Rightarrow> (Inl e, R) | Inr rd \<Rightarrow>
        let publication_id = republication_name ans;
            dir = sockets_dir rd (req_cpu request \<or> req_input request) publication_id in
        case (if dir = None then Inr () else ans_directory ans) of Inl e \<Rightarrow> (Inl (ExportIo e), R) | Inr _ \<Rightarrow>
        let R = hold_option dir R; spec = ingress_spec publication_id ans dir request in
        case RepublishHandle_start ans (req_execution request) (job_directory rd publication_id) R of
          (Inl e, R) \<Rightarrow> (Inl (RepublishFailed (ExportError_display e)), release_option ans dir R)
        | (Inr job, R) \<Rightarrow>
        let R = hold_half (half_of job) R in
        if half_publication (ans_status ans) = None
        then (Inl (RepublishFailed (republish_failure ans)), release_option ans dir (release_job ans job R))
        else
          let r = \<lparr>rep_owner = owner, rep_identities = req_identities request,
                   rep_native = \<lparr>native_transport_kind = 1, native_endpoint = ingress_service spec,
                     native_attach_token = (case ingress_viewer_token spec of None \<Rightarrow> [] | Some t \<Rightarrow> t)\<rparr>,
                   rep_cpu_socket = ingress_cpu_socket spec, rep_input_socket = ingress_input_socket spec,
                   rep_job = job, rep_directory = dir\<rparr>
          in (Inr (republish_publication show_decision publication_id r (ans_status ans), half_decision (ans_status ans)),
              insert_republication ans publication_id r R))"

text \<open>The status of each half is read as the entries are listed.\<close>

definition list_republications ::
    "('d \<Rightarrow> string) \<Rightarrow> (string \<Rightarrow> 'd HalfStatus) \<Rightarrow> 'h ExportRegistry \<Rightarrow> PublicationResponse list" where
  "list_republications show_decision statuses R =
     (if on_macos R then map (\<lambda>(i, r). republish_publication show_decision i r (statuses i)) (republications R) else [])"

definition republication ::
    "('d \<Rightarrow> string) \<Rightarrow> ('h, 'd) answers \<Rightarrow> string \<Rightarrow> 'h ExportRegistry \<Rightarrow> PublicationResponse option" where
  "republication show_decision ans publication_id R =
     (if on_macos R
      then map_option (\<lambda>r. republish_publication show_decision publication_id r (ans_status ans))
             (map_of (republications R) publication_id)
      else None)"

definition close_republication ::
    "('h, 'd) answers \<Rightarrow> string \<Rightarrow> AgentId \<Rightarrow> 'h ExportRegistry \<Rightarrow> (ExportError, unit) result \<times> 'h ExportRegistry" where
  "close_republication ans publication_id agent R =
     (if \<not> on_macos R then (Inl (UnknownRepublication publication_id), R)
      else case map_of (republications R) publication_id of
        None \<Rightarrow> (Inl (UnknownRepublication publication_id), R)
      | Some r \<Rightarrow>
          if rep_owner r \<noteq> agent then (Inl NotOwner, R)
          else (Inr (), drop_republication ans r (R\<lparr>republications := AList.delete publication_id (republications R)\<rparr>)))"

section \<open>Runs of the table\<close>

datatype ('h, 'd, 'c) RegistryOp =
    CreateExport "('h, 'd) answers" string AgentId Identities NativeCaptureInfo 'c "u32 option" bool "u32 \<times> u32" BridgeExecution
  | ReadExport "('h, 'd) answers" string string AgentId
  | CloseExport "('h, 'd) answers" string string AgentId
  | Republish "('h, 'd) answers" AgentId "'c RepublishRequest"
  | CloseRepublication "('h, 'd) answers" string AgentId

fun registry_do :: "('h, 'd, 'c) RegistryOp \<Rightarrow> 'h ExportRegistry \<Rightarrow> 'h ExportRegistry" where
  "registry_do (CreateExport ans p owner ids native chroma bitrate input frame execution) R =
     snd (create_export ans p owner ids native chroma bitrate input frame execution R)"
| "registry_do (ReadExport ans p i agent) R = R"
| "registry_do (CloseExport ans p i agent) R = snd (close_export ans p i agent R)"
| "registry_do (Republish ans owner request) R = snd (republish (\<lambda>_. []) ans owner request R)"
| "registry_do (CloseRepublication ans i agent) R = snd (close_republication ans i agent R)"

text \<open>
  Identifiers are version 4 UUIDs: they, the directory names cut from them, and the handles of
  started halves are new.
\<close>

definition fresh_answers :: "('h, 'd) answers \<Rightarrow> 'h ExportRegistry \<Rightarrow> bool" where
  "fresh_answers ans R \<longleftrightarrow>
     export_name ans \<notin> fst ` set (exports R) \<and> republication_name ans \<notin> fst ` set (republications R) \<and>
     (\<forall>rd. runtime_directory R = Some rd \<longrightarrow>
        export_directory rd (export_name ans) \<notin> set (held_directories R) \<and>
        path_join (export_directory rd (export_name ans)) ''i'' \<notin> set (held_executors R) \<and>
        (\<forall>d. sockets_dir rd True (republication_name ans) = Some d \<longrightarrow> d \<notin> set (held_directories R))) \<and>
     (\<forall>h. ans_start ans = Inr h \<longrightarrow> h \<notin> set (held_halves R))"

fun fresh_op :: "('h, 'd, 'c) RegistryOp \<Rightarrow> 'h ExportRegistry \<Rightarrow> bool" where
  "fresh_op (CreateExport ans p owner ids native chroma bitrate input frame execution) R \<longleftrightarrow> fresh_answers ans R"
| "fresh_op (Republish ans owner request) R \<longleftrightarrow> fresh_answers ans R"
| "fresh_op _ R \<longleftrightarrow> True"

inductive registry_run ::
    "'h ExportRegistry \<Rightarrow> ('h, 'd, 'c) RegistryOp list \<Rightarrow> 'h ExportRegistry \<Rightarrow> bool" for R0 where
  start: "registry_run R0 [] R0"
| op: "registry_run R0 ops R \<Longrightarrow> fresh_op x R \<Longrightarrow> registry_run R0 (ops @ [x]) (registry_do x R)"

section \<open>What is held belongs to an entry\<close>

definition export_directories :: "(string \<times> 'h ExportRecord) list \<Rightarrow> string list" where
  "export_directories xs = map (\<lambda>(i, r). exp_directory r) xs"

definition socket_directories :: "(string \<times> 'h RepublishRecord) list \<Rightarrow> string list" where
  "socket_directories ys = List.map_filter (\<lambda>(i, r). rep_directory r) ys"

definition export_executors :: "(string \<times> 'h ExportRecord) list \<Rightarrow> string list" where
  "export_executors xs = List.map_filter (\<lambda>(i, r). map_option executor_path (exp_executor r)) xs"

definition export_halves :: "(string \<times> 'h ExportRecord) list \<Rightarrow> 'h list" where
  "export_halves xs = map (\<lambda>(i, r). exp_handle r) xs"

definition republish_halves :: "(string \<times> 'h RepublishRecord) list \<Rightarrow> 'h list" where
  "republish_halves ys = map (\<lambda>(i, r). half_of (rep_job r)) ys"

text \<open>Exactly these are held, each by one entry.\<close>

definition holds :: "'a list \<Rightarrow> 'a list \<Rightarrow> bool" where
  "holds held owned \<longleftrightarrow> set held = set owned \<and> distinct owned"

definition keys_ok :: "'h ExportRegistry \<Rightarrow> bool" where
  "keys_ok R \<longleftrightarrow> distinct (map fst (exports R)) \<and> distinct (map fst (republications R))"

text \<open>Besides what the entries own there may be directories \<open>ds\<close> and halves \<open>hs\<close> that were left behind.\<close>

definition held_ok :: "string list \<Rightarrow> 'h list \<Rightarrow> 'h ExportRegistry \<Rightarrow> bool" where
  "held_ok ds hs R \<longleftrightarrow>
     holds (held_directories R) (export_directories (exports R) @ socket_directories (republications R) @ ds) \<and>
     holds (held_executors R) (export_executors (exports R)) \<and>
     holds (held_halves R) (export_halves (exports R) @ republish_halves (republications R) @ hs)"

definition surfaces_ok :: "'h ExportRegistry \<Rightarrow> bool" where
  "surfaces_ok R \<longleftrightarrow>
     (\<forall>(i, r) \<in> set (exports R). \<forall>e. exp_executor r = Some e \<longrightarrow>
        executor_surface e = id_source (exp_identities r) \<and> executor_path e = path_join (exp_directory r) ''i'')"

definition registry_ok :: "string list \<Rightarrow> 'h list \<Rightarrow> 'h ExportRegistry \<Rightarrow> bool" where
  "registry_ok ds hs R \<longleftrightarrow> keys_ok R \<and> held_ok ds hs R \<and> surfaces_ok R"

lemmas registry_ok_defs = registry_ok_def keys_ok_def held_ok_def surfaces_ok_def

lemma owned_simps [simp]:
  "export_directories [] = []" "export_directories ((i, r) # xs) = exp_directory r # export_directories xs"
  "export_directories (xs @ xs') = export_directories xs @ export_directories xs'"
  "socket_directories [] = []"
  "socket_directories ((i, q) # ys) = (case rep_directory q of None \<Rightarrow> [] | Some d \<Rightarrow> [d]) @ socket_directories ys"
  "socket_directories (ys @ ys') = socket_directories ys @ socket_directories ys'"
  "export_executors [] = []"
  "export_executors ((i, r) # xs) = (case exp_executor r of None \<Rightarrow> [] | Some e \<Rightarrow> [executor_path e]) @ export_executors xs"
  "export_executors (xs @ xs') = export_executors xs @ export_executors xs'"
  "export_halves [] = []" "export_halves ((i, r) # xs) = exp_handle r # export_halves xs"
  "export_halves (xs @ xs') = export_halves xs @ export_halves xs'"
  "republish_halves [] = []" "republish_halves ((i, q) # ys) = half_of (rep_job q) # republish_halves ys"
  "republish_halves (ys @ ys') = republish_halves ys @ republish_halves ys'"
  by (simp_all add: export_directories_def socket_directories_def export_executors_def export_halves_def
      republish_halves_def List.map_filter_def split: option.splits)







lemmas hold_defs = hold_directory_def release_directory_def hold_executor_def release_executor_def hold_half_def
  release_half_def hold_option_def release_option_def





lemma registry_ok_jobs [simp]: "registry_ok ds hs (R\<lparr>job_directories := J\<rparr>) = registry_ok ds hs R"
  by (simp add: registry_ok_defs)

lemma release_hold_executor [simp]:
  "(\<And>x. e = Some x \<Longrightarrow> executor_path x \<notin> set (held_executors R)) \<Longrightarrow> release_executor e (hold_executor e R) = R"
  by (simp add: hold_defs removeAll_id split: option.splits)




lemma held_halves_option [simp]:
  "held_halves (release_option ans dir R) = held_halves R" "held_halves (hold_option dir R) = held_halves R"
  by (simp_all add: hold_defs split: option.splits)





lemma start_executor_Some:
  assumes "start_executor ans input dir surface frame R = Inr (Some e)"
  shows "executor_path e = path_join dir ''i''" and "executor_surface e = surface"
  using assms by (auto simp: start_executor_def result_simps split: if_splits)

text \<open>Creating an export leaves the table alone, or adds one entry with all it holds.\<close>

lemma create_export_effect:
  fixes ans :: "('h, 'd) answers"
  assumes "fresh_answers ans R"
  shows "snd (create_export ans p owner ids native chroma bitrate input frame execution R) = R \<or>
    (\<exists>rd dir. runtime_directory R = Some rd \<and> dir = export_directory rd (export_name ans) \<and>
       snd (create_export ans p owner ids native chroma bitrate input frame execution R) =
         release_option ans (Some dir) (hold_option (Some dir) R)) \<or>
    (\<exists>rd r. runtime_directory R = Some rd \<and> exp_directory r = export_directory rd (export_name ans) \<and>
       exp_owner r = owner \<and> exp_publication_id r = p \<and> ans_start ans = Inr (exp_handle r) \<and>
       (\<forall>e. exp_executor r = Some e \<longrightarrow> executor_path e = path_join (exp_directory r) ''i'' \<and>
          executor_surface e = id_source (exp_identities r)) \<and>
       snd (create_export ans p owner ids native chroma bitrate input frame execution R) =
         insert_export ans (export_name ans) r
           (hold_half (exp_handle r) (hold_executor (exp_executor r) (hold_directory (exp_directory r) R))))"
proof (cases "\<exists>rd. runtime_directory R = Some rd \<and> on_macos R \<and> ans_directory ans = Inr ()")
  case False
  then have "snd (create_export ans p owner ids native chroma bitrate input frame execution R) = R"
    by (cases "runtime_directory R"; cases "ans_directory ans") (auto simp: create_export_def runtime_dir_def Let_def)
  then show ?thesis ..
next
  case True
  then obtain rd where rd: "runtime_directory R = Some rd" "on_macos R" "ans_directory ans = Inr ()" by blast
  define dir where "dir = export_directory rd (export_name ans)"
  have fresh: "path_join dir ''i'' \<notin> set (held_executors R)"
    using assms rd by (simp_all add: fresh_answers_def dir_def)
  let ?start = "start_executor ans input dir (id_source ids) frame (hold_directory dir R)"
  have given_back: "release_executor e (hold_executor e (hold_directory dir R)) = hold_directory dir R"
    if "?start = Inr e" for e
  proof (rule release_hold_executor)
    fix x assume "e = Some x"
    then show "executor_path x \<notin> set (held_executors (hold_directory dir R))"
      using start_executor_Some [of ans input dir "id_source ids" frame "hold_directory dir R" x] fresh that
      by (simp add: hold_directory_def)
  qed
  show ?thesis
  proof (cases "\<exists>e t h. ?start = Inr e \<and> ans_token ans = Inr t \<and> ExportHandle_start ans (on_macos R) execution = Inr h")
    case False
    then have "snd (create_export ans p owner ids native chroma bitrate input frame execution R) =
        release_option ans (Some dir) (hold_option (Some dir) R)"
      using rd given_back by (auto simp: create_export_def runtime_dir_def Let_def dir_def [symmetric]
          release_option_def hold_option_def split: sum.splits)
    then show ?thesis using rd(1) dir_def by blast
  next
    case True
    then obtain e t h where start: "?start = Inr e" "ans_token ans = Inr t" "ExportHandle_start ans (on_macos R) execution = Inr h" by blast
    let ?r = "\<lparr>exp_publication_id = p, exp_owner = owner, exp_identities = ids, exp_link_token = t,
        exp_media_socket = path_join dir ''m'', exp_control_socket = path_join dir ''c'', exp_handle = h,
        exp_executor = e, exp_directory = dir\<rparr>"
    have "ans_start ans = Inr h"
      using start(3) by (auto simp: ExportHandle_start_def result_simps split: BridgeExecution.splits if_splits)
    moreover have "snd (create_export ans p owner ids native chroma bitrate input frame execution R) =
        insert_export ans (export_name ans) ?r (hold_half h (hold_executor e (hold_directory dir R)))"
      using rd start by (simp add: create_export_def runtime_dir_def Let_def dir_def [symmetric] egress_spec_def)
    moreover have "\<forall>x. e = Some x \<longrightarrow> executor_path x = path_join dir ''i'' \<and> executor_surface x = id_source ids"
      using start(1) start_executor_Some [of ans input dir "id_source ids" frame "hold_directory dir R"] by auto
    ultimately show ?thesis using rd(1) by (intro disjI2 exI [of _ rd] exI [of _ ?r]) (simp add: dir_def)
  qed
qed

text \<open>The operations on republications: a start that fails, a half that does not publish, a new entry.\<close>

lemma RepublishHandle_start_effect:
  assumes "RepublishHandle_start ans execution dir R = (r, R')"
  shows "(\<exists>J. R' = R\<lparr>job_directories := J\<rparr>) \<and>
    (\<forall>job. r = Inr job \<longrightarrow> ans_start ans = Inr (half_of job) \<and> (\<forall>h. job = WorkerJob h \<longrightarrow> execution = Worker))"
proof -
  have "R' \<in> {R\<lparr>job_directories := job_directories R\<rparr>, R\<lparr>job_directories := List.insert dir (job_directories R)\<rparr>}"
    using assms by (auto simp: RepublishHandle_start_def split: BridgeExecution.splits sum.splits if_splits)
  moreover have "\<forall>job. r = Inr job \<longrightarrow> ans_start ans = Inr (half_of job) \<and> (\<forall>h. job = WorkerJob h \<longrightarrow> execution = Worker)"
    using assms by (auto simp: RepublishHandle_start_def result_simps split: BridgeExecution.splits sum.splits if_splits)
  ultimately show ?thesis by blast
qed

lemma hold_option_jobs: "(hold_option dir R)\<lparr>job_directories := J\<rparr> = hold_option dir (R\<lparr>job_directories := J\<rparr>)"
  by (simp add: hold_defs split: option.splits)

lemma republish_effect:
  fixes ans :: "('h, 'd) answers"
  shows "snd (republish show_decision ans owner request R) = R \<or>
   (\<exists>rd dir J. runtime_directory R = Some rd \<and>
      (\<forall>d. dir = Some d \<longrightarrow> sockets_dir rd True (republication_name ans) = Some d) \<and>
      (let R1 = hold_option dir (R\<lparr>job_directories := J\<rparr>); R2 = snd (republish show_decision ans owner request R) in
       R2 = release_option ans dir R1 \<or>
       (\<exists>job. ans_start ans = Inr (half_of job) \<and> (\<forall>h. job = WorkerJob h \<longrightarrow> req_execution request = Worker) \<and>
          R2 = release_option ans dir (release_job ans job (hold_half (half_of job) R1))) \<or>
       (\<exists>r. rep_owner r = owner \<and> rep_directory r = dir \<and> ans_start ans = Inr (half_of (rep_job r)) \<and>
          R2 = insert_republication ans (republication_name ans) r (hold_half (half_of (rep_job r)) R1))))"
proof (cases "\<exists>rd. runtime_directory R = Some rd \<and> on_macos R")
  case False
  then have "snd (republish show_decision ans owner request R) = R"
    by (cases "runtime_directory R") (auto simp: republish_def runtime_dir_def)
  then show ?thesis ..
next
  case True
  then obtain rd where rd: "runtime_directory R = Some rd" "on_macos R" by blast
  define dir where "dir = sockets_dir rd (req_cpu request \<or> req_input request) (republication_name ans)"
  have dir: "dir = Some d \<longrightarrow> sockets_dir rd True (republication_name ans) = Some d" for d
    by (auto simp: dir_def sockets_dir_def)
  show ?thesis
  proof (cases "dir = None \<or> ans_directory ans = Inr ()")
    case False
    then have "snd (republish show_decision ans owner request R) = R"
      using rd by (auto simp: republish_def runtime_dir_def Let_def dir_def [symmetric] split: sum.splits)
    then show ?thesis ..
  next
    case True
    obtain started R' where start: "RepublishHandle_start ans (req_execution request)
        (job_directory rd (republication_name ans)) (hold_option dir R) = (started, R')" by fastforce
    let ?name = "republication_name ans" and ?R2 = "snd (republish show_decision ans owner request R)"
    let ?spec = "ingress_spec ?name ans dir request"
    define r where "r job = \<lparr>rep_owner = owner, rep_identities = req_identities request,
        rep_native = \<lparr>native_transport_kind = 1, native_endpoint = ingress_service ?spec,
          native_attach_token = (case ingress_viewer_token ?spec of None \<Rightarrow> [] | Some t \<Rightarrow> t)\<rparr>,
        rep_cpu_socket = ingress_cpu_socket ?spec, rep_input_socket = ingress_input_socket ?spec,
        rep_job = job, rep_directory = dir\<rparr>" for job :: "'h RepublishHandle"
    have go: "(if dir = None then Inr () else ans_directory ans) = Inr ()" using True by auto
    have R2: "?R2 = (case started of Inl _ \<Rightarrow> release_option ans dir R'
      | Inr job \<Rightarrow> if half_publication (ans_status ans) = None
          then release_option ans dir (release_job ans job (hold_half (half_of job) R'))
          else insert_republication ans ?name (r job) (hold_half (half_of job) R'))"
      using rd start by (cases started) (simp_all add: republish_def runtime_dir_def Let_def dir_def [symmetric] go r_def)
    from RepublishHandle_start_effect [OF start] obtain J where J: "R' = hold_option dir (R\<lparr>job_directories := J\<rparr>)"
      and job: "\<forall>job. started = Inr job \<longrightarrow> ans_start ans = Inr (half_of job) \<and>
        (\<forall>h. job = WorkerJob h \<longrightarrow> req_execution request = Worker)"
      by (auto simp: hold_option_jobs)
    have r: "rep_owner (r job) = owner" "rep_directory (r job) = dir" "rep_job (r job) = job" for job by (simp_all add: r_def)
    have "?R2 = release_option ans dir R' \<or>
       (\<exists>job. ans_start ans = Inr (half_of job) \<and> (\<forall>h. job = WorkerJob h \<longrightarrow> req_execution request = Worker) \<and>
          ?R2 = release_option ans dir (release_job ans job (hold_half (half_of job) R'))) \<or>
       (\<exists>r. rep_owner r = owner \<and> rep_directory r = dir \<and> ans_start ans = Inr (half_of (rep_job r)) \<and>
          ?R2 = insert_republication ans ?name r (hold_half (half_of (rep_job r)) R'))"
    proof (cases started)
      case (Inr job)
      show ?thesis
      proof (cases "half_publication (ans_status ans) = None")
        case True
        with R2 job Inr show ?thesis by auto
      next
        case False
        with R2 Inr have "?R2 = insert_republication ans ?name (r job) (hold_half (half_of job) R')" by simp
        with job Inr r [of job] show ?thesis by (intro disjI2 exI [of _ "r job"]) simp
      qed
    qed (simp add: R2)
    with rd(1) dir J show ?thesis unfolding Let_def by blast
  qed
qed















text \<open>The files of a launchd job stay when its republication is closed, or fails to come up.\<close>

lemma job_directories_hold [simp]:
  "job_directories (hold_half h R) = job_directories R" "job_directories (hold_executor e R) = job_directories R"
  "job_directories (hold_directory d R) = job_directories R" "job_directories (release_half h R) = job_directories R"
  "job_directories (release_executor e R) = job_directories R" "job_directories (release_directory ans d R) = job_directories R"
  "job_directories (hold_option dir R) = job_directories R" "job_directories (release_option ans dir R) = job_directories R"
  "job_directories (release_job ans job R) = job_directories R"
  by (cases job; simp add: hold_defs split: option.splits)+

lemma job_directories_insert [simp]:
  "job_directories (insert_export ans i r R) = job_directories R"
  "job_directories (insert_republication ans i q R) = job_directories R"
  by (simp_all add: insert_export_def insert_republication_def drop_export_def drop_republication_def Let_def split: option.splits)

lemma job_directories_do: "set (job_directories R) \<subseteq> set (job_directories (registry_do x R))"
proof (cases x)
  case (CreateExport ans p owner ids native chroma bitrate input frame execution)
  then show ?thesis by (auto simp: create_export_def Let_def split: sum.splits)
next
  case (Republish ans owner request)
  have "set (job_directories R) \<subseteq> set (job_directories (snd (RepublishHandle_start ans execution dir R)))" for execution dir R
    by (auto simp: RepublishHandle_start_def split: BridgeExecution.splits sum.splits)
  with Republish show ?thesis
    by (auto simp: republish_def Let_def split: sum.splits prod.splits) (metis job_directories_hold(7) snd_conv subsetD)+
next
  case (CloseExport ans p i agent)
  then show ?thesis by (simp add: close_export_def drop_export_def split: sum.splits)
next
  case (CloseRepublication ans i agent)
  then show ?thesis by (simp add: close_republication_def drop_republication_def split: option.splits)
qed simp

lemma job_directories_stay: "registry_run R0 ops R \<Longrightarrow> set (job_directories R0) \<subseteq> set (job_directories R)"
  by (induction rule: registry_run.induct) (use job_directories_do in blast)+

section \<open>Ownership\<close>

lemma hold_exports [simp]:
  "exports (hold_half h R) = exports R" "exports (hold_executor e R) = exports R" "exports (hold_directory d R) = exports R"
  "exports (release_half h R) = exports R" "exports (release_executor e R) = exports R"
  "exports (release_directory ans d R) = exports R" "exports (hold_option dir R) = exports R"
  "exports (release_option ans dir R) = exports R" "exports (release_job ans job R) = exports R"
  by (cases job; simp add: hold_defs split: option.splits)+

lemma insert_export_map: "map_of (exports (insert_export ans j q R)) = (map_of (exports R))(j \<mapsto> q)"
  by (auto simp: insert_export_def Let_def update_conv' drop_export_def split: option.splits)

lemma entry_kept:
  assumes r: "map_of (exports R) i = Some r" and fresh: "fresh_op x R"
    and other: "\<And>ans. x \<noteq> CloseExport ans (exp_publication_id r) i (exp_owner r)"
  shows "map_of (exports (registry_do x R)) i = Some r"
proof (cases x)
  case (CreateExport ans p owner ids native chroma bitrate input frame execution)
  then have f: "fresh_answers ans R" using fresh by simp
  then have "export_name ans \<noteq> i" using r by (metis fresh_answers_def map_of_eq_None_iff option.distinct(1))
  then have "map_of (exports (insert_export ans (export_name ans) q (hold_half h (hold_executor e (hold_directory d R))))) i = Some r"
    for q h e d using r by (simp add: insert_export_map)
  with create_export_effect [OF f, of p owner ids native chroma bitrate input frame execution] CreateExport r
  show ?thesis by (metis registry_do.simps(1) hold_exports(7,8))
next
  case (Republish ans owner request)
  have "exports (snd (republish (\<lambda>_. []) ans owner request R)) = exports R"
    using republish_effect [of "\<lambda>_. []" ans owner request R]
    by (auto simp: insert_republication_def Let_def drop_republication_def hold_half_def split: option.splits)
  with Republish r show ?thesis by simp
next
  case (CloseExport ans p j agent)
  with other [of ans] r show ?thesis
    by (auto simp: close_export_def addressed_export_def drop_export_def delete_conv' split: option.splits)
next
  case (CloseRepublication ans j agent)
  with r show ?thesis
    by (auto simp: close_republication_def drop_republication_def split: option.splits)
qed (use r in simp)

text \<open>
  C35: An export belongs to the agent that created it.  Once registered it stays registered with the
  same owner, publication and resources through any operations of any agents, until its owner closes
  it under its own publication; every attempt to inspect or close it by another agent, or under
  another publication, is refused and changes nothing.
\<close>

theorem export_ends_only_by_its_owner:
  assumes "registry_run R0 ops R" and "map_of (exports R0) i = Some r"
    and "\<forall>ans. CloseExport ans (exp_publication_id r) i (exp_owner r) \<notin> set ops"
  shows "map_of (exports R) i = Some r \<and>
    (\<forall>ans p agent. (p, agent) \<noteq> (exp_publication_id r, exp_owner r) \<longrightarrow>
       (\<exists>e. e \<in> {UnknownExport i, NotOwner} \<and>
          export_status ans p i agent R = Inl e \<and> close_export ans p i agent R = (Inl e, R)))"
proof -
  have "map_of (exports R) i = Some r" using assms
  proof (induction rule: registry_run.induct)
    case (op ops R x)
    then show ?case by (intro entry_kept) auto
  qed
  then show ?thesis by (auto simp: export_status_def close_export_def addressed_export_def)
qed

section \<open>An example\<close>

text \<open>An agent exports a session with input; another agent tries to close the export.\<close>

definition example_answers :: "(nat, unit) answers" where
  "example_answers =
     \<lparr>ans_uuid = ''0123456789abcdef0123456789abcdef'', ans_viewer_uuid = ''fedc'', ans_directory = Inr (),
      ans_runtime = Inr (), ans_executor = Inr (), ans_token = Inr ''T'', ans_bridge_found = True, ans_start = Inr 7,
      ans_job_directory = Inr (), ans_bootout = (BootedOut, BootedOut), ans_removed = True,
      ans_status = \<lparr>half_phase = Some PhaseListening, half_decision = None, half_publication = None, half_report = None,
        half_failure = None, half_exit_code = None\<rparr>, ans_stderr_line = None\<rparr>"

definition example_ops :: "(nat, unit, unit) RegistryOp list" where
  "example_ops =
     [CreateExport example_answers ''s1'' ''alice'' \<lparr>id_source = ''win'', id_publication = ''s1''\<rparr>
        \<lparr>native_transport_kind = 1, native_endpoint = ''svc'', native_attach_token = ''t''\<rparr> () None True (800, 600) Worker,
      CloseExport example_answers ''s1'' ''exp_0123456789abcdef0123456789abcdef'' ''mallory'']"

definition example_registry :: "nat ExportRegistry" where
  "example_registry = fold registry_do example_ops (ExportRegistry_new (Some ''/run'') True True)"

lemmas registry_eval = example_registry_def example_ops_def ExportRegistry_new_def create_export_def close_export_def
  runtime_dir_def start_executor_def ExportHandle_start_def egress_spec_def insert_export_def hold_defs example_answers_def
  export_name_def republication_name_def export_directory_def path_join_def addressed_export_def Let_def
  republish_def sockets_dir_def

lemma example_registry_exports:
  "map_of (exports example_registry) ''exp_0123456789abcdef0123456789abcdef'' = Some
     \<lparr>exp_publication_id = ''s1'', exp_owner = ''alice'', exp_identities = \<lparr>id_source = ''win'', id_publication = ''s1''\<rparr>,
      exp_link_token = ''T'', exp_media_socket = ''/run/x/0123456789ab/m'', exp_control_socket = ''/run/x/0123456789ab/c'',
      exp_handle = 7, exp_executor = Some \<lparr>executor_path = ''/run/x/0123456789ab/i'', executor_surface = ''win'', executor_frame = (800, 600)\<rparr>,
      exp_directory = ''/run/x/0123456789ab''\<rparr>"
  by (simp add: registry_eval)



theorem export_ends_only_by_its_owner_witness:
  "let i = ''exp_0123456789abcdef0123456789abcdef''; R = registry_do (example_ops ! 1) example_registry
   in map_of (exports R) i \<noteq> None \<and>
      (\<exists>e \<in> {UnknownExport i, NotOwner}. close_export example_answers ''s1'' i ''mallory'' R = (Inl e, R))"
proof -
  let ?x = "example_ops ! 1"
  have "registry_run example_registry ([] @ [?x]) (registry_do ?x example_registry)"
    by (rule registry_run.op [OF registry_run.start]) (simp add: example_ops_def)
  then have run: "registry_run example_registry [?x] (registry_do ?x example_registry)" by simp
  have "\<exists>r. map_of (exports example_registry) ''exp_0123456789abcdef0123456789abcdef'' = Some r \<and>
      exp_publication_id r = ''s1'' \<and> exp_owner r = ''alice''" by (simp add: example_registry_exports)
  then obtain r where r: "map_of (exports example_registry) ''exp_0123456789abcdef0123456789abcdef'' = Some r"
    "exp_publication_id r = ''s1''" "exp_owner r = ''alice''" by blast
  have other: "\<forall>ans. CloseExport ans (exp_publication_id r) ''exp_0123456789abcdef0123456789abcdef'' (exp_owner r) \<notin> set [?x]"
    by (simp add: example_ops_def r)
  have "(''s1'', ''mallory'') \<noteq> (exp_publication_id r, exp_owner r)" by (simp add: r)
  with export_ends_only_by_its_owner [OF run r(1) other] show ?thesis unfolding Let_def by (metis option.distinct(1))
qed

text \<open>
  A republication whose job launchd refuses to boot out: closing it succeeds, the entry is gone, the half
  and the directory of the job are still there.
\<close>

definition stuck_answers :: "(nat, unit) answers" where
  "stuck_answers = example_answers\<lparr>ans_bootout := (StillRegistered, BootedOut),
     ans_status := (ans_status example_answers)\<lparr>half_publication := Some (''pub'', None)\<rparr>\<rparr>"

definition stuck_request :: "unit RepublishRequest" where
  "stuck_request =
     \<lparr>req_execution = Worker, req_media_socket = ''m'', req_control_socket = ''c'', req_link_token = ''T'',
      req_identities = \<lparr>id_source = ''win'', id_publication = ''s1''\<rparr>, req_chroma = (), req_cpu = False, req_input = False\<rparr>"

lemma stuck_job_outlives_its_entry:
  "let R0 = ExportRegistry_new (Some ''/run'') True True;
       R1 = snd (republish (\<lambda>_. []) stuck_answers ''alice'' stuck_request R0);
       (r, R2) = close_republication stuck_answers ''rep_0123456789abcdef0123456789abcdef'' ''alice'' R1
   in r = Inr () \<and> republications R2 = [] \<and> held_halves R2 = [7] \<and>
      job_directories R2 = [''/run/republications/rep_0123456789abcdef0123456789abcdef'']"
  by (simp add: registry_eval stuck_answers_def stuck_request_def RepublishHandle_start_def job_directory_def
      insert_republication_def ingress_spec_def republish_service_def close_republication_def drop_republication_def
      LaunchdJob_gone_def)

end
