(* ===== verification/Capture_Registry.thy ===== *)
theory Capture_Registry
  imports Cpu_Session Native_Session Export_Registry
begin

text \<open>
  The daemon's table of capture sessions (\<open>portholed/src/capture_registry.rs\<close>, on macOS, where it has
  both CPU and native sessions): their life cycle, the frames published to them, who may attach to a
  session or resize its output, and the history of retired sessions.

  Every operation is one step under the table's lock, and the locks are never poisoned (no step
  panics).  A CPU session's runtime is shared with its worker and its connections, a hold's publisher
  with its worker and the capture stream; both are stored where the session and the hold own them.
  \<open>frame_sources\<close> lists the sessions for which a publisher or a monitor task has been created,
  \<open>first_frames\<close> those whose publisher has reported its first frame, and \<open>entered\<close> the identifiers
  ever entered into the table (they are version 4 UUIDs and do not repeat).  Aborting a task only takes
  effect at its next suspension, so an aborted monitor may still finish its round; the model lets it
  act at any time.
\<close>

section \<open>Frames\<close>

datatype VideoCapturePixelFormat = CaptureBgra8Unorm

datatype VideoCaptureTimestampClock = ClockUnknown | UnixTime | MediaTime | HostTime

datatype VideoCaptureColorSpace = CaptureColorUnknown | CaptureSrgb

datatype VideoCaptureDamageKind = CaptureDamageUnknown | CaptureFullFrame | CaptureNoDamage

record VideoCaptureFrameMetadata =
  vm_sequence :: u64
  vm_timestamp_ns :: u64
  vm_timestamp_clock :: VideoCaptureTimestampClock
  vm_width :: u32
  vm_height :: u32
  vm_stride :: u32
  vm_pixel_format :: VideoCapturePixelFormat
  vm_color_space :: VideoCaptureColorSpace
  vm_damage_kind :: VideoCaptureDamageKind
  vm_damage_base_sequence :: u64
  vm_dropped_before_publish :: u64
  vm_producer_drop_count :: u64

record VideoCaptureFrameView =
  view_metadata :: VideoCaptureFrameMetadata
  view_bytes :: "u8 list"

fun capture_pixel_format :: "VideoCapturePixelFormat \<Rightarrow> PixelFormat" where
  "capture_pixel_format CaptureBgra8Unorm = Bgra8Unorm"

fun capture_color_space :: "VideoCaptureColorSpace \<Rightarrow> ColorSpace" where
  "capture_color_space CaptureColorUnknown = ColorUnknown"
| "capture_color_space CaptureSrgb = Srgb"

fun capture_damage_kind :: "VideoCaptureDamageKind \<Rightarrow> DamageKind" where
  "capture_damage_kind CaptureDamageUnknown = DamageUnknown"
| "capture_damage_kind CaptureFullFrame = FullFrame"
| "capture_damage_kind CaptureNoDamage = NoDamage"

fun host_timestamp :: "VideoCaptureTimestampClock \<Rightarrow> u64 \<Rightarrow> u64" where
  "host_timestamp HostTime ns = ns"
| "host_timestamp ClockUnknown ns = 0"
| "host_timestamp UnixTime ns = 0"
| "host_timestamp MediaTime ns = 0"

definition frame_descriptor_from_capture :: "model_codes \<Rightarrow> VideoCaptureFrameMetadata \<Rightarrow> FrameDescriptor" where
  "frame_descriptor_from_capture K m =
     \<lparr>fd_sequence = vm_sequence m, fd_timestamp_ns = host_timestamp (vm_timestamp_clock m) (vm_timestamp_ns m),
      fd_width = vm_width m, fd_height = vm_height m, fd_stride = vm_stride m,
      fd_pixel_format = pixel_u32 K (capture_pixel_format (vm_pixel_format m)),
      fd_color_space = color_u32 K (capture_color_space (vm_color_space m)),
      fd_sync_kind = cpu_copy_complete K,
      fd_damage_kind = damage_u32 K (capture_damage_kind (vm_damage_kind m)),
      fd_damage_base_sequence = vm_damage_base_sequence m,
      fd_dropped_before_publish =
        (if unat (vm_dropped_before_publish m) < 2 ^ 32 then ucast (vm_dropped_before_publish m) else - 1),
      fd_producer_drop_count = vm_producer_drop_count m, fd_payload_kind = cpu_shm K\<rparr>"

fun pixel_format_name :: "PixelFormat \<Rightarrow> string" where
  "pixel_format_name PixelUnknown = ''unknown''"
| "pixel_format_name Bgra8Unorm = ''bgra8_unorm''"
| "pixel_format_name Rgba8Unorm = ''rgba8_unorm''"

section \<open>Sessions\<close>

datatype CaptureSessionLifecycle =
    LifeStarting
  | LifeReady
  | LifeClosed message
  | LifeFailed message

fun status_name :: "CaptureSessionLifecycle \<Rightarrow> string" where
  "status_name LifeStarting = ''starting''"
| "status_name LifeReady = ''ready''"
| "status_name (LifeClosed m) = ''closed''"
| "status_name (LifeFailed m) = ''failed''"

fun lifecycle_message :: "CaptureSessionLifecycle \<Rightarrow> message option" where
  "lifecycle_message LifeStarting = None"
| "lifecycle_message LifeReady = None"
| "lifecycle_message (LifeClosed m) = Some m"
| "lifecycle_message (LifeFailed m) = Some m"

definition active :: "CaptureSessionLifecycle \<Rightarrow> bool" where
  "active l \<longleftrightarrow> l = LifeStarting \<or> l = LifeReady"

record ('p, 'o) CaptureSession =
  cs_source_id :: u64
  cs_track_id :: u64
  cs_owner :: "AgentId option"
  cs_surface :: "string option"
  cs_lifecycle :: CaptureSessionLifecycle
  cs_width :: u32
  cs_height :: u32
  cs_stride :: u32
  cs_pixel_format :: PixelFormat
  cs_cpu :: "'p Runtime option"
  cs_task :: bool \<comment> \<open>a monitor task is attached\<close>
  cs_startup_cancel :: bool \<comment> \<open>its creator can be told to stop waiting\<close>
  cs_output_control :: "'o option"

record 'q NativeSessionHold =
  hold_info :: NativeCaptureInfo
  hold_publisher :: "'q NativePublisher"
  hold_server :: bool
  hold_stream :: bool

record ('p, 'q, 'o) CaptureRegistry =
  sessions :: "(string \<times> ('p, 'o) CaptureSession) list"
  retired_cpu_sessions :: "string list"
  native_holds :: "(string \<times> 'q NativeSessionHold) list"
  native_session_starting :: bool
  fd_socket :: "string option"
  frame_sources :: "string list"
  first_frames :: "string list"
  entered :: "string list"

text \<open>The platform: the two arenas and the numbers of the crate's enumerations.\<close>

record ('s, 'p, 'q) platform =
  codes_of :: model_codes
  cpu_of :: "'p cpu_arena"
  native_of :: "('s, 'q) native_arena"

record CaptureSessionResponse =
  rs_session_id :: string
  rs_source_id :: u64
  rs_track_id :: u64
  rs_status :: string
  rs_status_message :: "message option"
  rs_width :: u32
  rs_height :: u32
  rs_stride :: u32
  rs_pixel_format :: string
  rs_fd_socket_path :: string
  rs_native :: "NativeCaptureInfo option"

definition CaptureRegistry_new :: "string option \<Rightarrow> ('p, 'q, 'o) CaptureRegistry" where
  "CaptureRegistry_new path =
     \<lparr>sessions = [], retired_cpu_sessions = [], native_holds = [], native_session_starting = False, fd_socket = path,
      frame_sources = [], first_frames = [], entered = []\<rparr>"

text \<open>Sessions and holds are changed in place.\<close>

definition change_session ::
    "string \<Rightarrow> (('p, 'o) CaptureSession \<Rightarrow> ('p, 'o) CaptureSession) \<Rightarrow> ('p, 'q, 'o) CaptureRegistry \<Rightarrow> ('p, 'q, 'o) CaptureRegistry" where
  "change_session i f R = R\<lparr>sessions := AList.map_entry i f (sessions R)\<rparr>"

definition change_hold ::
    "string \<Rightarrow> ('q NativeSessionHold \<Rightarrow> 'q NativeSessionHold) \<Rightarrow> ('p, 'q, 'o) CaptureRegistry \<Rightarrow> ('p, 'q, 'o) CaptureRegistry" where
  "change_hold i f R = R\<lparr>native_holds := AList.map_entry i f (native_holds R)\<rparr>"

definition insert_session ::
    "string \<Rightarrow> ('p, 'o) CaptureSession \<Rightarrow> ('p, 'q, 'o) CaptureRegistry \<Rightarrow> ('p, 'q, 'o) CaptureRegistry" where
  "insert_session i s R = R\<lparr>sessions := AList.update i s (sessions R)\<rparr>"

text \<open>A new session.\<close>

definition enter_session ::
    "string \<Rightarrow> ('p, 'o) CaptureSession \<Rightarrow> ('p, 'q, 'o) CaptureRegistry \<Rightarrow> ('p, 'q, 'o) CaptureRegistry" where
  "enter_session i s R = (insert_session i s R)\<lparr>entered := i # entered R\<rparr>"

definition set_lifecycle :: "CaptureSessionLifecycle \<Rightarrow> ('p, 'o) CaptureSession \<Rightarrow> ('p, 'o) CaptureSession" where
  "set_lifecycle l s = s\<lparr>cs_lifecycle := l\<rparr>"

definition stop_capture :: "'p cpu_arena \<Rightarrow> nat \<Rightarrow> ('p, 'o) CaptureSession \<Rightarrow> ('p, 'o) CaptureSession" where
  "stop_capture J now s =
     s\<lparr>cs_cpu := map_option (Runtime_stop J now) (cs_cpu s), cs_task := False, cs_startup_cancel := False\<rparr>"

definition hold_close :: "('s, 'q) native_arena \<Rightarrow> nat \<Rightarrow> 'q NativeSessionHold \<Rightarrow> 'q NativeSessionHold" where
  "hold_close J now h =
     h\<lparr>hold_publisher := close_publisher J now (hold_publisher h), hold_server := False, hold_stream := False\<rparr>"

section \<open>Ending sessions\<close>

definition draining_native :: "('p, 'o) CaptureSession \<Rightarrow> ('p, 'o) CaptureSession" where
  "draining_native = set_lifecycle (LifeClosed (Msg ''native capture is draining'' []))"

definition draining_cpu :: "'p cpu_arena \<Rightarrow> nat \<Rightarrow> ('p, 'o) CaptureSession \<Rightarrow> ('p, 'o) CaptureSession" where
  "draining_cpu J now s = set_lifecycle (LifeClosed (Msg ''CPU capture is draining'' [])) (stop_capture J now s)"

definition remove_session ::
    "('s, 'p, 'q) platform \<Rightarrow> nat \<Rightarrow> string \<Rightarrow> ('p, 'q, 'o) CaptureRegistry \<Rightarrow> ('p, 'q, 'o) CaptureRegistry" where
  "remove_session P now i R =
     (case map_of (native_holds R) i of
        Some _ \<Rightarrow> change_session i draining_native (change_hold i (hold_close (native_of P) now) R)
      | None \<Rightarrow>
          (case map_of (sessions R) i of
             Some s \<Rightarrow>
               if cs_cpu s \<noteq> None then change_session i (draining_cpu (cpu_of P) now) R
               else R\<lparr>sessions := AList.delete i (sessions R), native_holds := AList.delete i (native_holds R)\<rparr>
           | None \<Rightarrow> R\<lparr>sessions := AList.delete i (sessions R), native_holds := AList.delete i (native_holds R)\<rparr>))"

definition close_session ::
    "('s, 'p, 'q) platform \<Rightarrow> nat \<Rightarrow> string \<Rightarrow> ('p, 'q, 'o) CaptureRegistry \<Rightarrow>
     (CaptureRegistryError, unit) result \<times> ('p, 'q, 'o) CaptureRegistry" where
  "close_session P now i R =
     (case map_of (native_holds R) i of
        Some _ \<Rightarrow> (Inr (), change_session i draining_native (change_hold i (hold_close (native_of P) now) R))
      | None \<Rightarrow>
          (case map_of (sessions R) i of
             Some s \<Rightarrow>
               if cs_cpu s \<noteq> None then (Inr (), change_session i (draining_cpu (cpu_of P) now) R)
               else (Inr (), R\<lparr>sessions := AList.delete i (sessions R), native_holds := AList.delete i (native_holds R)\<rparr>)
           | None \<Rightarrow> (Inl (UnknownSession i), R\<lparr>native_holds := AList.delete i (native_holds R)\<rparr>)))"

definition mark_session_failed ::
    "('s, 'p, 'q) platform \<Rightarrow> nat \<Rightarrow> string \<Rightarrow> message \<Rightarrow> ('p, 'q, 'o) CaptureRegistry \<Rightarrow> ('p, 'q, 'o) CaptureRegistry" where
  "mark_session_failed P now i m =
     change_session i (\<lambda>s. s\<lparr>cs_startup_cancel := False, cs_cpu := map_option (CpuSession_fail (cpu_of P) now m) (cs_cpu s),
       cs_lifecycle := LifeFailed m\<rparr>)"

definition mark_session_closed ::
    "('s, 'p, 'q) platform \<Rightarrow> nat \<Rightarrow> string \<Rightarrow> message \<Rightarrow> ('p, 'q, 'o) CaptureRegistry \<Rightarrow> ('p, 'q, 'o) CaptureRegistry" where
  "mark_session_closed P now i m =
     change_session i (\<lambda>s. s\<lparr>cs_startup_cancel := False, cs_lifecycle := LifeClosed m,
       cs_cpu := map_option (Runtime_stop (cpu_of P) now) (cs_cpu s)\<rparr>)"

text \<open>\<open>Drop\<close> of \<open>CpuStartup\<close>: the creation ended, or was dropped, before it handed the session over.\<close>

definition drop_startup ::
    "('s, 'p, 'q) platform \<Rightarrow> nat \<Rightarrow> string \<Rightarrow> ('p, 'q, 'o) CaptureRegistry \<Rightarrow> ('p, 'q, 'o) CaptureRegistry" where
  "drop_startup P now i =
     change_session i (\<lambda>s. let s = stop_capture (cpu_of P) now s in
       if active (cs_lifecycle s) then set_lifecycle (LifeClosed (Msg ''capture startup cancelled'' [])) s else s)"

definition startup_terminal_error :: "string \<Rightarrow> ('p, 'q, 'o) CaptureRegistry \<Rightarrow> CaptureRegistryError" where
  "startup_terminal_error i R =
     (case map_option cs_lifecycle (map_of (sessions R) i) of
        Some (LifeFailed m) \<Rightarrow> CaptureFailed i m
      | Some (LifeClosed m) \<Rightarrow> CaptureClosed i m
      | _ \<Rightarrow> CaptureClosed i (Msg ''capture session closed during startup'' []))"

text \<open>The callback of a CPU session's worker, once the session is drained.\<close>

definition RETIRED_CPU_SESSION_LIMIT :: nat where
  "RETIRED_CPU_SESSION_LIMIT = 64"

fun trim_retired :: "string list \<Rightarrow> (string \<times> 'a) list \<Rightarrow> string list \<times> (string \<times> 'a) list" where
  "trim_retired [] ss = ([], ss)"
| "trim_retired (i # q) ss =
     (if RETIRED_CPU_SESSION_LIMIT < length (i # q) then trim_retired q (AList.delete i ss) else (i # q, ss))"

definition retire_session :: "string \<Rightarrow> ('p, 'q, 'o) CaptureRegistry \<Rightarrow> ('p, 'q, 'o) CaptureRegistry" where
  "retire_session i R =
     (case map_of (sessions R) i of
        None \<Rightarrow> R
      | Some _ \<Rightarrow>
          let (q, ss) = trim_retired (retired_cpu_sessions R @ [i]) (sessions R)
          in R\<lparr>retired_cpu_sessions := q, sessions := ss\<rparr>)"

section \<open>Publishing\<close>

definition publish_capture_frame_view ::
    "('s, 'p, 'q) platform \<Rightarrow> nat \<Rightarrow> VideoCaptureFrameView \<Rightarrow> 'p Runtime \<Rightarrow>
     (CaptureRegistryError, PublishOutcome) result \<times> 'p Runtime" where
  "publish_capture_frame_view P now frame r =
     CpuSession_publish (cpu_of P) now (frame_descriptor_from_capture (codes_of P) (view_metadata frame)) (view_bytes frame) r"

definition frame_size :: "VideoCaptureFrameMetadata \<Rightarrow> ('p, 'o) CaptureSession \<Rightarrow> ('p, 'o) CaptureSession" where
  "frame_size m s =
     s\<lparr>cs_width := vm_width m, cs_height := vm_height m, cs_stride := vm_stride m,
       cs_pixel_format := capture_pixel_format (vm_pixel_format m)\<rparr>"

definition internal_error :: "message \<Rightarrow> CaptureRegistryError" where
  "internal_error m = CapturePorthole (PortholeError_new InternalError m)"

text \<open>
  \<open>RegistryVideoFramePublisher::publish_frame\<close>.  Its errors are \<open>PortholeError\<close>s; a missing CPU
  session is a panic.
\<close>

definition publish_frame ::
    "('s, 'p, 'q) platform \<Rightarrow> nat \<Rightarrow> string \<Rightarrow> VideoCaptureFrameView \<Rightarrow> ('p, 'q, 'o) CaptureRegistry \<Rightarrow>
     (CaptureRegistryError, unit) result \<times> ('p, 'q, 'o) CaptureRegistry" where
  "publish_frame P now i frame R =
     (case map_of (sessions R) i of
        None \<Rightarrow> (Inl (internal_error (Msg ''unknown capture session {}'' [FStr i])), R)
      | Some s \<Rightarrow>
          let s = frame_size (view_metadata frame) s in
          if \<not> active (cs_lifecycle s)
          then (Inl (internal_error (Msg ''capture session is terminal'' [])), insert_session i s R)
          else case cs_cpu s of None \<Rightarrow> (Inl (CapturePanic ''CPU session''), R) | Some r \<Rightarrow>
          (case publish_capture_frame_view P now frame r of
             (Inl e, r) \<Rightarrow>
               (Inl (internal_error (CaptureRegistryError_display e)), insert_session i (s\<lparr>cs_cpu := Some r\<rparr>) R)
           | (Inr FrameDropped, r) \<Rightarrow> (Inr (), insert_session i (s\<lparr>cs_cpu := Some r\<rparr>) R)
           | (Inr FramePublished, r) \<Rightarrow>
               (Inr (), (insert_session i (s\<lparr>cs_cpu := Some r, cs_lifecycle := LifeReady\<rparr>) R)
                  \<lparr>first_frames := List.insert i (first_frames R)\<rparr>)))"

text \<open>A frame of the monitor task.\<close>

definition publish_capture_frame ::
    "('s, 'p, 'q) platform \<Rightarrow> nat \<Rightarrow> string \<Rightarrow> VideoCaptureFrameView \<Rightarrow> ('p, 'q, 'o) CaptureRegistry \<Rightarrow>
     (CaptureRegistryError, unit) result \<times> ('p, 'q, 'o) CaptureRegistry" where
  "publish_capture_frame P now i frame R =
     (case map_of (sessions R) i of
        None \<Rightarrow> (Inl (UnknownSession i), R)
      | Some s \<Rightarrow>
          let s = frame_size (view_metadata frame) s in
          if \<not> active (cs_lifecycle s)
          then (Inl (CaptureClosed i (Msg ''capture is terminal'' [])), insert_session i s R)
          else case cs_cpu s of None \<Rightarrow> (Inl (CapturePanic ''CPU session''), R) | Some r \<Rightarrow>
          (case publish_capture_frame_view P now frame r of
             (outcome, r) \<Rightarrow> (rmap (\<lambda>_. ()) outcome, insert_session i (s\<lparr>cs_cpu := Some r\<rparr>) R)))"

text \<open>A round of \<open>run_capture_session_monitor\<close> with what the capture stream gives; \<open>True\<close> if the task goes on.\<close>

definition monitor_round ::
    "('s, 'p, 'q) platform \<Rightarrow> nat \<Rightarrow> string \<Rightarrow> (PortholeError, VideoCaptureFrameView option) result \<Rightarrow>
     ('p, 'q, 'o) CaptureRegistry \<Rightarrow> bool \<times> ('p, 'q, 'o) CaptureRegistry" where
  "monitor_round P now i next_frame R =
     (case next_frame of
        Inr (Some frame) \<Rightarrow>
          (case publish_capture_frame P now i frame R of
             (Inl e, R) \<Rightarrow> (False, mark_session_failed P now i (CaptureRegistryError_display e) R)
           | (Inr _, R) \<Rightarrow> (True, R))
      | Inr None \<Rightarrow> (False, mark_session_closed P now i (Msg ''capture stream ended'' []) R)
      | Inl e \<Rightarrow> (False, mark_session_failed P now i (PortholeError_display e) R))"

section \<open>Reading the table\<close>

definition fd_socket_path :: "('p, 'q, 'o) CaptureRegistry \<Rightarrow> (CaptureRegistryError, string) result" where
  "fd_socket_path R = ok_or (fd_socket R) FdSocketDisabled"

definition find_session :: "string \<Rightarrow> ('p, 'q, 'o) CaptureRegistry \<Rightarrow> (CaptureRegistryError, ('p, 'o) CaptureSession) result" where
  "find_session i R = ok_or (map_of (sessions R) i) (UnknownSession i)"

definition session_owner :: "string \<Rightarrow> ('p, 'q, 'o) CaptureRegistry \<Rightarrow> (CaptureRegistryError, AgentId option) result" where
  "session_owner i R = rmap cs_owner (find_session i R)"

definition base_response ::
    "string \<Rightarrow> ('p, 'o) CaptureSession \<Rightarrow> string \<Rightarrow> NativeCaptureInfo option \<Rightarrow> CaptureSessionResponse" where
  "base_response i s path native =
     \<lparr>rs_session_id = i, rs_source_id = cs_source_id s, rs_track_id = cs_track_id s,
      rs_status = status_name (cs_lifecycle s), rs_status_message = lifecycle_message (cs_lifecycle s),
      rs_width = cs_width s, rs_height = cs_height s, rs_stride = cs_stride s,
      rs_pixel_format = pixel_format_name (cs_pixel_format s), rs_fd_socket_path = path, rs_native = native\<rparr>"

definition cpu_response :: "Snapshot \<Rightarrow> CaptureSessionLifecycle \<Rightarrow> CaptureSessionResponse \<Rightarrow> CaptureSessionResponse" where
  "cpu_response snap l r =
     r\<lparr>rs_status := snap_status snap,
       rs_status_message := Some (case lifecycle_message l of
          Some m \<Rightarrow> Msg ''{message}; {}'' [FMsg m, FMsg (snap_message snap)] | None \<Rightarrow> snap_message snap),
       rs_width := snap_width snap, rs_height := snap_height snap, rs_stride := snap_stride snap,
       rs_pixel_format := pixel_format_name (snap_pixel_format snap)\<rparr>"

definition native_response :: "NativeSnapshot \<Rightarrow> CaptureSessionResponse \<Rightarrow> CaptureSessionResponse" where
  "native_response snap r =
     r\<lparr>rs_status := ns_status snap, rs_status_message := ns_message snap, rs_width := ns_width snap,
       rs_height := ns_height snap\<rparr>"

definition get_session ::
    "model_codes \<Rightarrow> string \<Rightarrow> ('p, 'q, 'o) CaptureRegistry \<Rightarrow> (CaptureRegistryError, CaptureSessionResponse) result" where
  "get_session K i R =
     rbind (find_session i R) (\<lambda>s.
     let hold = map_of (native_holds R) i; native = map_option hold_info hold in
     rbind (if native \<noteq> None then Inr (case fd_socket R of None \<Rightarrow> [] | Some p \<Rightarrow> p) else fd_socket_path R) (\<lambda>path.
     let r = base_response i s path native;
         r = (case cs_cpu s of None \<Rightarrow> r | Some cpu \<Rightarrow> cpu_response (Runtime_snapshot K cpu) (cs_lifecycle s) r);
         r = (case hold of None \<Rightarrow> r
              | Some h \<Rightarrow> native_response (NativeRuntime_snapshot (pub_state (hold_publisher h))) r)
     in Inr r))"

text \<open>The surface is looked up under a second lock, when the table may have become \<open>R2\<close>.\<close>

definition session_with_source ::
    "model_codes \<Rightarrow> string \<Rightarrow> ('p, 'q, 'o) CaptureRegistry \<Rightarrow> ('p, 'q, 'o) CaptureRegistry \<Rightarrow>
     (CaptureRegistryError, CaptureSessionResponse \<times> string) result" where
  "session_with_source K i R R2 =
     rbind (get_session K i R) (\<lambda>r.
     Inr (r, case Option.bind (map_of (sessions R2) i) cs_surface of None \<Rightarrow> i | Some surface \<Rightarrow> surface))"

text \<open>
  The list is read session by session, each at its own time; a session that has gone by then is left
  out, any other error ends the listing.
\<close>

fun list_each ::
    "model_codes \<Rightarrow> (string \<Rightarrow> ('p, 'q, 'o) CaptureRegistry \<times> ('p, 'q, 'o) CaptureRegistry) \<Rightarrow> string list \<Rightarrow>
     (CaptureRegistryError, (CaptureSessionResponse \<times> string) list) result" where
  "list_each K tables [] = Inr []"
| "list_each K tables (i # is) =
     (case session_with_source K i (fst (tables i)) (snd (tables i)) of
        Inr entry \<Rightarrow> rmap ((#) entry) (list_each K tables is)
      | Inl e \<Rightarrow> (case e of UnknownSession _ \<Rightarrow> list_each K tables is | _ \<Rightarrow> Inl e))"

definition list_sessions ::
    "model_codes \<Rightarrow> (string \<Rightarrow> ('p, 'q, 'o) CaptureRegistry \<times> ('p, 'q, 'o) CaptureRegistry) \<Rightarrow>
     ('p, 'q, 'o) CaptureRegistry \<Rightarrow> (CaptureRegistryError, (CaptureSessionResponse \<times> string) list) result" where
  "list_sessions K tables R = list_each K tables (map fst (sessions R))"

section \<open>Access\<close>

definition require_fd_session_access ::
    "string \<Rightarrow> AgentId option \<Rightarrow> ('p, 'q, 'o) CaptureRegistry \<Rightarrow> (CaptureRegistryError, unit) result" where
  "require_fd_session_access i agent R =
     rbind (find_session i R) (\<lambda>s.
     case (cs_owner s, agent) of
       (None, _) \<Rightarrow> Inr ()
     | (Some owner, Some a) \<Rightarrow>
         if owner = a then Inr ()
         else Inl (CapturePorthole (PortholeError_new AgentIdentityRequired
                (Msg ''capture transfer connection is not authorized for this session'' [])))
     | (Some owner, None) \<Rightarrow>
         Inl (CapturePorthole (PortholeError_new AgentIdentityRequired
                (Msg ''capture transfer connection is not authorized for this session'' []))))"

definition authenticate_agent_token_blocking ::
    "libs \<Rightarrow> sql_env \<Rightarrow> AgentPolicyStore \<Rightarrow> string \<Rightarrow> AgentId option StoreResult" where
  "authenticate_agent_token_blocking L E S token = read_conn E (authenticate_agent_token_in_conn L E S token)"

text \<open>\<open>store\<close> is \<open>None\<close> for a registry without an agent store.\<close>

definition authorize_fd_connection ::
    "libs \<Rightarrow> sql_env \<Rightarrow> AgentPolicyStore option \<Rightarrow> string \<Rightarrow> string \<Rightarrow> ('p, 'q, 'o) CaptureRegistry \<Rightarrow>
     (CaptureRegistryError, AgentId) result" where
  "authorize_fd_connection L E store i token R =
     rbind (ok_or store (CapturePorthole (PortholeError_new AgentIdentityRequired
       (Msg ''capture transfer bearer token cannot be authenticated by this registry'' [])))) (\<lambda>S.
     rbind (map_err (\<lambda>e. CaptureIo (store_error_fmt e)) (authenticate_agent_token_blocking L E S token)) (\<lambda>found.
     rbind (ok_or found (CapturePorthole (PortholeError_new AgentIdentityRequired
       (Msg ''capture transfer bearer token is required'' [])))) (\<lambda>agent.
     rbind (require_fd_session_access i (Some agent) R) (\<lambda>_. Inr agent))))"

text \<open>Resizing the output: the check of \<open>set_output_size\<close>, the budget, and the call of the control.\<close>

definition check_output_budget :: "u32 \<Rightarrow> u32 \<Rightarrow> (CaptureRegistryError, unit) result" where
  "check_output_budget width height =
     (let row = ucast width * 4 :: u64;
          aligned = (row div 256 + (if row mod 256 = 0 then 0 else 1)) * 256;
          frame_bytes = (if unat aligned * unat height < 2 ^ 64 then Some (aligned * ucast height) else None)
      in if width = 0 \<or> height = 0 \<or>
           (case frame_bytes of None \<Rightarrow> True
            | Some b \<Rightarrow> (CAPTURE_MEMORY_BUDGET - 1024 * 1024) div ucast CAPTURE_RESOURCE_CAPACITY < b)
         then Inl (CapturePorthole (PortholeError_new InvalidArgument
           (Msg ''capture output must have positive pixel dimensions and fit the session pool budget'' [])))
         else Inr ())"

definition output_control_for ::
    "string \<Rightarrow> AgentId \<Rightarrow> ('p, 'q, 'o) CaptureRegistry \<Rightarrow> (CaptureRegistryError, 'o) result" where
  "output_control_for i agent R =
     rbind (find_session i R) (\<lambda>s.
     if (case cs_owner s of None \<Rightarrow> False | Some owner \<Rightarrow> owner \<noteq> agent)
     then Inl (CapturePorthole (PortholeError_new AgentPermissionDenied
       (Msg ''only the capture session owner may change its output'' [])))
     else if cs_lifecycle s \<noteq> LifeReady then Inl (NotReady i (status_name (cs_lifecycle s)))
     else ok_or (cs_output_control s) (CapturePorthole (PortholeError_new AdapterUnsupported
       (Msg ''this capture session does not support output size requests'' []))))"

definition set_output_size ::
    "('o \<Rightarrow> u32 \<Rightarrow> u32 \<Rightarrow> (PortholeError, unit) result) \<Rightarrow> string \<Rightarrow> AgentId \<Rightarrow> u32 \<Rightarrow> u32 \<Rightarrow>
     ('p, 'q, 'o) CaptureRegistry \<Rightarrow> (CaptureRegistryError, unit) result" where
  "set_output_size control_call i agent width height R =
     rbind (output_control_for i agent R) (\<lambda>control.
     rbind (check_output_budget width height) (\<lambda>_.
     map_err CapturePorthole (control_call control width height)))"

section \<open>The socket for viewers\<close>

text \<open>
  The first line of a connection, at most 16 KiB of it; \<open>rest\<close> is what the following setup will read.
  A stream that ends before the line does is an error of the read, given by its text.
\<close>

fun read_preface :: "string \<Rightarrow> u8 list \<Rightarrow> u8 list \<Rightarrow> (CaptureRegistryError, u8 list \<times> u8 list) result" where
  "read_preface eof acc input =
     (if length acc = 16 * 1024 then Inl (CaptureIo (Msg ''CPU session preface is too large'' []))
      else case input of
        [] \<Rightarrow> Inl (CaptureIo (text_message eof))
      | b # rest \<Rightarrow> if b = 10 then Inr (acc, rest) else read_preface eof (acc @ [b]) rest)"

record CpuOpenRequest =
  open_session_id :: string
  open_track_id :: u64
  open_bearer_token :: "string option"

record Offer =
  offer_source :: string
  offer_track :: u64

definition video_offer :: "string \<Rightarrow> u64 \<Rightarrow> Offer" where
  "video_offer i track = \<lparr>offer_source = i, offer_track = track\<rparr>"

text \<open>The part of \<open>handle_fd_connection\<close> under the table's lock.\<close>

definition open_fd_session ::
    "(string, unit) result \<Rightarrow> CpuOpenRequest \<Rightarrow> ('p, 'q, 'o) CaptureRegistry \<Rightarrow>
     (CaptureRegistryError, u64 \<times> Offer) result \<times> ('p, 'q, 'o) CaptureRegistry" where
  "open_fd_session cloned request R =
     (let i = open_session_id request in
      case find_session i R of Inl e \<Rightarrow> (Inl e, R) | Inr s \<Rightarrow>
      (case cs_lifecycle s of
         LifeStarting \<Rightarrow> (Inl (NotReady i ''starting''), R)
       | LifeFailed m \<Rightarrow> (Inl (CaptureFailed i m), R)
       | LifeClosed m \<Rightarrow> (Inl (CaptureClosed i m), R)
       | LifeReady \<Rightarrow>
           if cs_track_id s \<noteq> open_track_id request then (Inl (CaptureError (Msg ''unknown capture track'' [])), R)
           else case cs_cpu s of None \<Rightarrow> (Inl (CaptureError (Msg ''session is not a CPU capture'' [])), R) | Some r \<Rightarrow>
           (case open_connection cloned r of
              (Inl e, r) \<Rightarrow> (Inl e, insert_session i (s\<lparr>cs_cpu := Some r\<rparr>) R)
            | (Inr c, r) \<Rightarrow> (Inr (c, video_offer i (cs_track_id s)), insert_session i (s\<lparr>cs_cpu := Some r\<rparr>) R))))"

text \<open>What the viewer is told before the setup of the crate takes over.\<close>

datatype FdReply = FdRejected message | CpuOpened u64 Offer

text \<open>
  The connection handler.  \<open>others n\<close> is what other tasks do to the table before its \<open>n\<close>-th use;
  \<open>parse\<close> is the JSON parser, \<open>E\<close> the surroundings of the token check.
\<close>

definition fd_checks ::
    "libs \<Rightarrow> sql_env \<Rightarrow> AgentPolicyStore option \<Rightarrow> CpuOpenRequest \<Rightarrow> ('p, 'q, 'o) CaptureRegistry \<Rightarrow>
     ('p, 'q, 'o) CaptureRegistry \<Rightarrow> (CaptureRegistryError, unit) result" where
  "fd_checks L E store request R1 R2 =
     rbind (case open_bearer_token request of
              None \<Rightarrow> Inr None
            | Some token \<Rightarrow> rmap Some (authorize_fd_connection L E store (open_session_id request) token R1)) (\<lambda>authorized.
     require_fd_session_access (open_session_id request) authorized R2)"

definition handle_fd_connection ::
    "libs \<Rightarrow> sql_env \<Rightarrow> AgentPolicyStore option \<Rightarrow> (u8 list \<Rightarrow> (string, CpuOpenRequest) result) \<Rightarrow>
     (nat \<Rightarrow> ('p, 'q, 'o) CaptureRegistry \<Rightarrow> ('p, 'q, 'o) CaptureRegistry) \<Rightarrow> string \<Rightarrow> (string, unit) result \<Rightarrow>
     u8 list \<Rightarrow> ('p, 'q, 'o) CaptureRegistry \<Rightarrow> FdReply \<times> ('p, 'q, 'o) CaptureRegistry" where
  "handle_fd_connection L E store parse others eof cloned input R =
     (case rbind (read_preface eof [] input) (\<lambda>(line, rest). map_err (\<lambda>e. CaptureIo (text_message e)) (parse line)) of
        Inl e \<Rightarrow> (FdRejected (CaptureRegistryError_display e), R)
      | Inr request \<Rightarrow>
          let R1 = others 0 R; R2 = others 1 R1 in
          (case fd_checks L E store request R1 R2 of
             Inl e \<Rightarrow> (FdRejected (CaptureRegistryError_display e), R2)
           | Inr _ \<Rightarrow>
               (case open_fd_session cloned request (others 2 R2) of
                  (Inl e, R3) \<Rightarrow> (FdRejected (CaptureRegistryError_display e), R3)
                | (Inr (c, offer), R3) \<Rightarrow> (CpuOpened c offer, R3))))"

end
