(* ===== verification/Capture_Runs.thy ===== *)
theory Capture_Runs
  imports Capture_Registry
begin

text \<open>
  Runs of the table of capture sessions: the steps that the daemon's tasks, threads and callbacks take
  on it, what a step does to a session, and the invariants that follow.
\<close>

section \<open>What a step may do to a session\<close>

text \<open>
  A session keeps its owner, its source and its kind; its runtime makes steps of its own; it never
  becomes active again; and when it is not active its runtime has ended.
\<close>

definition session_moves :: "'p cpu_arena \<Rightarrow> ('p, 'o) CaptureSession \<Rightarrow> ('p, 'o) CaptureSession \<Rightarrow> bool" where
  "session_moves J s t \<longleftrightarrow>
     cs_owner t = cs_owner s \<and> cs_surface t = cs_surface s \<and> cs_track_id t = cs_track_id s \<and>
     (cs_cpu s = None \<longleftrightarrow> cs_cpu t = None) \<and>
     (\<forall>r r'. cs_cpu s = Some r \<longrightarrow> cs_cpu t = Some r' \<longrightarrow> (cpu_step J)\<^sup>*\<^sup>* r r') \<and>
     (active (cs_lifecycle t) \<longrightarrow> active (cs_lifecycle s)) \<and>
     (cs_lifecycle t = LifeStarting \<longrightarrow> cs_lifecycle s = LifeStarting)"

definition session_ok :: "('p, 'o) CaptureSession \<Rightarrow> bool" where
  "session_ok s \<longleftrightarrow>
     (\<forall>r. cs_cpu s = Some r \<longrightarrow> cpu_ok r \<and> (active (cs_lifecycle s) \<or> cpu_terminal r))"

lemma session_moves_refl [simp]: "session_moves J s s"
  by (simp add: session_moves_def)

lemma session_moves_trans: "session_moves J s t \<Longrightarrow> session_moves J t u \<Longrightarrow> session_moves J s u"
  unfolding session_moves_def by (metis not_None_eq rtranclp_trans)

lemma session_moves_cpu: "session_moves J s t \<Longrightarrow> cs_cpu t = Some r' \<Longrightarrow> \<exists>r. cs_cpu s = Some r \<and> (cpu_step J)\<^sup>*\<^sup>* r r'"
  by (cases "cs_cpu s") (auto simp: session_moves_def)

section \<open>Sessions and holds in the table\<close>

lemma change_session_simps [simp]:
  "map_of (sessions (change_session i f R)) j = (if j = i then map_option f (map_of (sessions R) i) else map_of (sessions R) j)"
  "native_holds (change_session i f R) = native_holds R"
  "retired_cpu_sessions (change_session i f R) = retired_cpu_sessions R"
  "frame_sources (change_session i f R) = frame_sources R" "first_frames (change_session i f R) = first_frames R"
  "entered (change_session i f R) = entered R"
  "native_session_starting (change_session i f R) = native_session_starting R"
  by (simp_all add: change_session_def AList.map_of_map_entry split: option.splits)

lemma change_hold_simps [simp]:
  "map_of (native_holds (change_hold i f R)) j = (if j = i then map_option f (map_of (native_holds R) i) else map_of (native_holds R) j)"
  "sessions (change_hold i f R) = sessions R" "retired_cpu_sessions (change_hold i f R) = retired_cpu_sessions R"
  "frame_sources (change_hold i f R) = frame_sources R" "first_frames (change_hold i f R) = first_frames R"
  "entered (change_hold i f R) = entered R"
  "native_session_starting (change_hold i f R) = native_session_starting R"
  by (simp_all add: change_hold_def AList.map_of_map_entry split: option.splits)

lemma insert_session_simps [simp]:
  "map_of (sessions (insert_session i s R)) = (map_of (sessions R))(i \<mapsto> s)"
  "native_holds (insert_session i s R) = native_holds R"
  "retired_cpu_sessions (insert_session i s R) = retired_cpu_sessions R"
  "frame_sources (insert_session i s R) = frame_sources R" "first_frames (insert_session i s R) = first_frames R"
  "entered (insert_session i s R) = entered R"
  "native_session_starting (insert_session i s R) = native_session_starting R"
  by (simp_all add: insert_session_def AList.update_conv')

lemma enter_session_simps [simp]:
  "map_of (sessions (enter_session i s R)) = (map_of (sessions R))(i \<mapsto> s)"
  "native_holds (enter_session i s R) = native_holds R"
  "retired_cpu_sessions (enter_session i s R) = retired_cpu_sessions R"
  "frame_sources (enter_session i s R) = frame_sources R" "first_frames (enter_session i s R) = first_frames R"
  "entered (enter_session i s R) = i # entered R"
  "native_session_starting (enter_session i s R) = native_session_starting R"
  by (simp_all add: enter_session_def)

section \<open>Ending a session\<close>

lemma stop_capture_moves: "session_moves J s (stop_capture J now s)"
  by (auto simp: session_moves_def stop_capture_def intro: cpu_step.stop)

lemma draining_cpu_moves: "session_moves J s (draining_cpu J now s)"
  using stop_capture_moves [of J s now]
  by (auto simp: session_moves_def draining_cpu_def set_lifecycle_def stop_capture_def active_def)

lemma draining_native_moves: "session_moves J s (draining_native s)"
  by (simp add: session_moves_def draining_native_def set_lifecycle_def active_def)

lemma mark_moves:
  "session_moves J s (s\<lparr>cs_startup_cancel := False, cs_cpu := map_option (CpuSession_fail J now m) (cs_cpu s),
     cs_lifecycle := LifeFailed m\<rparr>)"
  "session_moves J s (s\<lparr>cs_startup_cancel := False, cs_lifecycle := LifeClosed m,
     cs_cpu := map_option (Runtime_stop J now) (cs_cpu s)\<rparr>)"
  by (auto simp: session_moves_def active_def intro: cpu_step.fail cpu_step.stop)

lemma ended_ok:
  "session_ok s \<Longrightarrow> session_ok (stop_capture J now s)"
  "session_ok s \<Longrightarrow> session_ok (draining_cpu J now s)"
  "session_ok s \<Longrightarrow> session_ok (s\<lparr>cs_startup_cancel := False, cs_cpu := map_option (CpuSession_fail J now m) (cs_cpu s),
     cs_lifecycle := LifeFailed m\<rparr>)"
  "session_ok s \<Longrightarrow> session_ok (s\<lparr>cs_startup_cancel := False, cs_lifecycle := LifeClosed m,
     cs_cpu := map_option (Runtime_stop J now) (cs_cpu s)\<rparr>)"
  by (auto simp: session_ok_def stop_capture_def draining_cpu_def set_lifecycle_def CpuSession_fail_def stop_ok)

section \<open>Frames and viewers\<close>

lemma publish_cpu_step: "publish_capture_frame_view P now frame r = (x, r') \<Longrightarrow> cpu_step (cpu_of P) r r'"
  using cpu_step.publish [of "cpu_of P" r now]
  by (metis publish_capture_frame_view_def snd_conv)

lemma cpu_step_session:
  assumes "cs_cpu s = Some r" and "cpu_step J r r'"
  shows "session_moves J s (s\<lparr>cs_cpu := Some r'\<rparr>)" and "session_ok s \<Longrightarrow> session_ok (s\<lparr>cs_cpu := Some r'\<rparr>)"
  using assms cpu_step_ok [of r J r'] terminal_step [of r J r']
  by (auto simp: session_moves_def session_ok_def)

lemma frame_size_simps [simp]:
  "cs_cpu (frame_size m s) = cs_cpu s" "cs_lifecycle (frame_size m s) = cs_lifecycle s"
  "cs_owner (frame_size m s) = cs_owner s" "cs_surface (frame_size m s) = cs_surface s"
  "cs_track_id (frame_size m s) = cs_track_id s" "session_ok (frame_size m s) = session_ok s"
  by (simp_all add: frame_size_def session_ok_def)

lemma frame_size_moves: "session_moves J s (frame_size m s)"
  by (simp add: session_moves_def)

text \<open>Entering a changed session: the sessions, and who has reported a first frame.\<close>

definition replaces ::
    "'p cpu_arena \<Rightarrow> string \<Rightarrow> ('p, 'q, 'o) CaptureRegistry \<Rightarrow> ('p, 'q, 'o) CaptureRegistry \<Rightarrow> bool" where
  "replaces J i R R' \<longleftrightarrow> R' = R \<or>
     (\<exists>s t. map_of (sessions R) i = Some s \<and> session_moves J s t \<and> (session_ok s \<longrightarrow> session_ok t) \<and>
        (R' = insert_session i t R \<or>
         R' = (insert_session i t R)\<lparr>first_frames := List.insert i (first_frames R)\<rparr> \<and> cs_lifecycle t = LifeReady))"

lemma publish_frame_replaces: "replaces (cpu_of P) i R (snd (publish_frame P now i frame R))"
proof (cases "map_of (sessions R) i")
  case None
  then show ?thesis by (simp add: publish_frame_def replaces_def)
next
  case (Some s)
  let ?s = "frame_size (view_metadata frame) s"
  show ?thesis
  proof (cases "active (cs_lifecycle s) \<and> cs_cpu s \<noteq> None")
    case False
    with Some frame_size_moves [of "cpu_of P" s "view_metadata frame"] show ?thesis
      by (auto simp: publish_frame_def replaces_def Let_def)
  next
    case True
    then obtain r where r: "cs_cpu ?s = Some r" by auto
    obtain x r' where x: "publish_capture_frame_view P now frame r = (x, r')" by fastforce
    note step = cpu_step_session [OF r publish_cpu_step [OF x]]
    let ?t = "?s\<lparr>cs_cpu := Some r', cs_lifecycle := LifeReady\<rparr>"
    have moves: "session_moves (cpu_of P) s (?s\<lparr>cs_cpu := Some r'\<rparr>)" "session_ok s \<longrightarrow> session_ok (?s\<lparr>cs_cpu := Some r'\<rparr>)"
      using session_moves_trans [OF frame_size_moves step(1)] step(2) by simp_all
    then have "session_moves (cpu_of P) s ?t" "session_ok s \<longrightarrow> session_ok ?t"
      using True by (auto simp: session_moves_def session_ok_def active_def)
    with Some True r x moves show ?thesis
      by (cases x; cases "projr x") (auto simp: publish_frame_def replaces_def Let_def)
  qed
qed

lemma publish_capture_frame_replaces: "replaces (cpu_of P) i R (snd (publish_capture_frame P now i frame R))"
proof (cases "map_of (sessions R) i")
  case None
  then show ?thesis by (simp add: publish_capture_frame_def replaces_def)
next
  case (Some s)
  let ?s = "frame_size (view_metadata frame) s"
  show ?thesis
  proof (cases "active (cs_lifecycle s) \<and> cs_cpu s \<noteq> None")
    case False
    with Some frame_size_moves [of "cpu_of P" s "view_metadata frame"] show ?thesis
      by (auto simp: publish_capture_frame_def replaces_def Let_def)
  next
    case True
    then obtain r where r: "cs_cpu ?s = Some r" by auto
    obtain x r' where x: "publish_capture_frame_view P now frame r = (x, r')" by fastforce
    note step = cpu_step_session [OF r publish_cpu_step [OF x]]
    have "session_moves (cpu_of P) s (?s\<lparr>cs_cpu := Some r'\<rparr>)" "session_ok s \<longrightarrow> session_ok (?s\<lparr>cs_cpu := Some r'\<rparr>)"
      using session_moves_trans [OF frame_size_moves step(1)] step(2) by simp_all
    with Some True r x show ?thesis by (auto simp: publish_capture_frame_def replaces_def Let_def)
  qed
qed

lemma open_fd_replaces: "replaces J (open_session_id request) R (snd (open_fd_session cloned request R))"
proof -
  have "replaces J i R (insert_session i (s\<lparr>cs_cpu := Some r'\<rparr>) R)"
    if "map_of (sessions R) i = Some s" "cs_cpu s = Some r" "open_connection cloned r = (x, r')" for i s r x r'
  proof -
    have "cpu_step J r r'" using cpu_step.open_connection [of J r cloned] that(3) by simp
    from cpu_step_session [OF that(2) this] that(1) show ?thesis unfolding replaces_def by blast
  qed
  then show ?thesis
    by (auto simp: open_fd_session_def find_session_def Let_def replaces_def result_simps
        split: sum.splits CaptureSessionLifecycle.splits option.splits prod.splits)
qed

text \<open>A session is published to only if its runtime exists: the \<open>expect\<close> of the code.\<close>

lemma publish_no_panic:
  assumes "\<And>s. map_of (sessions R) i = Some s \<Longrightarrow> cs_cpu s \<noteq> None"
    and "\<And>s r. map_of (sessions R) i = Some s \<Longrightarrow> cs_cpu s = Some r \<Longrightarrow> cpu_ok r"
  shows "fst (publish_frame P now i frame R) \<noteq> Inl (CapturePanic m)"
    and "fst (publish_capture_frame P now i frame R) \<noteq> Inl (CapturePanic m)"
proof -
  have panic: "x \<noteq> Inl (CapturePanic m)"
    if "map_of (sessions R) i = Some s" "cs_cpu s = Some r" "publish_capture_frame_view P now frame r = (x, r')" for s r x r'
    using CpuSession_publish_ok [OF assms(2) [OF that(1,2)]] that(3) by (simp add: publish_capture_frame_view_def)
  show "fst (publish_frame P now i frame R) \<noteq> Inl (CapturePanic m)"
    using assms(1) by (auto simp: publish_frame_def Let_def internal_error_def split: option.splits prod.splits sum.splits PublishOutcome.splits)
  show "fst (publish_capture_frame P now i frame R) \<noteq> Inl (CapturePanic m)"
  proof (cases "map_of (sessions R) i")
    case (Some s)
    obtain r where r: "cs_cpu s = Some r" using assms(1) [OF Some] by blast
    obtain x r' where x: "publish_capture_frame_view P now frame r = (x, r')" by fastforce
    from Some r x panic [OF Some r x] show ?thesis by (cases x) (auto simp: publish_capture_frame_def Let_def)
  qed (simp add: publish_capture_frame_def)
qed

section \<open>Retirement\<close>

lemma trim_retired_eq:
  "trim_retired q ss =
     (drop (length q - RETIRED_CPU_SESSION_LIMIT) q,
      fold AList.delete (take (length q - RETIRED_CPU_SESSION_LIMIT) q) ss)"
proof (induction q arbitrary: ss)
  case (Cons i q)
  show ?case
  proof (cases "RETIRED_CPU_SESSION_LIMIT < length (i # q)")
    case True
    then have "length (i # q) - RETIRED_CPU_SESSION_LIMIT = Suc (length q - RETIRED_CPU_SESSION_LIMIT)" by simp
    with True Cons.IH [of "AList.delete i ss"] show ?thesis by simp
  qed simp
qed simp

lemma map_of_fold_delete:
  "map_of (fold AList.delete is ss) j = (if j \<in> set is then None else map_of ss j)"
  by (induction "is" arbitrary: ss) (auto simp: AList.delete_conv')

section \<open>Steps\<close>

inductive capture_step ::
    "('s, 'p, 'q) platform \<Rightarrow> ('p, 'q, 'o) CaptureRegistry \<Rightarrow> ('p, 'q, 'o) CaptureRegistry \<Rightarrow> bool" for P where
  enter: "i \<notin> set (entered R) \<Longrightarrow> i \<notin> set (first_frames R) \<Longrightarrow> active (cs_lifecycle s) \<Longrightarrow> cs_cpu s = Some r \<Longrightarrow>
    cpu_ok r \<Longrightarrow> \<not> rt_drained r \<Longrightarrow> capture_step P R (enter_session i s R)"
| enter_native: "i \<notin> set (entered R) \<Longrightarrow> i \<notin> set (frame_sources R) \<Longrightarrow> i \<notin> set (first_frames R) \<Longrightarrow> cs_cpu s = None \<Longrightarrow>
    capture_step P R (enter_session i s R)"
| source: "(\<And>s. map_of (sessions R) i = Some s \<Longrightarrow> cs_cpu s \<noteq> None) \<Longrightarrow>
    capture_step P R (R\<lparr>frame_sources := i # frame_sources R\<rparr>)"
| attach: "capture_step P R (change_session i (\<lambda>s. s\<lparr>cs_task := True, cs_output_control := c\<rparr>) R)"
| handed: "capture_step P R (change_session i (\<lambda>s. s\<lparr>cs_startup_cancel := False\<rparr>) R)"
| remove: "capture_step P R (remove_session P now i R)"
| close: "capture_step P R (snd (close_session P now i R))"
| failed: "capture_step P R (mark_session_failed P now i m R)"
| ended: "capture_step P R (mark_session_closed P now i m R)"
| drop_startup: "capture_step P R (drop_startup P now i R)"
| retire: "map_of (sessions R) i = Some s \<Longrightarrow> cs_cpu s = Some r \<Longrightarrow> rt_drained r \<Longrightarrow>
    i \<notin> set (retired_cpu_sessions R) \<Longrightarrow> capture_step P R (retire_session i R)"
| publish_frame: "i \<in> set (frame_sources R) \<Longrightarrow> capture_step P R (snd (publish_frame P now i frame R))"
| publish_capture_frame:
    "i \<in> set (frame_sources R) \<Longrightarrow> capture_step P R (snd (publish_capture_frame P now i frame R))"
| open_fd: "capture_step P R (snd (open_fd_session cloned request R))"
| runtime: "map_of (sessions R) i = Some s \<Longrightarrow> cs_cpu s = Some r \<Longrightarrow> cpu_step (cpu_of P) r r' \<Longrightarrow>
    capture_step P R (change_session i (\<lambda>s. s\<lparr>cs_cpu := Some r'\<rparr>) R)"
| hold: "map_of (native_holds R) i = Some h \<Longrightarrow> native_step (native_of P) (hold_publisher h) p \<Longrightarrow>
    capture_step P R (change_hold i (\<lambda>h. h\<lparr>hold_publisher := p\<rparr>) R)"
| holds: "(\<And>i s. i \<in> fst ` set hs \<Longrightarrow> map_of (sessions R) i = Some s \<Longrightarrow> cs_cpu s = None) \<Longrightarrow>
    (\<And>i. i \<in> fst ` set hs \<Longrightarrow> i \<in> set (entered R)) \<Longrightarrow>
    capture_step P R (R\<lparr>native_holds := hs, native_session_starting := starting\<rparr>)"
| delete_native: "(\<And>s. map_of (sessions R) i = Some s \<Longrightarrow> cs_cpu s = None) \<Longrightarrow>
    capture_step P R (R\<lparr>sessions := AList.delete i (sessions R)\<rparr>)"
| native_ready: "map_of (sessions R) i = Some s \<Longrightarrow> cs_cpu s = None \<Longrightarrow> cs_lifecycle s = LifeStarting \<Longrightarrow>
    capture_step P R (change_session i (\<lambda>s. s\<lparr>cs_lifecycle := LifeReady, cs_output_control := c, cs_width := w,
      cs_height := h, cs_pixel_format := Bgra8Unorm\<rparr>) R)"

section \<open>Invariants\<close>

definition entry_ok :: "('p, 'q, 'o) CaptureRegistry \<Rightarrow> string \<Rightarrow> ('p, 'o) CaptureSession \<Rightarrow> bool" where
  "entry_ok R i s \<longleftrightarrow>
     session_ok s \<and> i \<in> set (entered R) \<and>
     (i \<in> set (frame_sources R) \<longrightarrow> cs_cpu s \<noteq> None) \<and>
     (i \<in> fst ` set (native_holds R) \<longrightarrow> cs_cpu s = None) \<and>
     (i \<in> set (first_frames R) \<longrightarrow> cs_lifecycle s \<noteq> LifeStarting)"

definition drained_in :: "('p, 'q, 'o) CaptureRegistry \<Rightarrow> string \<Rightarrow> bool" where
  "drained_in R i \<longleftrightarrow> (\<exists>s r. map_of (sessions R) i = Some s \<and> cs_cpu s = Some r \<and> rt_drained r)"

definition table_ok :: "('p, 'q, 'o) CaptureRegistry \<Rightarrow> bool" where
  "table_ok R \<longleftrightarrow>
     (\<forall>i s. map_of (sessions R) i = Some s \<longrightarrow> entry_ok R i s) \<and>
     (\<forall>i \<in> set (retired_cpu_sessions R). drained_in R i) \<and>
     distinct (retired_cpu_sessions R) \<and> length (retired_cpu_sessions R) \<le> RETIRED_CPU_SESSION_LIMIT \<and>
     fst ` set (native_holds R) \<subseteq> set (entered R)"

lemma table_okI:
  assumes "\<And>i s. map_of (sessions R) i = Some s \<Longrightarrow> entry_ok R i s"
    and "\<And>i. i \<in> set (retired_cpu_sessions R) \<Longrightarrow> drained_in R i"
    and "distinct (retired_cpu_sessions R)" and "length (retired_cpu_sessions R) \<le> RETIRED_CPU_SESSION_LIMIT"
    and "fst ` set (native_holds R) \<subseteq> set (entered R)"
  shows "table_ok R"
  using assms unfolding table_ok_def by blast

lemma table_okD:
  assumes "table_ok R"
  shows "map_of (sessions R) i = Some s \<Longrightarrow> entry_ok R i s"
    and "i \<in> set (retired_cpu_sessions R) \<Longrightarrow> drained_in R i"
    and "distinct (retired_cpu_sessions R)" and "length (retired_cpu_sessions R) \<le> RETIRED_CPU_SESSION_LIMIT"
    and "fst ` set (native_holds R) \<subseteq> set (entered R)"
  using assms unfolding table_ok_def by blast+

text \<open>A table with the same sessions, or with fewer holds.\<close>

lemma table_ok_only:
  assumes "table_ok R" and "map_of (sessions R') = map_of (sessions R)"
    and "fst ` set (native_holds R') \<subseteq> fst ` set (native_holds R)"
    and "retired_cpu_sessions R' = retired_cpu_sessions R" and "frame_sources R' = frame_sources R"
    and "first_frames R' = first_frames R" and "entered R' = entered R"
  shows "table_ok R'"
proof (rule table_okI)
  show "entry_ok R' i s" if "map_of (sessions R') i = Some s" for i s
  proof -
    have "entry_ok R i s" using table_okD(1) [OF assms(1)] that assms(2) by simp
    with assms(3,5-7) show ?thesis by (auto simp: entry_ok_def)
  qed
  show "drained_in R' i" if "i \<in> set (retired_cpu_sessions R')" for i
    using table_okD(2) [OF assms(1)] that assms(2,4) by (simp add: drained_in_def)
  show "fst ` set (native_holds R') \<subseteq> set (entered R')"
    using table_okD(5) [OF assms(1)] assms(3,7) by auto
qed (use table_okD(3,4) [OF assms(1)] assms(4) in simp_all)

text \<open>A change of one session in place.\<close>

lemma moved_drained:
  assumes "session_moves J s t" and "session_ok s" and "cs_cpu s = Some r" and "rt_drained r"
  shows "\<exists>r'. cs_cpu t = Some r' \<and> rt_drained r'"
proof -
  obtain r' where r': "cs_cpu t = Some r'" using assms(1,3) by (cases "cs_cpu t") (auto simp: session_moves_def)
  have "(cpu_step J)\<^sup>*\<^sup>* r r'" using assms(1,3) r' by (auto simp: session_moves_def)
  moreover have "cpu_ok r" using assms(2,3) by (simp add: session_ok_def)
  ultimately show ?thesis using cpu.drained_run assms(4) r' by blast
qed

lemma moved_entry_ok:
  assumes "entry_ok R i s" and "session_moves J s t" and "session_ok s \<longrightarrow> session_ok t"
  shows "entry_ok R i t"
  using assms(1,3) assms(2) [unfolded session_moves_def] by (auto simp: entry_ok_def)

lemma insert_moved_ok:
  assumes "table_ok R" and "map_of (sessions R) i = Some s" and "session_moves J s t"
    and "session_ok s \<longrightarrow> session_ok t" and "map_of (sessions R') = (map_of (sessions R))(i \<mapsto> t)"
    and "native_holds R' = native_holds R" and "retired_cpu_sessions R' = retired_cpu_sessions R"
    and "frame_sources R' = frame_sources R" and "entered R' = entered R"
    and "first_frames R' = first_frames R \<or>
      first_frames R' = List.insert i (first_frames R) \<and> cs_lifecycle t \<noteq> LifeStarting"
  shows "table_ok R'"
proof (rule table_okI)
  have s: "entry_ok R i s" by (rule table_okD(1) [OF assms(1,2)])
  have t: "entry_ok R i t" by (rule moved_entry_ok [OF s assms(3,4)])
  show "entry_ok R' j u" if "map_of (sessions R') j = Some u" for j u
  proof (cases "j = i")
    case True
    with that assms(5) have "u = t" by simp
    with True t assms(6,8,9,10) show ?thesis unfolding entry_ok_def by auto
  next
    case False
    with that assms(5) have "entry_ok R j u" using table_okD(1) [OF assms(1)] by simp
    with False assms(6,8,9,10) show ?thesis unfolding entry_ok_def by auto
  qed
  show "drained_in R' j" if "j \<in> set (retired_cpu_sessions R')" for j
  proof -
    have "drained_in R j" using that assms(7) table_okD(2) [OF assms(1)] by simp
    then obtain u r where u: "map_of (sessions R) j = Some u" "cs_cpu u = Some r" "rt_drained r"
      unfolding drained_in_def by blast
    show ?thesis
    proof (cases "j = i")
      case True
      with u assms(2) have "u = s" by simp
      with u moved_drained [OF assms(3)] s obtain r' where "cs_cpu t = Some r'" "rt_drained r'"
        unfolding entry_ok_def by blast
      with True assms(5) show ?thesis by (simp add: drained_in_def)
    next
      case False
      with u assms(5) show ?thesis by (simp add: drained_in_def)
    qed
  qed
qed (use table_okD(3-5) [OF assms(1)] assms(6,7,9) in simp_all)

lemma replaces_ok:
  assumes "table_ok R" and "replaces J i R R'"
  shows "table_ok R'"
proof (cases "R' = R")
  case False
  with assms(2) obtain s t where s: "map_of (sessions R) i = Some s" "session_moves J s t"
      "session_ok s \<longrightarrow> session_ok t"
    and R': "R' = insert_session i t R \<or>
      R' = (insert_session i t R)\<lparr>first_frames := List.insert i (first_frames R)\<rparr> \<and> cs_lifecycle t = LifeReady"
    unfolding replaces_def by blast
  from R' show ?thesis by (intro insert_moved_ok [OF assms(1) s]) auto
qed (use assms(1) in simp)

lemma change_session_ok:
  assumes "table_ok R" and "\<And>s. map_of (sessions R) i = Some s \<Longrightarrow> session_moves J s (f s)"
    and "\<And>s. map_of (sessions R) i = Some s \<Longrightarrow> session_ok s \<Longrightarrow> session_ok (f s)"
  shows "table_ok (change_session i f R)"
proof (cases "map_of (sessions R) i")
  case None
  then have "map_of (sessions (change_session i f R)) = map_of (sessions R)" by (auto simp: fun_eq_iff)
  then show ?thesis by (intro table_ok_only [OF assms(1)]) simp_all
next
  case (Some s)
  then have "map_of (sessions (change_session i f R)) = (map_of (sessions R))(i \<mapsto> f s)" by (auto simp: fun_eq_iff)
  then show ?thesis using assms(2,3) Some by (intro insert_moved_ok [OF assms(1) Some, of J "f s"]) auto
qed

lemma drop_startup_moves:
  "session_moves J s (let s = stop_capture J now s in
     if active (cs_lifecycle s) then set_lifecycle (LifeClosed (Msg ''capture startup cancelled'' [])) s else s)"
  "session_ok s \<Longrightarrow> session_ok (let s = stop_capture J now s in
     if active (cs_lifecycle s) then set_lifecycle (LifeClosed (Msg ''capture startup cancelled'' [])) s else s)"
  using stop_capture_moves [of J s now] ended_ok(1) [of s J now]
  by (auto simp: Let_def set_lifecycle_def session_moves_def session_ok_def active_def stop_capture_def)

lemma draining_native_ok: "cs_cpu s = None \<Longrightarrow> session_ok (draining_native s)"
  by (simp add: draining_native_def set_lifecycle_def session_ok_def)

lemma plain_change_moves:
  assumes "cs_owner (f s) = cs_owner s" and "cs_surface (f s) = cs_surface s" and "cs_track_id (f s) = cs_track_id s"
    and "cs_cpu (f s) = cs_cpu s" and "cs_lifecycle (f s) = cs_lifecycle s"
  shows "session_moves J s (f s)" and "session_ok s \<Longrightarrow> session_ok (f s)"
  using assms by (auto simp: session_moves_def session_ok_def)

lemma native_ready_moves:
  assumes "cs_cpu s = None" and "cs_lifecycle s = LifeStarting" and "cs_cpu t = None" and "active (cs_lifecycle t)"
    and "cs_owner t = cs_owner s" and "cs_surface t = cs_surface s" and "cs_track_id t = cs_track_id s"
  shows "session_moves J s t" and "session_ok t"
  using assms by (auto simp: session_moves_def session_ok_def active_def)

lemma delete_ok:
  assumes "table_ok R" and "\<And>s. map_of (sessions R) i = Some s \<Longrightarrow> cs_cpu s = None"
    and "map_of (sessions R') = (map_of (sessions R))(i := None)"
    and "fst ` set (native_holds R') \<subseteq> fst ` set (native_holds R)"
    and "retired_cpu_sessions R' = retired_cpu_sessions R" and "frame_sources R' = frame_sources R"
    and "first_frames R' = first_frames R" and "entered R' = entered R"
  shows "table_ok R'"
proof (rule table_okI)
  show "entry_ok R' j s" if "map_of (sessions R') j = Some s" for j s
  proof -
    have "entry_ok R j s" using table_okD(1) [OF assms(1)] that assms(3) by (auto split: if_splits)
    with assms(4-8) show ?thesis by (auto simp: entry_ok_def)
  qed
  show "drained_in R' j" if "j \<in> set (retired_cpu_sessions R')" for j
  proof -
    have "drained_in R j" using that assms(5) table_okD(2) [OF assms(1)] by simp
    with assms(2,3) show ?thesis by (force simp: drained_in_def)
  qed
  show "fst ` set (native_holds R') \<subseteq> set (entered R')" using table_okD(5) [OF assms(1)] assms(4,8) by auto
qed (use table_okD(3,4) [OF assms(1)] assms(5) in simp_all)

lemma delete_subset: "fst ` set (AList.delete i xs) \<subseteq> fst ` set xs"
  by (auto simp: AList.delete_eq)

lemma remove_ok:
  assumes "table_ok R"
  shows "table_ok (remove_session P now i R)"
proof (cases "map_of (native_holds R) i")
  case (Some h)
  then have "i \<in> fst ` set (native_holds R)" by (metis map_of_eq_None_iff option.distinct(1))
  let ?R = "change_hold i (hold_close (native_of P) now) R"
  have "table_ok ?R"
    by (rule table_ok_only [OF assms]) (simp_all add: change_hold_def AList.dom_map_entry)
  then have "table_ok (change_session i draining_native ?R)"
  proof (rule change_session_ok [OF _ draining_native_moves])
    fix s assume "map_of (sessions ?R) i = Some s" and "session_ok s"
    then have "cs_cpu s = None"
      using table_okD(1) [OF assms] \<open>i \<in> fst ` set (native_holds R)\<close> by (simp add: entry_ok_def)
    then show "session_ok (draining_native s)" by (rule draining_native_ok)
  qed
  with Some show ?thesis by (simp add: remove_session_def)
next
  case None
  show ?thesis
  proof (cases "\<exists>s r. map_of (sessions R) i = Some s \<and> cs_cpu s = Some r")
    case True
    then have "remove_session P now i R = change_session i (draining_cpu (cpu_of P) now) R"
      using None by (auto simp: remove_session_def)
    moreover have "table_ok (change_session i (draining_cpu (cpu_of P) now) R)"
      by (rule change_session_ok [OF assms draining_cpu_moves ended_ok(2)])
    ultimately show ?thesis by simp
  next
    case False
    then have cpu: "cs_cpu s = None" if "map_of (sessions R) i = Some s" for s using that by (cases "cs_cpu s") auto
    have "remove_session P now i R =
        R\<lparr>sessions := AList.delete i (sessions R), native_holds := AList.delete i (native_holds R)\<rparr>"
      using None cpu by (auto simp: remove_session_def split: option.splits)
    moreover have "table_ok \<dots>"
      by (rule delete_ok [OF assms, of i]) (simp_all add: cpu AList.delete_conv' delete_subset)
    ultimately show ?thesis by simp
  qed
qed

lemma close_as_remove:
  "map_of (sessions (snd (close_session P now i R))) = map_of (sessions (remove_session P now i R))"
  "snd (close_session P now i R) = (remove_session P now i R)\<lparr>sessions := sessions (snd (close_session P now i R))\<rparr>"
  by (auto simp: close_session_def remove_session_def AList.delete_conv' fun_eq_iff split: option.splits)

lemma close_ok:
  assumes "table_ok R"
  shows "table_ok (snd (close_session P now i R))"
proof -
  note r = remove_ok [OF assms, of P now i]
  have same: "f (snd (close_session P now i R)) = f (remove_session P now i R)"
    if "\<And>S ss. f (S\<lparr>sessions := ss\<rparr>) = f S" for f :: "_ \<Rightarrow> 'z"
    by (subst close_as_remove(2)) (rule that)
  show ?thesis
    by (rule table_ok_only [OF r close_as_remove(1)]) (simp_all add: same)
qed

lemma retire_ok:
  assumes "table_ok R" and "map_of (sessions R) i = Some s" and "cs_cpu s = Some r" and "rt_drained r"
    and "i \<notin> set (retired_cpu_sessions R)"
  shows "table_ok (retire_session i R)"
proof -
  let ?q = "retired_cpu_sessions R @ [i]" and ?n = "length (retired_cpu_sessions R @ [i]) - RETIRED_CPU_SESSION_LIMIT"
  have sess: "map_of (sessions (retire_session i R)) j =
      (if j \<in> set (take ?n ?q) then None else map_of (sessions R) j)" for j
    using assms(2) by (simp add: retire_session_def trim_retired_eq map_of_fold_delete)
  have rest: "retired_cpu_sessions (retire_session i R) = drop ?n ?q"
      "native_holds (retire_session i R) = native_holds R" "frame_sources (retire_session i R) = frame_sources R"
      "first_frames (retire_session i R) = first_frames R" "entered (retire_session i R) = entered R"
    using assms(2) by (simp_all add: retire_session_def trim_retired_eq)
  have distinct: "distinct ?q" using table_okD(3) [OF assms(1)] assms(5) by simp
  then have disjoint: "set (take ?n ?q) \<inter> set (drop ?n ?q) = {}"
    by (metis append_take_drop_id distinct_append)
  have drained: "drained_in R j" if "j \<in> set ?q" for j
    using that table_okD(2) [OF assms(1)] assms(2-4) by (auto simp: drained_in_def)
  show ?thesis
  proof (rule table_okI)
    show "entry_ok (retire_session i R) j t" if "map_of (sessions (retire_session i R)) j = Some t" for j t
      using that table_okD(1) [OF assms(1), of j t] rest by (auto simp: sess entry_ok_def split: if_splits)
    show "drained_in (retire_session i R) j" if "j \<in> set (retired_cpu_sessions (retire_session i R))" for j
    proof -
      from that have "j \<in> set (drop ?n ?q)" by (simp only: rest(1))
      then have "j \<in> set ?q" "j \<notin> set (take ?n ?q)" using disjoint by (auto dest: in_set_dropD)
      with drained [of j] show ?thesis by (simp only: drained_in_def sess if_False)
    qed
    show "distinct (retired_cpu_sessions (retire_session i R))" unfolding rest(1) using distinct by (rule distinct_drop)
    show "length (retired_cpu_sessions (retire_session i R)) \<le> RETIRED_CPU_SESSION_LIMIT" by (simp add: rest(1))
    show "fst ` set (native_holds (retire_session i R)) \<subseteq> set (entered (retire_session i R))"
      using table_okD(5) [OF assms(1)] by (simp only: rest)
  qed
qed

lemma enter_ok:
  assumes "table_ok R" and "i \<notin> set (entered R)" and "session_ok s"
    and "i \<in> set (frame_sources R) \<longrightarrow> cs_cpu s \<noteq> None"
    and "i \<in> set (first_frames R) \<longrightarrow> cs_lifecycle s \<noteq> LifeStarting"
  shows "table_ok (enter_session i s R)"
proof (rule table_okI)
  have new: "map_of (sessions R) i = None"
    using table_okD(1) [OF assms(1)] assms(2) by (cases "map_of (sessions R) i") (auto simp: entry_ok_def)
  have "i \<notin> fst ` set (native_holds R)" using table_okD(5) [OF assms(1)] assms(2) by blast
  then show "entry_ok (enter_session i s R) j t" if "map_of (sessions (enter_session i s R)) j = Some t" for j t
    using that table_okD(1) [OF assms(1), of j t] assms(3-5) by (auto simp: entry_ok_def split: if_splits)
  show "drained_in (enter_session i s R) j" if "j \<in> set (retired_cpu_sessions (enter_session i s R))" for j
    using that table_okD(2) [OF assms(1), of j] new by (auto simp: drained_in_def)
qed (use table_okD(3-5) [OF assms(1)] in auto)

lemma table_ok_more:
  assumes "table_ok R" and "sessions R' = sessions R" and "retired_cpu_sessions R' = retired_cpu_sessions R"
    and "first_frames R' = first_frames R" and "entered R' = entered R"
    and "\<And>i s. map_of (sessions R) i = Some s \<Longrightarrow> i \<in> set (frame_sources R') \<Longrightarrow> cs_cpu s \<noteq> None"
    and "\<And>i s. map_of (sessions R) i = Some s \<Longrightarrow> i \<in> fst ` set (native_holds R') \<Longrightarrow> cs_cpu s = None"
    and "\<And>i. i \<in> fst ` set (native_holds R') \<Longrightarrow> i \<in> set (entered R)"
  shows "table_ok R'"
proof (rule table_okI)
  show "entry_ok R' i s" if "map_of (sessions R') i = Some s" for i s
  proof -
    have s: "map_of (sessions R) i = Some s" using that assms(2) by simp
    from table_okD(1) [OF assms(1) s] assms(4,5) assms(6,7) [OF s] show ?thesis unfolding entry_ok_def by simp
  qed
  show "drained_in R' i" if "i \<in> set (retired_cpu_sessions R')" for i
    using table_okD(2) [OF assms(1)] that assms(2,3) by (simp add: drained_in_def)
  show "fst ` set (native_holds R') \<subseteq> set (entered R')" using assms(5,8) by auto
qed (use table_okD(3,4) [OF assms(1)] assms(3) in simp_all)

lemma capture_step_ok:
  assumes "table_ok R" and "capture_step P R R'"
  shows "table_ok R'"
  using assms(2)
proof cases
  case (enter i s r)
  then show ?thesis by (auto intro!: enter_ok [OF assms(1)] simp: session_ok_def)
next
  case (enter_native i s)
  then show ?thesis by (auto intro!: enter_ok [OF assms(1)] simp: session_ok_def)
next
  case (source i)
  show ?thesis
  proof (rule table_ok_more [OF assms(1)])
    show "cs_cpu s \<noteq> None" if "map_of (sessions R) j = Some s" "j \<in> set (frame_sources R')" for j s
      using that source(2) table_okD(1) [OF assms(1) that(1)] by (auto simp: source(1) entry_ok_def)
    show "cs_cpu s = None" if "map_of (sessions R) j = Some s" "j \<in> fst ` set (native_holds R')" for j s
      using that(2) table_okD(1) [OF assms(1) that(1)] by (simp add: source(1) entry_ok_def)
    show "j \<in> set (entered R)" if "j \<in> fst ` set (native_holds R')" for j
      using that table_okD(5) [OF assms(1)] by (auto simp: source(1))
  qed (simp_all add: source(1))
next
  case (attach i c)
  show ?thesis unfolding attach
    by (rule change_session_ok [OF assms(1), where J = "cpu_of P"]) (rule plain_change_moves; simp)+
next
  case (handed i)
  show ?thesis unfolding handed
    by (rule change_session_ok [OF assms(1), where J = "cpu_of P"]) (rule plain_change_moves; simp)+
next
  case (remove now i)
  then show ?thesis using remove_ok [OF assms(1)] by simp
next
  case (close now i)
  then show ?thesis using close_ok [OF assms(1)] by simp
next
  case (failed now i m)
  show ?thesis unfolding failed mark_session_failed_def
    by (rule change_session_ok [OF assms(1) mark_moves(1) ended_ok(3)])
next
  case (ended now i m)
  show ?thesis unfolding ended mark_session_closed_def
    by (rule change_session_ok [OF assms(1) mark_moves(2) ended_ok(4)])
next
  case (drop_startup now i)
  show ?thesis unfolding drop_startup drop_startup_def
    by (rule change_session_ok [OF assms(1) drop_startup_moves])
next
  case (retire i s r)
  then show ?thesis using retire_ok [OF assms(1)] by blast
next
  case (publish_frame i now frame)
  then show ?thesis using replaces_ok [OF assms(1) publish_frame_replaces] by simp
next
  case (publish_capture_frame i now frame)
  then show ?thesis using replaces_ok [OF assms(1) publish_capture_frame_replaces] by simp
next
  case (open_fd cloned request)
  then show ?thesis using replaces_ok [OF assms(1) open_fd_replaces] by blast
next
  case (runtime i s r r')
  show ?thesis unfolding runtime(1)
  proof (rule change_session_ok [OF assms(1), where J = "cpu_of P"])
    fix u assume "map_of (sessions R) i = Some u"
    with runtime(2,3) have u: "cs_cpu u = Some r" by simp
    show "session_moves (cpu_of P) u (u\<lparr>cs_cpu := Some r'\<rparr>)" by (rule cpu_step_session(1) [OF u runtime(4)])
    show "session_ok (u\<lparr>cs_cpu := Some r'\<rparr>)" if "session_ok u" by (rule cpu_step_session(2) [OF u runtime(4) that])
  qed
next
  case (hold i h p)
  then show ?thesis by (intro table_ok_only [OF assms(1)]) (simp_all add: change_hold_def AList.dom_map_entry)
next
  case (holds hs starting)
  show ?thesis
  proof (rule table_ok_more [OF assms(1)])
    show "cs_cpu s \<noteq> None" if "map_of (sessions R) j = Some s" "j \<in> set (frame_sources R')" for j s
      using that(2) table_okD(1) [OF assms(1) that(1)] by (simp add: holds(1) entry_ok_def)
    show "cs_cpu s = None" if "map_of (sessions R) j = Some s" "j \<in> fst ` set (native_holds R')" for j s
      using holds(2) [OF _ that(1)] that(2) by (simp add: holds(1))
    show "j \<in> set (entered R)" if "j \<in> fst ` set (native_holds R')" for j
      using holds(3) [of j] that by (simp add: holds(1))
  qed (simp_all add: holds(1))
next
  case (delete_native i)
  then show ?thesis by (intro delete_ok [OF assms(1), of i]) (simp_all add: AList.delete_conv')
next
  case (native_ready i s h w c)
  show ?thesis unfolding native_ready(1)
  proof (rule change_session_ok [OF assms(1), where J = "cpu_of P"])
    fix u assume "map_of (sessions R) i = Some u"
    with native_ready(2-4) have u: "cs_cpu u = None" "cs_lifecycle u = LifeStarting" by simp_all
    show "session_moves (cpu_of P) u (u\<lparr>cs_lifecycle := LifeReady, cs_output_control := c, cs_width := w,
        cs_height := h, cs_pixel_format := Bgra8Unorm\<rparr>)"
      by (rule native_ready_moves [OF u]) (simp_all add: u active_def)
    show "session_ok (u\<lparr>cs_lifecycle := LifeReady, cs_output_control := c, cs_width := w,
        cs_height := h, cs_pixel_format := Bgra8Unorm\<rparr>)"
      by (rule native_ready_moves [OF u]) (simp_all add: u active_def)
  qed
qed

section \<open>The history of a session\<close>

text \<open>
  A step takes a session one step further or removes it; it removes a CPU session only once its
  runtime is drained; and identifiers are never used again.
\<close>

definition stays_or_leaves ::
    "('s, 'p, 'q) platform \<Rightarrow> string \<Rightarrow> ('p, 'q, 'o) CaptureRegistry \<Rightarrow> ('p, 'q, 'o) CaptureRegistry \<Rightarrow> bool" where
  "stays_or_leaves P i R R' \<longleftrightarrow> set (entered R) \<subseteq> set (entered R') \<and>
     (case map_of (sessions R) i of
        None \<Rightarrow> i \<in> set (entered R) \<longrightarrow> map_of (sessions R') i = None
      | Some s \<Rightarrow>
          (case map_of (sessions R') i of
             None \<Rightarrow> \<forall>r. cs_cpu s = Some r \<longrightarrow> rt_drained r
           | Some t \<Rightarrow> session_moves (cpu_of P) s t))"

lemma stays_or_leavesI:
  assumes "\<And>j. map_of (sessions R') j = (if j = k then x else map_of (sessions R) j)"
    and "set (entered R) \<subseteq> set (entered R')"
    and "\<And>s. map_of (sessions R) k = Some s \<Longrightarrow>
      (case x of None \<Rightarrow> \<forall>r. cs_cpu s = Some r \<longrightarrow> rt_drained r | Some t \<Rightarrow> session_moves (cpu_of P) s t)"
    and "map_of (sessions R) k = None \<Longrightarrow> k \<in> set (entered R) \<Longrightarrow> x = None"
  shows "stays_or_leaves P i R R'"
  using assms by (auto simp: stays_or_leaves_def split: option.splits)

lemma stays_same: "map_of (sessions R') = map_of (sessions R) \<Longrightarrow> set (entered R) \<subseteq> set (entered R') \<Longrightarrow> stays_or_leaves P i R R'"
  by (auto simp: stays_or_leaves_def split: option.splits)

lemma stays_change:
  assumes "\<And>s. map_of (sessions R) k = Some s \<Longrightarrow> session_moves (cpu_of P) s (f s)"
  shows "stays_or_leaves P i R (change_session k f R)"
  using assms by (auto intro!: stays_or_leavesI [where k = k])

lemma stays_replaces:
  assumes "replaces (cpu_of P) k R R'"
  shows "stays_or_leaves P i R R'"
proof (cases "R' = R")
  case False
  with assms obtain s t where "map_of (sessions R) k = Some s" "session_moves (cpu_of P) s t"
    and "map_of (sessions R') = (map_of (sessions R))(k \<mapsto> t)" "entered R' = entered R"
    unfolding replaces_def by fastforce
  then show ?thesis by (intro stays_or_leavesI [where k = k and x = "Some t"]) auto
qed (simp add: stays_same)

lemma remove_stays: "stays_or_leaves P i R (remove_session P now k R)"
proof (cases "map_of (native_holds R) k")
  case (Some h)
  then show ?thesis
    by (simp add: remove_session_def)
      (rule stays_or_leavesI [where k = k and x = "map_option draining_native (map_of (sessions R) k)"],
        auto intro: draining_native_moves)
next
  case None
  show ?thesis
  proof (cases "\<exists>s r. map_of (sessions R) k = Some s \<and> cs_cpu s = Some r")
    case True
    then show ?thesis using None by (auto simp: remove_session_def intro!: stays_change draining_cpu_moves)
  next
    case False
    then show ?thesis using None
      by (auto simp: remove_session_def AList.delete_conv' intro!: stays_or_leavesI [where k = k and x = None]
          split: option.splits)
  qed
qed

lemma capture_step_stays:
  assumes "table_ok R" and "capture_step P R R'"
  shows "stays_or_leaves P i R R'"
  using assms(2)
proof cases
  case (enter k s r)
  have "map_of (sessions R) k = None"
    using enter(2) table_okD(1) [OF assms(1)] by (cases "map_of (sessions R) k") (auto simp: entry_ok_def)
  with enter show ?thesis by (intro stays_or_leavesI [where k = k and x = "Some s"]) auto
next
  case (enter_native k s)
  have "map_of (sessions R) k = None"
    using enter_native(2) table_okD(1) [OF assms(1)] by (cases "map_of (sessions R) k") (auto simp: entry_ok_def)
  with enter_native show ?thesis by (intro stays_or_leavesI [where k = k and x = "Some s"]) auto
next
  case (close now k)
  have "entered (snd (close_session P now k R)) = entered (remove_session P now k R)"
    by (subst close_as_remove(2)) simp
  with remove_stays [of P i R now k] show ?thesis
    unfolding stays_or_leaves_def close by (simp only: close_as_remove(1))
next
  case (retire k s r)
  let ?q = "retired_cpu_sessions R @ [k]"
  let ?gone = "take (length ?q - RETIRED_CPU_SESSION_LIMIT) ?q"
  have R': "map_of (sessions R') j = (if j \<in> set ?gone then None else map_of (sessions R) j)"
      "entered R' = entered R" for j
    using retire(1,2) by (simp_all add: retire_session_def trim_retired_eq map_of_fold_delete)
  have gone: "rt_drained q" if "i \<in> set ?gone" "map_of (sessions R) i = Some u" "cs_cpu u = Some q" for u q
  proof -
    have "drained_in R i"
      using in_set_takeD [OF that(1)] table_okD(2) [OF assms(1)] retire(2-4) by (auto simp: drained_in_def)
    with that(2,3) show ?thesis by (simp add: drained_in_def)
  qed
  show ?thesis unfolding stays_or_leaves_def R'
    by (auto split: option.splits intro: gone simp del: take_append)
next
  case (delete_native k)
  then show ?thesis
    by (intro stays_or_leavesI [where k = k and x = None]) (auto simp: AList.delete_conv')
next
  case (publish_frame k now frame)
  then show ?thesis using stays_replaces [OF publish_frame_replaces] by simp
next
  case (publish_capture_frame k now frame)
  then show ?thesis using stays_replaces [OF publish_capture_frame_replaces] by simp
next
  case (open_fd cloned request)
  then show ?thesis using stays_replaces [OF open_fd_replaces] by blast
next
  case (remove now k)
  then show ?thesis by (simp add: remove_stays)
next
  case (failed now k m)
  show ?thesis unfolding failed mark_session_failed_def by (rule stays_change [OF mark_moves(1)])
next
  case (ended now k m)
  show ?thesis unfolding ended mark_session_closed_def by (rule stays_change [OF mark_moves(2)])
next
  case (drop_startup now k)
  show ?thesis unfolding drop_startup drop_startup_def by (rule stays_change [OF drop_startup_moves(1)])
next
  case (runtime k s r r')
  show ?thesis unfolding runtime(1)
  proof (rule stays_change)
    fix u assume "map_of (sessions R) k = Some u"
    with runtime(2,3) have u: "cs_cpu u = Some r" by simp
    show "session_moves (cpu_of P) u (u\<lparr>cs_cpu := Some r'\<rparr>)" by (rule cpu_step_session(1) [OF u runtime(4)])
  qed
next
  case (native_ready k s h w c)
  show ?thesis unfolding native_ready(1)
  proof (rule stays_change)
    fix u assume "map_of (sessions R) k = Some u"
    with native_ready(2-4) have u: "cs_cpu u = None" "cs_lifecycle u = LifeStarting" by simp_all
    show "session_moves (cpu_of P) u (u\<lparr>cs_lifecycle := LifeReady, cs_output_control := c, cs_width := w,
        cs_height := h, cs_pixel_format := Bgra8Unorm\<rparr>)"
      by (rule native_ready_moves [OF u]) (simp_all add: u active_def)
  qed
next
  case (attach k c)
  show ?thesis unfolding attach by (rule stays_change, rule plain_change_moves) simp_all
next
  case (handed k)
  show ?thesis unfolding handed by (rule stays_change, rule plain_change_moves) simp_all
qed (simp_all add: stays_same)

lemma table_ok_run: "(capture_step P)\<^sup>*\<^sup>* R R' \<Longrightarrow> table_ok R \<Longrightarrow> table_ok R'"
  by (induction rule: rtranclp_induct) (auto intro: capture_step_ok)

lemma table_ok_new: "table_ok (CaptureRegistry_new path)"
  by (simp add: table_ok_def CaptureRegistry_new_def RETIRED_CPU_SESSION_LIMIT_def)

definition left_drained :: "'p cpu_arena \<Rightarrow> ('p, 'o) CaptureSession \<Rightarrow> bool" where
  "left_drained J s \<longleftrightarrow> (\<exists>u. session_moves J s u \<and> (\<forall>q. cs_cpu u = Some q \<longrightarrow> rt_drained q))"

lemma session_history:
  assumes "(capture_step P)\<^sup>*\<^sup>* R R'" and "table_ok R" and "map_of (sessions R) i = Some s"
  shows "(map_of (sessions R') i = None \<and> i \<in> set (entered R') \<and> left_drained (cpu_of P) s) \<or>
    (\<exists>t. map_of (sessions R') i = Some t \<and> session_moves (cpu_of P) s t)"
  using assms(1)
proof (induction rule: rtranclp_induct)
  case base
  then show ?case using assms(3) by auto
next
  case (step S T)
  have T: "stays_or_leaves P i S T" by (rule capture_step_stays [OF table_ok_run [OF step.hyps(1) assms(2)] step.hyps(2)])
  from step.IH show ?case
  proof
    assume "map_of (sessions S) i = None \<and> i \<in> set (entered S) \<and> left_drained (cpu_of P) s"
    with T show ?thesis by (auto simp: stays_or_leaves_def)
  next
    assume "\<exists>t. map_of (sessions S) i = Some t \<and> session_moves (cpu_of P) s t"
    then obtain t where t: "map_of (sessions S) i = Some t" "session_moves (cpu_of P) s t" by blast
    have "i \<in> set (entered S)"
      using table_okD(1) [OF table_ok_run [OF step.hyps(1) assms(2)] t(1)] by (simp add: entry_ok_def)
    with T have entered: "i \<in> set (entered T)" by (auto simp: stays_or_leaves_def)
    show ?thesis
    proof (cases "map_of (sessions T) i")
      case None
      with T t(1) have "\<forall>q. cs_cpu t = Some q \<longrightarrow> rt_drained q" by (simp add: stays_or_leaves_def)
      with t(2) None entered show ?thesis unfolding left_drained_def by blast
    next
      case (Some u)
      with T t(1) have "session_moves (cpu_of P) t u" by (simp add: stays_or_leaves_def)
      with Some session_moves_trans [OF t(2)] show ?thesis by blast
    qed
  qed
qed

lemma session_stays_gone:
  assumes "(capture_step P)\<^sup>*\<^sup>* R R'" and "table_ok R" and "map_of (sessions R) i = None" and "i \<in> set (entered R)"
  shows "map_of (sessions R') i = None"
proof -
  have "map_of (sessions R') i = None \<and> i \<in> set (entered R')" using assms(1)
  proof (induction rule: rtranclp_induct)
    case base
    then show ?case using assms(3,4) by simp
  next
    case (step S T)
    from capture_step_stays [OF table_ok_run [OF step.hyps(1) assms(2)] step.hyps(2), of i] step.IH
    show ?case by (auto simp: stays_or_leaves_def)
  qed
  then show ?thesis ..
qed

section \<open>What the table promises\<close>

lemma inactive_publish:
  assumes "\<And>s. map_of (sessions R) i = Some s \<Longrightarrow> \<not> active (cs_lifecycle s)"
  shows "\<exists>e. fst (publish_frame P now i frame R) = Inl e" and "\<exists>e. fst (publish_capture_frame P now i frame R) = Inl e"
  using assms by (auto simp: publish_frame_def publish_capture_frame_def Let_def split: option.splits)

lemma inactive_open:
  assumes "\<And>s. map_of (sessions R) (open_session_id request) = Some s \<Longrightarrow> \<not> active (cs_lifecycle s)"
  shows "\<exists>e. fst (open_fd_session cloned request R) = Inl e"
proof (cases "map_of (sessions R) (open_session_id request)")
  case (Some s)
  from assms [OF this] have "cs_lifecycle s \<noteq> LifeReady" "cs_lifecycle s \<noteq> LifeStarting" by (auto simp: active_def)
  with Some show ?thesis
    by (cases "cs_lifecycle s") (simp_all add: open_fd_session_def find_session_def Let_def)
qed (simp add: open_fd_session_def find_session_def Let_def)

text \<open>
  C22: A capture session that has been closed or has failed stays ended, in every interleaving of its
  monitor, its publisher, viewers and other requests.  While it is listed it is closed or failed,
  belongs to the same agent, and has published what it had published when it ended; it disappears
  from the list only after its runtime was drained, with no arena, connection or claim left.  Every
  further frame for it is refused and no viewer can attach to it.
\<close>

theorem ended_capture_session_stays_ended:
  assumes "(capture_step P)\<^sup>*\<^sup>* (CaptureRegistry_new path) R" and "map_of (sessions R) i = Some s"
    and "cs_cpu s = Some r" and "\<not> active (cs_lifecycle s)" and "(capture_step P)\<^sup>*\<^sup>* R R'"
  shows "(case map_of (sessions R') i of
        None \<Rightarrow> \<exists>q. (cpu_step (cpu_of P))\<^sup>*\<^sup>* r q \<and> rt_drained q \<and> producer q = None \<and> connections q = [] \<and> claims q = 0
      | Some t \<Rightarrow> \<not> active (cs_lifecycle t) \<and> cs_owner t = cs_owner s \<and>
          (\<exists>q. cs_cpu t = Some q \<and> published q = published r \<and> dropped q = dropped r)) \<and>
    (\<exists>e. fst (publish_frame P now i frame R') = Inl e) \<and>
    (\<exists>e. fst (publish_capture_frame P now i frame R') = Inl e) \<and>
    (\<exists>e. fst (open_fd_session cloned (request\<lparr>open_session_id := i\<rparr>) R') = Inl e)"
proof -
  have ok: "table_ok R" by (rule table_ok_run [OF assms(1) table_ok_new])
  have s: "session_ok s" using table_okD(1) [OF ok assms(2)] by (simp add: entry_ok_def)
  then have r: "cpu_terminal r" "cpu_ok r" using assms(3,4) by (auto simp: session_ok_def)
  note history = session_history [OF assms(5) ok assms(2)]
  have run: "\<exists>q. cs_cpu t = Some q \<and> (cpu_step (cpu_of P))\<^sup>*\<^sup>* r q" if "session_moves (cpu_of P) s t" for t
    using that assms(3) by (cases "cs_cpu t") (auto simp: session_moves_def)
  have ended: "\<not> active (cs_lifecycle t)" if "map_of (sessions R') i = Some t" for t
    using history that assms(4) by (auto simp: session_moves_def)
  have refused: "(\<exists>e. fst (publish_frame P now i frame R') = Inl e) \<and>
      (\<exists>e. fst (publish_capture_frame P now i frame R') = Inl e) \<and>
      (\<exists>e. fst (open_fd_session cloned (request\<lparr>open_session_id := i\<rparr>) R') = Inl e)"
    using inactive_publish [of R' i P now frame, OF ended] inactive_open [of R' "request\<lparr>open_session_id := i\<rparr>" cloned] ended
    by simp
  show ?thesis
  proof (cases "map_of (sessions R') i")
    case None
    with history obtain u where u: "session_moves (cpu_of P) s u" "\<forall>q. cs_cpu u = Some q \<longrightarrow> rt_drained q"
      unfolding left_drained_def by auto
    with run obtain q where q: "(cpu_step (cpu_of P))\<^sup>*\<^sup>* r q" "rt_drained q" by blast
    have "cpu_ok q" by (rule cpu.sane_run [OF q(1) r(2)])
    with q have "\<exists>q. (cpu_step (cpu_of P))\<^sup>*\<^sup>* r q \<and> rt_drained q \<and> producer q = None \<and> connections q = [] \<and> claims q = 0"
      by (auto simp: cpu_ok_def)
    with None refused show ?thesis by simp
  next
    case (Some t)
    with history have moves: "session_moves (cpu_of P) s t" by auto
    from run [OF this] obtain q where q: "cs_cpu t = Some q" "(cpu_step (cpu_of P))\<^sup>*\<^sup>* r q" by blast
    from cpu.terminal_run [OF q(2) r(1)] q(1)
    have "\<exists>q. cs_cpu t = Some q \<and> published q = published r \<and> dropped q = dropped r" by (simp add: cpu_emitted_def)
    moreover have "cs_owner t = cs_owner s" using moves by (simp add: session_moves_def)
    ultimately show ?thesis using Some refused ended [OF Some] by simp
  qed
qed

text \<open>
  C23: The table of capture sessions is consistent in every run.  Every runtime in it satisfies its own
  invariant, a session that has ended has stopped its runtime, at most 64 retired sessions are kept,
  each listed once and with everything drained, native sessions have no CPU runtime, and neither a
  publisher nor a monitor task ever meets the panic of a session without one.
\<close>

theorem capture_table_consistent:
  assumes "(capture_step P)\<^sup>*\<^sup>* (CaptureRegistry_new path) R"
  shows "(\<forall>i s r. map_of (sessions R) i = Some s \<and> cs_cpu s = Some r \<longrightarrow>
      cpu_ok r \<and> (active (cs_lifecycle s) \<or> closing r \<noteq> None \<or> rt_error r \<noteq> None) \<and>
      map_of (native_holds R) i = None) \<and>
    length (retired_cpu_sessions R) \<le> 64 \<and> distinct (retired_cpu_sessions R) \<and>
    (\<forall>i \<in> set (retired_cpu_sessions R). drained_in R i) \<and>
    (\<forall>i \<in> set (frame_sources R). fst (publish_frame P now i frame R) \<noteq> Inl (CapturePanic m) \<and>
       fst (publish_capture_frame P now i frame R) \<noteq> Inl (CapturePanic m))"
proof -
  have ok: "table_ok R" by (rule table_ok_run [OF assms table_ok_new])
  note entry = table_okD(1) [OF ok, unfolded entry_ok_def session_ok_def]
  have "map_of (native_holds R) i = None" if "map_of (sessions R) i = Some s" "cs_cpu s = Some r" for i s r
    using entry [OF that(1)] that(2) by (auto simp: map_of_eq_None_iff)
  moreover have "cpu_ok r \<and> (active (cs_lifecycle s) \<or> closing r \<noteq> None \<or> rt_error r \<noteq> None)"
    if "map_of (sessions R) i = Some s" "cs_cpu s = Some r" for i s r
    using entry [OF that(1)] that(2) by (auto simp: cpu_terminal_def)
  moreover have "fst (publish_frame P now i frame R) \<noteq> Inl (CapturePanic m) \<and>
      fst (publish_capture_frame P now i frame R) \<noteq> Inl (CapturePanic m)" if "i \<in> set (frame_sources R)" for i
    using publish_no_panic [of R i] entry that by blast
  moreover have "length (retired_cpu_sessions R) \<le> 64"
    using table_okD(4) [OF ok] by (simp add: RETIRED_CPU_SESSION_LIMIT_def)
  moreover note table_okD(2,3) [OF ok]
  ultimately show ?thesis by blast
qed

section \<open>An example\<close>

text \<open>A session with one published frame, which is then closed.\<close>

definition example_platform :: "(nat, nat, nat) platform" where
  "example_platform =
     \<lparr>codes_of = \<lparr>pixel_u32 = (\<lambda>_. 1), color_u32 = (\<lambda>_. 0), damage_u32 = (\<lambda>_. 1), cpu_copy_complete = 1, cpu_shm = 1\<rparr>,
      cpu_of = example_arena, native_of = example_native_arena\<rparr>"

definition example_session :: "(nat, unit) CaptureSession" where
  "example_session =
     \<lparr>cs_source_id = 1, cs_track_id = 2, cs_owner = Some ''agent_c0'', cs_surface = Some ''win'', cs_lifecycle = LifeReady,
      cs_width = 2, cs_height = 1, cs_stride = 8, cs_pixel_format = Bgra8Unorm, cs_cpu = Some example_live,
      cs_task = True, cs_startup_cancel = False, cs_output_control = None\<rparr>"

definition example_open :: "(nat, nat, unit) CaptureRegistry" where
  "example_open = enter_session ''s1'' example_session ((CaptureRegistry_new (Some ''/fd''))\<lparr>frame_sources := [''s1'']\<rparr>)"

definition example_closed :: "(nat, nat, unit) CaptureRegistry" where
  "example_closed = snd (close_session example_platform 20 ''s1'' example_open)"

lemma example_table_runs:
  "(capture_step example_platform)\<^sup>*\<^sup>* (CaptureRegistry_new (Some ''/fd'')) example_open"
  "(capture_step example_platform)\<^sup>*\<^sup>* (CaptureRegistry_new (Some ''/fd'')) example_closed"
proof -
  let ?R = "(CaptureRegistry_new (Some ''/fd''))\<lparr>frame_sources := [''s1'']\<rparr> :: (nat, nat, unit) CaptureRegistry"
  have source: "capture_step example_platform (CaptureRegistry_new (Some ''/fd'')) ?R"
    using capture_step.source [of "CaptureRegistry_new (Some ''/fd'')" "''s1''"] by (simp add: CaptureRegistry_new_def)
  have live: "cpu_ok example_live" by (rule cpu.sane_run [OF example_runs(1) default_ok])
  have "\<not> rt_drained example_live" using live example_publish(2) by (auto simp: cpu_ok_def)
  with live have "capture_step example_platform ?R example_open" unfolding example_open_def
    by (intro capture_step.enter) (simp_all add: CaptureRegistry_new_def example_session_def active_def)
  with source show opened: "(capture_step example_platform)\<^sup>*\<^sup>* (CaptureRegistry_new (Some ''/fd'')) example_open"
    by (meson rtranclp.rtrancl_into_rtrancl rtranclp.rtrancl_refl)
  show "(capture_step example_platform)\<^sup>*\<^sup>* (CaptureRegistry_new (Some ''/fd'')) example_closed"
    unfolding example_closed_def by (rule rtranclp.rtrancl_into_rtrancl [OF opened capture_step.close])
qed

lemma example_table_simps:
  "map_of (sessions example_open) ''s1'' = Some example_session"
  "map_of (sessions example_closed) ''s1'' = Some (draining_cpu example_arena 20 example_session)"
  "frame_sources example_open = [''s1'']" "entered example_open = [''s1'']" "native_holds example_open = []"
  by (simp_all add: example_open_def example_closed_def close_session_def CaptureRegistry_new_def example_session_def
      example_platform_def)

definition example_view :: VideoCaptureFrameView where
  "example_view =
     \<lparr>view_metadata = \<lparr>vm_sequence = 2, vm_timestamp_ns = 7, vm_timestamp_clock = HostTime, vm_width = 2, vm_height = 1,
        vm_stride = 8, vm_pixel_format = CaptureBgra8Unorm, vm_color_space = CaptureSrgb,
        vm_damage_kind = CaptureFullFrame, vm_damage_base_sequence = 2, vm_dropped_before_publish = 0,
        vm_producer_drop_count = 0\<rparr>,
      view_bytes = example_bytes\<rparr>"

theorem capture_table_consistent_witness:
  "fst (publish_frame example_platform 30 ''s1'' example_view example_open) \<noteq> Inl (CapturePanic ''CPU session'') \<and>
   length (retired_cpu_sessions example_open) \<le> 64"
  using capture_table_consistent [OF example_table_runs(1), of 30 example_view "''CPU session''"] example_table_simps(3) by simp

theorem ended_capture_session_stays_ended_witness:
  "\<exists>e. fst (publish_frame example_platform 30 ''s1'' example_view example_closed) = Inl e"
  using ended_capture_session_stays_ended [OF example_table_runs(2) example_table_simps(2) _ _ rtranclp.rtrancl_refl,
      of "Runtime_stop example_arena 20 example_live" 30 example_view]
  by (simp add: draining_cpu_def set_lifecycle_def stop_capture_def example_session_def active_def)

end
