(* ===== verification/Capture_Access.thy ===== *)
theory Capture_Access
  imports Capture_Runs
begin

text \<open>
  Who may use a capture session, and within which limits: the first line of a viewer's connection, the
  checks before a viewer is let in, and the resizing of a session's output
  (\<open>handle_fd_connection\<close>, \<open>authorize_fd_connection\<close>, \<open>set_output_size\<close> and \<open>check_output_budget\<close> of
  \<open>portholed/src/capture_registry.rs\<close>).
\<close>

section \<open>The first line\<close>

lemma read_preface_Inr:
  "read_preface eof acc input = Inr (line, rest) \<Longrightarrow> length acc \<le> 16384 \<Longrightarrow>
   \<exists>pre. line = acc @ pre \<and> input = pre @ 10 # rest \<and> 10 \<notin> set pre \<and> length line < 16384"
proof (induction input arbitrary: acc)
  case (Cons b input)
  then have "length acc \<noteq> 16384" by (auto simp: Let_def)
  with Cons.prems(2) have len: "length acc < 16384" by simp
  show ?case
  proof (cases "b = 10")
    case True
    with Cons.prems len show ?thesis by simp
  next
    case False
    with Cons.prems(1) len have rec: "read_preface eof (acc @ [b]) input = Inr (line, rest)" by simp
    from Cons.IH [OF this] len obtain pre where "line = (acc @ [b]) @ pre" "input = pre @ 10 # rest"
        "10 \<notin> set pre" "length line < 16384" by auto
    with False show ?thesis by (intro exI [of _ "b # pre"]) auto
  qed
qed (auto split: if_splits)

lemma read_preface_line:
  "10 \<notin> set pre \<Longrightarrow> length acc + length pre < 16384 \<Longrightarrow>
   read_preface eof acc (pre @ 10 # rest) = Inr (acc @ pre, rest)"
  by (induction pre arbitrary: acc) auto

text \<open>
  The daemon reads at most 16 KiB of an unauthenticated viewer's first line, and nothing beyond it:
  a line is delivered exactly if fewer than 16384 bytes precede the first newline, and then it is those
  bytes, and everything after the newline is left for the binary setup that follows.
\<close>

theorem preface_is_first_line:
  "read_preface eof [] input = Inr (line, rest) \<longleftrightarrow>
     input = line @ 10 # rest \<and> 10 \<notin> set line \<and> length line < 16384"
proof
  assume "read_preface eof [] input = Inr (line, rest)"
  from read_preface_Inr [OF this] show "input = line @ 10 # rest \<and> 10 \<notin> set line \<and> length line < 16384" by auto
next
  assume "input = line @ 10 # rest \<and> 10 \<notin> set line \<and> length line < 16384"
  then show "read_preface eof [] input = Inr (line, rest)" using read_preface_line [of line "[]" eof rest] by simp
qed

section \<open>Viewers\<close>

lemma access_cases:
  assumes "require_fd_session_access i agent R = Inr ()"
  shows "\<exists>s. map_of (sessions R) i = Some s \<and> (cs_owner s = None \<or> cs_owner s = agent)"
proof -
  obtain s where s: "map_of (sessions R) i = Some s"
    using assms by (auto simp: require_fd_session_access_def find_session_def result_simps)
  with assms show ?thesis
    by (cases "cs_owner s"; cases agent)
      (auto simp: require_fd_session_access_def find_session_def split: if_splits)
qed

lemma fd_checks_access:
  assumes "fd_checks L E store request R1 R2 = Inr ()"
  shows "\<exists>s. map_of (sessions R2) (open_session_id request) = Some s \<and>
    (cs_owner s = None \<or>
     (\<exists>S token agent. cs_owner s = Some agent \<and> store = Some S \<and> open_bearer_token request = Some token \<and>
        authenticate_agent_token_blocking L E S token = Inr (Some agent)))"
proof (cases "open_bearer_token request")
  case None
  with assms access_cases [of "open_session_id request" None R2] show ?thesis by (auto simp: fd_checks_def)
next
  case (Some token)
  with assms obtain S agent where "store = Some S" "authenticate_agent_token_blocking L E S token = Inr (Some agent)"
    and access: "require_fd_session_access (open_session_id request) (Some agent) R2 = Inr ()"
    by (auto simp: fd_checks_def authorize_fd_connection_def result_simps)
  with access_cases [OF access] Some show ?thesis by auto
qed

text \<open>
  C29: A viewer is let in only to a capture session that is open to it.  Whatever other tasks do between
  the checks: if the daemon opens the connection, the session is ready at that moment, is a CPU capture
  with the requested track, and either has no owner or belongs to the agent whose bearer token the
  viewer sent, as authenticated by the policy store.
\<close>

theorem viewer_is_authorized:
  assumes "(capture_step P)\<^sup>*\<^sup>* (CaptureRegistry_new path) R" and "\<And>n R. (capture_step P)\<^sup>*\<^sup>* R (others n R)"
    and "handle_fd_connection L E store parse others eof cloned input R = (CpuOpened c offer, R')"
  shows "\<exists>line rest request t. read_preface eof [] input = Inr (line, rest) \<and> parse line = Inr request \<and>
    map_of (sessions (others 2 (others 1 (others 0 R)))) (open_session_id request) = Some t \<and>
    cs_lifecycle t = LifeReady \<and> cs_cpu t \<noteq> None \<and> cs_track_id t = open_track_id request \<and>
    (cs_owner t = None \<or>
     (\<exists>S token agent. cs_owner t = Some agent \<and> store = Some S \<and> open_bearer_token request = Some token \<and>
        authenticate_agent_token_blocking L E S token = Inr (Some agent)))"
proof -
  let ?R2 = "others 1 (others 0 R)"
  obtain line rest request where line: "read_preface eof [] input = Inr (line, rest)" "parse line = Inr request"
    and checks: "fd_checks L E store request (others 0 R) ?R2 = Inr ()"
    and opened: "open_fd_session cloned request (others 2 ?R2) = (Inr (c, offer), R')"
    using assms(3)
    by (auto simp: handle_fd_connection_def Let_def result_simps split: sum.splits prod.splits)
  obtain t where t: "map_of (sessions (others 2 ?R2)) (open_session_id request) = Some t" "cs_lifecycle t = LifeReady"
      "cs_cpu t \<noteq> None" "cs_track_id t = open_track_id request"
    using opened
    by (auto simp: open_fd_session_def find_session_def Let_def result_simps
        split: sum.splits CaptureSessionLifecycle.splits if_splits option.splits)
  obtain s where s: "map_of (sessions ?R2) (open_session_id request) = Some s"
    "cs_owner s = None \<or>
     (\<exists>S token agent. cs_owner s = Some agent \<and> store = Some S \<and> open_bearer_token request = Some token \<and>
        authenticate_agent_token_blocking L E S token = Inr (Some agent))"
    using fd_checks_access [OF checks] by blast
  have "(capture_step P)\<^sup>*\<^sup>* (CaptureRegistry_new path) ?R2"
    using assms(1) assms(2) by (meson rtranclp_trans)
  then have "table_ok ?R2" by (rule table_ok_run [OF _ table_ok_new])
  from session_history [OF assms(2) this s(1), of 2] t(1) have "cs_owner t = cs_owner s"
    by (auto simp: session_moves_def)
  with line t s(2) show ?thesis by (intro exI [of _ line] exI [of _ rest] exI [of _ request] exI [of _ t]) simp
qed

section \<open>Output sizes\<close>

lemma unat_u32_u64 [simp]: "unat (ucast (w :: u32) :: u64) = unat w"
proof -
  have "unat w < 2 ^ 64" using unsigned_less [of w] by (rule less_le_trans) simp
  then show ?thesis by (simp only: unsigned_ucast_eq take_bit_nat_eq_self) (simp add: take_bit_nat_eq_self)
qed

lemma round_up_256: "y div 256 + (if y mod 256 = 0 then 0 else 1) = (y + 255) div (256 :: nat)"
proof -
  have "y + 255 = (y mod 256 + 255) + y div 256 * 256" using div_mult_mod_eq [of y 256] by linarith
  then have "(y + 255) div 256 = y div 256 + (y mod 256 + 255) div 256"
    by (metis div_mult_self1 zero_neq_numeral)
  moreover have "(y mod 256 + 255) div 256 = (if y mod 256 = 0 then 0 else 1)"
    using mod_less_divisor [of 256 y] by (auto intro: div_nat_eqI)
  ultimately show ?thesis by simp
qed

lemma aligned_row:
  fixes w :: u32
  shows "unat ((ucast w * 4 div 256 + (if ucast w * 4 mod 256 = (0 :: u64) then 0 else 1)) * 256 :: u64) =
    256 * ((4 * unat w + 255) div 256)"
proof -
  have w: "unat w < 2 ^ 32" using unsigned_less [of w] by simp
  define row :: u64 where "row = ucast w * 4"
  have row: "unat row = 4 * unat w" using w by (simp add: row_def unat_word_ariths)
  have zero: "row mod 256 = 0 \<longleftrightarrow> 4 * unat w mod 256 = 0"
    by (simp only: word_unat_eq_iff unat_mod row) simp
  note up = round_up_256 [of "4 * unat w"]
  have bound: "(4 * unat w + 255) div 256 < 2 ^ 40" using w by simp
  define rows :: u64 where "rows = row div 256 + (if row mod 256 = 0 then 0 else 1)"
  have rows: "unat rows = (4 * unat w + 255) div 256"
  proof (cases "row mod 256 = 0")
    case True
    with zero up show ?thesis by (simp add: rows_def unat_div row)
  next
    case False
    with zero up bound have "unat (row div 256) + 1 = (4 * unat w + 255) div 256" by (simp add: unat_div row)
    with False bound show ?thesis by (simp add: rows_def unat_word_ariths)
  qed
  have "unat (rows * 256) = 256 * ((4 * unat w + 255) div 256)"
    using bound by (simp add: unat_word_ariths(2) rows)
  then show ?thesis unfolding rows_def row_def .
qed

text \<open>
  The check of a requested output size, written with 64-bit arithmetic and checked multiplication,
  decides exactly the intended budget over the natural numbers: both sides positive, and eight frames
  whose rows are rounded up to 256 bytes, plus 1 MiB, within 512 MiB.
\<close>

theorem output_budget_exact:
  "check_output_budget width height = Inr () \<longleftrightarrow>
     0 < unat width \<and> 0 < unat height \<and>
     8 * (256 * ((4 * unat width + 255) div 256) * unat height) + 2 ^ 20 \<le> 512 * 2 ^ (20 :: nat)"
proof -
  define aligned :: u64 where
    "aligned = (ucast width * 4 div 256 + (if ucast width * 4 mod 256 = (0 :: u64) then 0 else 1)) * 256"
  have aligned: "unat aligned = 256 * ((4 * unat width + 255) div 256)"
    unfolding aligned_def by (rule aligned_row)
  have limit: "(CAPTURE_MEMORY_BUDGET - 1024 * 1024) div ucast CAPTURE_RESOURCE_CAPACITY = (66977792 :: u64)"
    by (simp add: CAPTURE_MEMORY_BUDGET_def CAPTURE_RESOURCE_CAPACITY_def)
  have fits: "(66977792 :: u64) < aligned * ucast height \<longleftrightarrow> 66977792 < unat aligned * unat height"
    if "unat aligned * unat height < 2 ^ 64"
    using that by (simp add: word_less_nat_alt unat_word_ariths)
  have pos: "width = 0 \<longleftrightarrow> unat width = 0" "height = 0 \<longleftrightarrow> unat height = 0" by (simp_all add: unat_eq_0)
  have "check_output_budget width height = Inr () \<longleftrightarrow>
      0 < unat width \<and> 0 < unat height \<and> unat aligned * unat height \<le> 66977792"
  proof (cases "unat aligned * unat height < 2 ^ 64")
    case True
    then show ?thesis using fits [OF True] pos
      unfolding check_output_budget_def Let_def aligned_def [symmetric] limit by auto
  next
    case False
    then show ?thesis unfolding check_output_budget_def Let_def aligned_def [symmetric] limit by auto
  qed
  then show ?thesis by (simp add: aligned)
qed

text \<open>
  Only its owner resizes the output of a session.  The backend is called only for a session that
  is ready, has an output control, and either has no owner or belongs to the calling agent, and only
  for a size within the budget; in every other case the answer is an error that does not depend on
  the backend.
\<close>

theorem output_resized_only_by_owner:
  "(\<exists>s control. map_of (sessions R) i = Some s \<and> (cs_owner s = None \<or> cs_owner s = Some agent) \<and>
      cs_lifecycle s = LifeReady \<and> cs_output_control s = Some control \<and> check_output_budget width height = Inr () \<and>
      (\<forall>call. set_output_size call i agent width height R = map_err CapturePorthole (call control width height))) \<or>
   (\<exists>e. \<forall>call. set_output_size call i agent width height R = Inl e)"
proof (cases "output_control_for i agent R")
  case (Inl e)
  then show ?thesis by (simp add: set_output_size_def)
next
  case (Inr control)
  then have "\<exists>s. map_of (sessions R) i = Some s \<and> (cs_owner s = None \<or> cs_owner s = Some agent) \<and>
      cs_lifecycle s = LifeReady \<and> cs_output_control s = Some control"
    by (auto simp: output_control_for_def find_session_def result_simps split: if_splits option.splits)
  with Inr show ?thesis by (cases "check_output_budget width height") (auto simp: set_output_size_def)
qed

section \<open>An ended session may change how it ended\<close>

text \<open>
  The end of a session is final, but not its reason: a monitor task that is aborted while it handles a
  frame finds the session closed and marks it as failed.
\<close>

lemma closed_session_turns_failed:
  "\<exists>s t. map_of (sessions example_closed) ''s1'' = Some s \<and> cs_lifecycle s = LifeClosed (Msg ''CPU capture is draining'' []) \<and>
     map_of (sessions (snd (monitor_round example_platform 30 ''s1'' (Inr (Some example_view)) example_closed))) ''s1'' = Some t \<and>
     cs_lifecycle t = LifeFailed (CaptureRegistryError_display (CaptureClosed ''s1'' (Msg ''capture is terminal'' [])))"
  using example_table_simps(2)
  by (simp add: monitor_round_def publish_capture_frame_def Let_def draining_cpu_def set_lifecycle_def active_def
      mark_session_failed_def frame_size_def)

section \<open>An example\<close>

text \<open>A viewer of the open session, with the owner's token and without one.\<close>

definition example_request :: "string option \<Rightarrow> u8 list \<Rightarrow> (string, CpuOpenRequest) result" where
  "example_request token line = Inr \<lparr>open_session_id = ''s1'', open_track_id = 2, open_bearer_token = token\<rparr>"

definition example_viewer :: "string option \<Rightarrow> FdReply \<times> (nat, nat, unit) CaptureRegistry" where
  "example_viewer token =
     handle_fd_connection example_libs (quiet_env ''x'') (Some example_created) (example_request token) (\<lambda>n R. R)
       ''eof'' (Inr ()) [123, 125, 10, 1] example_open"

lemmas viewer_eval = handle_fd_connection_def example_request_def fd_checks_def authorize_fd_connection_def
  require_fd_session_access_def find_session_def open_fd_session_def
  open_connection_def video_offer_def

lemma example_viewer_opened:
  "fst (example_viewer (Some ''pta_agent_c0.c000'')) = CpuOpened 1 \<lparr>offer_source = ''s1'', offer_track = 2\<rparr>"
proof -
  have live: "closing example_live = None" "rt_error example_live = None" "next_connection example_live = 0"
    unfolding example_live_def by (simp_all add: cpu_eval)
  have token: "authenticate_agent_token_blocking example_libs (quiet_env ''x'') example_created ''pta_agent_c0.c000'' =
      Inr (Some ''agent_c0'')"
    by (simp add: authenticate_agent_token_blocking_def authenticate_agent_token_in_conn_def example_created_def
        create_identity_atomic store_eval minted_eval parse_token_agent_id_def live_token_hashes_def hash_token_def)
  show ?thesis
    unfolding example_viewer_def
    using live example_publish(2-4)
    by (simp add: viewer_eval token example_table_simps(1) example_session_def MAX_CONNECTIONS_def Let_def)
qed

theorem viewer_is_authorized_witness:
  "\<exists>t. map_of (sessions example_open) ''s1'' = Some t \<and> cs_lifecycle t = LifeReady \<and>
     (cs_owner t = None \<or>
      (\<exists>S token agent. cs_owner t = Some agent \<and> Some example_created = Some S \<and> Some ''pta_agent_c0.c000'' = Some token \<and>
         authenticate_agent_token_blocking example_libs (quiet_env ''x'') S token = Inr (Some agent)))"
proof -
  let ?others = "\<lambda>(n :: nat) R :: (nat, nat, unit) CaptureRegistry. R"
  have run: "(capture_step example_platform)\<^sup>*\<^sup>* R (?others n R)" for n R by simp
  have "handle_fd_connection example_libs (quiet_env ''x'') (Some example_created)
      (example_request (Some ''pta_agent_c0.c000'')) ?others ''eof'' (Inr ()) [123, 125, 10, 1] example_open =
      (CpuOpened 1 \<lparr>offer_source = ''s1'', offer_track = 2\<rparr>, snd (example_viewer (Some ''pta_agent_c0.c000'')))"
    using example_viewer_opened by (simp add: example_viewer_def prod_eq_iff)
  from viewer_is_authorized [OF example_table_runs(1) run this]
  show ?thesis by (auto simp: example_request_def)
qed

theorem preface_is_first_line_witness:
  "read_preface ''eof'' [] [123, 125, 10, 1] = Inr ([123, 125], [1])"
  using preface_is_first_line [of "''eof''" "[123, 125, 10, 1]" "[123, 125]" "[1]"] by simp

end
