(* ===== verification/Capture_Startup.thy ===== *)
theory Capture_Startup
  imports Capture_Runs
begin

text \<open>
  Creating CPU capture sessions (\<open>create_surface_session\<close> with its two ways to capture,
  \<open>create_synthetic_session\<close> and the guard \<open>CpuStartup\<close> of \<open>portholed/src/capture_registry.rs\<close>).

  A creation is asynchronous: before its \<open>n\<close>-th use of the table \<open>others n\<close> does what other tasks did,
  and at each of its two suspensions the request may be dropped.  What the platform answers is in
  \<open>startup_answers\<close>; of the first frame only its arrival matters, it is otherwise only logged.
\<close>

section \<open>With a publisher\<close>

datatype wake = WakeFrame | WakePublisherEnded | WakeTimeout | WakeCancelled | WakeDropped

record ('p, 'q, 'o) startup_answers =
  sa_uuid :: string
  sa_source :: "(message, u64) result"
  sa_track :: "(message, u64) result"
  sa_worker :: "(string, unit) result"
  sa_start :: "(PortholeError, 'o option) result option" \<comment> \<open>\<open>None\<close>: dropped while starting\<close>
  sa_wake :: "('p, 'q, 'o) CaptureRegistry \<Rightarrow> wake"

datatype 'a outcome = Returned "(CaptureRegistryError, 'a) result" | DroppedRequest

record CreateCaptureSessionResponse =
  cr_session_id :: string
  cr_source_id :: u64
  cr_track_id :: u64
  cr_status :: string
  cr_status_message :: "message option"
  cr_fd_socket_path :: string
  cr_native :: "NativeCaptureInfo option"

definition ready_response :: "string \<Rightarrow> u64 \<Rightarrow> u64 \<Rightarrow> string \<Rightarrow> NativeCaptureInfo option \<Rightarrow> CreateCaptureSessionResponse" where
  "ready_response i src track path native =
     \<lparr>cr_session_id = i, cr_source_id = src, cr_track_id = track, cr_status = status_name LifeReady,
      cr_status_message = lifecycle_message LifeReady, cr_fd_socket_path = path, cr_native = native\<rparr>"

definition starting_session :: "u64 \<Rightarrow> u64 \<Rightarrow> AgentId \<Rightarrow> SurfaceId \<Rightarrow> ('p, 'o) CaptureSession" where
  "starting_session src track owner surface =
     \<lparr>cs_source_id = src, cs_track_id = track, cs_owner = Some owner, cs_surface = Some surface,
      cs_lifecycle = LifeStarting, cs_width = 0, cs_height = 0, cs_stride = 0, cs_pixel_format = Bgra8Unorm,
      cs_cpu = Some (Runtime_default CAPTURE_MEMORY_BUDGET), cs_task = False, cs_startup_cancel = True,
      cs_output_control = None\<rparr>"

definition closed_during_startup :: "string \<Rightarrow> CaptureRegistryError" where
  "closed_during_startup i = CaptureClosed i (Msg ''capture session closed during startup'' [])"

text \<open>The session is installed once the adapter has started: the monitor task and the output control.\<close>

definition attach_capture :: "string \<Rightarrow> 'o option \<Rightarrow> ('p, 'q, 'o) CaptureRegistry \<Rightarrow> ('p, 'q, 'o) CaptureRegistry" where
  "attach_capture i control = change_session i (\<lambda>s. s\<lparr>cs_task := True, cs_output_control := control\<rparr>)"

text \<open>The last look at the session, which ends its startup.\<close>

definition hand_over_session ::
    "string \<Rightarrow> ('p, 'q, 'o) CaptureRegistry \<Rightarrow> (CaptureRegistryError, unit) result \<times> ('p, 'q, 'o) CaptureRegistry" where
  "hand_over_session i R =
     (case map_of (sessions R) i of
        None \<Rightarrow> (Inl (closed_during_startup i), R)
      | Some s \<Rightarrow>
          (case cs_lifecycle s of
             LifeFailed m \<Rightarrow> (Inl (CaptureFailed i m), R)
           | LifeClosed m \<Rightarrow> (Inl (CaptureClosed i m), R)
           | _ \<Rightarrow> (Inr (), change_session i (\<lambda>s. s\<lparr>cs_startup_cancel := False\<rparr>) R)))"

text \<open>Waiting for the first frame, and what follows.\<close>

definition await_first_frame ::
    "('s, 'p, 'q) platform \<Rightarrow> nat \<Rightarrow> (nat \<Rightarrow> ('p, 'q, 'o) CaptureRegistry \<Rightarrow> ('p, 'q, 'o) CaptureRegistry) \<Rightarrow>
     ('p, 'q, 'o) startup_answers \<Rightarrow> ('p, 'q, 'o) CaptureRegistry \<Rightarrow> unit outcome \<times> ('p, 'q, 'o) CaptureRegistry" where
  "await_first_frame P now others A R =
     (let i = sa_uuid A; R = others 2 R in
      case sa_wake A R of
        WakeFrame \<Rightarrow> (case hand_over_session i (others 3 R) of (r, R) \<Rightarrow> (Returned r, R))
      | WakePublisherEnded \<Rightarrow>
          (Returned (Inl (CaptureError (Msg ''capture publisher ended before first frame'' []))),
           remove_session P now i (others 3 R))
      | WakeTimeout \<Rightarrow>
          (Returned (Inl (CaptureError (Msg ''timed out waiting for first capture frame'' []))),
           remove_session P now i (others 3 R))
      | WakeCancelled \<Rightarrow> (let R = others 3 R in (Returned (Inl (startup_terminal_error i R)), R))
      | WakeDropped \<Rightarrow> (DroppedRequest, R))"

text \<open>From the adapter's start on, while \<open>CpuStartup\<close> is armed.\<close>

definition startup_body ::
    "('s, 'p, 'q) platform \<Rightarrow> nat \<Rightarrow> (nat \<Rightarrow> ('p, 'q, 'o) CaptureRegistry \<Rightarrow> ('p, 'q, 'o) CaptureRegistry) \<Rightarrow>
     ('p, 'q, 'o) startup_answers \<Rightarrow> ('p, 'q, 'o) CaptureRegistry \<Rightarrow> unit outcome \<times> ('p, 'q, 'o) CaptureRegistry" where
  "startup_body P now others A R =
     (let i = sa_uuid A; R = others 1 R in
      case sa_start A of
        None \<Rightarrow> (DroppedRequest, R)
      | Some (Inl e) \<Rightarrow> (Returned (Inl (CapturePorthole e)), remove_session P now i R)
      | Some (Inr control) \<Rightarrow>
          (case map_of (sessions R) i of
             None \<Rightarrow> (Returned (Inl (closed_during_startup i)), R)
           | Some s \<Rightarrow>
               if \<not> active (cs_lifecycle s) then (Returned (Inl (closed_during_startup i)), R)
               else await_first_frame P now others A (attach_capture i control R)))"

definition create_surface_session_with_publisher ::
    "('s, 'p, 'q) platform \<Rightarrow> nat \<Rightarrow> (nat \<Rightarrow> ('p, 'q, 'o) CaptureRegistry \<Rightarrow> ('p, 'q, 'o) CaptureRegistry) \<Rightarrow>
     ('p, 'q, 'o) startup_answers \<Rightarrow> SurfaceId \<Rightarrow> AgentId \<Rightarrow> ('p, 'q, 'o) CaptureRegistry \<Rightarrow>
     CreateCaptureSessionResponse outcome \<times> ('p, 'q, 'o) CaptureRegistry" where
  "create_surface_session_with_publisher P now others A surface owner R =
     (case fd_socket_path R of Inl e \<Rightarrow> (Returned (Inl e), R) | Inr path \<Rightarrow>
      case sa_source A of Inl e \<Rightarrow> (Returned (Inl (CaptureError e)), R) | Inr src \<Rightarrow>
      case sa_track A of Inl e \<Rightarrow> (Returned (Inl (CaptureError e)), R) | Inr track \<Rightarrow>
      case sa_worker A of Inl e \<Rightarrow> (Returned (Inl (failure e)), R) | Inr _ \<Rightarrow>
      let i = sa_uuid A;
          R = enter_session i (starting_session src track owner surface) (others 0 R);
          R = R\<lparr>frame_sources := i # frame_sources R\<rparr>
      in (case startup_body P now others A R of
            (Returned (Inr _), R) \<Rightarrow> (Returned (Inr (ready_response i src track path None)), R)
          | (Returned (Inl e), R) \<Rightarrow> (Returned (Inl e), drop_startup P now i (others 4 R))
          | (DroppedRequest, R) \<Rightarrow> (DroppedRequest, drop_startup P now i (others 4 R))))"

section \<open>With frames the daemon owns\<close>

record 'o frame_answers =
  fa_uuid :: string
  fa_source :: "(message, u64) result"
  fa_track :: "(message, u64) result"
  fa_worker :: "(string, unit) result"
  fa_start :: "(PortholeError, 'o option) result option" \<comment> \<open>\<open>None\<close>: dropped while starting\<close>
  fa_frame :: "(PortholeError, VideoCaptureFrameView option) result option option"
    \<comment> \<open>\<open>None\<close>: dropped while waiting, \<open>Some None\<close>: timed out\<close>

definition owned_session ::
    "u64 \<Rightarrow> u64 \<Rightarrow> AgentId \<Rightarrow> SurfaceId \<Rightarrow> VideoCaptureFrameMetadata \<Rightarrow> 'p Runtime \<Rightarrow> 'o option \<Rightarrow> ('p, 'o) CaptureSession" where
  "owned_session src track owner surface m cpu control =
     \<lparr>cs_source_id = src, cs_track_id = track, cs_owner = Some owner, cs_surface = Some surface,
      cs_lifecycle = LifeReady, cs_width = vm_width m, cs_height = vm_height m, cs_stride = vm_stride m,
      cs_pixel_format = capture_pixel_format (vm_pixel_format m), cs_cpu = Some cpu, cs_task = True,
      cs_startup_cancel = False, cs_output_control = control\<rparr>"

text \<open>The first frame, published to a new runtime; the monitor task starts before the session is entered.\<close>

definition enter_owned ::
    "('s, 'p, 'q) platform \<Rightarrow> nat \<Rightarrow> (nat \<Rightarrow> ('p, 'q, 'o) CaptureRegistry \<Rightarrow> ('p, 'q, 'o) CaptureRegistry) \<Rightarrow>
     'o frame_answers \<Rightarrow> SurfaceId \<Rightarrow> AgentId \<Rightarrow> string \<Rightarrow> 'o option \<Rightarrow> VideoCaptureFrameView \<Rightarrow>
     ('p, 'q, 'o) CaptureRegistry \<Rightarrow> (CaptureRegistryError, CreateCaptureSessionResponse) result \<times> ('p, 'q, 'o) CaptureRegistry" where
  "enter_owned P now others A surface owner path control frame R =
     (let i = fa_uuid A in
      case fa_source A of Inl e \<Rightarrow> (Inl (CaptureError e), R) | Inr src \<Rightarrow>
      case fa_track A of Inl e \<Rightarrow> (Inl (CaptureError e), R) | Inr track \<Rightarrow>
      case fa_worker A of Inl e \<Rightarrow> (Inl (failure e), R) | Inr _ \<Rightarrow>
      case publish_capture_frame_view P now frame (Runtime_default CAPTURE_MEMORY_BUDGET) of
        (Inl e, _) \<Rightarrow> (Inl e, R)
      | (Inr _, cpu) \<Rightarrow>
          let R = R\<lparr>frame_sources := i # frame_sources R\<rparr>;
              R = others 1 R
          in (Inr (ready_response i src track path None),
              enter_session i (owned_session src track owner surface (view_metadata frame) cpu control) R))"

definition create_surface_session_with_owned_frames ::
    "('s, 'p, 'q) platform \<Rightarrow> nat \<Rightarrow> (nat \<Rightarrow> ('p, 'q, 'o) CaptureRegistry \<Rightarrow> ('p, 'q, 'o) CaptureRegistry) \<Rightarrow>
     'o frame_answers \<Rightarrow> SurfaceId \<Rightarrow> AgentId \<Rightarrow> ('p, 'q, 'o) CaptureRegistry \<Rightarrow>
     CreateCaptureSessionResponse outcome \<times> ('p, 'q, 'o) CaptureRegistry" where
  "create_surface_session_with_owned_frames P now others A surface owner R =
     (case fd_socket_path R of Inl e \<Rightarrow> (Returned (Inl e), R) | Inr path \<Rightarrow>
      case fa_start A of None \<Rightarrow> (DroppedRequest, R) | Some started \<Rightarrow>
      case started of Inl e \<Rightarrow> (Returned (Inl (CapturePorthole e)), R) | Inr control \<Rightarrow>
      case fa_frame A of None \<Rightarrow> (DroppedRequest, R) | Some awaited \<Rightarrow>
      case awaited of
        None \<Rightarrow> (Returned (Inl (CaptureError (Msg ''timed out waiting for first capture frame'' []))), R)
      | Some (Inl e) \<Rightarrow> (Returned (Inl (CapturePorthole e)), R)
      | Some (Inr None) \<Rightarrow> (Returned (Inl (CaptureError (Msg ''capture stream ended before first frame'' []))), R)
      | Some (Inr (Some frame)) \<Rightarrow>
          (case enter_owned P now others A surface owner path control frame (others 0 R) of
             (r, R) \<Rightarrow> (Returned r, R)))"

text \<open>The publisher first, the frames only if the adapter does not support it.\<close>

definition create_surface_session ::
    "('s, 'p, 'q) platform \<Rightarrow> nat \<Rightarrow> (nat \<Rightarrow> ('p, 'q, 'o) CaptureRegistry \<Rightarrow> ('p, 'q, 'o) CaptureRegistry) \<Rightarrow>
     (nat \<Rightarrow> ('p, 'q, 'o) CaptureRegistry \<Rightarrow> ('p, 'q, 'o) CaptureRegistry) \<Rightarrow> ('p, 'q, 'o) startup_answers \<Rightarrow>
     'o frame_answers \<Rightarrow> SurfaceId \<Rightarrow> AgentId \<Rightarrow> ('p, 'q, 'o) CaptureRegistry \<Rightarrow>
     CreateCaptureSessionResponse outcome \<times> ('p, 'q, 'o) CaptureRegistry" where
  "create_surface_session P now others others' A B surface owner R =
     (case create_surface_session_with_publisher P now others A surface owner R of
        (Returned (Inl (CapturePorthole e)), R) \<Rightarrow>
          if err_code e = AdapterUnsupported
          then create_surface_session_with_owned_frames P now others' B surface owner R
          else (Returned (Inl (CapturePorthole e)), R)
      | (r, R) \<Rightarrow> (r, R))"

section \<open>Synthetic sessions\<close>

text \<open>\<open>d\<close> is the default descriptor of the crate.\<close>

definition synthetic_descriptor :: "model_codes \<Rightarrow> FrameDescriptor \<Rightarrow> FrameDescriptor" where
  "synthetic_descriptor K d =
     d\<lparr>fd_sequence := 1, fd_width := 2, fd_height := 1, fd_stride := 8,
       fd_pixel_format := pixel_u32 K Bgra8Unorm, fd_sync_kind := cpu_copy_complete K,
       fd_damage_kind := damage_u32 K FullFrame, fd_damage_base_sequence := 1, fd_payload_kind := cpu_shm K\<rparr>"

definition create_synthetic_session ::
    "('s, 'p, 'q) platform \<Rightarrow> nat \<Rightarrow> FrameDescriptor \<Rightarrow> 'o frame_answers \<Rightarrow> ('p, 'q, 'o) CaptureRegistry \<Rightarrow>
     (CaptureRegistryError, CreateCaptureSessionResponse) result \<times> ('p, 'q, 'o) CaptureRegistry" where
  "create_synthetic_session P now d A R =
     (case fd_socket_path R of Inl e \<Rightarrow> (Inl e, R) | Inr path \<Rightarrow>
      case fa_source A of Inl e \<Rightarrow> (Inl (CaptureError e), R) | Inr src \<Rightarrow>
      case fa_track A of Inl e \<Rightarrow> (Inl (CaptureError e), R) | Inr track \<Rightarrow>
      case fa_worker A of Inl e \<Rightarrow> (Inl (failure e), R) | Inr _ \<Rightarrow>
      case CpuSession_publish (cpu_of P) now (synthetic_descriptor (codes_of P) d) [0, 64, 128, 255, 255, 64, 128, 255]
          (Runtime_default CAPTURE_MEMORY_BUDGET) of
        (Inl e, _) \<Rightarrow> (Inl e, R)
      | (Inr _, cpu) \<Rightarrow>
          (Inr (ready_response (fa_uuid A) src track path None),
           enter_session (fa_uuid A)
             \<lparr>cs_source_id = src, cs_track_id = track, cs_owner = None, cs_surface = None, cs_lifecycle = LifeReady,
              cs_width = 2, cs_height = 1, cs_stride = 8, cs_pixel_format = Bgra8Unorm, cs_cpu = Some cpu,
              cs_task = False, cs_startup_cancel = False, cs_output_control = None\<rparr> R))"

section \<open>What a creation leaves behind\<close>

lemma drop_startup_inactive:
  assumes "map_of (sessions (drop_startup P now i R)) i = Some s"
  shows "\<not> active (cs_lifecycle s)"
proof -
  obtain z where "s = (let s = stop_capture (cpu_of P) now z in
      if active (cs_lifecycle s) then set_lifecycle (LifeClosed (Msg ''capture startup cancelled'' [])) s else s)"
    using assms by (auto simp: drop_startup_def)
  then show ?thesis
    by (cases "active (cs_lifecycle (stop_capture (cpu_of P) now z))")
      (simp_all add: Let_def set_lifecycle_def, simp add: active_def)
qed

lemma runtime_default_live [simp]: "\<not> rt_drained (Runtime_default budget)"
  by (simp add: Runtime_default_def)

text \<open>The table when the adapter is started: the session is entered, and its publisher exists.\<close>

definition entered_starting ::
    "('p, 'q, 'o) startup_answers \<Rightarrow> u64 \<Rightarrow> u64 \<Rightarrow> AgentId \<Rightarrow> SurfaceId \<Rightarrow> ('p, 'q, 'o) CaptureRegistry \<Rightarrow>
     ('p, 'q, 'o) CaptureRegistry" where
  "entered_starting A src track owner surface R =
     (let R = enter_session (sa_uuid A) (starting_session src track owner surface) R
      in R\<lparr>frame_sources := sa_uuid A # frame_sources R\<rparr>)"

lemma entered_starting_run:
  assumes "sa_uuid A \<notin> set (entered R)" and "sa_uuid A \<notin> set (first_frames R)"
  shows "(capture_step P)\<^sup>*\<^sup>* R (entered_starting A src track owner surface R)"
proof -
  let ?R1 = "enter_session (sa_uuid A) (starting_session src track owner surface) R"
  have "capture_step P R ?R1"
    using assms by (intro capture_step.enter [where r = "Runtime_default CAPTURE_MEMORY_BUDGET"]) (simp_all add: starting_session_def active_def default_ok)
  moreover have "capture_step P ?R1 (?R1\<lparr>frame_sources := sa_uuid A # frame_sources ?R1\<rparr>)"
    by (rule capture_step.source) (simp add: starting_session_def)
  ultimately show ?thesis unfolding entered_starting_def Let_def
    by (meson rtranclp.rtrancl_into_rtrancl rtranclp.rtrancl_refl)
qed

lemma create_with_publisher_cases:
  assumes "create_surface_session_with_publisher P now others A surface owner R = (r, R')"
  obtains (early) e where "r = Returned (Inl e)" "R' = R"
  | (started) src track path where "fd_socket_path R = Inr path"
      "startup_body P now others A (entered_starting A src track owner surface (others 0 R)) = (Returned (Inr ()), R')"
      "r = Returned (Inr (ready_response (sa_uuid A) src track path None))"
  | (given_up) R2 where "\<forall>resp. r \<noteq> Returned (Inr resp)" "R' = drop_startup P now (sa_uuid A) R2"
proof -
  show ?thesis
  proof (cases "\<exists>path src track u. fd_socket_path R = Inr path \<and> sa_source A = Inr src \<and> sa_track A = Inr track \<and> sa_worker A = Inr u")
    case False
    then have "\<exists>e. r = Returned (Inl e) \<and> R' = R"
      using assms by (auto simp: create_surface_session_with_publisher_def split: sum.splits)
    then show ?thesis using early by blast
  next
    case True
    then obtain path src track u where answers: "fd_socket_path R = Inr path" "sa_source A = Inr src"
      "sa_track A = Inr track" "sa_worker A = Inr u" by blast
    obtain x R2 where body: "startup_body P now others A (entered_starting A src track owner surface (others 0 R)) = (x, R2)"
      by fastforce
    have r: "(r, R') = (case (x, R2) of
          (Returned (Inr _), R) \<Rightarrow> (Returned (Inr (ready_response (sa_uuid A) src track path None)), R)
        | (Returned (Inl e), R) \<Rightarrow> (Returned (Inl e), drop_startup P now (sa_uuid A) (others 4 R))
        | (DroppedRequest, R) \<Rightarrow> (DroppedRequest, drop_startup P now (sa_uuid A) (others 4 R)))"
      unfolding assms [symmetric] body [symmetric] by (simp add: create_surface_session_with_publisher_def answers entered_starting_def Let_def)
    show ?thesis
    proof (cases "x = Returned (Inr ())")
      case True
      with r body started answers(1) show ?thesis by simp
    next
      case False
      with r given_up show ?thesis by (cases x) (auto split: sum.splits)
    qed
  qed
qed

lemma startup_body_success:
  assumes "startup_body P now others A R = (Returned (Inr ()), R')"
  obtains control s where "map_of (sessions (others 1 R)) (sa_uuid A) = Some s" "active (cs_lifecycle s)"
    "sa_wake A (others 2 (attach_capture (sa_uuid A) control (others 1 R))) = WakeFrame"
    "hand_over_session (sa_uuid A) (others 3 (others 2 (attach_capture (sa_uuid A) control (others 1 R)))) = (Inr (), R')"
  using assms
  by (auto simp: startup_body_def await_first_frame_def Let_def
      split: option.splits sum.splits if_splits wake.splits prod.splits)

text \<open>
  C25: A creation that does not hand over its session ends it.  If creating a capture session with a
  publisher fails, times out, is cancelled, or is dropped while it waits, whatever other tasks did
  meanwhile, then the session it entered is not left starting or ready: it is gone, closed or failed.
\<close>

theorem abandoned_startup_ends_session:
  assumes "create_surface_session_with_publisher P now others A surface owner R = (r, R')"
    and "\<And>resp. r \<noteq> Returned (Inr resp)" and "map_of (sessions R) (sa_uuid A) = None"
    and "map_of (sessions R') (sa_uuid A) = Some s"
  shows "\<not> active (cs_lifecycle s)"
  using assms(1)
proof (cases rule: create_with_publisher_cases)
  case early
  with assms(3,4) show ?thesis by simp
next
  case (started src track path)
  with assms(2) [of "ready_response (sa_uuid A) src track path None"] show ?thesis by simp
next
  case given_up
  show ?thesis by (rule drop_startup_inactive) (use assms(4) given_up(2) in simp)
qed

text \<open>
  C24: A creation that succeeds tells the truth.  Whatever other tasks do meanwhile by the table's own
  operations, when it answers that the session is ready, the session is listed, ready, captures the
  requested surface, belongs to the requesting agent, has a runtime, and can no longer be cancelled by
  its startup.
\<close>

theorem created_session_is_ready_and_owned:
  assumes "create_surface_session_with_publisher P now others A surface owner R = (Returned (Inr resp), R')"
    and "(capture_step P)\<^sup>*\<^sup>* (CaptureRegistry_new socket) R" and "\<And>n R. (capture_step P)\<^sup>*\<^sup>* R (others n R)"
    and "sa_uuid A \<notin> set (entered (others 0 R))" and "sa_uuid A \<notin> set (first_frames (others 0 R))"
    and "\<And>S. sa_wake A S = WakeFrame \<Longrightarrow> sa_uuid A \<in> set (first_frames S)"
  shows "cr_session_id resp = sa_uuid A \<and> cr_status resp = ''ready'' \<and>
    (\<exists>s. map_of (sessions R') (sa_uuid A) = Some s \<and> cs_lifecycle s = LifeReady \<and> cs_owner s = Some owner \<and>
       cs_surface s = Some surface \<and> cs_cpu s \<noteq> None \<and> \<not> cs_startup_cancel s)"
  using assms(1)
proof (cases rule: create_with_publisher_cases)
  case (started src track path)
  let ?i = "sa_uuid A" and ?E = "entered_starting A src track owner surface (others 0 R)"
  obtain control s where s: "map_of (sessions (others 1 ?E)) ?i = Some s" "active (cs_lifecycle s)"
    and wake: "sa_wake A (others 2 (attach_capture ?i control (others 1 ?E))) = WakeFrame"
    and handed: "hand_over_session ?i (others 3 (others 2 (attach_capture ?i control (others 1 ?E)))) = (Inr (), R')"
    by (rule startup_body_success [OF started(2)])
  let ?R1 = "others 1 ?E" and ?A = "attach_capture ?i control (others 1 ?E)"
  let ?R2 = "others 2 ?A" and ?R3 = "others 3 (others 2 ?A)"
  have "(capture_step P)\<^sup>*\<^sup>* (others 0 R) ?E" by (rule entered_starting_run [OF assms(4,5)])
  with assms(2,3) have run: "(capture_step P)\<^sup>*\<^sup>* (CaptureRegistry_new socket) ?E" by (meson rtranclp_trans)
  have attach: "(capture_step P)\<^sup>*\<^sup>* ?R1 ?A" unfolding attach_capture_def by (rule r_into_rtranclp) (rule capture_step.attach)
  have to_R2: "(capture_step P)\<^sup>*\<^sup>* ?E ?R2" using attach assms(3) by (meson rtranclp_trans)
  have to_R3: "(capture_step P)\<^sup>*\<^sup>* ?E ?R3" using to_R2 assms(3) by (meson rtranclp_trans)
  have ok: "table_ok ?E" by (rule table_ok_run [OF run table_ok_new])
  let ?s0 = "starting_session src track owner surface"
  have s0: "map_of (sessions ?E) ?i = Some ?s0" by (simp add: entered_starting_def Let_def)
  obtain t where t: "map_of (sessions ?R3) ?i = Some t" and ready: "active (cs_lifecycle t)"
    and R': "R' = change_session ?i (\<lambda>s. s\<lparr>cs_startup_cancel := False\<rparr>) ?R3"
    using handed
    by (auto simp: hand_over_session_def active_def split: option.splits CaptureSessionLifecycle.splits)
  have moves: "session_moves (cpu_of P) ?s0 t"
    using session_history [OF to_R3 ok s0] t by auto
  have "cs_lifecycle t \<noteq> LifeStarting"
  proof -
    have ok2: "table_ok ?R2" by (rule table_ok_run [OF to_R2 ok])
    obtain u where u: "map_of (sessions ?R2) ?i = Some u"
    proof (cases "map_of (sessions ?R2) ?i")
      case None
      with session_history [OF to_R2 ok s0] have "?i \<in> set (entered ?R2)" by auto
      from session_stays_gone [OF assms(3) ok2 None this, of 3] t show ?thesis by simp
    qed (use that in blast)
    have "cs_lifecycle u \<noteq> LifeStarting"
      using table_okD(1) [OF ok2 u] assms(6) [OF wake] by (simp add: entry_ok_def)
    moreover have "session_moves (cpu_of P) u t" using session_history [OF assms(3) [where n = 3] ok2 u] t by auto
    ultimately show ?thesis by (auto simp: session_moves_def)
  qed
  with ready have "cs_lifecycle t = LifeReady" by (simp add: active_def)
  with t moves R' started show ?thesis by (simp add: session_moves_def starting_session_def ready_response_def)
qed simp_all

section \<open>Examples\<close>

text \<open>An adapter that starts and delivers a frame while the creation waits, and one that fails.\<close>

definition example_answers :: "(PortholeError, unit option) result option \<Rightarrow> (nat, nat, unit) startup_answers" where
  "example_answers start =
     \<lparr>sa_uuid = ''s2'', sa_source = Inr 5, sa_track = Inr 6, sa_worker = Inr (), sa_start = start,
      sa_wake = (\<lambda>R. if ''s2'' \<in> set (first_frames R) then WakeFrame else WakeTimeout)\<rparr>"

definition example_others :: "nat \<Rightarrow> (nat, nat, unit) CaptureRegistry \<Rightarrow> (nat, nat, unit) CaptureRegistry" where
  "example_others n R =
     (if n = 2 \<and> ''s2'' \<in> set (frame_sources R) then snd (publish_frame example_platform 30 ''s2'' example_view R) else R)"

lemma example_others_run: "(capture_step example_platform)\<^sup>*\<^sup>* R (example_others n R)"
  unfolding example_others_def by (auto intro: r_into_rtranclp capture_step.publish_frame)

lemma example_first_frame:
  "\<exists>r. publish_capture_frame_view example_platform 30 example_view (Runtime_default CAPTURE_MEMORY_BUDGET) = (Inr FramePublished, r)"
  by (simp add: publish_capture_frame_view_def frame_descriptor_from_capture_def example_platform_def
      example_view_def cpu_eval CAPTURE_MEMORY_BUDGET_def)

lemma example_creation:
  "fst (create_surface_session_with_publisher example_platform 30 example_others (example_answers (Some (Inr None)))
      ''win'' ''agent_c0'' (CaptureRegistry_new (Some ''/fd''))) =
    Returned (Inr (ready_response ''s2'' 5 6 ''/fd'' None))"
proof -
  obtain r where r: "publish_capture_frame_view example_platform 30 example_view (Runtime_default CAPTURE_MEMORY_BUDGET) = (Inr FramePublished, r)"
    using example_first_frame by blast
  show ?thesis
    by (simp add: create_surface_session_with_publisher_def example_answers_def CaptureRegistry_new_def fd_socket_path_def
        startup_body_def example_others_def await_first_frame_def attach_capture_def publish_frame_def
        starting_session_def frame_size_def r active_def hand_over_session_def Let_def)
qed

theorem created_session_is_ready_and_owned_witness:
  "\<exists>s. map_of (sessions (snd (create_surface_session_with_publisher example_platform 30 example_others
      (example_answers (Some (Inr None))) ''win'' ''agent_c0'' (CaptureRegistry_new (Some ''/fd''))))) ''s2'' = Some s \<and>
    cs_lifecycle s = LifeReady \<and> cs_owner s = Some ''agent_c0''"
proof -
  let ?A = "example_answers (Some (Inr None))" and ?R = "CaptureRegistry_new (Some ''/fd'') :: (nat, nat, unit) CaptureRegistry"
  let ?C = "create_surface_session_with_publisher example_platform 30 example_others ?A ''win'' ''agent_c0'' ?R"
  have run: "?C = (Returned (Inr (ready_response ''s2'' 5 6 ''/fd'' None)), snd ?C)"
    using example_creation by (metis prod.collapse)
  have "sa_uuid ?A \<in> set (first_frames S)" if "sa_wake ?A S = WakeFrame" for S :: "(nat, nat, unit) CaptureRegistry"
    using that by (auto simp: example_answers_def split: if_splits)
  note created = created_session_is_ready_and_owned [OF run rtranclp.rtrancl_refl example_others_run _ _ this]
  have "sa_uuid ?A = ''s2'' \<and> entered (example_others 0 ?R) = [] \<and> first_frames (example_others 0 ?R) = []"
    by (simp add: example_answers_def example_others_def CaptureRegistry_new_def)
  with created show ?thesis by simp blast
qed

theorem abandoned_startup_ends_session_witness:
  "\<exists>s. map_of (sessions (snd (create_surface_session_with_publisher example_platform 30 example_others
      (example_answers None) ''win'' ''agent_c0'' (CaptureRegistry_new (Some ''/fd''))))) ''s2'' = Some s \<and>
    \<not> active (cs_lifecycle s)"
proof -
  let ?A = "example_answers None" and ?R = "CaptureRegistry_new (Some ''/fd'') :: (nat, nat, unit) CaptureRegistry"
  let ?C = "create_surface_session_with_publisher example_platform 30 example_others ?A ''win'' ''agent_c0'' ?R"
  have "fst ?C = DroppedRequest" and s: "\<exists>s. map_of (sessions (snd ?C)) ''s2'' = Some s"
    by (simp_all add: create_surface_session_with_publisher_def example_answers_def CaptureRegistry_new_def fd_socket_path_def
        startup_body_def example_others_def drop_startup_def Let_def)
  then have run: "?C = (DroppedRequest, snd ?C)" by (metis prod.collapse)
  from s obtain s where "map_of (sessions (snd ?C)) ''s2'' = Some s" by blast
  with abandoned_startup_ends_session [OF run] show ?thesis by (auto simp: example_answers_def CaptureRegistry_new_def)
qed

section \<open>Frames before the session\<close>

text \<open>
  The monitor task of owned frames runs before its session is entered.  What it receives then finds no
  session: it stops, and the session, once entered, is ready and has no task that reads its frames.
\<close>

lemma early_monitor_stops:
  assumes "map_of (sessions R) i = None"
  shows "fst (monitor_round P now i next_frame R) = False \<and>
    map_of (sessions (snd (monitor_round P now i next_frame R))) = map_of (sessions R)"
  using assms
  by (auto simp: monitor_round_def publish_capture_frame_def mark_session_failed_def mark_session_closed_def
      fun_eq_iff split: sum.splits option.splits)

lemma owned_session_enters_ready:
  assumes "enter_owned P now others A surface owner path control frame R = (Inr resp, R')"
  shows "cr_session_id resp = fa_uuid A \<and>
    (\<exists>s. map_of (sessions R') (fa_uuid A) = Some s \<and> cs_lifecycle s = LifeReady \<and> cs_owner s = Some owner)"
  using assms
  by (auto simp: enter_owned_def Let_def ready_response_def owned_session_def split: sum.splits prod.splits)

end
