(* ===== verification/Native_Startup.thy ===== *)
theory Native_Startup
  imports Capture_Startup
begin

text \<open>
  Creating native capture sessions on macOS (\<open>create\<close> and \<open>StartReservation\<close> of
  \<open>portholed/src/capture_registry/native_session.rs\<close>).  The daemon owns a single service name, so at
  most one native session is set up or alive at a time; a creation reserves it in one locked step and
  keeps the reservation across its suspensions.

  First the locked sections of a creation as operations on the table, then one creation as a whole, as
  in \<open>Capture_Startup\<close>, and then any number of creations at once, whose locked sections interleave with
  each other and with all other uses of the table.
\<close>

section \<open>The locked sections\<close>

definition hold_drained :: "'q NativeSessionHold \<Rightarrow> bool" where
  "hold_drained h = nr_drained (pub_state (hold_publisher h))"

definition native_starting_error :: CaptureRegistryError where
  "native_starting_error = CaptureError (Msg ''a native capture session is starting'' [])"

definition native_busy_error :: "'q NativeSessionHold \<Rightarrow> CaptureRegistryError" where
  "native_busy_error h =
     (let snapshot = NativeRuntime_snapshot (pub_state (hold_publisher h))
      in CaptureError (Msg ''native session {}: {}''
           [FStr (ns_status snapshot), FMsg (case ns_message snapshot of Some m \<Rightarrow> m | None \<Rightarrow> Msg [] [])]))"

definition native_reserve ::
    "('p, 'q, 'o) CaptureRegistry \<Rightarrow> (CaptureRegistryError, unit) result \<times> ('p, 'q, 'o) CaptureRegistry" where
  "native_reserve R =
     (if native_session_starting R then (Inl native_starting_error, R)
      else
        let retired = map fst (filter (\<lambda>(i, h). hold_drained h) (native_holds R));
            R = R\<lparr>native_holds := filter (\<lambda>(i, h). i \<notin> set retired) (native_holds R),
                  sessions := fold AList.delete retired (sessions R)\<rparr>
        in (case native_holds R of
              [] \<Rightarrow> (Inr (), R\<lparr>native_session_starting := True\<rparr>)
            | (i, h) # _ \<Rightarrow> (Inl (native_busy_error h), R)))"

definition native_starting_session :: "u64 \<Rightarrow> u64 \<Rightarrow> AgentId \<Rightarrow> SurfaceId \<Rightarrow> ('p, 'o) CaptureSession" where
  "native_starting_session src track owner surface =
     \<lparr>cs_source_id = src, cs_track_id = track, cs_owner = Some owner, cs_surface = Some surface,
      cs_lifecycle = LifeStarting, cs_width = 0, cs_height = 0, cs_stride = 0, cs_pixel_format = Bgra8Unorm,
      cs_cpu = None, cs_task = False, cs_startup_cancel = False, cs_output_control = None\<rparr>"

definition NATIVE_ATTACH_TRANSPORT_MACOS_XPC :: u32 where
  "NATIVE_ATTACH_TRANSPORT_MACOS_XPC = 1"

definition native_attach_info :: "string \<Rightarrow> NativeCaptureInfo" where
  "native_attach_info uuid =
     \<lparr>native_transport_kind = NATIVE_ATTACH_TRANSPORT_MACOS_XPC, native_endpoint = MACOS_NATIVE_ATTACH_MACH_SERVICE,
      native_attach_token = ''ptas_'' @ uuid\<rparr>"

text \<open>\<open>NativeSessionHold::new\<close> starts the retirement worker, which may fail.\<close>

definition NativeSessionHold_new ::
    "(string, unit) result \<Rightarrow> NativeCaptureInfo \<Rightarrow> (CaptureRegistryError, 'q NativeSessionHold) result" where
  "NativeSessionHold_new worker info =
     (case worker of
        Inl e \<Rightarrow> Inl (CaptureError (Msg ''start native retirement worker: {error}'' [FStr e]))
      | Inr _ \<Rightarrow> Inr \<lparr>hold_info = info, hold_publisher = NativePublisher_new, hold_server = False, hold_stream = False\<rparr>)"

definition add_hold ::
    "string \<Rightarrow> (string, unit) result \<Rightarrow> NativeCaptureInfo \<Rightarrow> ('p, 'q, 'o) CaptureRegistry \<Rightarrow>
     (CaptureRegistryError, unit) result \<times> ('p, 'q, 'o) CaptureRegistry" where
  "add_hold i worker info R =
     (case NativeSessionHold_new worker info of
        Inl e \<Rightarrow> (Inl e, R)
      | Inr h \<Rightarrow> (Inr (), R\<lparr>native_holds := AList.update i h (native_holds R)\<rparr>))"

definition native_closed_error :: "string \<Rightarrow> CaptureRegistryError" where
  "native_closed_error i = CaptureClosed i (Msg ''native capture session closed during startup'' [])"

definition startup_hold_panic :: CaptureRegistryError where
  "startup_hold_panic = CapturePanic ''startup hold remains reserved''"

definition attach_stream ::
    "string \<Rightarrow> ('p, 'q, 'o) CaptureRegistry \<Rightarrow> (CaptureRegistryError, unit) result \<times> ('p, 'q, 'o) CaptureRegistry" where
  "attach_stream i R =
     (case map_of (native_holds R) i of
        None \<Rightarrow> (Inl startup_hold_panic, R)
      | Some h \<Rightarrow>
          if nr_closing (pub_state (hold_publisher h)) \<noteq> None then (Inl (native_closed_error i), R)
          else (Inr (), change_hold i (\<lambda>h. h\<lparr>hold_stream := True\<rparr>) R))"

text \<open>What the publisher has sent to the creation that waits for its first frame.\<close>

definition native_ready :: "string \<Rightarrow> ('p, 'q, 'o) CaptureRegistry \<Rightarrow> (message, u32 \<times> u32) result option" where
  "native_ready i R = Option.bind (map_of (native_holds R) i) (\<lambda>h. pub_ready (hold_publisher h))"

text \<open>
  The claim on the arena that came with the first frame passes to the attach server, and the
  reservation ends.
\<close>

definition native_commit ::
    "string \<Rightarrow> 'o option \<Rightarrow> u32 \<times> u32 \<Rightarrow> ('p, 'q, 'o) CaptureRegistry \<Rightarrow>
     (CaptureRegistryError, unit) result \<times> ('p, 'q, 'o) CaptureRegistry" where
  "native_commit i control frame R =
     (case map_of (sessions R) i of
        None \<Rightarrow> (Inl (native_closed_error i), R)
      | Some s \<Rightarrow>
          if cs_lifecycle s \<noteq> LifeStarting then (Inl (native_closed_error i), R)
          else
            let R = change_session i (\<lambda>s. s\<lparr>cs_lifecycle := LifeReady, cs_output_control := control, cs_width := fst frame,
                      cs_height := snd frame, cs_pixel_format := Bgra8Unorm\<rparr>) R
            in (case map_of (native_holds R) i of
                  None \<Rightarrow> (Inl startup_hold_panic, R)
                | Some h \<Rightarrow> (Inr (), (change_hold i (\<lambda>h. h\<lparr>hold_server := True\<rparr>) R)\<lparr>native_session_starting := False\<rparr>)))"

text \<open>\<open>Drop\<close> of \<open>StartReservation\<close>: its two locked sections.\<close>

definition release_session ::
    "('s, 'p, 'q) platform \<Rightarrow> nat \<Rightarrow> string option \<Rightarrow> ('p, 'q, 'o) CaptureRegistry \<Rightarrow> ('p, 'q, 'o) CaptureRegistry" where
  "release_session P now i R = (case i of None \<Rightarrow> R | Some i \<Rightarrow> remove_session P now i R)"

definition release_flag :: "('p, 'q, 'o) CaptureRegistry \<Rightarrow> ('p, 'q, 'o) CaptureRegistry" where
  "release_flag R = R\<lparr>native_session_starting := False\<rparr>"

section \<open>A creation\<close>

record 'o native_answers =
  na_uuid :: string
  na_source :: "(message, u64) result"
  na_track :: "(message, u64) result"
  na_token_uuid :: string
  na_worker :: "(string, unit) result"
  na_start :: "(PortholeError, 'o option) result option" \<comment> \<open>\<open>None\<close>: dropped while starting\<close>
  na_dropped :: bool \<comment> \<open>dropped while it waits for the first frame\<close>
  na_server :: "(string, unit) result"

text \<open>Waiting for the first frame, the attach server, and the commit.\<close>

definition native_await ::
    "('s, 'p, 'q) platform \<Rightarrow> nat \<Rightarrow> (nat \<Rightarrow> ('p, 'q, 'o) CaptureRegistry \<Rightarrow> ('p, 'q, 'o) CaptureRegistry) \<Rightarrow>
     'o native_answers \<Rightarrow> 'o option \<Rightarrow> ('p, 'q, 'o) CaptureRegistry \<Rightarrow> unit outcome \<times> ('p, 'q, 'o) CaptureRegistry" where
  "native_await P now others A control R =
     (let i = na_uuid A; R = others 4 R in
      if na_dropped A then (DroppedRequest, R)
      else case native_ready i R of
        None \<Rightarrow>
          (Returned (Inl (CaptureError (Msg ''native capture produced no first frame'' []))),
           remove_session P now i (others 5 R))
      | Some (Inl m) \<Rightarrow> (Returned (Inl (CaptureError m)), remove_session P now i (others 5 R))
      | Some (Inr frame) \<Rightarrow>
          (case na_server A of
             Inl e \<Rightarrow>
               (Returned (Inl (CapturePorthole (PortholeError_new InternalError (text_message e)))),
                remove_session P now i (others 5 R))
           | Inr _ \<Rightarrow> (case native_commit i control frame (others 5 R) of (r, R) \<Rightarrow> (Returned r, R))))"

text \<open>The part under \<open>StartReservation\<close>; the session's name is known to it once it is entered.\<close>

definition native_body ::
    "('s, 'p, 'q) platform \<Rightarrow> nat \<Rightarrow> (nat \<Rightarrow> ('p, 'q, 'o) CaptureRegistry \<Rightarrow> ('p, 'q, 'o) CaptureRegistry) \<Rightarrow>
     'o native_answers \<Rightarrow> ('p, 'q, 'o) CaptureRegistry \<Rightarrow> unit outcome \<times> ('p, 'q, 'o) CaptureRegistry" where
  "native_body P now others A R =
     (let i = na_uuid A in
      case add_hold i (na_worker A) (native_attach_info (na_token_uuid A)) (others 2 R) of
        (Inl e, R) \<Rightarrow> (Returned (Inl e), R)
      | (Inr _, R) \<Rightarrow>
      case na_start A of
        None \<Rightarrow> (DroppedRequest, R)
      | Some (Inl e) \<Rightarrow> (Returned (Inl (CapturePorthole e)), remove_session P now i (others 3 R))
      | Some (Inr control) \<Rightarrow>
      case attach_stream i (others 3 R) of
        (Inl e, R) \<Rightarrow> (Returned (Inl e), R)
      | (Inr _, R) \<Rightarrow>
      native_await P now others A control R)"

definition create_native_surface_session ::
    "('s, 'p, 'q) platform \<Rightarrow> nat \<Rightarrow> (nat \<Rightarrow> ('p, 'q, 'o) CaptureRegistry \<Rightarrow> ('p, 'q, 'o) CaptureRegistry) \<Rightarrow>
     'o native_answers \<Rightarrow> SurfaceId \<Rightarrow> AgentId \<Rightarrow> ('p, 'q, 'o) CaptureRegistry \<Rightarrow>
     CreateCaptureSessionResponse outcome \<times> ('p, 'q, 'o) CaptureRegistry" where
  "create_native_surface_session P now others A surface owner R =
     (let i = na_uuid A; release = (\<lambda>i R. release_flag (others 7 (release_session P now i (others 6 R)))) in
      case native_reserve (others 0 R) of
        (Inl e, R) \<Rightarrow> (Returned (Inl e), R)
      | (Inr _, R) \<Rightarrow>
      case na_source A of Inl e \<Rightarrow> (Returned (Inl (CaptureError e)), release None R) | Inr src \<Rightarrow>
      case na_track A of Inl e \<Rightarrow> (Returned (Inl (CaptureError e)), release None R) | Inr track \<Rightarrow>
      let R = enter_session i (native_starting_session src track owner surface) (others 1 R) in
      case native_body P now others A R of
        (Returned (Inr _), R) \<Rightarrow>
          (Returned (Inr (ready_response i src track [] (Some (native_attach_info (na_token_uuid A))))), R)
      | (Returned (Inl e), R) \<Rightarrow> (Returned (Inl e), release (Some i) R)
      | (DroppedRequest, R) \<Rightarrow> (DroppedRequest, release (Some i) R))"

section \<open>Many creations at once\<close>

text \<open>
  What other uses of the table do to the reservation: nothing.  They keep the flag, and end the
  sessions of holds without removing the holds.
\<close>

definition bystander ::
    "('s, 'p, 'q) platform \<Rightarrow> ('p, 'q, 'o) CaptureRegistry \<Rightarrow> ('p, 'q, 'o) CaptureRegistry \<Rightarrow> bool" where
  "bystander P R R' \<longleftrightarrow>
     capture_step P R R' \<and> native_session_starting R' = native_session_starting R \<and>
     map fst (native_holds R') = map fst (native_holds R)"

text \<open>Where a creation is: between which of its locked sections.\<close>

datatype native_phase =
    Idle
  | Reserved
  | Entered string
  | Held string
  | Streaming string
  | Dropping "string option"

type_synonym ('p, 'q, 'o) native_system = "('p, 'q, 'o) CaptureRegistry \<times> (nat \<Rightarrow> native_phase)"

definition next_phase :: "native_phase \<Rightarrow> string \<Rightarrow> (CaptureRegistryError, unit) result \<Rightarrow> native_phase" where
  "next_phase good i r = (case r of Inr _ \<Rightarrow> good | Inl _ \<Rightarrow> Dropping (Some i))"

inductive native_system_step ::
    "('s, 'p, 'q) platform \<Rightarrow> ('p, 'q, 'o) native_system \<Rightarrow> ('p, 'q, 'o) native_system \<Rightarrow> bool" for P where
  bystander: "bystander P R R' \<Longrightarrow> native_system_step P (R, T) (R', T)"
| refuse: "T t = Idle \<Longrightarrow> native_reserve R = (Inl e, R') \<Longrightarrow> native_system_step P (R, T) (R', T)"
| reserve: "T t = Idle \<Longrightarrow> native_reserve R = (Inr (), R') \<Longrightarrow> native_system_step P (R, T) (R', T(t := Reserved))"
| unregistered: "T t = Reserved \<Longrightarrow> native_system_step P (R, T) (R, T(t := Dropping None))"
| enter: "T t = Reserved \<Longrightarrow> i \<notin> set (entered R) \<Longrightarrow> i \<notin> set (frame_sources R) \<Longrightarrow> i \<notin> set (first_frames R) \<Longrightarrow>
    native_system_step P (R, T) (enter_session i (native_starting_session src track owner surface) R, T(t := Entered i))"
| hold: "T t = Entered i \<Longrightarrow> add_hold i worker info R = (r, R') \<Longrightarrow>
    native_system_step P (R, T) (R', T(t := next_phase (Held i) i r))"
| start_failed: "T t = Held i \<Longrightarrow> native_system_step P (R, T) (remove_session P now i R, T(t := Dropping (Some i)))"
| attach: "T t = Held i \<Longrightarrow> attach_stream i R = (r, R') \<Longrightarrow>
    native_system_step P (R, T) (R', T(t := next_phase (Streaming i) i r))"
| dropped: "T t = Held i \<or> T t = Streaming i \<Longrightarrow> native_system_step P (R, T) (R, T(t := Dropping (Some i)))"
| unready: "T t = Streaming i \<Longrightarrow> native_system_step P (R, T) (remove_session P now i R, T(t := Dropping (Some i)))"
| commit: "T t = Streaming i \<Longrightarrow> native_commit i control frame R = (r, R') \<Longrightarrow>
    native_system_step P (R, T) (R', T(t := next_phase Idle i r))"
| drop_session: "T t = Dropping (Some i) \<Longrightarrow>
    native_system_step P (R, T) (release_session P now (Some i) R, T(t := Dropping None))"
| drop_flag: "T t = Dropping None \<Longrightarrow> native_system_step P (R, T) (release_flag R, T(t := Idle))"

inductive_cases native_system_stepE: "native_system_step P S S'"

definition native_start :: "string option \<Rightarrow> ('p, 'q, 'o) native_system" where
  "native_start socket = (CaptureRegistry_new socket, \<lambda>_. Idle)"

section \<open>The reservation\<close>

text \<open>The flag is set exactly while one creation is under way, and there is at most one hold.\<close>

definition reservation_ok :: "('p, 'q, 'o) native_system \<Rightarrow> bool" where
  "reservation_ok S \<longleftrightarrow> (let (R, T) = S in
     (native_session_starting R \<longleftrightarrow> (\<exists>t. T t \<noteq> Idle)) \<and>
     (\<forall>t u. T t \<noteq> Idle \<and> T u \<noteq> Idle \<longrightarrow> t = u) \<and>
     (\<forall>t i. T t = Reserved \<or> T t = Entered i \<longrightarrow> native_holds R = []) \<and>
     (\<forall>t i. T t = Held i \<or> T t = Streaming i \<longrightarrow> map fst (native_holds R) = [i]) \<and>
     length (native_holds R) \<le> 1)"

lemma map_fst_map_entry [simp]: "map fst (AList.map_entry k f xs) = map fst xs"
  by (induction xs) auto

lemma delete_absent: "map_of xs i = None \<Longrightarrow> AList.delete i xs = xs"
  by (induction xs) (auto split: if_splits)

lemma remove_session_holds:
  "map fst (native_holds (remove_session P now i R)) = map fst (native_holds R)"
  "native_session_starting (remove_session P now i R) = native_session_starting R"
  by (auto simp: remove_session_def change_hold_def change_session_def delete_absent split: option.splits)

text \<open>Every other operation of the table is a bystander.\<close>

lemma replaces_bystander: "capture_step P R R' \<Longrightarrow> replaces J i R R' \<Longrightarrow> bystander P R R'"
  by (auto simp: bystander_def replaces_def)

lemma change_bystander: "capture_step P R (change_session i f R) \<Longrightarrow> bystander P R (change_session i f R)"
  by (simp add: bystander_def)

lemma bystanders:
  "bystander P R (remove_session P now i R)"
  "bystander P R (snd (close_session P now i R))"
  "bystander P R (mark_session_failed P now i m R)"
  "bystander P R (mark_session_closed P now i m R)"
  "bystander P R (drop_startup P now i R)"
  "bystander P R (change_session i (\<lambda>s. s\<lparr>cs_startup_cancel := False\<rparr>) R)"
  "bystander P R (attach_capture i control R)"
  "bystander P R (snd (open_fd_session cloned request R))"
  "i \<in> set (frame_sources R) \<Longrightarrow> bystander P R (snd (publish_frame P now i frame R))"
  "i \<in> set (frame_sources R) \<Longrightarrow> bystander P R (snd (publish_capture_frame P now i frame R))"
  "map_of (native_holds R) i = Some h \<Longrightarrow> native_step (native_of P) (hold_publisher h) p \<Longrightarrow>
     bystander P R (change_hold i (\<lambda>h. h\<lparr>hold_publisher := p\<rparr>) R)"
proof -
  show remove: "bystander P R (remove_session P now i R)"
    by (simp add: bystander_def remove_session_holds capture_step.remove)
  have "map fst (native_holds (snd (close_session P now i R))) = map fst (native_holds R) \<and>
      native_session_starting (snd (close_session P now i R)) = native_session_starting R"
    by (subst (1 2) close_as_remove(2)) (simp add: remove_session_holds)
  then show "bystander P R (snd (close_session P now i R))" by (simp add: bystander_def capture_step.close)
  show "bystander P R (mark_session_failed P now i m R)" "bystander P R (mark_session_closed P now i m R)"
    "bystander P R (drop_startup P now i R)"
    using capture_step.failed [of P R now i m] capture_step.ended [of P R now i m] capture_step.drop_startup [of P R now i]
    unfolding mark_session_failed_def mark_session_closed_def drop_startup_def by (blast intro: change_bystander)+
  show "bystander P R (change_session i (\<lambda>s. s\<lparr>cs_startup_cancel := False\<rparr>) R)" "bystander P R (attach_capture i control R)"
    unfolding attach_capture_def by (rule change_bystander, rule capture_step.handed capture_step.attach)+
  show "bystander P R (snd (open_fd_session cloned request R))"
    by (rule replaces_bystander [OF capture_step.open_fd open_fd_replaces])
  show "bystander P R (snd (publish_frame P now i frame R))" if "i \<in> set (frame_sources R)"
    by (rule replaces_bystander [OF capture_step.publish_frame [OF that] publish_frame_replaces])
  show "bystander P R (snd (publish_capture_frame P now i frame R))" if "i \<in> set (frame_sources R)"
    by (rule replaces_bystander [OF capture_step.publish_capture_frame [OF that] publish_capture_frame_replaces])
  show "bystander P R (change_hold i (\<lambda>h. h\<lparr>hold_publisher := p\<rparr>) R)"
    if "map_of (native_holds R) i = Some h" "native_step (native_of P) (hold_publisher h) p"
    using capture_step.hold [OF that] by (simp add: bystander_def change_hold_def)
qed

lemma reserve_cases:
  assumes "native_reserve R = (r, R')" and "length (native_holds R) \<le> 1"
  obtains "r \<noteq> Inr ()" "native_session_starting R' = native_session_starting R"
      "native_session_starting R \<longrightarrow> R' = R" "length (native_holds R') \<le> 1"
  | "r = Inr ()" "\<not> native_session_starting R" "native_session_starting R'" "native_holds R' = []"
proof (cases "native_session_starting R")
  case True
  with assms that(1) show ?thesis by (auto simp: native_reserve_def)
next
  case False
  let ?live = "filter (\<lambda>(i, h). i \<notin> set (map fst (filter (\<lambda>(i, h). hold_drained h) (native_holds R)))) (native_holds R)"
  have "length ?live \<le> 1" using length_filter_le le_trans assms(2) by blast
  with False assms(1) that show ?thesis
    by (cases ?live) (auto simp: native_reserve_def Let_def simp del: set_map set_filter)
qed

lemma reservation_okI:
  assumes "native_session_starting R \<longleftrightarrow> (\<exists>t. T t \<noteq> Idle)" and "\<And>t u. T t \<noteq> Idle \<Longrightarrow> T u \<noteq> Idle \<Longrightarrow> t = u"
    and "\<And>t i. T t = Reserved \<or> T t = Entered i \<Longrightarrow> native_holds R = []"
    and "\<And>t i. T t = Held i \<or> T t = Streaming i \<Longrightarrow> map fst (native_holds R) = [i]"
    and "length (native_holds R) \<le> 1"
  shows "reservation_ok (R, T)"
  unfolding reservation_ok_def Let_def prod.case by (intro conjI allI impI) (use assms in blast)+

text \<open>A task that goes on to another phase: it was the only one.\<close>

lemma reservation_ok_advance:
  assumes "reservation_ok (R, T)" and "T t \<noteq> Idle" and "native_session_starting R' = (p \<noteq> Idle)"
    and "p = Reserved \<or> (\<exists>i. p = Entered i) \<Longrightarrow> native_holds R' = []"
    and "\<And>i. p = Held i \<or> p = Streaming i \<Longrightarrow> map fst (native_holds R') = [i]"
    and "length (native_holds R') \<le> 1"
  shows "reservation_ok (R', T(t := p))"
proof -
  have only: "T u = Idle" if "u \<noteq> t" for u using assms(1,2) that unfolding reservation_ok_def by auto
  show ?thesis by (rule reservation_okI) (use only assms(3-6) in \<open>auto split: if_splits\<close>)
qed

lemma length_keys: "map fst xs = map fst ys \<Longrightarrow> length xs = length ys"
  by (metis length_map)

lemma hold_keys [simp]:
  "map fst (native_holds (change_hold i f R)) = map fst (native_holds R)"
  "length (native_holds (change_hold i f R)) = length (native_holds R)"
proof -
  show keys: "map fst (native_holds (change_hold i f R)) = map fst (native_holds R)" by (simp add: change_hold_def)
  show "length (native_holds (change_hold i f R)) = length (native_holds R)" by (rule length_keys [OF keys])
qed

lemma reservation_okD:
  assumes "reservation_ok (R, T)"
  shows "native_session_starting R \<longleftrightarrow> (\<exists>t. T t \<noteq> Idle)" and "T t \<noteq> Idle \<Longrightarrow> T u \<noteq> Idle \<Longrightarrow> t = u"
    and "T t = Reserved \<or> T t = Entered i \<Longrightarrow> native_holds R = []"
    and "T t = Held i \<or> T t = Streaming i \<Longrightarrow> map fst (native_holds R) = [i]"
    and "length (native_holds R) \<le> 1" and "T t \<noteq> Idle \<Longrightarrow> native_session_starting R"
  using assms unfolding reservation_ok_def Let_def prod.case by blast+

lemma reservation_ok_keys:
  assumes "reservation_ok (R, T)" and "native_session_starting R' = native_session_starting R"
    and "map fst (native_holds R') = map fst (native_holds R)"
  shows "reservation_ok (R', T)"
proof (rule reservation_okI)
  show "native_session_starting R' \<longleftrightarrow> (\<exists>t. T t \<noteq> Idle)" using reservation_okD(1) [OF assms(1)] assms(2) by simp
  show "native_holds R' = []" if "T t = Reserved \<or> T t = Entered i" for t i
    using reservation_okD(3) [OF assms(1) that] assms(3) by simp
  show "map fst (native_holds R') = [i]" if "T t = Held i \<or> T t = Streaming i" for t i
    using reservation_okD(4) [OF assms(1) that] assms(3) by simp
  show "length (native_holds R') \<le> 1" using reservation_okD(5) [OF assms(1)] length_keys [OF assms(3)] by simp
qed (rule reservation_okD(2) [OF assms(1)])

lemma next_phase_simps [simp]:
  "next_phase p i (Inr x) = p" "next_phase p i (Inl e) = Dropping (Some i)"
  by (simp_all add: next_phase_def)

lemma attach_stream_eq:
  "attach_stream i R = (r, R') \<Longrightarrow> native_session_starting R' = native_session_starting R \<and>
     map fst (native_holds R') = map fst (native_holds R)"
  by (auto simp: attach_stream_def split: option.splits if_splits)

lemma native_commit_eq:
  assumes "native_commit i control frame R = (r, R')"
  shows "map fst (native_holds R') = map fst (native_holds R)"
    and "native_session_starting R' = (if r = Inr () then False else native_session_starting R)"
  using assms by (auto simp: native_commit_def Let_def split: option.splits if_splits)

lemma reservation_ok_step:
  assumes "native_system_step P S S'" and "reservation_ok S"
  shows "reservation_ok S'"
  using assms
proof (induction rule: native_system_step.induct)
  case (bystander R R' T)
  then show ?case by (auto simp: bystander_def intro: reservation_ok_keys)
next
  case (refuse T t R e R')
  note ok = reservation_okD [OF refuse.prems]
  show ?case
  proof (rule reserve_cases [OF refuse.hyps(2) ok(5)])
    assume r: "native_session_starting R' = native_session_starting R" "native_session_starting R \<longrightarrow> R' = R"
      "length (native_holds R') \<le> 1"
    show ?case
    proof (cases "native_session_starting R")
      case False
      then have "T u = Idle" for u using ok(1) by blast
      with r False show ?thesis by (intro reservation_okI) auto
    qed (use r refuse.prems in simp)
  qed simp
next
  case (reserve T t R R')
  note ok = reservation_okD [OF reserve.prems]
  show ?case
  proof (rule reserve_cases [OF reserve.hyps(2) ok(5)])
    assume r: "\<not> native_session_starting R" "native_session_starting R'" "native_holds R' = []"
    then have "T u = Idle" for u using ok(1) by blast
    with r show ?case by (intro reservation_okI) (auto split: if_splits)
  qed simp
next
  case (hold T t i worker info R r R')
  note ok = reservation_okD [OF hold.prems]
  have "native_holds R = []" "native_session_starting R" using ok(3) ok(6) [of t] hold.hyps(1) by auto
  with hold show ?case
    by (intro reservation_ok_advance [OF hold.prems, where t = t])
      (auto simp: add_hold_def NativeSessionHold_new_def split: sum.splits)
next
  case (attach T t i R r R')
  note ok = reservation_okD [OF attach.prems]
  have "map fst (native_holds R) = [i]" "native_session_starting R" using ok(4) ok(6) [of t] attach.hyps(1) by auto
  with attach attach_stream_eq [OF attach.hyps(2)] length_keys [of "native_holds R'" "native_holds R"] ok(5) show ?case
    by (intro reservation_ok_advance [OF attach.prems, where t = t]) (auto simp: next_phase_def split: sum.splits)
next
  case (commit T t i control frame R r R')
  note ok = reservation_okD [OF commit.prems]
  have "native_session_starting R" using ok(6) [of t] commit.hyps(1) by auto
  with commit native_commit_eq [OF commit.hyps(2)] length_keys [of "native_holds R'" "native_holds R"] ok(5) show ?case
    by (intro reservation_ok_advance [OF commit.prems, where t = t]) (auto simp: next_phase_def split: sum.splits)
next
  case (drop_flag T t R)
  note ok = reservation_okD [OF drop_flag.prems]
  show ?case
    by (rule reservation_ok_advance [OF drop_flag.prems, where t = t])
      (use drop_flag ok(5) in \<open>auto simp: release_flag_def\<close>)
next
  case (unregistered T t R)
  note ok = reservation_okD [OF unregistered.prems]
  show ?case
    by (rule reservation_ok_advance [OF unregistered.prems, where t = t]) (use unregistered ok(5) ok(6) [of t] in auto)
next
  case (enter T t i R src track owner surface)
  note ok = reservation_okD [OF enter.prems]
  show ?case
    by (rule reservation_ok_advance [OF enter.prems, where t = t]) (use enter ok(3) [of t i] ok(5) ok(6) [of t] in auto)
next
  case (start_failed T t i R now)
  note ok = reservation_okD [OF start_failed.prems]
  show ?case
    by (rule reservation_ok_advance [OF start_failed.prems, where t = t])
      (use start_failed ok(5) ok(6) [of t] length_keys [OF remove_session_holds(1), of P now i R] in \<open>auto simp: remove_session_holds\<close>)
next
  case (dropped T t i R)
  note ok = reservation_okD [OF dropped.prems]
  show ?case
    by (rule reservation_ok_advance [OF dropped.prems, where t = t]) (use dropped ok(5) ok(6) [of t] in auto)
next
  case (unready T t i R now)
  note ok = reservation_okD [OF unready.prems]
  show ?case
    by (rule reservation_ok_advance [OF unready.prems, where t = t])
      (use unready ok(5) ok(6) [of t] length_keys [OF remove_session_holds(1), of P now i R] in \<open>auto simp: remove_session_holds\<close>)
next
  case (drop_session T t i R now)
  note ok = reservation_okD [OF drop_session.prems]
  show ?case
    by (rule reservation_ok_advance [OF drop_session.prems, where t = t])
      (use drop_session ok(5) ok(6) [of t] length_keys [OF remove_session_holds(1), of P now i R]
        in \<open>auto simp: remove_session_holds release_session_def\<close>)
qed

lemma reservation_ok_start: "reservation_ok (native_start socket)"
  unfolding native_start_def by (rule reservation_okI) (simp_all add: CaptureRegistry_new_def)

lemma reservation_ok_run: "(native_system_step P)\<^sup>*\<^sup>* S S' \<Longrightarrow> reservation_ok S \<Longrightarrow> reservation_ok S'"
  by (induction rule: rtranclp_induct) (auto intro: reservation_ok_step)

text \<open>A creation's own session has no CPU runtime.\<close>

fun phase_session :: "native_phase \<Rightarrow> string option" where
  "phase_session (Entered i) = Some i"
| "phase_session (Held i) = Some i"
| "phase_session (Streaming i) = Some i"
| "phase_session (Dropping i) = i"
| "phase_session _ = None"

definition native_named :: "('p, 'q, 'o) CaptureRegistry \<Rightarrow> string \<Rightarrow> bool" where
  "native_named R i \<longleftrightarrow> i \<in> set (entered R) \<and> (\<forall>s. map_of (sessions R) i = Some s \<longrightarrow> cs_cpu s = None)"

lemma entered_stays:
  assumes "(capture_step P)\<^sup>*\<^sup>* R R'" and "table_ok R" and "i \<in> set (entered R)"
  shows "i \<in> set (entered R')"
  using assms(1)
proof (induction rule: rtranclp_induct)
  case (step S T)
  from capture_step_stays [OF table_ok_run [OF step.hyps(1) assms(2)] step.hyps(2), of i] step.IH
  show ?case by (auto simp: stays_or_leaves_def)
qed (rule assms(3))

lemma native_named_stays:
  assumes "(capture_step P)\<^sup>*\<^sup>* R R'" and "table_ok R" and "native_named R i"
  shows "native_named R' i"
proof (cases "map_of (sessions R) i")
  case None
  with session_stays_gone [OF assms(1,2) None] entered_stays [OF assms(1,2)] assms(3)
  show ?thesis by (simp add: native_named_def)
next
  case (Some s)
  with session_history [OF assms(1,2) Some] entered_stays [OF assms(1,2)] assms(3)
  show ?thesis by (auto simp: native_named_def session_moves_def)
qed

lemma delete_natives:
  assumes "\<And>i. i \<in> set is \<Longrightarrow> \<forall>s. map_of (sessions R) i = Some s \<longrightarrow> cs_cpu s = None"
  shows "(capture_step P)\<^sup>*\<^sup>* R (R\<lparr>sessions := fold AList.delete is (sessions R)\<rparr>)"
  using assms
proof (induction "is" arbitrary: R)
  case (Cons i "is")
  let ?R = "R\<lparr>sessions := AList.delete i (sessions R)\<rparr>"
  have "capture_step P R ?R" by (rule capture_step.delete_native) (use Cons.prems in auto)
  moreover have "(capture_step P)\<^sup>*\<^sup>* ?R (?R\<lparr>sessions := fold AList.delete is (sessions ?R)\<rparr>)"
    by (rule Cons.IH) (use Cons.prems in \<open>auto simp: AList.delete_conv' split: if_splits\<close>)
  ultimately show ?case by (simp add: converse_rtranclp_into_rtranclp)
qed simp

lemma held_native:
  assumes "table_ok R" and "i \<in> fst ` set (native_holds R)"
  shows "native_named R i"
  using assms table_okD(1) [OF assms(1), of i] table_okD(5) [OF assms(1)] by (auto simp: native_named_def entry_ok_def)

lemma fewer_holds_run:
  assumes "table_ok R" and "fst ` set hs \<subseteq> fst ` set (native_holds R)"
  shows "capture_step P R (R\<lparr>native_holds := hs, native_session_starting := b\<rparr>)"
  by (rule capture_step.holds) (use assms held_native [OF assms(1)] in \<open>auto simp: native_named_def\<close>)

lemma native_reserve_run:
  assumes "native_reserve R = (r, R')" and "table_ok R"
  shows "(capture_step P)\<^sup>*\<^sup>* R R'"
proof (cases "native_session_starting R")
  case True
  with assms(1) show ?thesis by (simp add: native_reserve_def)
next
  case False
  let ?gone = "map fst (filter (\<lambda>(i, h). hold_drained h) (native_holds R))"
  let ?hs = "filter (\<lambda>(i, h). i \<notin> set ?gone) (native_holds R)"
  have R': "R' = (R\<lparr>native_holds := ?hs, native_session_starting := (r = Inr ())\<rparr>)\<lparr>sessions := fold AList.delete ?gone (sessions R)\<rparr>"
    using assms(1) False by (auto simp: native_reserve_def Let_def simp del: set_map set_filter split: list.splits)
  have "capture_step P R (R\<lparr>native_holds := ?hs, native_session_starting := (r = Inr ())\<rparr>)" (is "capture_step P R ?R1")
    by (rule fewer_holds_run [OF assms(2)]) auto
  moreover have "(capture_step P)\<^sup>*\<^sup>* ?R1 (?R1\<lparr>sessions := fold AList.delete ?gone (sessions ?R1)\<rparr>)"
    by (rule delete_natives) (use held_native [OF assms(2)] in \<open>auto simp: native_named_def\<close>)
  ultimately show ?thesis unfolding R' by (simp add: converse_rtranclp_into_rtranclp)
qed

lemma change_native_hold_run:
  assumes "table_ok R"
  shows "capture_step P R ((change_hold i f R)\<lparr>native_session_starting := b\<rparr>)"
    and "capture_step P R (change_hold i f R)"
proof -
  have eq: "(change_hold i f R)\<lparr>native_session_starting := c\<rparr> =
      R\<lparr>native_holds := AList.map_entry i f (native_holds R), native_session_starting := c\<rparr>" for c
    by (simp add: change_hold_def)
  show "capture_step P R ((change_hold i f R)\<lparr>native_session_starting := b\<rparr>)"
    unfolding eq by (rule fewer_holds_run [OF assms]) (simp add: AList.dom_map_entry)
  have "change_hold i f R = (change_hold i f R)\<lparr>native_session_starting := native_session_starting R\<rparr>"
    by (simp add: change_hold_def)
  then show "capture_step P R (change_hold i f R)"
    using fewer_holds_run [OF assms, of "AList.map_entry i f (native_holds R)" P "native_session_starting R"]
    by (simp add: eq AList.dom_map_entry)
qed

lemma native_step_runs:
  assumes "native_system_step P S S'" and "reservation_ok S" and "table_ok (fst S)"
    and "\<And>t i. phase_session (snd S t) = Some i \<Longrightarrow> native_named (fst S) i"
  shows "(capture_step P)\<^sup>*\<^sup>* (fst S) (fst S')"
  using assms
proof (induction rule: native_system_step.induct)
  case (bystander R R' T)
  then show ?case by (simp add: bystander_def r_into_rtranclp)
next
  case (refuse T t R e R')
  then show ?case using native_reserve_run by fastforce
next
  case (reserve T t R R')
  then show ?case using native_reserve_run by fastforce
next
  case (enter T t i R src track owner surface)
  then show ?case
    by (auto intro!: r_into_rtranclp capture_step.enter_native simp: native_starting_session_def)
next
  case (hold T t i worker info R r R')
  have named: "native_named R i" using hold.prems(3) [of t i] hold.hyps(1) by simp
  have free: "native_holds R = []" using reservation_okD(3) [OF hold.prems(1)] hold.hyps(1) by blast
  show ?case
  proof (cases r)
    case (Inr u)
    with hold.hyps(2) free obtain h where R': "R' = R\<lparr>native_holds := [(i, h)], native_session_starting := native_session_starting R\<rparr>"
      by (auto simp: add_hold_def split: sum.splits)
    show ?thesis unfolding R' fst_conv
      by (rule r_into_rtranclp, rule capture_step.holds) (use named in \<open>auto simp: native_named_def\<close>)
  qed (use hold.hyps(2) in \<open>auto simp: add_hold_def split: sum.splits\<close>)
next
  case (attach T t i R r R')
  then show ?case
    by (auto simp: attach_stream_def split: option.splits if_splits intro!: r_into_rtranclp change_native_hold_run(2))
next
  case (commit T t i control frame R r R')
  have named: "native_named R i" using commit.prems(3) [of t i] commit.hyps(1) by simp
  show ?case
  proof (cases "\<exists>s. map_of (sessions R) i = Some s \<and> cs_lifecycle s = LifeStarting")
    case False
    with commit.hyps(2) show ?thesis by (auto simp: native_commit_def split: option.splits)
  next
    case True
    then obtain s where s: "map_of (sessions R) i = Some s" "cs_lifecycle s = LifeStarting" by blast
    let ?R = "change_session i (\<lambda>s. s\<lparr>cs_lifecycle := LifeReady, cs_output_control := control, cs_width := fst frame,
                cs_height := snd frame, cs_pixel_format := Bgra8Unorm\<rparr>) R"
    have ready: "capture_step P R ?R"
      using named s capture_step.native_ready [OF s(1) _ s(2)] by (simp add: native_named_def)
    have ok: "table_ok ?R" by (rule capture_step_ok [OF _ ready]) (use commit.prems(2) in simp)
    let ?C = "(change_hold i (\<lambda>h. h\<lparr>hold_server := True\<rparr>) ?R)\<lparr>native_session_starting := False\<rparr>"
    have "(capture_step P)\<^sup>*\<^sup>* R ?C"
      by (rule rtranclp.rtrancl_into_rtrancl [OF r_into_rtranclp [where r = "capture_step P", OF ready] change_native_hold_run(1) [OF ok]])
    moreover from commit.hyps(2) s have "R' = ?R \<or> R' = ?C"
      by (auto simp: native_commit_def Let_def split: option.splits)
    ultimately show ?thesis using r_into_rtranclp [where r = "capture_step P", OF ready] by (metis fst_conv)
  qed
next
  case (drop_flag T t R)
  then show ?case
    using fewer_holds_run [of R "native_holds R" P False] by (auto simp: release_flag_def)
qed (auto simp: release_session_def intro: r_into_rtranclp capture_step.remove)

lemma phase_session_next:
  assumes "native_system_step P S S'" and "phase_session (snd S' t) = Some i"
  shows "phase_session (snd S t) = Some i \<or> native_named (fst S') i"
  using assms
proof (induction rule: native_system_step.induct)
  case (enter T u k R src track owner surface)
  then show ?case by (auto simp: native_named_def native_starting_session_def split: if_splits)
next
  case (hold T u k worker info R r R')
  then show ?case by (cases r) (auto split: if_splits)
next
  case (attach T u k R r R')
  then show ?case by (cases r) (auto split: if_splits)
next
  case (commit T u k control frame R r R')
  then show ?case by (cases r) (auto split: if_splits)
qed (auto split: if_splits)

definition native_system_ok :: "('p, 'q, 'o) native_system \<Rightarrow> bool" where
  "native_system_ok S \<longleftrightarrow> reservation_ok S \<and> table_ok (fst S) \<and>
     (\<forall>t i. phase_session (snd S t) = Some i \<longrightarrow> native_named (fst S) i)"

lemma native_system_ok_step:
  assumes "native_system_step P S S'" and "native_system_ok S"
  shows "native_system_ok S'" and "(capture_step P)\<^sup>*\<^sup>* (fst S) (fst S')"
proof -
  have ok: "reservation_ok S" "table_ok (fst S)" "\<And>t i. phase_session (snd S t) = Some i \<Longrightarrow> native_named (fst S) i"
    using assms(2) unfolding native_system_ok_def by blast+
  show run: "(capture_step P)\<^sup>*\<^sup>* (fst S) (fst S')" by (rule native_step_runs [OF assms(1) ok])
  have "native_named (fst S') i" if "phase_session (snd S' t) = Some i" for t i
    using phase_session_next [OF assms(1) that] ok(3) native_named_stays [OF run ok(2)] by blast
  then show "native_system_ok S'" unfolding native_system_ok_def
    using reservation_ok_step [OF assms(1) ok(1)] table_ok_run [OF run ok(2)] by blast
qed

lemma native_system_ok_run:
  assumes "(native_system_step P)\<^sup>*\<^sup>* S S'" and "native_system_ok S"
  shows "native_system_ok S' \<and> (capture_step P)\<^sup>*\<^sup>* (fst S) (fst S')"
  using assms(1)
proof (induction rule: rtranclp_induct)
  case (step T U)
  with native_system_ok_step [OF step.hyps(2)] show ?case by (meson rtranclp_trans)
qed (simp add: assms(2))

lemma native_system_ok_start: "native_system_ok (native_start socket)"
  using reservation_ok_start [of socket] by (simp add: native_system_ok_def native_start_def table_ok_new)

lemma native_system_run:
  assumes "(native_system_step P)\<^sup>*\<^sup>* (native_start socket) S"
  shows "(capture_step P)\<^sup>*\<^sup>* (CaptureRegistry_new socket) (fst S) \<and> reservation_ok S"
  using native_system_ok_run [OF assms native_system_ok_start] by (simp add: native_system_ok_def native_start_def)

section \<open>What the reservation gives\<close>

text \<open>
  C26: There is one native capture session at a time, and the code that relies on it cannot panic.  However
  creations, with all their failures and cancellations, interleave with each other and with every other
  use of the table: at most one is under way, exactly while the flag is set; there is at most one hold;
  and neither of the two places that expect the hold of a running creation ever misses it.
\<close>

theorem one_native_session:
  assumes "(native_system_step P)\<^sup>*\<^sup>* (native_start socket) (R, T)"
  shows "length (native_holds R) \<le> 1 \<and> (native_session_starting R \<longleftrightarrow> (\<exists>t. T t \<noteq> Idle)) \<and>
    (\<forall>t u. T t \<noteq> Idle \<and> T u \<noteq> Idle \<longrightarrow> t = u) \<and>
    (\<forall>t i. T t = Held i \<longrightarrow> fst (attach_stream i R) \<noteq> Inl (CapturePanic m)) \<and>
    (\<forall>t i. T t = Streaming i \<longrightarrow> fst (native_commit i control frame R) \<noteq> Inl (CapturePanic m))"
proof -
  have ok: "reservation_ok (R, T)" using native_system_run [OF assms] by simp
  have held: "\<exists>h. map_of (native_holds R) i = Some h" if "T t = Held i \<or> T t = Streaming i" for t i
    using reservation_okD(4) [OF ok that] by (cases "map_of (native_holds R) i") (auto simp: map_of_eq_None_iff)
  have "fst (attach_stream i R) \<noteq> Inl (CapturePanic m)" if "T t = Held i" for t i
    using held [of t i] that by (auto simp: attach_stream_def native_closed_error_def split: option.splits)
  moreover have "fst (native_commit i control frame R) \<noteq> Inl (CapturePanic m)" if "T t = Streaming i" for t i
    using held [of t i] that by (auto simp: native_commit_def native_closed_error_def Let_def split: option.splits)
  ultimately show ?thesis using reservation_okD(1,5) [OF ok] reservation_okD(2) [OF ok] by blast
qed

lemma drained_reserve:
  assumes "\<not> native_session_starting R" and "\<forall>(i, h) \<in> set (native_holds R). hold_drained h"
  shows "fst (native_reserve R) = Inr ()"
proof -
  have "filter (\<lambda>(i, h). hold_drained h) (native_holds R) = native_holds R" using assms(2) by (auto simp: filter_id_conv)
  moreover have "filter (\<lambda>(i, h). i \<notin> fst ` set (native_holds R)) (native_holds R) = []"
    by (auto simp: filter_empty_conv image_iff)
  ultimately show ?thesis using assms(1) by (simp add: native_reserve_def Let_def del: set_filter)
qed

text \<open>
  C28: A failed or cancelled native creation never wedges the service name.  From every state in which a
  creation is being given up, its two remaining steps clear the reservation, and the next creation gets
  it as soon as the hold, if one was left, is drained.
\<close>

theorem abandoned_native_start_frees_name:
  assumes "(native_system_step P)\<^sup>*\<^sup>* (native_start socket) (R, T)" and "T t = Dropping x"
  shows "\<exists>R'. R' = release_flag (release_session P now x R) \<and>
    (native_system_step P)\<^sup>*\<^sup>* (R, T) (R', T(t := Idle)) \<and> \<not> native_session_starting R' \<and>
    ((\<forall>(i, h) \<in> set (native_holds R'). hold_drained h) \<longrightarrow> fst (native_reserve R') = Inr ())"
proof -
  let ?R1 = "release_session P now x R" and ?T1 = "T(t := Dropping None)"
  have first: "(native_system_step P)\<^sup>*\<^sup>* (R, T) (?R1, ?T1)"
  proof (cases x)
    case None
    then have "?T1 = T" using assms(2) by (auto simp: fun_eq_iff)
    then show ?thesis using None by (simp add: release_session_def)
  next
    case (Some i)
    then show ?thesis using native_system_step.drop_session [of T t i P R now] assms(2) by auto
  qed
  have "native_system_step P (?R1, ?T1) (release_flag ?R1, ?T1(t := Idle))" by (rule native_system_step.drop_flag) simp
  with first have run: "(native_system_step P)\<^sup>*\<^sup>* (R, T) (release_flag ?R1, T(t := Idle))"
    by (simp add: rtranclp.rtrancl_into_rtrancl)
  from run drained_reserve [of "release_flag ?R1"] show ?thesis by (simp add: release_flag_def)
qed

section \<open>A creation is a run\<close>

lemma bystanders_run:
  assumes "(bystander P)\<^sup>*\<^sup>* R R'"
  shows "(native_system_step P)\<^sup>*\<^sup>* (R, T) (R', T)"
  using assms
  by (induction rule: rtranclp_induct) (auto intro: rtranclp.rtrancl_into_rtrancl native_system_step.bystander)

text \<open>One step of the creation after what the others did; the phase of creation \<open>t\<close> follows.\<close>

lemma step_after:
  assumes "(bystander P)\<^sup>*\<^sup>* R R1" and "native_system_step P (R1, T) (R', T')"
  shows "(native_system_step P)\<^sup>*\<^sup>* (R, T) (R', T')"
  using bystanders_run [OF assms(1)] assms(2) by (rule rtranclp.rtrancl_into_rtrancl)

lemma remove_after:
  assumes "(bystander P)\<^sup>*\<^sup>* R R1"
  shows "(native_system_step P)\<^sup>*\<^sup>* (R, T) (remove_session P now i R1, T)"
  by (rule step_after [OF assms], rule native_system_step.bystander, rule bystanders(1))

lemma release_run:
  assumes "\<And>n R. (bystander P)\<^sup>*\<^sup>* R (others n R)" and "T t = Dropping i"
  shows "(native_system_step P)\<^sup>*\<^sup>* (R, T) (release_flag (others 7 (release_session P now i (others 6 R))), T(t := Idle))"
proof -
  let ?R = "release_session P now i (others 6 R)" and ?T = "T(t := Dropping None)"
  have "(native_system_step P)\<^sup>*\<^sup>* (R, T) (?R, ?T)"
  proof (cases i)
    case None
    then have "?T = T" using assms(2) by (auto simp: fun_eq_iff)
    then show ?thesis using None bystanders_run [OF assms(1)] by (simp add: release_session_def)
  next
    case (Some k)
    show ?thesis unfolding Some
      by (rule step_after [OF assms(1)], rule native_system_step.drop_session) (use assms(2) Some in simp)
  qed
  moreover have "(native_system_step P)\<^sup>*\<^sup>* (?R, ?T) (release_flag (others 7 ?R), ?T(t := Idle))"
    by (rule step_after [OF assms(1)], rule native_system_step.drop_flag) simp
  ultimately show ?thesis by (simp add: rtranclp_trans)
qed

text \<open>The body ends with the reservation committed, or with the creation being given up.\<close>

abbreviation ended_phase :: "string \<Rightarrow> unit outcome \<Rightarrow> native_phase" where
  "ended_phase i x \<equiv> if x = Returned (Inr ()) then Idle else Dropping (Some i)"

lemma native_await_run:
  assumes "native_await P now others A control R = (x, R')" and "T t = Streaming (na_uuid A)"
    and others: "\<And>n R. (bystander P)\<^sup>*\<^sup>* R (others n R)"
  shows "(native_system_step P)\<^sup>*\<^sup>* (R, T) (R', T(t := ended_phase (na_uuid A) x))"
proof -
  let ?i = "na_uuid A" and ?R4 = "others 4 R" and ?R5 = "others 5 (others 4 R)"
  have r5: "(bystander P)\<^sup>*\<^sup>* R ?R5" using others by (meson rtranclp_trans)
  have give_up: "(native_system_step P)\<^sup>*\<^sup>* (R, T) (?R4, T(t := Dropping (Some ?i)))"
    by (rule step_after [OF others], rule native_system_step.dropped) (simp add: assms(2))
  have remove: "(native_system_step P)\<^sup>*\<^sup>* (R, T) (remove_session P now ?i ?R5, T(t := Dropping (Some ?i)))"
    by (rule step_after [OF r5], rule native_system_step.unready) (simp add: assms(2))
  have commit: "(native_system_step P)\<^sup>*\<^sup>* (R, T) (S, T(t := next_phase Idle ?i r))"
    if "native_commit ?i control frame ?R5 = (r, S)" for frame r S
    by (rule step_after [OF r5], rule native_system_step.commit [where T = T and t = t and i = ?i, OF _ that]) (simp add: assms(2))
  from assms(1) consider "x = DroppedRequest" "R' = ?R4" | e where "x = Returned (Inl e)" "R' = remove_session P now ?i ?R5"
    | frame r where "native_commit ?i control frame ?R5 = (r, R')" "x = Returned r"
    by (auto simp: native_await_def Let_def split: if_splits option.splits sum.splits prod.splits)
  then show ?thesis
  proof cases
    case 3
    from commit [OF 3(1)] 3(2) show ?thesis by (cases r) (auto simp: next_phase_def)
  qed (use give_up remove in simp_all)
qed

lemma native_body_run:
  assumes body: "native_body P now others A R = (x, R')" and T: "T t = Entered (na_uuid A)"
    and others: "\<And>n R. (bystander P)\<^sup>*\<^sup>* R (others n R)"
  shows "(native_system_step P)\<^sup>*\<^sup>* (R, T) (R', T(t := ended_phase (na_uuid A) x))"
proof -
  let ?i = "na_uuid A" and ?H = "T(t := Held (na_uuid A))" and ?S = "T(t := Streaming (na_uuid A))"
    and ?D = "T(t := Dropping (Some (na_uuid A)))"
  obtain r R3 where hold: "add_hold ?i (na_worker A) (native_attach_info (na_token_uuid A)) (others 2 R) = (r, R3)" by fastforce
  obtain r4 R4 where attach: "attach_stream ?i (others 3 R3) = (r4, R4)" by fastforce
  have held: "(native_system_step P)\<^sup>*\<^sup>* (R, T) (R3, T(t := next_phase (Held ?i) ?i r))"
    by (rule step_after [OF others], rule native_system_step.hold [where T = T and t = t and i = ?i, OF T hold])
  have attached: "(native_system_step P)\<^sup>*\<^sup>* (R3, ?H) (R4, T(t := next_phase (Streaming ?i) ?i r4))"
    using step_after [OF others native_system_step.attach [where i = ?i and t = t and T = ?H, OF _ attach]] by simp
  have dropped: "(native_system_step P)\<^sup>*\<^sup>* (R3, ?H) (R3, ?D)"
    using native_system_step.dropped [of ?H t ?i P R3] by auto
  have failed: "(native_system_step P)\<^sup>*\<^sup>* (R3, ?H) (remove_session P now ?i (others 3 R3), ?D)"
    using step_after [OF others native_system_step.start_failed [where i = ?i and t = t and T = ?H and now = now]] by simp
  from body hold attach consider
      e where "r = Inl e" "x = Returned (Inl e)" "R' = R3"
    | "r = Inr ()" "x = DroppedRequest" "R' = R3"
    | e where "r = Inr ()" "x = Returned (Inl e)" "R' = remove_session P now ?i (others 3 R3)"
    | e where "r = Inr ()" "r4 = Inl e" "x = Returned (Inl e)" "R' = R4"
    | control where "r = Inr ()" "r4 = Inr ()" "native_await P now others A control R4 = (x, R')"
    by (auto simp: native_body_def Let_def split: option.splits sum.splits)
  then show ?thesis
  proof cases
    case 2
    with rtranclp_trans [OF held [unfolded 2(1) next_phase_simps] dropped] show ?thesis by simp
  next
    case 3
    with rtranclp_trans [OF held [unfolded 3(1) next_phase_simps] failed] show ?thesis by simp
  next
    case 4
    with rtranclp_trans [OF held [unfolded 4(1) next_phase_simps] attached [unfolded 4(2) next_phase_simps]] show ?thesis by simp
  next
    case 5
    have "(native_system_step P)\<^sup>*\<^sup>* (R4, ?S) (R', ?S(t := ended_phase ?i x))"
      by (rule native_await_run [OF 5(3) _ others]) simp
    with rtranclp_trans [OF rtranclp_trans [OF held [unfolded 5(1) next_phase_simps] attached [unfolded 5(2) next_phase_simps]] this]
    show ?thesis by simp
  qed (use held in simp)
qed

lemma reserve_after:
  assumes "native_reserve (others 0 R) = (r, R')" and "T t = Idle" and "\<And>n R. (bystander P)\<^sup>*\<^sup>* R (others n R)"
  shows "(native_system_step P)\<^sup>*\<^sup>* (R, T) (R', T(t := (if r = Inr () then Reserved else Idle)))"
proof (cases r)
  case (Inl e)
  have "T(t := Idle) = T" using assms(2) by (auto simp: fun_eq_iff)
  with step_after [OF assms(3) native_system_step.refuse [of T t _ e, OF assms(2)]] assms(1) Inl show ?thesis by simp
next
  case (Inr u)
  with step_after [OF assms(3) native_system_step.reserve [of T t, OF assms(2)]] assms(1) show ?thesis by simp
qed

text \<open>The state in which a creation enters its session.\<close>

abbreviation native_entered ::
    "'o native_answers \<Rightarrow> u64 \<Rightarrow> u64 \<Rightarrow> AgentId \<Rightarrow> SurfaceId \<Rightarrow> ('p, 'q, 'o) CaptureRegistry \<Rightarrow> ('p, 'q, 'o) CaptureRegistry" where
  "native_entered A src track owner surface R \<equiv>
     enter_session (na_uuid A) (native_starting_session src track owner surface) R"

lemma create_native_cases:
  assumes "create_native_surface_session P now others A surface owner R = (r, R')"
  obtains (refused) e where "native_reserve (others 0 R) = (Inl e, R')" "\<forall>resp. r \<noteq> Returned (Inr resp)"
  | (unregistered) R1 where "native_reserve (others 0 R) = (Inr (), R1)"
      "R' = release_flag (others 7 (release_session P now None (others 6 R1)))" "\<forall>resp. r \<noteq> Returned (Inr resp)"
  | (given_up) R1 src track x R2 where "native_reserve (others 0 R) = (Inr (), R1)"
      "native_body P now others A (native_entered A src track owner surface (others 1 R1)) = (x, R2)" "x \<noteq> Returned (Inr ())"
      "R' = release_flag (others 7 (release_session P now (Some (na_uuid A)) (others 6 R2)))" "\<forall>resp. r \<noteq> Returned (Inr resp)"
  | (created) R1 src track where "native_reserve (others 0 R) = (Inr (), R1)"
      "native_body P now others A (native_entered A src track owner surface (others 1 R1)) = (Returned (Inr ()), R')"
      "r = Returned (Inr (ready_response (na_uuid A) src track [] (Some (native_attach_info (na_token_uuid A)))))"
proof -
  obtain q R1 where reserve: "native_reserve (others 0 R) = (q, R1)" by fastforce
  show ?thesis
  proof (cases q)
    case (Inl e)
    with assms reserve refused [of e] show ?thesis by (auto simp: create_native_surface_session_def)
  next
    case (Inr u)
    show ?thesis
    proof (cases "\<exists>src track. na_source A = Inr src \<and> na_track A = Inr track")
      case False
      with assms reserve Inr unregistered show ?thesis
        by (auto simp: create_native_surface_session_def Let_def split: sum.splits)
    next
      case True
      then obtain src track where ids: "na_source A = Inr src" "na_track A = Inr track" by blast
      obtain x R2 where body: "native_body P now others A (native_entered A src track owner surface (others 1 R1)) = (x, R2)"
        by fastforce
      show ?thesis
      proof (cases "x = Returned (Inr ())")
        case True
        with assms reserve Inr ids body created show ?thesis by (simp add: create_native_surface_session_def Let_def)
      next
        case False
        with assms reserve Inr ids body given_up show ?thesis
          by (cases x) (auto simp: create_native_surface_session_def Let_def split: sum.splits)
      qed
    qed
  qed
qed

lemma native_entered_run:
  assumes "native_reserve (others 0 R) = (Inr (), R1)" and "T t = Idle" and others: "\<And>n R. (bystander P)\<^sup>*\<^sup>* R (others n R)"
    and "na_uuid A \<notin> set (entered (others 1 R1))" and "na_uuid A \<notin> set (frame_sources (others 1 R1))"
    and "na_uuid A \<notin> set (first_frames (others 1 R1))"
  shows "(native_system_step P)\<^sup>*\<^sup>* (R, T)
    (native_entered A src track owner surface (others 1 R1), T(t := Entered (na_uuid A)))"
proof -
  have "(native_system_step P)\<^sup>*\<^sup>* (R, T) (R1, T(t := Reserved))" using reserve_after [where others = others and T = T and t = t, OF assms(1-3)] by simp
  moreover have "(native_system_step P)\<^sup>*\<^sup>* (R1, T(t := Reserved))
      (native_entered A src track owner surface (others 1 R1), (T(t := Reserved))(t := Entered (na_uuid A)))"
    by (rule step_after [OF others], rule native_system_step.enter) (use assms(4-6) in simp_all)
  ultimately show ?thesis by simp
qed

text \<open>
  C27: A whole native creation is a run of its locked sections.  With other tasks that use the table by its
  operations in between, it takes the table from one state between creations to another: whatever fails
  and wherever the request is dropped, the creation ends idle, with its reservation given back.
\<close>

theorem native_creation_is_a_run:
  assumes "create_native_surface_session P now others A surface owner R = (r, R')" and "T t = Idle"
    and others: "\<And>n R. (bystander P)\<^sup>*\<^sup>* R (others n R)"
    and fresh: "\<And>R1. R1 = others 1 (snd (native_reserve (others 0 R))) \<Longrightarrow>
      na_uuid A \<notin> set (entered R1) \<union> set (frame_sources R1) \<union> set (first_frames R1)"
  shows "(native_system_step P)\<^sup>*\<^sup>* (R, T) (R', T)"
proof -
  have idle: "T(t := Idle) = T" using assms(2) by (auto simp: fun_eq_iff)
  from assms(1) show ?thesis
  proof (cases rule: create_native_cases)
    case (refused e)
    with reserve_after [where others = others and T = T and t = t, OF refused(1) assms(2) others] idle show ?thesis by simp
  next
    case (unregistered R1)
    have "(native_system_step P)\<^sup>*\<^sup>* (R, T) (R1, T(t := Reserved))" using reserve_after [where others = others and T = T and t = t, OF unregistered(1) assms(2) others] by simp
    moreover have "native_system_step P (R1, T(t := Reserved)) (R1, (T(t := Reserved))(t := Dropping None))"
      by (rule native_system_step.unregistered) simp
    moreover have "(native_system_step P)\<^sup>*\<^sup>* (R1, T(t := Dropping None)) (R', (T(t := Dropping None))(t := Idle))"
      unfolding unregistered(2) by (rule release_run [OF others]) simp
    ultimately show ?thesis by (simp add: idle)
  next
    case (given_up R1 src track x R2)
    have "(native_system_step P)\<^sup>*\<^sup>* (R, T) (native_entered A src track owner surface (others 1 R1), T(t := Entered (na_uuid A)))"
      by (rule native_entered_run [where others = others and T = T and t = t, OF given_up(1) assms(2) others]) (use fresh given_up(1) in auto)
    moreover have "(native_system_step P)\<^sup>*\<^sup>*
        (native_entered A src track owner surface (others 1 R1), T(t := Entered (na_uuid A)))
        (R2, (T(t := Entered (na_uuid A)))(t := ended_phase (na_uuid A) x))"
      by (rule native_body_run [OF given_up(2) _ others]) simp
    moreover have "(native_system_step P)\<^sup>*\<^sup>* (R2, T(t := Dropping (Some (na_uuid A)))) (R', (T(t := Dropping (Some (na_uuid A))))(t := Idle))"
      unfolding given_up(4) by (rule release_run [OF others]) simp
    ultimately show ?thesis using given_up(3) by (simp add: idle)
  next
    case (created R1 src track)
    have "(native_system_step P)\<^sup>*\<^sup>* (R, T) (native_entered A src track owner surface (others 1 R1), T(t := Entered (na_uuid A)))"
      by (rule native_entered_run [where others = others and T = T and t = t, OF created(1) assms(2) others]) (use fresh created(1) in auto)
    moreover have "(native_system_step P)\<^sup>*\<^sup>*
        (native_entered A src track owner surface (others 1 R1), T(t := Entered (na_uuid A)))
        (R', (T(t := Entered (na_uuid A)))(t := ended_phase (na_uuid A) (Returned (Inr ()))))"
      by (rule native_body_run [OF created(2) _ others]) simp
    ultimately show ?thesis by (simp add: idle)
  qed
qed

lemma native_body_committed:
  assumes "native_body P now others A R = (Returned (Inr ()), R')"
  obtains control frame S where "native_commit (na_uuid A) control frame S = (Inr (), R')"
  using assms
  by (auto simp: native_body_def native_await_def Let_def split: prod.splits sum.splits option.splits if_splits)

lemma native_commit_Inr:
  assumes "native_commit i control frame R = (Inr (), R')"
  shows "\<exists>s. map_of (sessions R') i = Some s \<and> cs_lifecycle s = LifeReady \<and> cs_output_control s = control"
    and "\<exists>h. map_of (native_holds R') i = Some h \<and> hold_server h" and "\<not> native_session_starting R'"
  using assms by (auto simp: native_commit_def Let_def split: option.splits if_splits)

text \<open>
  A native creation that succeeds tells the truth, under any interference: the session is listed,
  ready, captures the requested surface, belongs to the requesting agent, its hold is the only one and
  has its attach server, the answer carries the token of that hold's server, and the reservation is free.
\<close>

theorem created_native_session_is_ready:
  assumes "create_native_surface_session P now others A surface owner R = (Returned (Inr resp), R')"
    and "(native_system_step P)\<^sup>*\<^sup>* (native_start socket) (R, T)" and "T t = Idle"
    and others: "\<And>n R. (bystander P)\<^sup>*\<^sup>* R (others n R)"
    and fresh: "\<And>R1. R1 = others 1 (snd (native_reserve (others 0 R))) \<Longrightarrow>
      na_uuid A \<notin> set (entered R1) \<union> set (frame_sources R1) \<union> set (first_frames R1)"
  shows "cr_session_id resp = na_uuid A \<and> cr_native resp = Some (native_attach_info (na_token_uuid A)) \<and>
    (\<exists>s. map_of (sessions R') (na_uuid A) = Some s \<and> cs_lifecycle s = LifeReady \<and> cs_owner s = Some owner \<and>
       cs_surface s = Some surface \<and> cs_cpu s = None) \<and>
    (\<exists>h. native_holds R' = [(na_uuid A, h)] \<and> hold_server h) \<and> \<not> native_session_starting R'"
  using assms(1)
proof (cases rule: create_native_cases)
  case (created R1 src track)
  let ?i = "na_uuid A" and ?E = "native_entered A src track owner surface (others 1 R1)"
  let ?T = "T(t := Entered (na_uuid A))"
  have to_E: "(native_system_step P)\<^sup>*\<^sup>* (R, T) (?E, ?T)"
    by (rule native_entered_run [where others = others and T = T and t = t, OF created(1) assms(3) others])
      (use fresh created(1) in auto)
  have ok_E: "native_system_ok (?E, ?T)"
    using native_system_ok_run [OF rtranclp_trans [OF assms(2) to_E] native_system_ok_start] by blast
  have "(native_system_step P)\<^sup>*\<^sup>* (?E, ?T) (R', ?T(t := ended_phase ?i (Returned (Inr ()))))"
    by (rule native_body_run [OF created(2) _ others]) simp
  from native_system_ok_run [OF this ok_E] have run: "(capture_step P)\<^sup>*\<^sup>* ?E R'"
    and single: "length (native_holds R') \<le> 1" by (auto simp: native_system_ok_def reservation_ok_def)
  obtain control frame S where commit: "native_commit ?i control frame S = (Inr (), R')"
    by (rule native_body_committed [OF created(2)])
  note committed = native_commit_Inr [OF commit]
  from committed(1) obtain s where s: "map_of (sessions R') ?i = Some s" "cs_lifecycle s = LifeReady" by blast
  have "table_ok ?E" using ok_E by (simp add: native_system_ok_def)
  from session_history [OF run this, of ?i] s(1) have "session_moves (cpu_of P) (native_starting_session src track owner surface) s"
    by auto
  moreover from committed(2) single obtain h where "native_holds R' = [(?i, h)]" "hold_server h"
    by (cases "native_holds R'") (auto split: if_splits)
  ultimately show ?thesis using s committed(3) created(3)
    by (simp add: session_moves_def native_starting_session_def ready_response_def)
qed simp_all

section \<open>An example\<close>

text \<open>A capture whose first frame arrives while the creation waits.\<close>

definition example_native_answers :: "(PortholeError, unit option) result option \<Rightarrow> unit native_answers" where
  "example_native_answers start =
     \<lparr>na_uuid = ''n1'', na_source = Inr 5, na_track = Inr 6, na_token_uuid = ''77'', na_worker = Inr (), na_start = start,
      na_dropped = False, na_server = Inr ()\<rparr>"

definition example_native_others :: "nat \<Rightarrow> (nat, nat, unit) CaptureRegistry \<Rightarrow> (nat, nat, unit) CaptureRegistry" where
  "example_native_others n R =
     (if n = 4 then
        case map_of (native_holds R) ''n1'' of
          None \<Rightarrow> R
        | Some h \<Rightarrow>
            (case publish_native_frame example_native_arena 10 \<lparr>nf_width = 16, nf_height = 9, nf_surface = 0\<rparr> (hold_publisher h) of
               None \<Rightarrow> R
             | Some p \<Rightarrow> change_hold ''n1'' (\<lambda>h. h\<lparr>hold_publisher := p\<rparr>) R)
      else R)"

lemma example_native_others_run: "(bystander example_platform)\<^sup>*\<^sup>* R (example_native_others n R)"
proof (cases "example_native_others n R = R")
  case False
  then obtain h p where "map_of (native_holds R) ''n1'' = Some h"
    "publish_native_frame example_native_arena 10 \<lparr>nf_width = 16, nf_height = 9, nf_surface = 0\<rparr> (hold_publisher h) = Some p"
    "example_native_others n R = change_hold ''n1'' (\<lambda>h. h\<lparr>hold_publisher := p\<rparr>) R"
    by (auto simp: example_native_others_def split: if_splits option.splits)
  moreover have "native_of example_platform = example_native_arena" by (simp add: example_platform_def)
  ultimately show ?thesis using bystanders(11) [of R "''n1''" h example_platform p] native_step.frame by fastforce
qed simp

definition example_native_creation ::
    "(PortholeError, unit option) result option \<Rightarrow> CreateCaptureSessionResponse outcome \<times> (nat, nat, unit) CaptureRegistry" where
  "example_native_creation start =
     create_native_surface_session example_platform 30 example_native_others (example_native_answers start) ''win'' ''agent_c0''
       (CaptureRegistry_new (Some ''/fd''))"

lemma example_live_ready: "pub_ready example_native_live = Some (Inr (16, 9))" "nr_closing (pub_state example_native_live) = None"
  unfolding example_native_live_def
  by (simp_all add: example_native_arena_def NativePublisher_new_def NativeRuntime_default_def publish_native_frame_def
      frame_params_def native_ensure_def NativeRuntime_maintain_def cleanup_report_def native_advance_def
      native_resize_def native_hand_over_def finish_start_def saturating_succ_def)

lemmas native_creation_eval = create_native_surface_session_def native_reserve_def native_body_def native_await_def
  native_commit_def attach_stream_def add_hold_def NativeSessionHold_new_def native_ready_def change_hold_def
  change_session_def enter_session_def insert_session_def native_starting_session_def example_native_answers_def
  example_native_others_def CaptureRegistry_new_def

lemma example_native_created:
  "fst (example_native_creation (Some (Inr None))) = Returned (Inr (ready_response ''n1'' 5 6 [] (Some (native_attach_info ''77''))))"
proof -
  have "nr_closing (pub_state NativePublisher_new) = None" by (simp add: NativePublisher_new_def NativeRuntime_default_def)
  then show ?thesis unfolding example_native_creation_def
    by (simp add: native_creation_eval example_native_frame(1) example_live_ready Let_def)
qed

lemma example_native_fresh:
  assumes "S = example_native_others 1 (snd (native_reserve (example_native_others 0 (CaptureRegistry_new (Some ''/fd'')))))"
  shows "na_uuid (example_native_answers start) \<notin> set (entered S) \<union> set (frame_sources S) \<union> set (first_frames S)"
  unfolding assms by (simp add: native_creation_eval)

lemma example_native_uuid: "na_uuid (example_native_answers start) = ''n1''"
  by (simp add: example_native_answers_def)

theorem created_native_session_is_ready_witness:
  "\<exists>s. map_of (sessions (snd (example_native_creation (Some (Inr None))))) ''n1'' = Some s \<and>
     cs_lifecycle s = LifeReady \<and> cs_owner s = Some ''agent_c0''"
proof -
  let ?A = "example_native_answers (Some (Inr None))" and ?C = "example_native_creation (Some (Inr None))"
  let ?R0 = "CaptureRegistry_new (Some ''/fd'') :: (nat, nat, unit) CaptureRegistry"
  have run: "create_native_surface_session example_platform 30 example_native_others ?A ''win'' ''agent_c0'' ?R0 =
      (Returned (Inr (ready_response ''n1'' 5 6 [] (Some (native_attach_info ''77'')))), snd ?C)"
    using example_native_created unfolding example_native_creation_def by (metis prod.collapse)
  have start: "(native_system_step example_platform)\<^sup>*\<^sup>* (native_start (Some ''/fd'')) (?R0, \<lambda>_. Idle)"
    by (simp add: native_start_def)
  have "\<exists>s. map_of (sessions (snd ?C)) (na_uuid ?A) = Some s \<and> cs_lifecycle s = LifeReady \<and> cs_owner s = Some ''agent_c0'' \<and>
      cs_surface s = Some ''win'' \<and> cs_cpu s = None"
    using created_native_session_is_ready [OF run start refl example_native_others_run example_native_fresh] by blast
  then show ?thesis unfolding example_native_uuid by blast
qed

theorem native_creation_is_a_run_witness:
  "(native_system_step example_platform)\<^sup>*\<^sup>* (native_start (Some ''/fd'')) (snd (example_native_creation None), \<lambda>_. Idle)"
proof -
  have "create_native_surface_session example_platform 30 example_native_others (example_native_answers None) ''win'' ''agent_c0''
      (CaptureRegistry_new (Some ''/fd'')) = (fst (example_native_creation None), snd (example_native_creation None))"
    by (simp add: example_native_creation_def)
  from native_creation_is_a_run [where t = 0 and T = "\<lambda>_. Idle", OF this refl example_native_others_run example_native_fresh]
  show ?thesis by (simp add: native_start_def)
qed

text \<open>A creation that has installed its hold, and one that gives up then.\<close>

definition example_native_held :: "(nat, nat, unit) CaptureRegistry" where
  "example_native_held =
     snd (add_hold ''n1'' (Inr ()) (native_attach_info ''77'')
       (enter_session ''n1'' (native_starting_session 5 6 ''agent_c0'' ''win'')
         (snd (native_reserve (CaptureRegistry_new (Some ''/fd''))))))"

lemma example_native_held_run:
  "(native_system_step example_platform)\<^sup>*\<^sup>* (native_start (Some ''/fd'')) (example_native_held, (\<lambda>_. Idle)(0 := Held ''n1''))"
proof -
  let ?R0 = "CaptureRegistry_new (Some ''/fd'') :: (nat, nat, unit) CaptureRegistry"
  let ?R1 = "snd (native_reserve ?R0)" and ?s = "native_starting_session 5 6 ''agent_c0'' ''win'' :: (nat, unit) CaptureSession"
  let ?R2 = "enter_session ''n1'' ?s ?R1"
  have "native_reserve ?R0 = (Inr (), ?R1)" by (simp add: native_reserve_def CaptureRegistry_new_def)
  then have 1: "native_system_step example_platform (?R0, \<lambda>_. Idle) (?R1, (\<lambda>_. Idle)(0 := Reserved))"
    by (intro native_system_step.reserve) simp_all
  have "entered ?R1 = [] \<and> frame_sources ?R1 = [] \<and> first_frames ?R1 = []"
    by (simp add: native_reserve_def CaptureRegistry_new_def)
  then have 2: "native_system_step example_platform (?R1, (\<lambda>_. Idle)(0 := Reserved))
      (?R2, ((\<lambda>_. Idle)(0 := Reserved))(0 := Entered ''n1''))"
    by (intro native_system_step.enter) simp_all
  have "add_hold ''n1'' (Inr ()) (native_attach_info ''77'') ?R2 = (Inr (), example_native_held)"
    by (simp add: example_native_held_def add_hold_def NativeSessionHold_new_def)
  from native_system_step.hold [of "(\<lambda>_. Idle)(0 := Entered ''n1'')" 0, OF _ this]
  have 3: "native_system_step example_platform (?R2, (\<lambda>_. Idle)(0 := Entered ''n1''))
      (example_native_held, (\<lambda>_. Idle)(0 := Held ''n1''))" by simp
  from 1 2 3 show ?thesis unfolding native_start_def
    by (simp add: converse_rtranclp_into_rtranclp)
qed

theorem one_native_session_witness:
  "length (native_holds example_native_held) \<le> 1 \<and> fst (attach_stream ''n1'' example_native_held) \<noteq>
     Inl (CapturePanic ''startup hold remains reserved'')"
proof -
  note facts = one_native_session [OF example_native_held_run]
  have "((\<lambda>_. Idle)(0 := Held ''n1'')) (0 :: nat) = Held ''n1''" by simp
  with facts show ?thesis by blast
qed

theorem abandoned_native_start_frees_name_witness:
  "\<not> native_session_starting (release_flag (release_session example_platform 40 (Some ''n1'') example_native_held))"
proof -
  let ?T = "((\<lambda>_. Idle)(0 := Held ''n1''))(0 := Dropping (Some ''n1'')) :: nat \<Rightarrow> native_phase"
  have "native_system_step example_platform (example_native_held, (\<lambda>_. Idle)(0 := Held ''n1'')) (example_native_held, ?T)"
    by (rule native_system_step.dropped) simp
  with example_native_held_run have run: "(native_system_step example_platform)\<^sup>*\<^sup>* (native_start (Some ''/fd'')) (example_native_held, ?T)"
    by (rule rtranclp.rtrancl_into_rtrancl)
  have "?T 0 = Dropping (Some ''n1'')" by simp
  from abandoned_native_start_frees_name [OF run this] show ?thesis by blast
qed

end
