(* ===== verification/Media_Routes.thy ===== *)
theory Media_Routes
  imports Route_Runs Native_Startup
begin

text \<open>
  The handlers of capture sessions and publications (\<open>portholed/src/routes/capture_sessions.rs\<close> and
  \<open>routes/publications.rs\<close>), which put the guard, the table of capture sessions and the table of
  exports together.  The daemon is the one built for macOS.

  The handlers are routes over a world that holds the two tables.  Before the \<open>n\<close>-th operation other
  tasks may change the tables (\<open>mh_drift\<close>), as they may change the stores.  A request that is dropped
  while a session is being created has no answer; like a panic it ends in \<open>Panicked\<close>.
\<close>

section \<open>The world\<close>

record ('p, 'q, 'o, 'h) media =
  med_captures :: "('p, 'q, 'o) CaptureRegistry"
  med_exports :: "'h ExportRegistry"
  med_audits :: "(AuthorizedRouteExecution \<times> string) list" \<comment> \<open>spawned, not yet written\<close>

text \<open>
  The surroundings: the guard's, the platform, what the adapter, the host and the calls of blocking
  tasks answer at the \<open>n\<close>-th operation.
\<close>

record ('s, 'p, 'q, 'o, 'h, 'd) media_host =
  mh_env :: surroundings
  mh_platform :: "('s, 'p, 'q) platform"
  mh_drift :: "nat \<Rightarrow> ('p, 'q, 'o, 'h) media \<Rightarrow> ('p, 'q, 'o, 'h) media"
  mh_now :: "nat \<Rightarrow> nat"
  mh_others :: "nat \<Rightarrow> nat \<Rightarrow> ('p, 'q, 'o) CaptureRegistry \<Rightarrow> ('p, 'q, 'o) CaptureRegistry"
  mh_startup :: "nat \<Rightarrow> ('p, 'q, 'o) startup_answers"
  mh_frames :: "nat \<Rightarrow> 'o frame_answers"
  mh_native :: "nat \<Rightarrow> 'o native_answers"
  mh_descriptor :: FrameDescriptor
  mh_output :: "'o \<Rightarrow> u32 \<Rightarrow> u32 \<Rightarrow> (PortholeError, unit) result"
  mh_answers :: "nat \<Rightarrow> ('h, 'd) answers"
  mh_statuses :: "nat \<Rightarrow> string \<Rightarrow> 'd HalfStatus"
  mh_decision :: "'d \<Rightarrow> string"
  mh_join :: "nat \<Rightarrow> (string, unit) result"
  mh_render :: "message \<Rightarrow> string" \<comment> \<open>the text of a formatted message\<close>

type_synonym ('p, 'q, 'o, 'h, 'a) media_route = "(('p, 'q, 'o, 'h) media, 'a) route"

definition media_at :: "('s, 'p, 'q, 'o, 'h, 'd) media_host \<Rightarrow> ('p, 'q, 'o, 'h) media daemon \<Rightarrow> ('p, 'q, 'o, 'h) media" where
  "media_at X s = mh_drift X (ops_done s) (daemon_world s)"

definition media_op ::
    "('s, 'p, 'q, 'o, 'h, 'd) media_host \<Rightarrow>
     (nat \<Rightarrow> ('p, 'q, 'o, 'h) media \<Rightarrow> (ApiError fault, 'a) result \<times> ('p, 'q, 'o, 'h) media) \<Rightarrow>
     ('p, 'q, 'o, 'h, 'a) media_route" where
  "media_op X f s =
     (case f (ops_done s) (media_at X s) of (r, M) \<Rightarrow> (r, s\<lparr>ops_done := Suc (ops_done s), daemon_world := M\<rparr>))"

definition on_captures ::
    "(('p, 'q, 'o) CaptureRegistry \<Rightarrow> 'r \<times> ('p, 'q, 'o) CaptureRegistry) \<Rightarrow> ('p, 'q, 'o, 'h) media \<Rightarrow>
     'r \<times> ('p, 'q, 'o, 'h) media" where
  "on_captures f M = (case f (med_captures M) of (r, R) \<Rightarrow> (r, M\<lparr>med_captures := R\<rparr>))"

definition on_exports ::
    "('h ExportRegistry \<Rightarrow> 'r \<times> 'h ExportRegistry) \<Rightarrow> ('p, 'q, 'o, 'h) media \<Rightarrow> 'r \<times> ('p, 'q, 'o, 'h) media" where
  "on_exports f M = (case f (med_exports M) of (r, R) \<Rightarrow> (r, M\<lparr>med_exports := R\<rparr>))"

section \<open>Errors\<close>

fun capture_error_code :: "CaptureRegistryError \<Rightarrow> ErrorCode" where
  "capture_error_code (UnknownSession _) = SurfaceNotFound"
| "capture_error_code (CapturePorthole e) = err_code e"
| "capture_error_code CapturePoisoned = InternalError"
| "capture_error_code (CaptureIo _) = InternalError"
| "capture_error_code (CaptureFailed _ _) = InternalError"
| "capture_error_code (NotReady _ _) = InvalidArgument"
| "capture_error_code (CaptureClosed _ _) = InvalidArgument"
| "capture_error_code FdSocketDisabled = InvalidArgument"
| "capture_error_code (CaptureError _) = InvalidArgument"
| "capture_error_code (CapturePanic _) = InternalError"

definition capture_error_to_api :: "CaptureRegistryError \<Rightarrow> ApiError fault" where
  "capture_error_to_api e =
     (case e of
        CapturePorthole err \<Rightarrow> api_fault err
      | CapturePanic _ \<Rightarrow> Panicked
      | _ \<Rightarrow> api_fault (PortholeError_new (capture_error_code e) (CaptureRegistryError_display e)))"

definition export_error_to_api :: "ExportError \<Rightarrow> ApiError fault" where
  "export_error_to_api e =
     api_fault (PortholeError_new
       (case e of
          UnknownExport _ \<Rightarrow> SurfaceNotFound
        | UnknownRepublication _ \<Rightarrow> SurfaceNotFound
        | NotOwner \<Rightarrow> AgentPermissionDenied
        | BridgeMissing \<Rightarrow> AdapterUnsupported
        | ExportUnsupported \<Rightarrow> AdapterUnsupported
        | InputUnavailable \<Rightarrow> AdapterUnsupported
        | _ \<Rightarrow> InternalError)
       (text_message (ExportError_display e)))"

definition capture_query ::
    "('s, 'p, 'q, 'o, 'h, 'd) media_host \<Rightarrow> (('p, 'q, 'o) CaptureRegistry \<Rightarrow> (CaptureRegistryError, 'a) result) \<Rightarrow>
     ('p, 'q, 'o, 'h, 'a) media_route" where
  "capture_query X f = media_op X (\<lambda>n M. (map_err capture_error_to_api (f (med_captures M)), M))"

text \<open>An operation on the exports in a blocking task, which may fail to be joined.\<close>

definition blocking_export ::
    "('s, 'p, 'q, 'o, 'h, 'd) media_host \<Rightarrow> string \<Rightarrow>
     (('h, 'd) answers \<Rightarrow> 'h ExportRegistry \<Rightarrow> (ExportError, 'a) result \<times> 'h ExportRegistry) \<Rightarrow>
     ('p, 'q, 'o, 'h, (ExportError, 'a) result) media_route" where
  "blocking_export X what f = media_op X (\<lambda>n M.
     case on_exports (f (mh_answers X n)) M of (r, M) \<Rightarrow>
       (case mh_join X n of
          Inl e \<Rightarrow> (Inl (api_fault (PortholeError_new InternalError (Msg (what @ '': {e}'') [FStr e]))), M)
        | Inr _ \<Rightarrow> (Inr r, M)))"

section \<open>Capture sessions\<close>

datatype CaptureBorderPolicy = BorderShow | PreferHidden | RequireHidden

datatype CaptureOutputPolicy = OutputSource | OutputFit u32 u32 | OutputFixed u32 u32




record CaptureOutputRequest =
  out_width :: u32
  out_height :: u32

record CaptureOutputResponse =
  or_session_id :: string
  or_requested :: CaptureOutputRequest





definition run_spawned_audit :: "('s, 'p, 'q, 'o, 'h, 'd) media_host \<Rightarrow> ('p, 'q, 'o, 'h, unit) media_route" where
  "run_spawned_audit X s =
     (case med_audits (daemon_world s) of
        [] \<Rightarrow> (Inr (), s)
      | (x, route) # rest \<Rightarrow>
          run_task (complete_route_execution (mh_env X) x route) (s\<lparr>daemon_world := (daemon_world s)\<lparr>med_audits := rest\<rparr>\<rparr>))"

definition post_synthetic :: "('s, 'p, 'q, 'o, 'h, 'd) media_host \<Rightarrow> ('p, 'q, 'o, 'h, CreateCaptureSessionResponse) media_route" where
  "post_synthetic X = media_op X (\<lambda>n M.
     case on_captures (create_synthetic_session (mh_platform X) (mh_now X n) (mh_descriptor X) (mh_frames X n)) M of
       (r, M) \<Rightarrow> (map_err capture_error_to_api r, M))"


definition get_capture_session ::
    "('s, 'p, 'q, 'o, 'h, 'd) media_host \<Rightarrow> string \<Rightarrow> ('p, 'q, 'o, 'h, CaptureSessionResponse) media_route" where
  "get_capture_session X i = capture_query X (get_session (codes_of (mh_platform X)) i)"

definition post_output ::
    "('s, 'p, 'q, 'o, 'h, 'd) media_host \<Rightarrow> string option option \<Rightarrow> string \<Rightarrow> CaptureOutputRequest \<Rightarrow>
     ('p, 'q, 'o, 'h, CaptureOutputResponse) media_route" where
  "post_output X headers i request =
     rt_bind (run_task (authenticated_agent_id (mh_env X) headers)) (\<lambda>agent.
     rt_bind (capture_query X (set_output_size (mh_output X) i agent (out_width request) (out_height request))) (\<lambda>_.
     rt_return \<lparr>or_session_id = i, or_requested = request\<rparr>))"

definition delete_session ::
    "('s, 'p, 'q, 'o, 'h, 'd) media_host \<Rightarrow> string \<Rightarrow> ('p, 'q, 'o, 'h, unit) media_route" where
  "delete_session X i = media_op X (\<lambda>n M.
     case on_captures (close_session (mh_platform X) (mh_now X n) i) M of (r, M) \<Rightarrow> (map_err capture_error_to_api r, M))"

section \<open>Publications\<close>

definition PUBLICATION_KIND_CAPTURE :: string where
  "PUBLICATION_KIND_CAPTURE = ''capture''"

definition capture_publication :: "(message \<Rightarrow> string) \<Rightarrow> CaptureSessionResponse \<times> string \<Rightarrow> PublicationResponse" where
  "capture_publication render entry =
     (let (session, source) = entry in
      \<lparr>pub_publication_id = rs_session_id session, pub_kind = PUBLICATION_KIND_CAPTURE,
       pub_identities = \<lparr>id_source = source, id_publication = rs_session_id session\<rparr>,
       pub_status = rs_status session, pub_status_message = map_option render (rs_status_message session),
       pub_width = rs_width session, pub_height = rs_height session, pub_native = rs_native session,
       pub_cpu_socket = None, pub_input_socket = None\<rparr>)"

text \<open>A session and what it captures are looked up under a lock each.\<close>

definition session_source ::
    "('s, 'p, 'q, 'o, 'h, 'd) media_host \<Rightarrow> string \<Rightarrow> ('p, 'q, 'o, 'h, CaptureSessionResponse \<times> string) media_route" where
  "session_source X i =
     rt_bind (media_op X (\<lambda>n M. (Inr (med_captures M), M))) (\<lambda>first.
     capture_query X (session_with_source (codes_of (mh_platform X)) i first))"

text \<open>The state of the tables after \<open>k\<close> further lookups, between which others go on.\<close>

definition later_media ::
    "('s, 'p, 'q, 'o, 'h, 'd) media_host \<Rightarrow> nat \<Rightarrow> nat \<Rightarrow> ('p, 'q, 'o, 'h) media \<Rightarrow> ('p, 'q, 'o, 'h) media" where
  "later_media X n k M = fold (\<lambda>j. mh_drift X (n + j)) [1..<Suc k] M"

definition list_captures ::
    "('s, 'p, 'q, 'o, 'h, 'd) media_host \<Rightarrow> ('p, 'q, 'o, 'h, (CaptureSessionResponse \<times> string) list) media_route" where
  "list_captures X = (\<lambda>s.
     let n = ops_done s; M = media_at X s; ids = map fst (sessions (med_captures M));
         position = (\<lambda>i. length (takeWhile (\<lambda>j. j \<noteq> i) ids));
         tables = (\<lambda>i. (med_captures (later_media X n (2 * position i + 1) M), med_captures (later_media X n (2 * position i + 2) M)))
     in (map_err capture_error_to_api (list_sessions (codes_of (mh_platform X)) tables (med_captures M)),
         s\<lparr>ops_done := n + 1 + 2 * length ids, daemon_world := later_media X n (2 * length ids) M\<rparr>))"

definition list_publications ::
    "('s, 'p, 'q, 'o, 'h, 'd) media_host \<Rightarrow> string option option \<Rightarrow> ('p, 'q, 'o, 'h, PublicationResponse list) media_route" where
  "list_publications X headers =
     rt_bind (run_task (authenticated_agent_id (mh_env X) headers)) (\<lambda>_.
     rt_bind (list_captures X) (\<lambda>captures.
     rt_bind (media_op X (\<lambda>n M. (Inr (list_republications (mh_decision X) (mh_statuses X n) (med_exports M)), M))) (\<lambda>republished.
     rt_return (map (capture_publication (mh_render X)) captures @ republished))))"

definition get_publication ::
    "('s, 'p, 'q, 'o, 'h, 'd) media_host \<Rightarrow> string option option \<Rightarrow> string \<Rightarrow> ('p, 'q, 'o, 'h, PublicationResponse) media_route" where
  "get_publication X headers i =
     rt_bind (run_task (authenticated_agent_id (mh_env X) headers)) (\<lambda>_.
     rt_bind (media_op X (\<lambda>n M. (Inr (republication (mh_decision X) (mh_answers X n) i (med_exports M)), M))) (\<lambda>found.
     case found of
       Some publication \<Rightarrow> rt_return publication
     | None \<Rightarrow> rt_map (capture_publication (mh_render X)) (session_source X i)))"





definition get_export ::
    "('s, 'p, 'q, 'o, 'h, 'd) media_host \<Rightarrow> string option option \<Rightarrow> string \<Rightarrow> string \<Rightarrow> ('p, 'q, 'o, 'h, 'd ExportResponse) media_route" where
  "get_export X headers i export_id =
     rt_bind (run_task (authenticated_agent_id (mh_env X) headers)) (\<lambda>agent.
     media_op X (\<lambda>n M. (map_err export_error_to_api (export_status (mh_answers X n) i export_id agent (med_exports M)), M)))"

definition delete_export ::
    "('s, 'p, 'q, 'o, 'h, 'd) media_host \<Rightarrow> string option option \<Rightarrow> string \<Rightarrow> string \<Rightarrow> ('p, 'q, 'o, 'h, 'd ExportResponse) media_route" where
  "delete_export X headers i export_id =
     rt_bind (run_task (authenticated_agent_id (mh_env X) headers)) (\<lambda>agent.
     rt_bind (blocking_export X ''stop export'' (\<lambda>ans. close_export ans i export_id agent)) (\<lambda>r.
     rt_result (map_err export_error_to_api r)))"

definition post_republish ::
    "('s, 'p, 'q, 'o, 'h, 'd) media_host \<Rightarrow> string option option \<Rightarrow> 'c RepublishRequest \<Rightarrow>
     ('p, 'q, 'o, 'h, PublicationResponse \<times> 'd option) media_route" where
  "post_republish X headers request =
     rt_bind (run_task (authenticated_agent_id (mh_env X) headers)) (\<lambda>agent.
     rt_bind (blocking_export X ''republish task'' (\<lambda>ans. republish (mh_decision X) ans agent request)) (\<lambda>r.
     rt_result (map_err export_error_to_api r)))"

definition delete_republication ::
    "('s, 'p, 'q, 'o, 'h, 'd) media_host \<Rightarrow> string option option \<Rightarrow> string \<Rightarrow> ('p, 'q, 'o, 'h, unit) media_route" where
  "delete_republication X headers i =
     rt_bind (run_task (authenticated_agent_id (mh_env X) headers)) (\<lambda>agent.
     rt_bind (blocking_export X ''stop republication'' (\<lambda>ans. close_republication ans i agent)) (\<lambda>r.
     rt_result (map_err export_error_to_api r)))"

section \<open>What the handlers admit\<close>



lemma media_op_Inr [rt_simps]:
  "media_op X f s = (Inr x, t) \<longleftrightarrow>
   (\<exists>M. f (ops_done s) (media_at X s) = (Inr x, M) \<and> t = s\<lparr>ops_done := Suc (ops_done s), daemon_world := M\<rparr>)"
  by (auto simp: media_op_def split: prod.splits)









section \<open>An example\<close>










end
