(* ===== verification/Spec2Isabelle.thy ===== *)
theory Spec2Isabelle
  imports Route_Runs Operator_Inbox Bridge_Relay Bridge_Clock Input_Executor Capture_Access Media_Routes
begin

text \<open>
  \<^bold>\<open>Verification of porthole.\<close>

  Porthole is a daemon (\<open>portholed\<close>) that lets programs, called agents, observe and drive the windows
  of a desktop.  An agent sends HTTP requests with a bearer token; a guard asks a persistent policy
  store whether the agent may perform the class of action (\<open>observe\<close>, \<open>drive\<close>, \<open>record\<close>, \<open>manage\<close>) on
  the surface, and files a permission request for the operator when the store has no answer.  What
  is admitted runs through a pipeline of \<open>porthole-core\<close>, which resolves the handle of the surface
  and calls the platform adapter.  The operator approves, denies and revokes over the same API.  A
  separate bridge carries frames and input between machines.

  \<^bold>\<open>Conventions.\<close>  Structs are records, enums datatypes, \<open>u8\<close> to \<open>u64\<close> words of that width;
  \<open>usize\<close>, durations and instants are natural numbers, \<open>i64\<close> and \<open>i128\<close> integers with the bounds of
  their conversions written out.  \<open>f64\<close> is an exact model of binary64 (\<open>F64\<close>: finite values as
  rationals, infinities, NaN, rounding to nearest even).  Results are sums with the error on the left;
  a panic is the error \<open>Panicked\<close>.  Formatted messages keep their format string and arguments.  A
  string is a list of characters and its length counts characters.  Third-party code (serde, SQLite
  faults, SHA-256, base64, regex, UUIDs, clocks) is an argument of the definitions that use it.

  \<^bold>\<open>Concurrency.\<close>  A handler is a sequence of atomic operations on the daemon's state; before each of
  them the parameter \<open>interleave\<close> applies whatever other tasks did.  The properties ask of it only
  that the others use the stores by their operations (\<open>store_interference\<close>,
  \<open>daemon_interference\<close>).  An adapter call stands for everything that happens until its result is
  used, including what other tasks do to the handles meanwhile (\<open>adapter_contract\<close>).

  \<^bold>\<open>The theories\<close>, in the order of their imports:

  \<^item> \<open>Prelude\<close>, \<open>F64\<close>, \<open>F64_Rounding\<close>: results, row updates, strings, doubles and their rounding.
  \<^item> \<open>Errors\<close>, \<open>Surfaces\<close>: \<open>porthole-core\<close> \<open>error.rs\<close>, \<open>surface.rs\<close>, \<open>handle.rs\<close>.  The handle store is
    an association list; the locale of handle stores gives that a dead handle stays dead and that
    no window has two live handles, and is interpreted on \<open>track_or_get\<close> and \<open>mark_dead\<close>.
  \<^item> \<open>Agent_Policy\<close>, \<open>Agent_Protocol\<close>: \<open>agent_policy.rs\<close> and the wire forms of
    \<open>porthole-protocol/agent_permissions.rs\<close>: \<open>authorize\<close> allows only what an unconsumed,
    unexpired grant of that agent covers, and a matching denial wins.
  \<^item> \<open>Agent_Store\<close>, \<open>Agent_Store_Atomic\<close>, \<open>Agent_Store_Inv\<close>, \<open>Agent_Store_Safety\<close>:
    \<open>portholed/agent_store.rs\<close>.  The tables are row lists.  An operation is a closure over a connection,
    which keeps what is committed apart from what an open transaction works on, as \<open>rusqlite\<close> documents
    it; every statement and every commit may fail by the environment's fault.  \<open>Agent_Store_Atomic\<close> shows
    that each closure is one atomic change.  The step relation \<open>store_step\<close> has every operation; its runs
    keep \<open>store_wf\<close>, one-time grants are spent once, revocations and decisions are final, failed
    operations leave no trace.
  \<^item> \<open>Daemon_State\<close>, \<open>Agent_Guard\<close>, \<open>Agent_Routes\<close>: \<open>state.rs\<close>, \<open>events.rs\<close>, \<open>routes/errors.rs\<close>,
    \<open>routes/agent_guard.rs\<close>, \<open>routes/agent_permissions.rs\<close>.  The locale \<open>task_order\<close> carries any order
    on states through handlers; it is interpreted on runs of the policy store and, in \<open>Route_Runs\<close>,
    on runs of both stores.
  \<^item> \<open>Calendar\<close>, \<open>Operator_Cli\<close>, \<open>Operator_Inbox\<close>: the operator's side of the client, \<open>porthole/src/commands\<close>
    \<open>agents.rs\<close>, \<open>permission_display.rs\<close> and \<open>approvals.rs\<close>.  Printed times are calendar dates, what an agent
    can name is printed without control characters, and an approval, from the command line or from the inbox,
    grants what the operator saw: the inbox runs against its network thread as a step relation
    (\<open>review_run\<close>), and lets one decision go at a time, on a snapshot fetched after the last one.
  \<^item> \<open>Keys\<close>, \<open>Adapter\<close>, \<open>In_Memory\<close>: \<open>input.rs\<close>, \<open>key_names.rs\<close>, the CLI's \<open>key_syntax.rs\<close>, the \<open>Adapter\<close>
    trait as a record of functions, its contract as a locale, and the scripted \<open>InMemoryAdapter\<close>,
    on which the contract is interpreted.
  \<^item> \<open>Input_Pipeline\<close>, \<open>Placement\<close>, \<open>Surface_Pipelines\<close>, \<open>Pipeline_Runs\<close>: \<open>input_pipeline.rs\<close>,
    \<open>placement.rs\<close>, \<open>search.rs\<close>, \<open>attach_pipeline.rs\<close>, \<open>launch.rs\<close>, \<open>replace_pipeline.rs\<close>,
    \<open>wait_pipeline.rs\<close>.  Invalid input never reaches the adapter, closed surfaces take none, launches
    and replacements are truthful about the handles, default placements lie on the display.
  \<^item> \<open>Surface_Protocol\<close>, \<open>Surface_Routes\<close>, \<open>Route_Runs\<close>: the bodies of the surface API, the handlers
    under \<open>routes/\<close> and the route table of \<open>server.rs\<close>.  No route touches the adapter before the guard
    has admitted it, every carried-out request is audited, a revoked agent is refused by
    every route of that table, and runs of the whole daemon (agents, operator, timers) keep both stores' invariants.
  \<^item> \<open>Input_Executor\<close>, \<open>Export_Registry\<close>: \<open>portholed/input_executor.rs\<close>, which performs the events of a
    remote controller on one surface, and \<open>export_registry.rs\<close>, the table of exported and republished
    publications.  A closed surface executes nothing, frame points land in the window, what the
    entries need is there, what else is left on the host stems from a removal or a stop that failed (or is
    the directory of a launchd job, which nothing removes), and only its owner ends an export.
  \<^item> \<open>Arena\<close>, \<open>Cpu_Session\<close>, \<open>Native_Session\<close>: \<open>portholed/capture_registry/cpu_session.rs\<close> and the
    runtime of \<open>native_session.rs\<close>, which publish captured frames to an arena of the \<open>jackstay\<close> crate.
    The arena is a record of functions; the locale of retiring runtimes (an ended runtime emits
    nothing, a drained one stays drained) is interpreted on both.
  \<^item> \<open>Capture_Registry\<close>, \<open>Capture_Runs\<close>, \<open>Capture_Access\<close>, \<open>Capture_Startup\<close>:
    \<open>portholed/capture_registry.rs\<close>, the table of capture sessions.  \<open>capture_step\<close> has every operation
    that the publisher, the monitor task, the worker, viewers and requests make on it; its runs keep
    the table consistent, ended sessions stay ended, only authorized viewers attach, and a creation
    hands over a ready session or ends it.
  \<^item> \<open>Native_Startup\<close>: the creation of native sessions in \<open>native_session.rs\<close>, split into its locked
    sections.  \<open>native_system_step\<close> interleaves any number of creations with all other uses of the table:
    one is under way at a time, its hold is where it expects it, and a creation given up frees the name.
  \<^item> \<open>Media_Routes\<close>: \<open>routes/capture_sessions.rs\<close> and \<open>routes/publications.rs\<close>, as routes over the guard and
    both tables.  Nothing is recorded without permission, and only its owner exports a session, with
    remote input only if the guard admitted it.
  \<^item> \<open>Bridge_Wire\<close>, \<open>Bridge_Clock\<close>, \<open>Bridge_Relay\<close>: \<open>jackstay-bridge\<close> \<open>wire.rs\<close>, \<open>clock.rs\<close> and
    \<open>input_relay.rs\<close>: encoding and decoding are inverse, also over a stream that delivers its bytes
    in arbitrary pieces, a reader never accepts more than the maximal body, and the clock offset is
    off by at most half a round trip.  The relay is a step relation in which the threads of both
    halves interleave; each socket is given a prefix of what its partner read, and all of it once the
    relay has caught up.

  \<^bold>\<open>Termination.\<close>  All definitions are total and no fuel is used.  The only recursion that is not
  structural is the guard's retry after a lost one-time grant, which the code limits to one, and the
  exact read of a byte stream, which consumes a piece per step.

  \<^bold>\<open>Not modelled.\<close>  The platform adapters, transports and the bridge's processes call operating-system
  and codec libraries and have little logic of their own; the adapter contract states what the pipelines
  need from the former.  Of the command line client the key syntax, the operator's commands and the inbox
  are modelled; argument parsing, HTTP, recording, installation and the drawing of the terminal are not.
  The \<open>jackstay\<close> crate is not part of the repository: its arenas, the handshake with a viewer and the input
  target are arguments or left out, as are the processes and sockets of exports.  Of the native capture
  backends the one of macOS is modelled, without its XPC service; those of Linux and Windows serve frames by
  operating-system calls.  The event stream and the start of the server (sockets, platform wiring) are
  input and output.  Parsing of request bodies and the JSON control messages of the bridge belong to serde.
  Paths in launch requests follow Unix rules.
\<close>

end
